(* ===== verification/Prelude.thy ===== *)
theory Prelude
  imports Main "HOL-Library.Multiset"
begin

text \<open>
  Shared vocabulary of the development: the machine-integer operations of Rust that the modelled
  code uses, with their range behaviour written out, the two iterator combinators the code selects
  with (\<open>max_by_key\<close>, \<open>find\<close>), \<open>Duration\<close>, and the locale in which every state machine of the
  development proves its reachable-state invariants.

  Unsigned integers (\<open>u8\<close>, \<open>u16\<close>, \<open>u32\<close>, \<open>u64\<close>, \<open>usize\<close>) are \<open>nat\<close>, signed ones (\<open>i64\<close>) are
  \<open>int\<close>. Every \<open>saturating_*\<close>, \<open>checked_*\<close> and \<open>try_from\<close> of the source appears as the operation
  of the same name here; plain arithmetic on \<open>i64\<close> that the types alone do not keep in range is
  \<open>wrap_i64\<close>, the behaviour of the release build (overflow checks are off there). The target is
  32-bit ARM, so \<open>usize\<close> has 32 bits.
\<close>

section \<open>Fact collections\<close>

named_theorems range_defs \<open>the limits of the machine integer types\<close>
named_theorems inv_intros \<open>preservation of the components' invariants\<close>

section \<open>Limits\<close>

definition u8_max :: nat where "u8_max = 255"
definition u16_max :: nat where "u16_max = 65535"
definition u32_max :: nat where "u32_max = 4294967295"
definition u64_max :: nat where "u64_max = 18446744073709551615"
definition usize_max :: nat where "usize_max = 4294967295"
definition u128_max :: nat where "u128_max = 340282366920938463463374607431768211455"
definition i64_max :: int where "i64_max = 9223372036854775807"
definition i64_min :: int where "i64_min = - 9223372036854775808"

lemmas max_defs [range_defs] =
  u8_max_def u16_max_def u32_max_def u64_max_def usize_max_def u128_max_def i64_max_def i64_min_def

definition is_i64 :: "int \<Rightarrow> bool" where
  "is_i64 x \<longleftrightarrow> i64_min \<le> x \<and> x \<le> i64_max"

section \<open>Saturating, checked and wrapping operations\<close>

definition sat_add :: "nat \<Rightarrow> nat \<Rightarrow> nat \<Rightarrow> nat" where
  "sat_add m a b = min m (a + b)"

definition sat_mul :: "nat \<Rightarrow> nat \<Rightarrow> nat \<Rightarrow> nat" where
  "sat_mul m a b = min m (a * b)"

abbreviation sat_add_u8 :: "nat \<Rightarrow> nat \<Rightarrow> nat" where "sat_add_u8 \<equiv> sat_add u8_max"
abbreviation sat_add_u32 :: "nat \<Rightarrow> nat \<Rightarrow> nat" where "sat_add_u32 \<equiv> sat_add u32_max"
abbreviation sat_add_u64 :: "nat \<Rightarrow> nat \<Rightarrow> nat" where "sat_add_u64 \<equiv> sat_add u64_max"
abbreviation sat_mul_u32 :: "nat \<Rightarrow> nat \<Rightarrow> nat" where "sat_mul_u32 \<equiv> sat_mul u32_max"
abbreviation sat_mul_u64 :: "nat \<Rightarrow> nat \<Rightarrow> nat" where "sat_mul_u64 \<equiv> sat_mul u64_max"

definition abs_diff :: "nat \<Rightarrow> nat \<Rightarrow> nat" where
  "abs_diff a b = (if a < b then b - a else a - b)"

definition checked_nat :: "nat \<Rightarrow> nat \<Rightarrow> nat option" where
  "checked_nat m a = (if a \<le> m then Some a else None)"

definition checked_i64 :: "int \<Rightarrow> int option" where
  "checked_i64 x = (if i64_min \<le> x \<and> x \<le> i64_max then Some x else None)"

definition sat_i64 :: "int \<Rightarrow> int" where
  "sat_i64 x = max i64_min (min i64_max x)"

definition wrap_i64 :: "int \<Rightarrow> int" where
  "wrap_i64 x = (x + 9223372036854775808) mod 18446744073709551616 - 9223372036854775808"

text \<open>\<open>i64::try_from\<close> of an unsigned value and \<open>u32::try_from\<close>/\<open>u64::try_from\<close> of a signed one.\<close>

definition i64_of_nat :: "nat \<Rightarrow> int option" where
  "i64_of_nat n = checked_i64 (int n)"

definition nat_of_i64 :: "nat \<Rightarrow> int \<Rightarrow> nat option" where
  "nat_of_i64 m x = (if 0 \<le> x \<and> x \<le> int m then Some (nat x) else None)"

text \<open>Rust's \<open>/\<close> on signed integers truncates towards zero; every divisor in the code is non-zero.\<close>

definition trunc_div :: "int \<Rightarrow> int \<Rightarrow> int" where
  "trunc_div num den =
     (let q = \<bar>num\<bar> div \<bar>den\<bar> in if (num < 0) = (den < 0) then q else - q)"

lemma trunc_div_nonneg: "0 \<le> a \<Longrightarrow> 0 < b \<Longrightarrow> trunc_div a b = a div b"
  by (simp add: trunc_div_def Let_def)

lemma trunc_div_ge_0: "0 \<le> a \<Longrightarrow> 0 < b \<Longrightarrow> 0 \<le> trunc_div a b"
  by (simp add: trunc_div_nonneg pos_imp_zdiv_nonneg_iff)

lemma int_le_div_iff:
  fixes a b c :: int
  assumes "0 < c"
  shows "a \<le> b div c \<longleftrightarrow> a * c \<le> b"
proof
  assume "a \<le> b div c"
  then have "a * c \<le> b div c * c" using assms by simp
  also have "\<dots> \<le> b" using assms by (simp add: minus_mod_eq_div_mult [symmetric])
  finally show "a * c \<le> b" .
next
  assume "a * c \<le> b"
  from zdiv_mono1 [OF this assms] show "a \<le> b div c" using assms by simp
qed

lemma int_div_less_iff:
  fixes a b c :: int
  shows "0 < c \<Longrightarrow> b div c < a \<longleftrightarrow> b < a * c"
  using int_le_div_iff [of c a b] by linarith

lemma sat_add_le [simp]: "sat_add m a b \<le> m"
  by (simp add: sat_add_def)

lemma sat_mul_le [simp]: "sat_mul m a b \<le> m"
  by (simp add: sat_mul_def)

lemma sat_add_ge: "a \<le> m \<Longrightarrow> a \<le> sat_add m a b"
  by (simp add: sat_add_def)

lemma sat_i64_range [simp]: "i64_min \<le> sat_i64 x" "sat_i64 x \<le> i64_max"
  by (auto simp: sat_i64_def range_defs)

lemma sat_i64_id: "is_i64 x \<Longrightarrow> sat_i64 x = x"
  by (simp add: sat_i64_def is_i64_def)

lemma sat_i64_mono: "x \<le> y \<Longrightarrow> sat_i64 x \<le> sat_i64 y"
  by (auto simp: sat_i64_def)

lemma wrap_i64_id: "is_i64 x \<Longrightarrow> wrap_i64 x = x"
  by (simp add: wrap_i64_def is_i64_def range_defs)

lemma wrap_i64_range: "is_i64 (wrap_i64 x)"
proof -
  have "0 \<le> (x + 9223372036854775808) mod 18446744073709551616"
    and "(x + 9223372036854775808) mod 18446744073709551616 < 18446744073709551616"
    by simp_all
  then show ?thesis by (auto simp: wrap_i64_def is_i64_def range_defs)
qed

lemma checked_i64_Some: "checked_i64 x = Some y \<longleftrightarrow> y = x \<and> is_i64 x"
  by (auto simp: checked_i64_def is_i64_def)

lemma checked_i64_None: "checked_i64 x = None \<longleftrightarrow> \<not> is_i64 x"
  by (auto simp: checked_i64_def is_i64_def)

lemma checked_nat_Some: "checked_nat m a = Some b \<longleftrightarrow> b = a \<and> a \<le> m"
  by (auto simp: checked_nat_def)

section \<open>Iterator combinators\<close>

text \<open>
  \<open>Iterator::max_by_key\<close> returns the last of the greatest elements, \<open>None\<close> on an empty iterator.
\<close>

definition max_step :: "('a \<Rightarrow> 'k::linorder) \<Rightarrow> 'a option \<Rightarrow> 'a \<Rightarrow> 'a option" where
  "max_step f acc x = (case acc of None \<Rightarrow> Some x | Some y \<Rightarrow> if f y \<le> f x then Some x else Some y)"

definition max_by_key :: "('a \<Rightarrow> 'k::linorder) \<Rightarrow> 'a list \<Rightarrow> 'a option" where
  "max_by_key f xs = foldl (max_step f) None xs"

lemma foldl_max_step_Some:
  "\<exists>z. foldl (max_step f) (Some y) xs = Some z \<and> (z = y \<or> z \<in> set xs) \<and> f y \<le> f z
     \<and> (\<forall>x \<in> set xs. f x \<le> f z)"
proof (induction xs arbitrary: y)
  case Nil
  then show ?case by simp
next
  case (Cons x xs)
  show ?case
  proof (cases "f y \<le> f x")
    case True
    with Cons.IH [of x] show ?thesis by (auto simp: max_step_def)
  next
    case False
    with Cons.IH [of y] show ?thesis by (fastforce simp: max_step_def)
  qed
qed

lemma max_by_key_Nil [simp]: "max_by_key f [] = None"
  by (simp add: max_by_key_def)

lemma max_by_key_cases:
  obtains "xs = []" "max_by_key f xs = None"
  | z where "max_by_key f xs = Some z" "z \<in> set xs" "\<And>x. x \<in> set xs \<Longrightarrow> f x \<le> f z"
proof (cases xs)
  case Nil
  then show ?thesis using that(1) by simp
next
  case (Cons y ys)
  with foldl_max_step_Some [of f y ys] show ?thesis
    using that(2) by (auto simp: max_by_key_def max_step_def)
qed

lemma max_by_key_None_iff [simp]: "max_by_key f xs = None \<longleftrightarrow> xs = []"
  by (cases rule: max_by_key_cases [of xs f]) auto

lemma max_by_key_SomeD:
  assumes "max_by_key f xs = Some z"
  shows "z \<in> set xs" and "x \<in> set xs \<Longrightarrow> f x \<le> f z"
  using assms by (cases rule: max_by_key_cases [of xs f]; auto)+

lemma max_by_key_exists: "x \<in> set xs \<Longrightarrow> \<exists>y. max_by_key f xs = Some y \<and> f x \<le> f y"
  by (cases rule: max_by_key_cases [of xs f]) auto

lemma max_by_key_mono:
  assumes "set xs \<subseteq> set ys" and "max_by_key f xs = Some x"
  shows "\<exists>y. max_by_key f ys = Some y \<and> f x \<le> f y"
  using assms max_by_key_SomeD(1) by (intro max_by_key_exists) fastforce

text \<open>\<open>Iterator::max\<close> and \<open>Iterator::min\<close> of ordered values.\<close>

definition max_opt :: "'a::linorder list \<Rightarrow> 'a option" where
  "max_opt xs = max_by_key (\<lambda>x. x) xs"

definition min_opt :: "'a::linorder list \<Rightarrow> 'a option" where
  "min_opt xs = (case xs of [] \<Rightarrow> None | y # ys \<Rightarrow> Some (foldl min y ys))"

lemma foldl_min: "foldl min (y::'a::linorder) ys \<in> insert y (set ys) \<and> foldl min y ys \<le> y \<and> (\<forall>x \<in> set ys. foldl min y ys \<le> x)"
proof (induction ys arbitrary: y)
  case Nil
  then show ?case by simp
next
  case (Cons a ys)
  from Cons.IH [of "min y a"] show ?case by (auto simp: min_def split: if_splits)
qed

lemma min_opt_None_iff [simp]: "min_opt xs = None \<longleftrightarrow> xs = []"
  by (simp add: min_opt_def split: list.splits)

lemma min_opt_SomeD:
  assumes "min_opt xs = Some z"
  shows "z \<in> set xs" and "x \<in> set xs \<Longrightarrow> z \<le> x"
  using assms foldl_min by (auto simp: min_opt_def split: list.splits)

lemma max_opt_None_iff [simp]: "max_opt xs = None \<longleftrightarrow> xs = []"
  by (simp add: max_opt_def)

lemma max_opt_SomeD:
  assumes "max_opt xs = Some z"
  shows "z \<in> set xs" and "x \<in> set xs \<Longrightarrow> x \<le> z"
  using assms max_by_key_SomeD(1) [where f = "\<lambda>x. x"] max_by_key_SomeD(2) [where f = "\<lambda>x. x"]
  by (auto simp: max_opt_def)

lemma find_SomeD: "List.find P xs = Some x \<Longrightarrow> x \<in> set xs \<and> P x"
  by (auto simp: find_Some_iff)

text \<open>\<open>Iterator::next\<close> on a fresh iterator.\<close>

definition first_of :: "'a list \<Rightarrow> 'a option" where
  "first_of xs = (case xs of [] \<Rightarrow> None | x # _ \<Rightarrow> Some x)"

lemma first_of_simps [simp]: "first_of [] = None" "first_of (x # xs) = Some x"
  by (simp_all add: first_of_def)

lemma first_of_None_iff [simp]: "first_of xs = None \<longleftrightarrow> xs = []"
  by (cases xs) simp_all

lemma first_of_SomeD: "first_of xs = Some x \<Longrightarrow> x \<in> set xs"
  by (cases xs) simp_all

text \<open>\<open>Iterator::position\<close>: the index of the first element that satisfies the predicate.\<close>

fun position :: "('a \<Rightarrow> bool) \<Rightarrow> 'a list \<Rightarrow> nat option" where
  "position P [] = None"
| "position P (x # xs) = (if P x then Some 0 else map_option Suc (position P xs))"

text \<open>Filtering a list by a predicate that only ever turns off is cutting a prefix.\<close>

lemma filter_eq_takeWhile:
  assumes "\<And>i j. i < j \<Longrightarrow> j < length xs \<Longrightarrow> P (xs ! j) \<Longrightarrow> P (xs ! i)"
  shows "filter P xs = takeWhile P xs"
  using assms
proof (induction xs)
  case Nil
  then show ?case by simp
next
  case (Cons x xs)
  have IH: "filter P xs = takeWhile P xs"
  proof (rule Cons.IH)
    fix i j assume "i < j" "j < length xs" "P (xs ! j)"
    then show "P (xs ! i)" using Cons.prems [of "Suc i" "Suc j"] by simp
  qed
  show ?case
  proof (cases "P x")
    case False
    have "\<not> P y" if "y \<in> set xs" for y
    proof
      assume "P y"
      with that obtain j where "j < length xs" "P (xs ! j)" by (auto simp: in_set_conv_nth)
      then show False using Cons.prems [of 0 "Suc j"] False by simp
    qed
    then show ?thesis using False by (simp add: filter_empty_conv)
  qed (simp add: IH)
qed

lemma sorted_wrt_trichotomy:
  "sorted_wrt R xs \<Longrightarrow> a \<in> set xs \<Longrightarrow> b \<in> set xs \<Longrightarrow> a = b \<or> R a b \<or> R b a"
  by (induction xs) auto

text \<open>\<open>Option::or_else\<close> and \<open>Option::unwrap_or\<close>.\<close>

definition or_else :: "'a option \<Rightarrow> 'a option \<Rightarrow> 'a option" where
  "or_else a b = (case a of None \<Rightarrow> b | Some _ \<Rightarrow> a)"

definition unwrap_or :: "'a option \<Rightarrow> 'a \<Rightarrow> 'a" where
  "unwrap_or a d = (case a of None \<Rightarrow> d | Some x \<Rightarrow> x)"

lemma or_else_simps [simp]: "or_else None b = b" "or_else (Some x) b = Some x"
  by (simp_all add: or_else_def)

lemma unwrap_or_simps [simp]: "unwrap_or None d = d" "unwrap_or (Some x) d = x"
  by (simp_all add: unwrap_or_def)

definition opt_all :: "('a \<Rightarrow> bool) \<Rightarrow> 'a option \<Rightarrow> bool" where
  "opt_all P a = (case a of None \<Rightarrow> True | Some x \<Rightarrow> P x)"

lemma opt_all_simps [simp]: "opt_all P None" "opt_all P (Some x) = P x"
  by (simp_all add: opt_all_def)

lemma opt_all_True [simp]: "opt_all (\<lambda>x. True) a"
  by (cases a) simp_all

section \<open>Durations\<close>

text \<open>\<open>std::time::Duration\<close> is a number of nanoseconds; its range is \<open>u64\<close> seconds and a fraction.\<close>

type_synonym duration = nat

definition duration_max :: duration where
  "duration_max = 18446744073709551615999999999"

definition duration_from_millis :: "nat \<Rightarrow> duration" where
  "duration_from_millis ms = ms * 1000000"

definition duration_as_millis :: "duration \<Rightarrow> nat" where
  "duration_as_millis d = d div 1000000"

definition duration_sat_add :: "duration \<Rightarrow> duration \<Rightarrow> duration" where
  "duration_sat_add a b = min duration_max (a + b)"

section \<open>State machines\<close>

text \<open>
  Every stateful component is a start predicate and a step relation. What it keeps true is proved
  once per step and holds in every state its runs reach.
\<close>

locale state_machine =
  fixes start :: "'s \<Rightarrow> bool"
    and step :: "'s \<Rightarrow> 's \<Rightarrow> bool"
    and inv :: "'s \<Rightarrow> bool"
  assumes inv_start: "start s \<Longrightarrow> inv s"
    and inv_step: "step s t \<Longrightarrow> inv s \<Longrightarrow> inv t"
begin

inductive reachable :: "'s \<Rightarrow> bool" where
  init: "start s \<Longrightarrow> reachable s"
| more: "reachable s \<Longrightarrow> step s t \<Longrightarrow> reachable t"

lemma reachable_inv: "reachable s \<Longrightarrow> inv s"
  by (induction rule: reachable.induct) (auto intro: inv_start inv_step)

lemma steps_inv: "step\<^sup>*\<^sup>* s t \<Longrightarrow> inv s \<Longrightarrow> inv t"
  by (induction rule: rtranclp_induct) (auto intro: inv_step)

end

text \<open>A quantity no step moves the wrong way is monotone along every run.\<close>

locale monotone_machine =
  fixes step :: "'s \<Rightarrow> 's \<Rightarrow> bool"
    and rank :: "'s \<Rightarrow> 'k::preorder"
  assumes rank_step: "step s t \<Longrightarrow> rank s \<le> rank t"
begin

lemma rank_steps: "step\<^sup>*\<^sup>* s t \<Longrightarrow> rank s \<le> rank t"
proof (induction rule: rtranclp_induct)
  case base
  then show ?case by simp
next
  case (step t u)
  then show ?case using rank_step order_trans by blast
qed

end

section \<open>Summaries of a sequence\<close>

text \<open>
  A summary that is combined sample by sample represents the sequence it was built from. The law is
  stated for one combination of two summaries; every way of building the sequence follows.
\<close>

locale sequence_summary =
  fixes unit :: 's
    and single :: "'a \<Rightarrow> 's"
    and combine :: "'s \<Rightarrow> 's \<Rightarrow> 's"
    and represents :: "'s \<Rightarrow> 'a list \<Rightarrow> bool"
    and ok :: "'a \<Rightarrow> bool"
  assumes represents_unit: "represents unit []"
    and represents_single: "ok x \<Longrightarrow> represents (single x) [x]"
    and represents_combine:
      "represents s xs \<Longrightarrow> represents t ys \<Longrightarrow> list_all ok xs \<Longrightarrow> list_all ok ys \<Longrightarrow>
       represents (combine s t) (xs @ ys)"
begin

lemma represents_snoc:
  "represents s xs \<Longrightarrow> list_all ok xs \<Longrightarrow> ok x \<Longrightarrow> represents (combine s (single x)) (xs @ [x])"
  by (intro represents_combine represents_single) simp_all

lemma represents_foldl:
  "list_all ok xs \<Longrightarrow> represents (foldl (\<lambda>s x. combine s (single x)) unit xs) xs"
  by (induction xs rule: rev_induct) (simp_all add: represents_unit represents_snoc)

end

end
