(* ===== verification/Ladder.thy ===== *)
theory Ladder
  imports Prelude
begin

text \<open>
  \<open>abr/ladder.rs\<close>, first half: the thirteen-rung quality ladder, the request ceiling of a rung, and
  the rendition a server was observed to produce for one. The catalogue of actuators is in theory
  \<open>Catalog\<close>.
\<close>

section \<open>The ladder\<close>

datatype rung =
    P240 | P480 | P720Low | P720 | P1080M6 | P1080 | P1080M10 | P1080M12 | P1080M14 | P1080M16
  | P1080M18 | P1080High | Uhd

definition LADDER :: "rung list" where
  "LADDER = [P240, P480, P720Low, P720, P1080M6, P1080, P1080M10, P1080M12, P1080M14, P1080M16,
     P1080M18, P1080High, Uhd]"

definition PIN_MIN_RESERVE_SEGMENTS :: int where "PIN_MIN_RESERVE_SEGMENTS = 6"
definition PIN_MIN_RESERVE_SEGMENTS_DOWN :: int where "PIN_MIN_RESERVE_SEGMENTS_DOWN = 2"

text \<open>The derived order of the enum is the order of its declaration.\<close>

primrec rung_disc :: "rung \<Rightarrow> nat" where
  "rung_disc P240 = 0" | "rung_disc P480 = 1" | "rung_disc P720Low = 2" | "rung_disc P720 = 3"
| "rung_disc P1080M6 = 4" | "rung_disc P1080 = 5" | "rung_disc P1080M10 = 6"
| "rung_disc P1080M12 = 7" | "rung_disc P1080M14 = 8" | "rung_disc P1080M16 = 9"
| "rung_disc P1080M18 = 10" | "rung_disc P1080High = 11" | "rung_disc Uhd = 12"

lemma rung_disc_inj: "rung_disc r = rung_disc s \<Longrightarrow> r = s"
  by (cases r; cases s; simp)

lemma rung_disc_less [simp]: "rung_disc r < 13"
  by (cases r) simp_all

instantiation rung :: linorder
begin

definition less_eq_rung :: "rung \<Rightarrow> rung \<Rightarrow> bool" where
  "less_eq_rung r s \<longleftrightarrow> rung_disc r \<le> rung_disc s"

definition less_rung :: "rung \<Rightarrow> rung \<Rightarrow> bool" where
  "less_rung r s \<longleftrightarrow> rung_disc r < rung_disc s"

instance
  by intro_classes (auto simp: less_eq_rung_def less_rung_def dest: rung_disc_inj)

end

lemmas rung_order_defs = less_eq_rung_def less_rung_def

fun rung_kbps :: "rung \<Rightarrow> nat" where
  "rung_kbps P240 = 320"
| "rung_kbps P480 = 720"
| "rung_kbps P720Low = 2000"
| "rung_kbps P720 = 4000"
| "rung_kbps P1080M6 = 6000"
| "rung_kbps P1080 = 8000"
| "rung_kbps P1080M10 = 10000"
| "rung_kbps P1080M12 = 12000"
| "rung_kbps P1080M14 = 14000"
| "rung_kbps P1080M16 = 16000"
| "rung_kbps P1080M18 = 18000"
| "rung_kbps P1080High = 20000"
| "rung_kbps Uhd = 22000"

fun size_spread_pm :: "rung \<Rightarrow> nat" where
  "size_spread_pm P240 = 1577"
| "size_spread_pm P480 = 1418"
| "size_spread_pm P720Low = 1040"
| "size_spread_pm _ = 893"

fun rung_raster :: "rung \<Rightarrow> nat \<times> nat" where
  "rung_raster P240 = (426, 240)"
| "rung_raster P480 = (854, 480)"
| "rung_raster P720Low = (1280, 720)"
| "rung_raster P720 = (1280, 720)"
| "rung_raster Uhd = (3840, 2160)"
| "rung_raster _ = (1920, 1080)"

text \<open>\<open>crate::playback::Ceiling\<close>: the bound a quality choice puts on an encode.\<close>

record ceiling_rec =
  max_kbps :: int
  max_w :: int
  max_h :: int

definition ceiling_admits :: "ceiling_rec \<Rightarrow> int \<Rightarrow> int \<Rightarrow> int \<Rightarrow> bool" where
  "ceiling_admits c kbps w h \<longleftrightarrow>
     kbps > 0 \<and> w > 0 \<and> h > 0 \<and> kbps \<le> max_kbps c \<and> w \<le> max_w c \<and> h \<le> max_h c"

definition rung_ceiling :: "rung \<Rightarrow> ceiling_rec" where
  "rung_ceiling r = (let (w, h) = rung_raster r in
     \<lparr>max_kbps = int (rung_kbps r), max_w = int w, max_h = int h\<rparr>)"

definition from_request_kbps :: "nat \<Rightarrow> rung option" where
  "from_request_kbps kbps = List.find (\<lambda>r. rung_kbps r = kbps) LADDER"

definition from_ceiling :: "ceiling_rec \<Rightarrow> rung option" where
  "from_ceiling c = List.find (\<lambda>r. rung_ceiling r = c) LADDER"

definition rung_index :: "rung \<Rightarrow> nat" where
  "rung_index r = unwrap_or (position (\<lambda>x. x = r) LADDER) 0"

definition below :: "rung \<Rightarrow> rung" where
  "below r = LADDER ! (rung_index r - 1)"

definition at_floor :: "rung \<Rightarrow> bool" where
  "at_floor r \<longleftrightarrow> below r = r"

lemma LADDER_set [simp]: "set LADDER = UNIV"
proof -
  have "r \<in> set LADDER" for r by (cases r) (simp_all add: LADDER_def)
  then show ?thesis by blast
qed

lemma LADDER_length [simp]: "length LADDER = 13"
  by (simp add: LADDER_def)

lemma LADDER_sorted: "sorted_wrt (<) LADDER"
  by (simp add: LADDER_def rung_order_defs)

lemma rung_index_disc [simp]: "rung_index r = rung_disc r"
  by (cases r) (simp_all add: rung_index_def LADDER_def)

lemma LADDER_nth_disc [simp]: "LADDER ! rung_disc r = r"
  by (cases r) (simp_all add: LADDER_def)

lemma rung_kbps_less_iff: "rung_kbps r < rung_kbps s \<longleftrightarrow> r < s"
  by (cases r; cases s; simp add: rung_order_defs)

lemma rung_kbps_inj: "rung_kbps r = rung_kbps s \<Longrightarrow> r = s"
  using rung_kbps_less_iff [of r s] rung_kbps_less_iff [of s r] by force

lemma from_request_kbps_rung [simp]: "from_request_kbps (rung_kbps r) = Some r"
  by (cases r) (simp_all add: from_request_kbps_def LADDER_def)

lemma from_request_kbps_SomeD: "from_request_kbps k = Some r \<Longrightarrow> rung_kbps r = k"
  by (auto simp: from_request_kbps_def dest!: find_SomeD)

lemma from_ceiling_rung [simp]: "from_ceiling (rung_ceiling r) = Some r"
  by (cases r) (simp_all add: from_ceiling_def LADDER_def rung_ceiling_def)

lemma below_le: "below r \<le> r"
  by (cases r) (simp_all add: below_def LADDER_def rung_order_defs)

lemma at_floor_iff: "at_floor r \<longleftrightarrow> r = P240"
  by (cases r) (simp_all add: at_floor_def below_def LADDER_def)

lemma below_adjacent: "below r < r \<Longrightarrow> s < r \<Longrightarrow> s \<le> below r"
  by (cases r; cases s; simp add: below_def LADDER_def rung_order_defs)

lemma rung_raster_mono:
  "r \<le> s \<Longrightarrow> fst (rung_raster r) \<le> fst (rung_raster s) \<and> snd (rung_raster r) \<le> snd (rung_raster s)"
  by (cases r; cases s; simp add: rung_order_defs)

section \<open>An observed rendition\<close>

record hls_variant =
  declared_bps :: nat
  hv_width :: nat
  hv_height :: nat

definition hls_variant_new :: "nat \<Rightarrow> int \<Rightarrow> int \<Rightarrow> hls_variant option" where
  "hls_variant_new bps width height =
     (case nat_of_i64 u16_max width of None \<Rightarrow> None | Some w \<Rightarrow>
       (if w > 0 then
          (case nat_of_i64 u16_max height of None \<Rightarrow> None | Some h \<Rightarrow>
            (if h > 0 then
               (if bps > 0 then Some \<lparr>declared_bps = bps, hv_width = w, hv_height = h\<rparr> else None)
             else None))
        else None))"

definition strictly_dominates :: "hls_variant \<Rightarrow> hls_variant \<Rightarrow> bool" where
  "strictly_dominates a b \<longleftrightarrow>
     hv_width a \<ge> hv_width b \<and> hv_height a \<ge> hv_height b \<and> declared_bps a \<ge> declared_bps b
     \<and> (hv_width a > hv_width b \<or> hv_height a > hv_height b \<or> declared_bps a > declared_bps b)"

definition definitively_underfills :: "hls_variant \<Rightarrow> rung \<Rightarrow> nat \<times> nat \<Rightarrow> bool" where
  "definitively_underfills v r source =
     (if fst source = 0 \<or> snd source = 0 then False
      else let bounds = rung_raster r in
        if fst source \<le> fst bounds \<and> snd source \<le> snd bounds
        then hv_width v < fst source \<or> hv_height v < snd source
        else hv_width v < fst bounds \<and> hv_height v < snd bounds)"

lemma strictly_dominates_irrefl: "\<not> strictly_dominates a a"
  by (simp add: strictly_dominates_def)

lemma strictly_dominates_trans:
  "strictly_dominates a b \<Longrightarrow> strictly_dominates b c \<Longrightarrow> strictly_dominates a c"
  by (auto simp: strictly_dominates_def)

text \<open>Underfilling is antitone in the picture: a smaller one underfills whatever a larger one does.\<close>

lemma underfills_antimono:
  assumes "hv_width v \<le> hv_width u" and "hv_height v \<le> hv_height u"
    and "definitively_underfills u r s"
  shows "definitively_underfills v r s"
  using assms by (auto simp: definitively_underfills_def Let_def split: if_splits)

end
