(* ===== verification/Catalog.thy ===== *)
theory Catalog
  imports Ladder
begin

text \<open>
  \<open>abr/ladder.rs\<close>, second half: the catalogue of HLS actuators with its calibrated costs, and the
  feasibility rule (the smallest sufficient box) that decides which rungs a playback may use. The
  reserve-dependent selections of the catalogue (\<open>modeled_sustainable\<close>, \<open>best_sustainable\<close>) are in
  theory \<open>Plant\<close>, beside the refill rule they call. The locale \<open>actuator_menu\<close> is the contract the
  selections offer to the bootstrap, the controller and the mode decision.
\<close>

section \<open>Candidates and the catalogue\<close>

record hls_candidate =
  hc_rung :: rung
  request_kbps :: nat
  expected_wire_kbps :: nat
  production_load_pm :: nat

record hls_catalog =
  cat_candidates :: "hls_candidate list"
  raster_limit :: "nat \<times> nat"
  cat_source :: "nat \<times> nat"

definition point :: "rung \<Rightarrow> nat \<Rightarrow> nat \<Rightarrow> hls_candidate" where
  "point r wire load = \<lparr>hc_rung = r, request_kbps = rung_kbps r,
     expected_wire_kbps = wire, production_load_pm = load\<rparr>"

definition catalog_measured :: hls_catalog where
  "catalog_measured = \<lparr>cat_candidates =
     [point P240 320 90,
      point P480 720 180,
      point P720Low 2000 300,
      point P720 4000 450,
      point P1080M6 6000 350,
      point P1080 8000 930,
      point P1080M10 10000 950,
      point P1080M12 12000 970,
      point P1080M14 14000 980,
      point P1080M16 16000 990,
      point P1080M18 18000 995,
      point P1080High 20011 1000,
      point Uhd 20895 2100],
    raster_limit = (u16_max, u16_max), cat_source = (0, 0)\<rparr>"

definition source_raster :: "hls_catalog \<Rightarrow> nat \<times> nat" where
  "source_raster cat = cat_source cat"

definition raster_axis :: "nat \<Rightarrow> nat" where
  "raster_axis value = (if value = 0 then u16_max else value)"

definition limited_to :: "hls_catalog \<Rightarrow> nat \<times> nat \<Rightarrow> nat \<times> nat \<Rightarrow> hls_catalog" where
  "limited_to cat device source =
     cat\<lparr>raster_limit := (raster_axis (fst device), raster_axis (snd device)), cat_source := source\<rparr>"

section \<open>Feasibility\<close>

definition decodable :: "hls_catalog \<Rightarrow> hls_candidate \<Rightarrow> bool" where
  "decodable cat c = (let (width, height) = rung_raster (hc_rung c) in
     width \<le> fst (raster_limit cat) \<and> height \<le> snd (raster_limit cat))"

definition covers_source :: "hls_catalog \<Rightarrow> hls_candidate \<Rightarrow> bool" where
  "covers_source cat c = (let (width, height) = rung_raster (hc_rung c) in
     fst (cat_source cat) > 0 \<and> snd (cat_source cat) > 0
     \<and> width \<ge> fst (cat_source cat) \<and> height \<ge> snd (cat_source cat))"

definition strictly_smaller_box :: "nat \<times> nat \<Rightarrow> nat \<times> nat \<Rightarrow> bool" where
  "strictly_smaller_box other box \<longleftrightarrow>
     fst other \<le> fst box \<and> snd other \<le> snd box \<and> (fst other < fst box \<or> snd other < snd box)"

definition catalog_admits :: "hls_catalog \<Rightarrow> hls_candidate \<Rightarrow> bool" where
  "catalog_admits cat c =
     (if \<not> decodable cat c then False
      else if \<not> covers_source cat c then True
      else \<not> list_ex (\<lambda>other.
             strictly_smaller_box (rung_raster (hc_rung other)) (rung_raster (hc_rung c))
             \<and> decodable cat other \<and> covers_source cat other) (cat_candidates cat))"

definition feasible :: "hls_catalog \<Rightarrow> hls_candidate list" where
  "feasible cat = filter (catalog_admits cat) (cat_candidates cat)"

definition box_join :: "nat \<times> nat \<Rightarrow> nat \<times> nat \<Rightarrow> nat \<times> nat" where
  "box_join a b = (max (fst a) (fst b), max (snd a) (snd b))"

definition widest_feasible_raster :: "hls_catalog \<Rightarrow> nat \<times> nat" where
  "widest_feasible_raster cat =
     foldl (\<lambda>acc c. box_join acc (rung_raster (hc_rung c))) (0, 0) (feasible cat)"

definition candidate :: "hls_catalog \<Rightarrow> rung \<Rightarrow> hls_candidate" where
  "candidate cat r = unwrap_or (List.find (\<lambda>c. hc_rung c = r) (cat_candidates cat))
     \<lparr>hc_rung = r, request_kbps = rung_kbps r, expected_wire_kbps = rung_kbps r,
      production_load_pm = 1000\<rparr>"

definition best_for_budget :: "hls_catalog \<Rightarrow> nat \<Rightarrow> hls_candidate option" where
  "best_for_budget cat safe_budget_kbps =
     max_by_key expected_wire_kbps
       (filter (\<lambda>c. expected_wire_kbps c \<le> safe_budget_kbps) (feasible cat))"

section \<open>The selection contract\<close>

text \<open>
  What a caller may rely on when it asks for an actuator: the answer is on the menu and acceptable, and
  nothing acceptable on the menu is worth more.
\<close>

locale actuator_choice =
  fixes menu :: "'c \<Rightarrow> 'a list"
    and cost :: "'a \<Rightarrow> nat"
    and ok :: "'c \<Rightarrow> nat \<Rightarrow> 'a \<Rightarrow> bool"
    and best :: "'c \<Rightarrow> nat \<Rightarrow> 'a option"
  assumes best_sound: "best c b = Some x \<Longrightarrow> x \<in> set (menu c) \<and> ok c b x"
    and best_complete: "x \<in> set (menu c) \<Longrightarrow> ok c b x \<Longrightarrow> \<exists>y. best c b = Some y \<and> cost x \<le> cost y"
begin

lemma best_None_iff: "best c b = None \<longleftrightarrow> (\<forall>x \<in> set (menu c). \<not> ok c b x)"
proof
  assume "best c b = None"
  then show "\<forall>x \<in> set (menu c). \<not> ok c b x"
    using best_complete [of _ c b] by auto
next
  assume *: "\<forall>x \<in> set (menu c). \<not> ok c b x"
  show "best c b = None"
    by (rule ccontr) (use * best_sound [of c b] in auto)
qed

lemma best_wider:
  assumes "set (menu c) \<subseteq> set (menu c')" and "\<And>x. ok c b x \<Longrightarrow> ok c' b' x" and "best c b = Some x"
  shows "\<exists>y. best c' b' = Some y \<and> cost x \<le> cost y"
  using assms best_sound [OF assms(3)] by (intro best_complete) auto

text \<open>\<open>best.or_else(|| menu.next())\<close>, the fallback the callers spell out.\<close>

lemma best_or_first_in_menu: "or_else (best c b) (first_of (menu c)) = Some x \<Longrightarrow> x \<in> set (menu c)"
  using best_sound [of c b x] by (cases "best c b") (auto dest: first_of_SomeD)

lemma best_or_first_None_iff: "or_else (best c b) (first_of (menu c)) = None \<longleftrightarrow> menu c = []"
  using best_None_iff [of c b] by (cases "best c b") (auto dest: best_sound)

end

text \<open>The plain budget: acceptable is what costs no more than the budget.\<close>

locale actuator_menu = actuator_choice menu cost "\<lambda>_ b x. cost x \<le> b" best
  for menu :: "'c \<Rightarrow> 'a list" and cost :: "'a \<Rightarrow> nat" and best :: "'c \<Rightarrow> nat \<Rightarrow> 'a option"
begin

lemma best_mono: "b \<le> b' \<Longrightarrow> best c b = Some x \<Longrightarrow> \<exists>y. best c b' = Some y \<and> cost x \<le> cost y"
  by (rule best_wider) auto

end

interpretation planning: actuator_menu feasible expected_wire_kbps best_for_budget
proof
  fix cat b x
  assume "best_for_budget cat b = Some x"
  from max_by_key_SomeD(1) [OF this [unfolded best_for_budget_def]]
  show "x \<in> set (feasible cat) \<and> expected_wire_kbps x \<le> b" by simp
next
  fix cat b and x :: hls_candidate
  assume "x \<in> set (feasible cat)" and "expected_wire_kbps x \<le> b"
  then show "\<exists>y. best_for_budget cat b = Some y \<and> expected_wire_kbps x \<le> expected_wire_kbps y"
    unfolding best_for_budget_def by (intro max_by_key_exists) simp
qed

section \<open>The measured catalogue\<close>

text \<open>Every catalogue of the program is \<open>measured()\<close>, bounded by \<open>limited_to\<close> any number of times.\<close>

definition measured_catalog :: "hls_catalog \<Rightarrow> bool" where
  "measured_catalog cat \<longleftrightarrow> cat_candidates cat = cat_candidates catalog_measured"

lemma measured_catalog_measured [simp]: "measured_catalog catalog_measured"
  by (simp add: measured_catalog_def)

lemma measured_catalog_limited [simp]: "measured_catalog (limited_to cat d s) = measured_catalog cat"
  by (simp add: measured_catalog_def limited_to_def)

lemma feasible_subset: "c \<in> set (feasible cat) \<Longrightarrow> c \<in> set (cat_candidates cat)"
  by (simp add: feasible_def)

lemma measured_rungs: "measured_catalog cat \<Longrightarrow> map hc_rung (cat_candidates cat) = LADDER"
  by (simp add: measured_catalog_def catalog_measured_def point_def LADDER_def)

lemma measured_nth:
  assumes "measured_catalog cat" and "i < 13"
  shows "hc_rung (cat_candidates cat ! i) = LADDER ! i"
  using measured_rungs [OF assms(1)] assms
  by (metis LADDER_length length_map nth_map)

lemma measured_candidate_find:
  assumes "measured_catalog cat"
  shows "List.find (\<lambda>c. hc_rung c = r) (cat_candidates cat) = Some (candidate cat r)"
proof -
  have "r \<in> set (map hc_rung (cat_candidates cat))"
    using measured_rungs [OF assms] by simp
  then have "List.find (\<lambda>c. hc_rung c = r) (cat_candidates cat) \<noteq> None"
    by (auto simp: find_None_iff)
  then show ?thesis by (auto simp: candidate_def)
qed

lemma measured_candidate_rung:
  assumes "measured_catalog cat"
  shows "hc_rung (candidate cat r) = r" and "candidate cat r \<in> set (cat_candidates cat)"
  using find_SomeD [OF measured_candidate_find [OF assms, of r]] by auto

lemma measured_sorted:
  assumes "measured_catalog cat"
  shows "sorted_wrt (\<lambda>c d. hc_rung c < hc_rung d \<and> expected_wire_kbps c < expected_wire_kbps d)
    (cat_candidates cat)"
  using assms
  by (simp add: measured_catalog_def catalog_measured_def point_def rung_order_defs)

lemma measured_candidate_unique:
  assumes "measured_catalog cat" and "c \<in> set (cat_candidates cat)"
  shows "candidate cat (hc_rung c) = c"
  using sorted_wrt_trichotomy [OF measured_sorted [OF assms(1)] assms(2)
      measured_candidate_rung(2) [OF assms(1), of "hc_rung c"]]
    measured_candidate_rung(1) [OF assms(1)]
  by auto

lemma measured_wire_less_iff:
  assumes "measured_catalog cat" and "c \<in> set (cat_candidates cat)" and "d \<in> set (cat_candidates cat)"
  shows "expected_wire_kbps c < expected_wire_kbps d \<longleftrightarrow> hc_rung c < hc_rung d"
  using sorted_wrt_trichotomy [OF measured_sorted [OF assms(1)] assms(2,3)] by auto

lemma measured_wire_le_iff:
  assumes "measured_catalog cat" and "c \<in> set (cat_candidates cat)" and "d \<in> set (cat_candidates cat)"
  shows "expected_wire_kbps c \<le> expected_wire_kbps d \<longleftrightarrow> hc_rung c \<le> hc_rung d"
  using measured_wire_less_iff [OF assms(1,3,2)] by (simp add: not_less [symmetric])

text \<open>
  Boxes grow along the ladder, so both feasibility tests can only turn off on the way up: the feasible
  rungs are a prefix of the ladder.
\<close>

lemma decodable_antimono: "hc_rung c \<le> hc_rung d \<Longrightarrow> decodable cat d \<Longrightarrow> decodable cat c"
  using rung_raster_mono [of "hc_rung c" "hc_rung d"]
  by (auto simp: decodable_def split: prod.splits)

lemma covers_source_mono: "hc_rung c \<le> hc_rung d \<Longrightarrow> covers_source cat c \<Longrightarrow> covers_source cat d"
  using rung_raster_mono [of "hc_rung c" "hc_rung d"]
  by (auto simp: covers_source_def split: prod.splits)

lemma catalog_admits_antimono:
  assumes le: "hc_rung c \<le> hc_rung d" and adm: "catalog_admits cat d"
  shows "catalog_admits cat c"
proof -
  from adm have dec: "decodable cat d" by (auto simp: catalog_admits_def split: if_splits)
  have box: "strictly_smaller_box b (rung_raster (hc_rung d))"
    if "strictly_smaller_box b (rung_raster (hc_rung c))" for b
    using that rung_raster_mono [OF le] by (auto simp: strictly_smaller_box_def)
  show ?thesis
    using adm decodable_antimono [OF le dec] covers_source_mono [OF le] box
    by (auto simp: catalog_admits_def list_ex_iff split: if_splits)
qed

lemma feasible_takeWhile:
  assumes "measured_catalog cat"
  shows "feasible cat = takeWhile (catalog_admits cat) (cat_candidates cat)"
  unfolding feasible_def
proof (rule filter_eq_takeWhile)
  fix i j
  assume ij: "i < j" "j < length (cat_candidates cat)"
    and adm: "catalog_admits cat (cat_candidates cat ! j)"
  have len: "length (cat_candidates cat) = 13"
    using measured_rungs [OF assms] by (metis LADDER_length length_map)
  then have "LADDER ! i < LADDER ! j"
    using ij LADDER_sorted by (simp add: sorted_wrt_iff_nth_less)
  then have "hc_rung (cat_candidates cat ! i) \<le> hc_rung (cat_candidates cat ! j)"
    using ij len measured_nth [OF assms] by simp
  from catalog_admits_antimono [OF this adm]
  show "catalog_admits cat (cat_candidates cat ! i)" .
qed

text \<open>
  The rungs a playback may use form a prefix of the quality ladder: whatever the device and the
  source, feasibility never skips a rung, so stepping down from a feasible rung always lands on a
  feasible one.
\<close>

theorem feasible_is_ladder_prefix:
  assumes "measured_catalog cat"
  shows "map hc_rung (feasible cat) = take (length (feasible cat)) LADDER"
proof -
  have "map hc_rung (feasible cat) = map hc_rung (take (length (feasible cat)) (cat_candidates cat))"
    using feasible_takeWhile [OF assms] by (metis takeWhile_eq_take)
  then show ?thesis using measured_rungs [OF assms] by (simp flip: take_map)
qed

lemma feasible_rung_closed:
  assumes cat: "measured_catalog cat" and c: "c \<in> set (feasible cat)" and le: "r \<le> hc_rung c"
  shows "candidate cat r \<in> set (feasible cat)"
proof -
  have "catalog_admits cat (candidate cat r)"
    using catalog_admits_antimono [of "candidate cat r" c cat] c le measured_candidate_rung [OF cat]
    by (simp add: feasible_def)
  then show ?thesis using measured_candidate_rung [OF cat] by (simp add: feasible_def)
qed

lemma floor_rung_feasible:
  assumes "measured_catalog cat" and "426 \<le> fst (raster_limit cat)" and "240 \<le> snd (raster_limit cat)"
  shows "candidate cat P240 \<in> set (feasible cat)"
proof -
  have "P240 \<le> r" for r by (cases r) (simp_all add: rung_order_defs)
  then have "\<not> strictly_smaller_box (rung_raster r) (426, 240)" for r
    using rung_raster_mono [of P240 r] by (auto simp: strictly_smaller_box_def)
  then have "catalog_admits cat (candidate cat P240)"
    using assms(2,3) measured_candidate_rung [OF assms(1), of P240]
    by (auto simp: catalog_admits_def decodable_def list_ex_iff)
  then show ?thesis using measured_candidate_rung [OF assms(1)] by (simp add: feasible_def)
qed

lemma feasible_nonempty_iff:
  assumes "measured_catalog cat"
  shows "feasible cat \<noteq> [] \<longleftrightarrow> 426 \<le> fst (raster_limit cat) \<and> 240 \<le> snd (raster_limit cat)"
proof
  assume "feasible cat \<noteq> []"
  then obtain c where c: "c \<in> set (feasible cat)" by (cases "feasible cat") auto
  have "P240 \<le> hc_rung c" by (cases "hc_rung c") (simp_all add: rung_order_defs)
  from feasible_rung_closed [OF assms c this] have "decodable cat (candidate cat P240)"
    by (auto simp: feasible_def catalog_admits_def split: if_splits)
  then show "426 \<le> fst (raster_limit cat) \<and> 240 \<le> snd (raster_limit cat)"
    using measured_candidate_rung(1) [OF assms, of P240] by (simp add: decodable_def)
qed (use floor_rung_feasible [OF assms] in auto)

text \<open>The declared decode size is the least box that holds every feasible raster.\<close>

definition box_le :: "nat \<times> nat \<Rightarrow> nat \<times> nat \<Rightarrow> bool" where
  "box_le a b \<longleftrightarrow> fst a \<le> fst b \<and> snd a \<le> snd b"

lemma foldl_box_join_upper:
  "box_le acc (foldl (\<lambda>a c. box_join a (f c)) acc xs)
   \<and> (\<forall>c \<in> set xs. box_le (f c) (foldl (\<lambda>a c. box_join a (f c)) acc xs))"
proof (induction xs arbitrary: acc)
  case Nil
  then show ?case by (simp add: box_le_def)
next
  case (Cons x xs)
  from Cons.IH [of "box_join acc (f x)"] show ?case
    by (auto simp: box_le_def box_join_def)
qed

lemma foldl_box_join_least:
  "box_le acc b \<Longrightarrow> (\<And>c. c \<in> set xs \<Longrightarrow> box_le (f c) b) \<Longrightarrow>
   box_le (foldl (\<lambda>a c. box_join a (f c)) acc xs) b"
  by (induction xs arbitrary: acc) (auto simp: box_le_def box_join_def)

lemma widest_feasible_raster_upper:
  "c \<in> set (feasible cat) \<Longrightarrow> box_le (rung_raster (hc_rung c)) (widest_feasible_raster cat)"
  using foldl_box_join_upper [of "(0, 0)" "\<lambda>c. rung_raster (hc_rung c)" "feasible cat"]
  by (simp add: widest_feasible_raster_def)

lemma widest_feasible_raster_least:
  "(\<And>c. c \<in> set (feasible cat) \<Longrightarrow> box_le (rung_raster (hc_rung c)) b) \<Longrightarrow>
   box_le (widest_feasible_raster cat) b"
  unfolding widest_feasible_raster_def
  by (rule foldl_box_join_least) (simp_all add: box_le_def)

lemma box_le_antisym: "box_le a b \<Longrightarrow> box_le b a \<Longrightarrow> a = b"
  by (auto simp: box_le_def prod_eq_iff)

lemma rung_raster_box_mono: "r \<le> s \<Longrightarrow> box_le (rung_raster r) (rung_raster s)"
  using rung_raster_mono by (simp add: box_le_def)

lemma rung_raster_not_smaller:
  "\<not> strictly_smaller_box (rung_raster r) (rung_raster s) \<Longrightarrow> box_le (rung_raster s) (rung_raster r)"
  by (cases "r \<le> s") (use rung_raster_mono [of r s] rung_raster_box_mono [of s r] in
    \<open>auto simp: strictly_smaller_box_def box_le_def\<close>)

lemma covering_decodable_has_feasible:
  assumes cat: "measured_catalog cat" and d: "d \<in> set (cat_candidates cat)"
    and dec: "decodable cat d" and cov: "covers_source cat d"
  shows "\<exists>c \<in> set (feasible cat). covers_source cat c"
proof -
  let ?C = "{c \<in> set (cat_candidates cat). decodable cat c \<and> covers_source cat c}"
  from ex_has_least_nat [of "\<lambda>c. c \<in> ?C" d "\<lambda>c. rung_disc (hc_rung c)"] d dec cov
  obtain c where c: "c \<in> ?C"
    and least: "\<And>e. e \<in> ?C \<Longrightarrow> rung_disc (hc_rung c) \<le> rung_disc (hc_rung e)"
    by auto
  have "catalog_admits cat c"
  proof -
    have "\<not> strictly_smaller_box (rung_raster (hc_rung e)) (rung_raster (hc_rung c))"
      if "e \<in> ?C" for e
      using least [OF that] rung_raster_mono [of "hc_rung c" "hc_rung e"]
      by (auto simp: strictly_smaller_box_def rung_order_defs)
    then show ?thesis using c by (auto simp: catalog_admits_def list_ex_iff)
  qed
  then show ?thesis using c by (auto simp: feasible_def)
qed

lemma feasible_covering_least:
  assumes c: "c \<in> set (feasible cat)" "covers_source cat c"
    and e: "e \<in> set (cat_candidates cat)" "decodable cat e" "covers_source cat e"
  shows "box_le (rung_raster (hc_rung c)) (rung_raster (hc_rung e))"
  using assms rung_raster_not_smaller [of "hc_rung e" "hc_rung c"]
  by (auto simp: feasible_def catalog_admits_def list_ex_iff split: if_splits)

text \<open>
  When the device can decode some box that covers the source, the widest raster the playback may
  ever be asked to decode is exactly the smallest such box: a covering box is always kept, nothing
  larger is, and the size declared to the decoder is never exceeded by a later rung change.
\<close>

theorem widest_is_smallest_sufficient_box:
  assumes cat: "measured_catalog cat" and d: "d \<in> set (cat_candidates cat)"
    and dec: "decodable cat d" and cov: "covers_source cat d"
  shows "\<exists>c \<in> set (feasible cat). covers_source cat c
    \<and> widest_feasible_raster cat = rung_raster (hc_rung c)
    \<and> (\<forall>e \<in> set (cat_candidates cat). decodable cat e \<and> covers_source cat e \<longrightarrow>
         box_le (widest_feasible_raster cat) (rung_raster (hc_rung e)))"
proof -
  obtain c where c: "c \<in> set (feasible cat)" "covers_source cat c"
    using covering_decodable_has_feasible [OF assms] by blast
  have "box_le (rung_raster (hc_rung e)) (rung_raster (hc_rung c))" if e: "e \<in> set (feasible cat)" for e
  proof (cases "hc_rung e \<le> hc_rung c")
    case True
    then show ?thesis by (rule rung_raster_box_mono)
  next
    case False
    then have "covers_source cat e" using covers_source_mono [of c e cat] c(2) by simp
    moreover have "decodable cat c" "c \<in> set (cat_candidates cat)"
      using c(1) by (auto simp: feasible_def catalog_admits_def split: if_splits)
    ultimately show ?thesis using feasible_covering_least [OF e _ _ _ c(2)] by blast
  qed
  then have "widest_feasible_raster cat = rung_raster (hc_rung c)"
    using widest_feasible_raster_least [of cat] widest_feasible_raster_upper [OF c(1)]
    by (intro box_le_antisym) auto
  then show ?thesis using c feasible_covering_least [OF c] by auto
qed

theorem widest_is_smallest_sufficient_box_witness:
  "widest_feasible_raster (limited_to catalog_measured (3840, 2160) (1918, 802)) = (1920, 1080)"
proof -
  let ?cat = "limited_to catalog_measured (3840, 2160) (1918, 802)"
  let ?e = "point P1080 8000 930"
  have e: "?e \<in> set (cat_candidates ?cat)"
    by (simp add: limited_to_def catalog_measured_def)
  have de: "decodable ?cat ?e" "covers_source ?cat ?e"
    by (simp_all add: decodable_def covers_source_def limited_to_def point_def raster_axis_def)
  from widest_is_smallest_sufficient_box [OF _ e de]
  obtain c where c: "covers_source ?cat c" "widest_feasible_raster ?cat = rung_raster (hc_rung c)"
    and least: "box_le (widest_feasible_raster ?cat) (rung_raster (hc_rung ?e))"
    using e de by auto
  from c(1) have "1918 \<le> fst (rung_raster (hc_rung c))"
    by (simp add: covers_source_def limited_to_def split: prod.splits)
  with c(2) least show ?thesis
    by (cases "hc_rung c") (simp_all add: box_le_def point_def)
qed

theorem feasible_is_ladder_prefix_witness:
  "map hc_rung (feasible (limited_to catalog_measured (1280, 720) (0, 0)))
     = take (length (feasible (limited_to catalog_measured (1280, 720) (0, 0)))) LADDER"
  using feasible_is_ladder_prefix [of "limited_to catalog_measured (1280, 720) (0, 0)"] by simp

end
