(* ===== verification/Units.thy ===== *)
theory Units
  imports Catalog
begin

text \<open>
  The vocabulary the adaptive-playback stages share: content time (\<open>abr/units.rs\<close>), the buffer
  snapshot of \<open>abr/plant.rs\<close> and the policy constants of \<open>abr/mod.rs\<close> (with the retired
  order-statistic calibration record of \<open>abr/window.rs\<close> they contain).
\<close>

section \<open>Content time\<close>

type_synonym media_time_ms = int

definition saturating_since :: "media_time_ms \<Rightarrow> media_time_ms \<Rightarrow> int" where
  "saturating_since t earlier = max 0 (sat_i64 (t - earlier))"

lemma saturating_since_nonneg [simp]: "0 \<le> saturating_since t e"
  by (simp add: saturating_since_def)

lemma saturating_since_le: "saturating_since t e \<le> i64_max"
  by (auto simp: saturating_since_def sat_i64_def range_defs)

lemma saturating_since_mono: "t \<le> t' \<Longrightarrow> saturating_since t e \<le> saturating_since t' e"
  using sat_i64_mono [of "t - e" "t' - e"] by (simp add: saturating_since_def)

section \<open>The buffer snapshot\<close>

record buffer_snapshot =
  playback :: media_time_ms
  video_tail :: media_time_ms
  audio_tail :: "media_time_ms option"
  audio_expected :: bool

text \<open>
  The playable reserve ends at the earlier of the two tails; an expected audio lane that has not
  reported yet makes it unknown rather than infinite.
\<close>

definition snapshot_buffered_ms :: "buffer_snapshot \<Rightarrow> int option" where
  "snapshot_buffered_ms s =
     (case (audio_expected s, audio_tail s) of
        (True, None) \<Rightarrow> None
      | (_, Some audio) \<Rightarrow> Some (saturating_since (min audio (video_tail s)) (playback s))
      | (False, None) \<Rightarrow> Some (saturating_since (video_tail s) (playback s)))"

definition video_buffered_ms :: "buffer_snapshot \<Rightarrow> int" where
  "video_buffered_ms s = saturating_since (video_tail s) (playback s)"

definition audio_buffered_ms :: "buffer_snapshot \<Rightarrow> int option" where
  "audio_buffered_ms s = map_option (\<lambda>a. saturating_since a (playback s)) (audio_tail s)"

lemma snapshot_buffered_nonneg: "snapshot_buffered_ms s = Some b \<Longrightarrow> 0 \<le> b"
  by (auto simp: snapshot_buffered_ms_def split: bool.splits option.splits)

lemma snapshot_buffered_le_video: "snapshot_buffered_ms s = Some b \<Longrightarrow> b \<le> video_buffered_ms s"
  by (auto simp: snapshot_buffered_ms_def video_buffered_ms_def
      intro: saturating_since_mono split: bool.splits option.splits)

lemma snapshot_buffered_le_audio:
  "snapshot_buffered_ms s = Some b \<Longrightarrow> audio_buffered_ms s = Some a \<Longrightarrow> b \<le> a"
  by (auto simp: snapshot_buffered_ms_def audio_buffered_ms_def
      intro: saturating_since_mono split: bool.splits option.splits)

lemma snapshot_buffered_None_iff:
  "snapshot_buffered_ms s = None \<longleftrightarrow> audio_expected s \<and> audio_tail s = None"
  by (auto simp: snapshot_buffered_ms_def split: bool.splits option.splits)

section \<open>Policy\<close>

definition PROBE_BUDGET_MS :: nat where "PROBE_BUDGET_MS = 4000"

record admission_policy =
  epsilon_pm :: nat
  ap_k :: nat

record abr_policy =
  admission :: admission_policy
  production_floor_pm :: nat
  emergency_buffer_ms :: int
  buffer_target_ms :: int
  buffer_reserve_fraction_pm :: nat
  buffer_refill_horizon_ms :: int
  assumed_audio_kbps :: nat
  stale_half_life_ms :: nat
  starvation_fallback_secs :: nat
  starvation_safe_secs :: nat
  visible_switch_cost :: int
  visible_switch_penalty :: int
  visible_switch_decay_ms :: nat
  original_quality_bonus :: int
  dv_bonus :: int
  generation_loss_bonus :: int
  atmos_bonus :: int
  benefit_horizon_ms :: int
  risk_weight :: int
  server_cost_weight :: int
  sustained_unsafe_deficit_ms :: int
  probe_budget_ms :: nat

definition policy_measured :: abr_policy where
  "policy_measured = \<lparr>
     admission = \<lparr>epsilon_pm = 50, ap_k = 1\<rparr>,
     production_floor_pm = 250,
     emergency_buffer_ms = 2000,
     buffer_target_ms = 2500,
     buffer_reserve_fraction_pm = 500,
     buffer_refill_horizon_ms = 10000,
     assumed_audio_kbps = 192,
     stale_half_life_ms = 30000,
     starvation_fallback_secs = 20,
     starvation_safe_secs = 60,
     visible_switch_cost = 15,
     visible_switch_penalty = 15,
     visible_switch_decay_ms = 120000,
     original_quality_bonus = 40,
     dv_bonus = 13,
     generation_loss_bonus = 8,
     atmos_bonus = 4,
     benefit_horizon_ms = 120000,
     risk_weight = 2,
     server_cost_weight = 4,
     sustained_unsafe_deficit_ms = 4500,
     probe_budget_ms = PROBE_BUDGET_MS\<rparr>"

end
