(* ===== verification/Window.thy ===== *)
theory Window
  imports Ladder Units "HOL-Library.Multiset"
begin

text \<open>
  The admission window (\<open>abr/window.rs\<close>): a playback's segment acquisitions, summarised by a constant
  size record that is combined sample by sample, and a ring of the last 64 samples.

  The specification is a replay. A playback starts with a reserve, each acquisition drains the reserve
  for as long as it takes and pays the segment's duration back when it completes; the playback
  survives when the reserve never runs out. The two runways of the summary are compared with it: the
  ordered one decides the replay of the observed order, the order free one decides every order.
\<close>

section \<open>Acquisitions and their summary\<close>

definition WINDOW_CAPACITY :: nat where "WINDOW_CAPACITY = 64"

record acquisition =
  aq_bytes :: nat
  aq_acquisition_us :: nat
  aq_media_duration_ms :: int
  aq_overhead_us :: nat

definition acquisition_default :: acquisition where
  "acquisition_default =
     \<lparr>aq_bytes = 0, aq_acquisition_us = 0, aq_media_duration_ms = 0, aq_overhead_us = 0\<rparr>"

record admission_summary =
  sm_n :: nat
  sum_acquisition_us :: int
  sum_duration_us :: int
  delta_us :: int
  max_prefix_runway_us :: int
  positive_slack_sum_us :: int
  max_capped_delivery_us :: int
  sample_overhead_max_us :: nat
  overflowed :: bool

definition summary_default :: admission_summary where
  "summary_default =
     \<lparr>sm_n = 0, sum_acquisition_us = 0, sum_duration_us = 0, delta_us = 0, max_prefix_runway_us = 0,
      positive_slack_sum_us = 0, max_capped_delivery_us = 0, sample_overhead_max_us = 0,
      overflowed = False\<rparr>"

definition poisoned :: "nat \<Rightarrow> nat \<Rightarrow> admission_summary" where
  "poisoned k overhead =
     \<lparr>sm_n = k, sum_acquisition_us = i64_max, sum_duration_us = i64_max, delta_us = 0,
      max_prefix_runway_us = i64_max, positive_slack_sum_us = i64_max,
      max_capped_delivery_us = i64_max, sample_overhead_max_us = overhead, overflowed = True\<rparr>"

definition stress_runway_us :: "admission_summary \<Rightarrow> int option" where
  "stress_runway_us s = checked_i64 (positive_slack_sum_us s + max_capped_delivery_us s)"

definition from_sample :: "acquisition \<Rightarrow> admission_summary" where
  "from_sample sample =
     (let overhead = aq_overhead_us sample in
      case i64_of_nat (aq_acquisition_us sample) of None \<Rightarrow> poisoned 1 overhead
      | Some acquisition_us \<Rightarrow>
      (case checked_i64 (aq_media_duration_ms sample * 1000) of None \<Rightarrow> poisoned 1 overhead
      | Some duration_us \<Rightarrow>
      (case checked_i64 (acquisition_us - duration_us) of None \<Rightarrow> poisoned 1 overhead
      | Some delta \<Rightarrow>
        let summary =
          \<lparr>sm_n = 1, sum_acquisition_us = acquisition_us, sum_duration_us = duration_us,
           delta_us = delta, max_prefix_runway_us = acquisition_us,
           positive_slack_sum_us = max delta 0,
           max_capped_delivery_us = min acquisition_us duration_us,
           sample_overhead_max_us = overhead, overflowed = False\<rparr>
        in if stress_runway_us summary = None then poisoned 1 overhead else summary)))"

definition summary_combine :: "admission_summary \<Rightarrow> admission_summary \<Rightarrow> admission_summary" where
  "summary_combine self rhs =
     (let overhead = max (sample_overhead_max_us self) (sample_overhead_max_us rhs) in
      case checked_nat usize_max (sm_n self + sm_n rhs) of None \<Rightarrow> poisoned usize_max overhead
      | Some k \<Rightarrow>
      if overflowed self \<or> overflowed rhs then poisoned k overhead
      else
      (case checked_i64 (sum_acquisition_us self + sum_acquisition_us rhs) of
        None \<Rightarrow> poisoned k overhead
      | Some acq \<Rightarrow>
      (case checked_i64 (sum_duration_us self + sum_duration_us rhs) of None \<Rightarrow> poisoned k overhead
      | Some dur \<Rightarrow>
      (case checked_i64 (acq - dur) of None \<Rightarrow> poisoned k overhead
      | Some delta \<Rightarrow>
      (case checked_i64 (delta_us self + max_prefix_runway_us rhs) of None \<Rightarrow> poisoned k overhead
      | Some shifted_rhs_runway \<Rightarrow>
      (case checked_i64 (positive_slack_sum_us self + positive_slack_sum_us rhs) of
        None \<Rightarrow> poisoned k overhead
      | Some slack \<Rightarrow>
        let summary =
          \<lparr>sm_n = k, sum_acquisition_us = acq, sum_duration_us = dur, delta_us = delta,
           max_prefix_runway_us = max (max_prefix_runway_us self) (max shifted_rhs_runway 0),
           positive_slack_sum_us = slack,
           max_capped_delivery_us = max (max_capped_delivery_us self) (max_capped_delivery_us rhs),
           sample_overhead_max_us = overhead, overflowed = False\<rparr>
        in if stress_runway_us summary = None then poisoned k overhead else summary))))))"

section \<open>The verdict\<close>

record admission_verdict =
  sustainable :: bool
  survivable :: bool
  demand_us :: int
  supply_us :: int
  excess_us :: int
  runway_us :: int
  ad_samples :: nat

definition admitted :: "admission_verdict \<Rightarrow> bool" where
  "admitted a = (sustainable a \<and> survivable a)"

definition conservative_refusal :: "admission_summary \<Rightarrow> admission_verdict" where
  "conservative_refusal s =
     \<lparr>sustainable = False, survivable = False, demand_us = i64_max, supply_us = 0,
      excess_us = i64_max, runway_us = i64_max, ad_samples = sm_n s\<rparr>"

definition summary_admission :: "admission_summary \<Rightarrow> int \<Rightarrow> bool \<Rightarrow> admission_verdict option" where
  "summary_admission s reserve_ms ordered =
     (if sm_n s = 0 then None
      else if overflowed s then Some (conservative_refusal s)
      else
        let verdict = (\<lambda>excess runway.
          Some \<lparr>sustainable = (sum_acquisition_us s \<le> sum_duration_us s),
                survivable = (case checked_i64 (reserve_ms * 1000) of None \<Rightarrow> False
                              | Some reserve_us \<Rightarrow> reserve_us \<ge> runway),
                demand_us = sum_acquisition_us s, supply_us = sum_duration_us s,
                excess_us = excess, runway_us = runway, ad_samples = sm_n s\<rparr>)
        in if ordered then verdict (max (delta_us s) 0) (max_prefix_runway_us s)
           else (case stress_runway_us s of
                   None \<Rightarrow> Some (conservative_refusal s)
                 | Some runway \<Rightarrow> verdict (positive_slack_sum_us s) runway))"

section \<open>The policy of the order statistic\<close>

definition requested_len :: "admission_policy \<Rightarrow> nat" where
  "requested_len p =
     (max (ap_k p) 1 * 1000 + (max (epsilon_pm p) 1 - 1)) div max (epsilon_pm p) 1 - 1"

definition window_len :: "admission_policy \<Rightarrow> nat" where
  "window_len p = min (max (requested_len p mod 2 ^ 32) 1) WINDOW_CAPACITY"

definition is_clamped :: "admission_policy \<Rightarrow> bool" where
  "is_clamped p = (requested_len p > WINDOW_CAPACITY)"

definition effective_epsilon_pm :: "admission_policy \<Rightarrow> nat" where
  "effective_epsilon_pm p =
     (let k = window_len p in min ((max (ap_k p) 1 * 1000 + k) div (k + 1)) 1000)"

record admission_readout =
  rd_have :: nat
  rd_want :: nat
  rd_effective_epsilon_pm :: nat
  rd_clamped :: bool
  rd_bound_us :: "int option"
  rd_admission :: "admission_verdict option"
  rd_resets :: nat

definition readout_admitted :: "admission_readout \<Rightarrow> bool option" where
  "readout_admitted r = map_option admitted (rd_admission r)"

definition candidate_worst_case_bytes :: "nat \<Rightarrow> int \<Rightarrow> nat \<Rightarrow> nat" where
  "candidate_worst_case_bytes declared media_duration_ms sigma_pm =
     (if declared = 0 \<or> media_duration_ms \<le> 0 then 0
      else
        let numerator = sat_mul_u64 (sat_mul_u64 sigma_pm declared) (nat media_duration_ms)
        in sat_add_u64 numerator 7999999 div 8000000)"

section \<open>The window\<close>

record acquisition_window =
  win_ring :: "acquisition list"
  win_len :: nat
  win_next :: nat
  win_summary :: admission_summary
  win_resets :: nat

definition window_default :: acquisition_window where
  "window_default =
     \<lparr>win_ring = replicate WINDOW_CAPACITY acquisition_default, win_len = 0, win_next = 0,
      win_summary = summary_default, win_resets = 0\<rparr>"

definition window_observe :: "nat \<Rightarrow> nat \<Rightarrow> nat \<Rightarrow> int \<Rightarrow> acquisition_window \<Rightarrow> acquisition_window" where
  "window_observe bytes acquisition_us active_us media_duration_ms w =
     (if bytes = 0 \<or> acquisition_us = 0 \<or> media_duration_ms \<le> 0 then w
      else
        let sample =
          \<lparr>aq_bytes = bytes, aq_acquisition_us = acquisition_us,
           aq_media_duration_ms = media_duration_ms,
           aq_overhead_us = acquisition_us - min active_us acquisition_us\<rparr>
        in w\<lparr>win_summary := summary_combine (win_summary w) (from_sample sample),
             win_ring := (win_ring w)[win_next w := sample],
             win_next := (win_next w + 1) mod WINDOW_CAPACITY,
             win_len := min (win_len w + 1) WINDOW_CAPACITY\<rparr>)"

definition window_reset :: "acquisition_window \<Rightarrow> acquisition_window" where
  "window_reset w = window_default\<lparr>win_resets := sat_add_u32 (win_resets w) 1\<rparr>"

definition worst_overhead_us :: "acquisition_window \<Rightarrow> nat" where
  "worst_overhead_us w = sample_overhead_max_us (win_summary w)"

definition recent :: "acquisition_window \<Rightarrow> nat \<Rightarrow> acquisition list" where
  "recent w want =
     map (\<lambda>back. win_ring w ! ((win_next w + WINDOW_CAPACITY - 1 - back) mod WINDOW_CAPACITY))
       [0 ..< min want (win_len w)]"

definition transferred_us :: "acquisition \<Rightarrow> nat \<Rightarrow> int" where
  "transferred_us sample query_bytes =
     (if query_bytes \<le> aq_bytes sample then int (min (aq_acquisition_us sample) (nat i64_max))
      else
        let body = aq_acquisition_us sample - aq_overhead_us sample;
            bytes = max (aq_bytes sample) 1;
            scaled = (body * query_bytes + bytes - 1) div bytes;
            total = sat_add u128_max scaled (aq_overhead_us sample)
        in int (min total (nat i64_max)))"

definition bound_us :: "acquisition_window \<Rightarrow> nat \<Rightarrow> admission_policy \<Rightarrow> int option" where
  "bound_us w query_bytes policy =
     (let len = window_len policy in
      if win_len w < len then None
      else
        let used = sort (map (\<lambda>sample. transferred_us sample query_bytes) (recent w len));
            k = min (max (ap_k policy) 1) len
        in Some (used ! (len - k)))"

definition evaluate_step ::
  "(acquisition \<Rightarrow> nat) \<Rightarrow> acquisition \<Rightarrow> int \<times> int \<times> int \<times> int \<Rightarrow> int \<times> int \<times> int \<times> int" where
  "evaluate_step query_bytes sample acc =
     (case acc of (demand, supply, excess, terminal) \<Rightarrow>
        let duration_us = sat_i64 (aq_media_duration_ms sample * 1000);
            transferred = transferred_us sample (query_bytes sample)
        in (sat_i64 (demand + transferred), sat_i64 (supply + duration_us),
            sat_i64 (excess + max (wrap_i64 (transferred - duration_us)) 0),
            max terminal (min transferred duration_us)))"

definition evaluate_recent ::
  "acquisition_window \<Rightarrow> nat \<Rightarrow> int \<Rightarrow> (acquisition \<Rightarrow> nat) \<Rightarrow> admission_verdict" where
  "evaluate_recent w len reserve_ms query_bytes =
     (case fold (evaluate_step query_bytes) (recent w len) (0, 0, 0, 0) of
        (demand, supply, excess, terminal) \<Rightarrow>
          let runway = sat_i64 (excess + terminal)
          in \<lparr>sustainable = (demand \<le> supply), survivable = (sat_i64 (reserve_ms * 1000) \<ge> runway),
              demand_us = demand, supply_us = supply, excess_us = excess, runway_us = runway,
              ad_samples = len\<rparr>)"

definition evaluate ::
  "acquisition_window \<Rightarrow> int \<Rightarrow> admission_policy \<Rightarrow> (acquisition \<Rightarrow> nat) \<Rightarrow> admission_verdict option" where
  "evaluate w reserve_ms policy query_bytes =
     (let len = window_len policy in
      if win_len w < len then None else Some (evaluate_recent w len reserve_ms query_bytes))"

definition admits ::
  "acquisition_window \<Rightarrow> nat \<Rightarrow> int \<Rightarrow> int \<Rightarrow> admission_policy \<Rightarrow> admission_verdict option" where
  "admits w query_bytes media_duration_ms reserve_ms policy =
     (if media_duration_ms \<le> 0 then None else evaluate w reserve_ms policy (\<lambda>_. query_bytes))"

definition admits_candidate ::
  "acquisition_window \<Rightarrow> nat \<Rightarrow> rung \<Rightarrow> int \<Rightarrow> admission_policy \<Rightarrow> admission_verdict option" where
  "admits_candidate w declared r reserve_ms policy =
     (if declared = 0 then None
      else evaluate w reserve_ms policy
        (\<lambda>sample. candidate_worst_case_bytes declared (aq_media_duration_ms sample)
                     (size_spread_pm r)))"

definition observed_admission :: "acquisition_window \<Rightarrow> int \<Rightarrow> admission_verdict option" where
  "observed_admission w reserve_ms = summary_admission (win_summary w) reserve_ms False"

definition observed_ordered_admission :: "acquisition_window \<Rightarrow> int \<Rightarrow> admission_verdict option" where
  "observed_ordered_admission w reserve_ms = summary_admission (win_summary w) reserve_ms True"

definition observed_runway_us :: "acquisition_window \<Rightarrow> int option" where
  "observed_runway_us w = map_option runway_us (observed_admission w 0)"

definition observed_readout :: "acquisition_window \<Rightarrow> int \<Rightarrow> admission_readout" where
  "observed_readout w reserve_ms =
     \<lparr>rd_have = sm_n (win_summary w), rd_want = sm_n (win_summary w), rd_effective_epsilon_pm = 0,
      rd_clamped = False, rd_bound_us = None, rd_admission = observed_admission w reserve_ms,
      rd_resets = win_resets w\<rparr>"

definition readout ::
  "acquisition_window \<Rightarrow> nat \<Rightarrow> int \<Rightarrow> int \<Rightarrow> admission_policy \<Rightarrow> admission_readout" where
  "readout w query_bytes media_duration_ms reserve_ms policy =
     \<lparr>rd_have = win_len w, rd_want = window_len policy,
      rd_effective_epsilon_pm = effective_epsilon_pm policy, rd_clamped = is_clamped policy,
      rd_bound_us = bound_us w query_bytes policy,
      rd_admission = admits w query_bytes media_duration_ms reserve_ms policy,
      rd_resets = win_resets w\<rparr>"

section \<open>The replay and its two runways\<close>

fun replay :: "int \<Rightarrow> (int \<times> int) list \<Rightarrow> bool" where
  "replay reserve [] = True"
| "replay reserve ((a, d) # xs) = (a \<le> reserve \<and> replay (reserve - a + d) xs)"

fun ordered_runway :: "(int \<times> int) list \<Rightarrow> int" where
  "ordered_runway [] = 0"
| "ordered_runway ((a, d) # xs) = max a (a - d + ordered_runway xs)"

definition deficit :: "(int \<times> int) list \<Rightarrow> int" where
  "deficit xs = (\<Sum>(a, d) \<leftarrow> xs. a - d)"

definition slack :: "(int \<times> int) list \<Rightarrow> int" where
  "slack xs = (\<Sum>(a, d) \<leftarrow> xs. max (a - d) 0)"

definition peak :: "(int \<times> int) list \<Rightarrow> int" where
  "peak xs = foldr max (map (\<lambda>(a, d). min a d) xs) 0"

definition timings_ok :: "(int \<times> int) list \<Rightarrow> bool" where
  "timings_ok xs = list_all (\<lambda>(a, d). 0 \<le> a \<and> 0 \<le> d) xs"

lemma timings_ok_simps [simp]:
  "timings_ok []"
  "timings_ok ((a, d) # xs) \<longleftrightarrow> 0 \<le> a \<and> 0 \<le> d \<and> timings_ok xs"
  "timings_ok (xs @ ys) \<longleftrightarrow> timings_ok xs \<and> timings_ok ys"
  by (simp_all add: timings_ok_def)

lemma deficit_simps [simp]:
  "deficit [] = 0" "deficit ((a, d) # xs) = a - d + deficit xs"
  "deficit (xs @ ys) = deficit xs + deficit ys"
  by (simp_all add: deficit_def)

lemma slack_simps [simp]:
  "slack [] = 0" "slack ((a, d) # xs) = max (a - d) 0 + slack xs"
  "slack (xs @ ys) = slack xs + slack ys"
  by (simp_all add: slack_def)

lemma peak_simps [simp]:
  "peak [] = 0" "peak ((a, d) # xs) = max (min a d) (peak xs)"
  by (simp_all add: peak_def)

lemma peak_ge_0 [simp]: "0 \<le> peak xs"
  by (induction xs) auto

lemma peak_append [simp]: "peak (xs @ ys) = max (peak xs) (peak ys)"
  by (induction xs) (auto simp: max.assoc)

lemma slack_ge_0 [simp]: "0 \<le> slack xs"
  by (induction xs) auto

lemma ordered_runway_ge_0: "timings_ok xs \<Longrightarrow> 0 \<le> ordered_runway xs"
  by (cases xs rule: ordered_runway.cases) auto

lemma replay_iff: "timings_ok xs \<Longrightarrow> replay b xs \<longleftrightarrow> xs = [] \<or> ordered_runway xs \<le> b"
proof (induction b xs rule: replay.induct)
  case (2 b a d xs)
  show ?case
  proof (cases xs)
    case Nil
    then show ?thesis using "2.prems" by auto
  next
    case (Cons y ys)
    have "ordered_runway xs \<le> b - a + d \<longleftrightarrow> a - d + ordered_runway xs \<le> b" by linarith
    with 2 Cons show ?thesis by simp
  qed
qed simp

lemma deficit_le_runway: "timings_ok xs \<Longrightarrow> deficit xs \<le> ordered_runway xs"
  by (induction xs rule: ordered_runway.induct) auto

lemma ordered_runway_append:
  "timings_ok xs \<Longrightarrow> timings_ok ys \<Longrightarrow>
   ordered_runway (xs @ ys) = max (ordered_runway xs) (deficit xs + ordered_runway ys)"
proof (induction xs rule: ordered_runway.induct)
  case 1
  then show ?case using ordered_runway_ge_0 [of ys] by simp
next
  case (2 a d xs)
  then have IH: "ordered_runway (xs @ ys) = max (ordered_runway xs) (deficit xs + ordered_runway ys)"
    by simp
  show ?case by (simp add: IH max_add_distrib_right max.assoc add.assoc)
qed

lemma ordered_runway_le_stress: "timings_ok xs \<Longrightarrow> ordered_runway xs \<le> slack xs + peak xs"
proof (induction xs rule: ordered_runway.induct)
  case (2 a d xs)
  then have IH: "ordered_runway xs \<le> slack xs + peak xs" by simp
  have "a \<le> max (a - d) 0 + slack xs + max (min a d) (peak xs)"
    using slack_ge_0 [of xs] by linarith
  moreover have "a - d + ordered_runway xs \<le> max (a - d) 0 + slack xs + max (min a d) (peak xs)"
    using IH by linarith
  ultimately show ?case by simp
qed simp

lemma slack_perm: "mset ys = mset xs \<Longrightarrow> slack ys = slack xs"
  by (simp add: slack_def flip: sum_mset_sum_list)

lemma peak_eq_Max: "peak xs = Max (insert 0 ((\<lambda>(a, d). min a d) ` set xs))"
proof (induction xs)
  case (Cons x xs)
  have "Max (insert 0 (insert y A)) = max y (Max (insert 0 A))" if "finite A" for y :: int and A
    using that by (simp add: insert_commute [of 0 y])
  from this [of "(\<lambda>(a, d). min a d) ` set xs"] Cons show ?case by (cases x) simp
qed simp

lemma peak_perm: "mset ys = mset xs \<Longrightarrow> peak ys = peak xs"
  unfolding peak_eq_Max by (drule mset_eq_setD) simp

lemma timings_ok_perm: "mset ys = mset xs \<Longrightarrow> timings_ok xs \<Longrightarrow> timings_ok ys"
proof -
  assume "mset ys = mset xs"
  then have "set ys = set xs" by (rule mset_eq_setD)
  then show "timings_ok xs \<Longrightarrow> timings_ok ys" by (simp add: timings_ok_def list_all_iff)
qed

lemma peak_attained:
  "xs \<noteq> [] \<Longrightarrow> timings_ok xs \<Longrightarrow> \<exists>a d. (a, d) \<in> set xs \<and> min a d = peak xs"
proof (induction xs)
  case (Cons x xs)
  obtain a d where x: "x = (a, d)" by (cases x)
  show ?case
  proof (cases "min a d \<ge> peak xs")
    case True
    then have "min a d = peak (x # xs)" unfolding x peak_simps by (rule max_absorb1 [symmetric])
    then show ?thesis using x by (intro exI [of _ a] exI [of _ d]) simp
  next
    case False
    with Cons.prems(2) have "xs \<noteq> []" by (auto simp: x)
    with Cons obtain a' d' where "(a', d') \<in> set xs" "min a' d' = peak xs" by (auto simp: x)
    moreover have "peak (x # xs) = peak xs"
      unfolding x peak_simps using False by (intro max_absorb2) linarith
    ultimately have "min a' d' = peak (x # xs)" by simp
    with \<open>(a', d') \<in> set xs\<close> show ?thesis by auto
  qed
qed simp

lemma deficit_of_positives: "deficit (filter (\<lambda>(a, d). d < a) xs) = slack xs"
  by (induction xs) auto

text \<open>The worst order: everything that drains first, then the largest single acquisition.\<close>

lemma worst_order:
  assumes "xs \<noteq> []" and "timings_ok xs"
  shows "\<exists>ys. mset ys = mset xs \<and> slack xs + peak xs \<le> ordered_runway ys"
proof -
  obtain a d where ad: "(a, d) \<in> set xs" "min a d = peak xs" using peak_attained [OF assms] by blast
  define zs where "zs = remove1 (a, d) xs"
  define ps where "ps = filter (\<lambda>(a, d). d < a) zs"
  define ns where "ns = filter (\<lambda>x. \<not> (case x of (a, d) \<Rightarrow> d < a)) zs"
  have xs: "mset xs = mset ((a, d) # zs)" using ad(1) by (simp add: zs_def)
  have perm: "mset (ps @ (a, d) # ns) = mset xs"
    by (simp add: xs ps_def ns_def)
  have ok: "timings_ok (ps @ (a, d) # ns)" using timings_ok_perm [OF perm assms(2)] .
  have "slack xs = max (a - d) 0 + slack zs" using slack_perm [OF xs] by simp
  then have "slack xs + peak xs = slack zs + a" using ad(2) by linarith
  also have "\<dots> \<le> deficit ps + ordered_runway ((a, d) # ns)"
    by (simp add: ps_def deficit_of_positives)
  also have "\<dots> \<le> ordered_runway (ps @ (a, d) # ns)"
    using ordered_runway_append [of ps "(a, d) # ns"] ok by simp
  finally show ?thesis using perm by blast
qed

lemma stress_iff_every_order:
  assumes "xs \<noteq> []" and "timings_ok xs"
  shows "slack xs + peak xs \<le> b \<longleftrightarrow> (\<forall>ys. mset ys = mset xs \<longrightarrow> replay b ys)"
proof
  assume le: "slack xs + peak xs \<le> b"
  show "\<forall>ys. mset ys = mset xs \<longrightarrow> replay b ys"
  proof (intro allI impI)
    fix ys assume p: "mset ys = mset xs"
    note ok = timings_ok_perm [OF p assms(2)]
    from ordered_runway_le_stress [OF ok]
    have "ordered_runway ys \<le> b" using le slack_perm [OF p] peak_perm [OF p] by simp
    then show "replay b ys" by (simp add: replay_iff [OF ok])
  qed
next
  assume all: "\<forall>ys. mset ys = mset xs \<longrightarrow> replay b ys"
  obtain ys where ys: "mset ys = mset xs" "slack xs + peak xs \<le> ordered_runway ys"
    using worst_order [OF assms] by blast
  with all have "replay b ys" by blast
  moreover have "ys \<noteq> []" using ys(1) assms(1) by auto
  ultimately have "ordered_runway ys \<le> b"
    by (simp add: replay_iff [OF timings_ok_perm [OF ys(1) assms(2)]])
  with ys(2) show "slack xs + peak xs \<le> b" by linarith
qed

section \<open>What the summary represents\<close>

definition acquisition_ok :: "acquisition \<Rightarrow> bool" where
  "acquisition_ok s = (0 < aq_acquisition_us s \<and> 0 < aq_media_duration_ms s)"

definition timing :: "acquisition \<Rightarrow> int \<times> int" where
  "timing s = (int (aq_acquisition_us s), aq_media_duration_ms s * 1000)"

definition timings :: "acquisition list \<Rightarrow> (int \<times> int) list" where
  "timings h = map timing h"

definition total_demand :: "(int \<times> int) list \<Rightarrow> int" where
  "total_demand xs = sum_list (map fst xs)"

definition total_supply :: "(int \<times> int) list \<Rightarrow> int" where
  "total_supply xs = sum_list (map snd xs)"

lemma total_simps [simp]:
  "total_demand [] = 0" "total_demand ((a, d) # xs) = a + total_demand xs"
  "total_demand (xs @ ys) = total_demand xs + total_demand ys"
  "total_supply [] = 0" "total_supply ((a, d) # xs) = d + total_supply xs"
  "total_supply (xs @ ys) = total_supply xs + total_supply ys"
  by (simp_all add: total_demand_def total_supply_def)

lemma timings_simps [simp]:
  "timings [] = []" "timings (xs @ ys) = timings xs @ timings ys" "timings (x # xs) = timing x # timings xs"
  by (simp_all add: timings_def)

lemma timings_are_ok: "list_all acquisition_ok h \<Longrightarrow> timings_ok (timings h)"
  by (induction h) (auto simp: timing_def acquisition_ok_def)

lemma totals_ge_0:
  "timings_ok xs \<Longrightarrow> 0 \<le> total_demand xs" "timings_ok xs \<Longrightarrow> 0 \<le> total_supply xs"
  by (induction xs) auto

lemma deficit_eq: "deficit xs = total_demand xs - total_supply xs"
  by (induction xs) auto

lemma stress_le_demand: "timings_ok xs \<Longrightarrow> slack xs + peak xs \<le> total_demand xs"
proof (induction xs)
  case (Cons x xs)
  obtain a d where x: "x = (a, d)" by (cases x)
  from Cons x have IH: "slack xs + peak xs \<le> total_demand xs" and ok: "0 \<le> a" "0 \<le> d" by auto
  have "max (a - d) 0 + min a d = a" by linarith
  with IH ok slack_ge_0 [of xs] peak_ge_0 [of xs]
  have "max (a - d) 0 + slack xs + max (min a d) (peak xs) \<le> a + total_demand xs" by linarith
  then show ?case by (simp add: x)
qed simp

text \<open>
  What a healthy summary says of the sequence it represents, and when it may be poisoned: only when
  the sums leave the range of \<open>i64\<close> or the count that of \<open>usize\<close>.
\<close>

definition summary_exact :: "admission_summary \<Rightarrow> (int \<times> int) list \<Rightarrow> bool" where
  "summary_exact s xs =
     (sum_acquisition_us s = total_demand xs \<and> sum_duration_us s = total_supply xs \<and>
      delta_us s = deficit xs \<and> max_prefix_runway_us s = ordered_runway xs \<and>
      positive_slack_sum_us s = slack xs \<and> max_capped_delivery_us s = peak xs \<and>
      is_i64 (slack xs + peak xs))"

definition summary_fits :: "(int \<times> int) list \<Rightarrow> bool" where
  "summary_fits xs = (total_demand xs + total_supply xs \<le> i64_max \<and> length xs \<le> usize_max)"

definition represents :: "admission_summary \<Rightarrow> acquisition list \<Rightarrow> bool" where
  "represents s h =
     (sm_n s = min usize_max (length h) \<and>
      sample_overhead_max_us s = foldr max (map aq_overhead_us h) 0 \<and>
      (\<not> overflowed s \<longrightarrow> length h \<le> usize_max \<and> summary_exact s (timings h)) \<and>
      (summary_fits (timings h) \<longrightarrow> \<not> overflowed s))"

lemma represents_unit: "represents summary_default []"
  by (simp add: represents_def summary_default_def summary_exact_def is_i64_def i64_max_def i64_min_def)

lemma fits_i64:
  assumes "timings_ok xs" and "total_demand xs + total_supply xs \<le> i64_max"
  shows "is_i64 (total_demand xs)" "is_i64 (total_supply xs)" "is_i64 (deficit xs)"
    "is_i64 (slack xs)" "is_i64 (slack xs + peak xs)"
proof -
  note ge = totals_ge_0 [OF assms(1)]
  have "slack xs + peak xs \<le> total_demand xs" by (rule stress_le_demand [OF assms(1)])
  then show "is_i64 (total_demand xs)" "is_i64 (total_supply xs)" "is_i64 (deficit xs)"
    "is_i64 (slack xs)" "is_i64 (slack xs + peak xs)"
    using ge assms(2) slack_ge_0 [of xs] peak_ge_0 [of xs]
    unfolding is_i64_def deficit_eq i64_min_def i64_max_def by linarith+
qed

lemma from_sample_eq:
  assumes "acquisition_ok x"
  defines "a \<equiv> int (aq_acquisition_us x)" and "d \<equiv> aq_media_duration_ms x * 1000"
  shows "from_sample x =
    (if is_i64 a \<and> is_i64 d \<and> is_i64 (a - d) \<and> is_i64 (max (a - d) 0 + min a d)
     then \<lparr>sm_n = 1, sum_acquisition_us = a, sum_duration_us = d, delta_us = a - d,
           max_prefix_runway_us = a, positive_slack_sum_us = max (a - d) 0,
           max_capped_delivery_us = min a d, sample_overhead_max_us = aq_overhead_us x,
           overflowed = False\<rparr>
     else poisoned 1 (aq_overhead_us x))"
  unfolding from_sample_def i64_of_nat_def a_def [symmetric] d_def [symmetric]
  by (simp add: checked_i64_def is_i64_def stress_runway_us_def Let_def)

lemma represents_single:
  assumes "acquisition_ok x"
  shows "represents (from_sample x) [x]"
proof -
  define a d where ad: "a = int (aq_acquisition_us x)" "d = aq_media_duration_ms x * 1000"
  have t: "timing x = (a, d)" by (simp add: timing_def ad)
  have ok: "timings_ok [(a, d)]" using timings_are_ok [of "[x]"] assms by (simp add: timing_def ad)
  then have "0 \<le> a" "0 \<le> d" by auto
  then have runway: "ordered_runway [(a, d)] = a" "peak [(a, d)] = min a d" by auto
  show ?thesis
  proof (cases "is_i64 a \<and> is_i64 d \<and> is_i64 (a - d) \<and> is_i64 (max (a - d) 0 + min a d)")
    case True
    then show ?thesis
      using \<open>0 \<le> a\<close> \<open>0 \<le> d\<close>
      by (simp add: from_sample_eq [OF assms] represents_def t summary_exact_def usize_max_def
          flip: ad)
  next
    case False
    then have "\<not> total_demand [(a, d)] + total_supply [(a, d)] \<le> i64_max"
      using fits_i64 [OF ok] \<open>0 \<le> a\<close> \<open>0 \<le> d\<close> by (auto simp: max_absorb1)
    moreover have "from_sample x = poisoned 1 (aq_overhead_us x)"
      unfolding from_sample_eq [OF assms] ad [symmetric] using False by (rule if_not_P)
    ultimately show ?thesis
      by (simp add: represents_def t poisoned_def summary_fits_def usize_max_def)
  qed
qed

lemma summary_combine_eq:
  "summary_combine s r =
     (let k = sm_n s + sm_n r; w = max (sample_overhead_max_us s) (sample_overhead_max_us r);
          acq = sum_acquisition_us s + sum_acquisition_us r;
          dur = sum_duration_us s + sum_duration_us r;
          slack = positive_slack_sum_us s + positive_slack_sum_us r;
          cap = max (max_capped_delivery_us s) (max_capped_delivery_us r)
      in if k > usize_max then poisoned usize_max w
         else if \<not> overflowed s \<and> \<not> overflowed r \<and> is_i64 acq \<and> is_i64 dur \<and> is_i64 (acq - dur) \<and>
           is_i64 (delta_us s + max_prefix_runway_us r) \<and> is_i64 slack \<and> is_i64 (slack + cap)
         then \<lparr>sm_n = k, sum_acquisition_us = acq, sum_duration_us = dur, delta_us = acq - dur,
               max_prefix_runway_us =
                 max (max_prefix_runway_us s) (max (delta_us s + max_prefix_runway_us r) 0),
               positive_slack_sum_us = slack, max_capped_delivery_us = cap,
               sample_overhead_max_us = w, overflowed = False\<rparr>
         else poisoned k w)"
  by (simp add: summary_combine_def checked_i64_def checked_nat_def is_i64_def stress_runway_us_def
      Let_def not_le)

lemma runway_append:
  assumes "timings_ok xs" and "timings_ok ys"
  shows "max (ordered_runway xs) (max (deficit xs + ordered_runway ys) 0) = ordered_runway (xs @ ys)"
  using ordered_runway_append [OF assms] ordered_runway_ge_0 [OF assms(1)] by linarith

lemma ordered_le_demand: "timings_ok xs \<Longrightarrow> ordered_runway xs \<le> total_demand xs"
  using ordered_runway_le_stress stress_le_demand order_trans by blast

lemma fits_append:
  assumes "timings_ok xs" "timings_ok ys" "summary_fits (xs @ ys)"
  shows "summary_fits xs" "summary_fits ys" "is_i64 (deficit xs + ordered_runway ys)"
proof -
  note ge = totals_ge_0 [OF assms(1)] totals_ge_0 [OF assms(2)]
  have sum: "total_demand xs + total_demand ys + (total_supply xs + total_supply ys) \<le> i64_max"
    and len: "length xs + length ys \<le> usize_max" using assms(3) by (auto simp: summary_fits_def)
  show "summary_fits xs" "summary_fits ys" using ge sum len by (auto simp: summary_fits_def)
  show "is_i64 (deficit xs + ordered_runway ys)"
    using ge sum ordered_le_demand [OF assms(2)] ordered_runway_ge_0 [OF assms(2)]
    unfolding is_i64_def deficit_eq i64_min_def i64_max_def by linarith
qed

lemma foldr_max_append:
  "foldr max (map f (xs @ ys)) (0::nat) = max (foldr max (map f xs) 0) (foldr max (map f ys) 0)"
  by (induction xs) (simp_all add: max.assoc)

lemma represents_healthy:
  "represents s h \<Longrightarrow> \<not> overflowed s \<Longrightarrow>
   sm_n s = length h \<and> length h \<le> usize_max \<and> summary_exact s (timings h)"
  by (simp add: represents_def)

lemma represents_combine:
  assumes s: "represents s xs" and r: "represents r ys"
    and okx: "list_all acquisition_ok xs" and oky: "list_all acquisition_ok ys"
  shows "represents (summary_combine s r) (xs @ ys)"
proof -
  note tx = timings_are_ok [OF okx] and ty = timings_are_ok [OF oky]
  have txy: "timings_ok (timings xs @ timings ys)" using tx ty by simp
  let ?k = "sm_n s + sm_n r" and ?t = "summary_combine s r"
  have n: "sm_n s = min usize_max (length xs)" "sm_n r = min usize_max (length ys)"
    and w: "max (sample_overhead_max_us s) (sample_overhead_max_us r)
      = foldr max (map aq_overhead_us (xs @ ys)) 0"
    using s r by (simp_all only: represents_def foldr_max_append)
  define healthy where "healthy \<longleftrightarrow> ?k \<le> usize_max \<and> \<not> overflowed s \<and> \<not> overflowed r \<and>
    is_i64 (sum_acquisition_us s + sum_acquisition_us r) \<and>
    is_i64 (sum_duration_us s + sum_duration_us r) \<and>
    is_i64 (sum_acquisition_us s + sum_acquisition_us r - (sum_duration_us s + sum_duration_us r)) \<and>
    is_i64 (delta_us s + max_prefix_runway_us r) \<and>
    is_i64 (positive_slack_sum_us s + positive_slack_sum_us r) \<and>
    is_i64 (positive_slack_sum_us s + positive_slack_sum_us r
      + max (max_capped_delivery_us s) (max_capped_delivery_us r))"
  have fits: "healthy" if "summary_fits (timings (xs @ ys))"
  proof -
    note parts = fits_append [OF tx ty that [unfolded timings_simps]]
    have "total_demand (timings xs @ timings ys) + total_supply (timings xs @ timings ys) \<le> i64_max"
      using that by (simp add: summary_fits_def)
    note i64 = fits_i64 [OF txy this]
    have "\<not> overflowed s" "\<not> overflowed r" using s r parts by (auto simp: represents_def)
    moreover have "summary_exact s (timings xs)" "summary_exact r (timings ys)"
      using represents_healthy [OF s] represents_healthy [OF r] calculation by auto
    moreover have "?k \<le> usize_max" using that by (simp add: n summary_fits_def timings_def)
    ultimately show ?thesis using i64 parts(3)
      by (simp add: healthy_def summary_exact_def deficit_eq)
  qed
  show ?thesis
  proof (cases healthy)
    case True
    then have es: "summary_exact s (timings xs)" and er: "summary_exact r (timings ys)"
      and k: "?k = length xs + length ys" "?k \<le> usize_max"
      using represents_healthy [OF s] represents_healthy [OF r] by (auto simp: healthy_def)
    have t: "?t = \<lparr>sm_n = ?k, sum_acquisition_us = total_demand (timings (xs @ ys)),
        sum_duration_us = total_supply (timings (xs @ ys)), delta_us = deficit (timings (xs @ ys)),
        max_prefix_runway_us = ordered_runway (timings (xs @ ys)),
        positive_slack_sum_us = slack (timings (xs @ ys)),
        max_capped_delivery_us = peak (timings (xs @ ys)),
        sample_overhead_max_us = foldr max (map aq_overhead_us (xs @ ys)) 0, overflowed = False\<rparr>"
      using True es er
      unfolding summary_combine_eq Let_def w [symmetric] timings_simps runway_append [OF tx ty, symmetric]
      by (simp add: healthy_def summary_exact_def deficit_eq)
    have "is_i64 (slack (timings (xs @ ys)) + peak (timings (xs @ ys)))"
      using True es er by (simp add: healthy_def summary_exact_def)
    then show ?thesis using k unfolding t represents_def summary_exact_def by simp
  next
    case False
    then have "?t = poisoned (if ?k > usize_max then usize_max else ?k)
        (max (sample_overhead_max_us s) (sample_overhead_max_us r))"
      unfolding summary_combine_eq Let_def healthy_def by auto
    then have t: "?t = poisoned (min usize_max (length (xs @ ys))) (foldr max (map aq_overhead_us (xs @ ys)) 0)"
      unfolding w n by (auto simp: min_def)
    show ?thesis unfolding t represents_def using False fits by (auto simp: poisoned_def)
  qed
qed

interpretation summary: sequence_summary summary_default from_sample summary_combine represents acquisition_ok
  by unfold_locales (simp_all add: represents_unit represents_single represents_combine)

section \<open>Every run of the window\<close>

text \<open>
  A window is only ever changed by an observation and by a reset. \<open>window_run\<close> is the window the
  code holds after a sequence of them, \<open>window_history\<close> the acquisitions since the last reset.
\<close>

datatype window_op = Observe nat nat nat int | Reset

fun window_apply :: "acquisition_window \<Rightarrow> window_op \<Rightarrow> acquisition_window" where
  "window_apply w (Observe bytes acq act dur) = window_observe bytes acq act dur w"
| "window_apply w Reset = window_reset w"

fun history_apply :: "acquisition list \<Rightarrow> window_op \<Rightarrow> acquisition list" where
  "history_apply h (Observe bytes acq act dur) =
     (if bytes = 0 \<or> acq = 0 \<or> dur \<le> 0 then h
      else h @ [\<lparr>aq_bytes = bytes, aq_acquisition_us = acq, aq_media_duration_ms = dur,
                 aq_overhead_us = acq - min act acq\<rparr>])"
| "history_apply h Reset = []"

definition window_run :: "window_op list \<Rightarrow> acquisition_window" where
  "window_run ops = foldl window_apply window_default ops"

definition window_history :: "window_op list \<Rightarrow> acquisition list" where
  "window_history ops = foldl history_apply [] ops"

inductive window_step ::
  "acquisition_window \<times> acquisition list \<Rightarrow> acquisition_window \<times> acquisition list \<Rightarrow> bool" where
  "window_step (w, h) (window_apply w op, history_apply h op)"

inductive_cases window_stepE: "window_step s t"

definition ring_tracks :: "acquisition_window \<Rightarrow> acquisition list \<Rightarrow> bool" where
  "ring_tracks w h =
     (length (win_ring w) = WINDOW_CAPACITY \<and> win_len w = min (length h) WINDOW_CAPACITY \<and>
      win_next w = length h mod WINDOW_CAPACITY \<and>
      (\<forall>i < length h. length h \<le> i + WINDOW_CAPACITY \<longrightarrow>
         win_ring w ! (i mod WINDOW_CAPACITY) = h ! i))"

definition window_tracks :: "acquisition_window \<times> acquisition list \<Rightarrow> bool" where
  "window_tracks s =
     (ring_tracks (fst s) (snd s) \<and> represents (win_summary (fst s)) (snd s) \<and>
      list_all acquisition_ok (snd s))"

lemma mod_ne_within:
  fixes i j m :: nat
  assumes "i < j" "j < i + m"
  shows "i mod m \<noteq> j mod m"
proof
  assume "i mod m = j mod m"
  then have "j mod m = i mod m" by simp
  then have "m dvd j - i" using assms(1) by (simp add: mod_eq_dvd_iff_nat)
  then show False using assms by (auto dest: dvd_imp_le)
qed

lemma ring_tracks_snoc:
  assumes "ring_tracks w h"
  shows "ring_tracks (w\<lparr>win_summary := s, win_ring := (win_ring w)[win_next w := x],
    win_next := (win_next w + 1) mod WINDOW_CAPACITY,
    win_len := min (win_len w + 1) WINDOW_CAPACITY\<rparr>) (h @ [x])"
proof -
  let ?C = WINDOW_CAPACITY
  have C: "0 < ?C" by (simp add: WINDOW_CAPACITY_def)
  have "(win_ring w)[win_next w := x] ! (i mod ?C) = (h @ [x]) ! i"
    if i: "i < length h + 1" "length h + 1 \<le> i + ?C" for i
  proof (cases "i = length h")
    case True
    then show ?thesis using assms C by (simp add: ring_tracks_def nth_append)
  next
    case False
    with i have "i mod ?C \<noteq> length h mod ?C" by (intro mod_ne_within) auto
    with False i assms C show ?thesis by (simp add: ring_tracks_def nth_append)
  qed
  then show ?thesis using assms by (simp add: ring_tracks_def mod_Suc_eq min_def)
qed

lemma window_step_tracks: "window_step s t \<Longrightarrow> window_tracks s \<Longrightarrow> window_tracks t"
proof (elim window_stepE)
  fix w h op
  assume s: "s = (w, h)" and t: "t = (window_apply w op, history_apply h op)" and inv: "window_tracks s"
  show "window_tracks t"
  proof (cases op)
    case Reset
    then show ?thesis
      by (simp add: t window_tracks_def window_reset_def window_default_def ring_tracks_def
          summary.represents_unit)
  next
    case (Observe bytes acq act dur)
    show ?thesis
    proof (cases "bytes = 0 \<or> acq = 0 \<or> dur \<le> 0")
      case True
      then show ?thesis using inv Observe by (simp add: s t window_observe_def)
    next
      case False
      then have ok: "acquisition_ok \<lparr>aq_bytes = bytes, aq_acquisition_us = acq,
          aq_media_duration_ms = dur, aq_overhead_us = acq - min act acq\<rparr>"
        by (simp add: acquisition_ok_def)
      from summary.represents_snoc [OF _ _ ok] ok False Observe inv ring_tracks_snoc [of w h]
      show ?thesis
        by (simp add: s t window_tracks_def window_observe_def Let_def)
    qed
  qed
qed

lemma window_default_tracks: "window_tracks (window_default, [])"
  by (simp add: window_tracks_def window_default_def ring_tracks_def summary.represents_unit)

interpretation windows: state_machine "\<lambda>s. s = (window_default, [])" window_step window_tracks
  by unfold_locales (auto intro: window_step_tracks window_default_tracks)

lemma window_run_reachable: "windows.reachable (window_run ops, window_history ops)"
  unfolding window_run_def window_history_def
proof (induction ops rule: rev_induct)
  case (snoc op ops)
  then show ?case by (auto intro: windows.more window_step.intros)
qed (simp add: windows.init)

lemmas window_run_tracks = windows.reachable_inv [OF window_run_reachable]

lemma window_run_summary: "represents (win_summary (window_run ops)) (window_history ops)"
  and window_run_ring: "ring_tracks (window_run ops) (window_history ops)"
  and window_history_ok: "list_all acquisition_ok (window_history ops)"
  using window_run_tracks [of ops] by (simp_all add: window_tracks_def)

section \<open>The verdict on the samples of a run\<close>

lemma represents_empty_iff: "represents s h \<Longrightarrow> sm_n s = 0 \<longleftrightarrow> h = []"
  by (auto simp: represents_def usize_max_def min_def split: if_splits)

definition survives :: "int \<Rightarrow> int \<Rightarrow> bool" where
  "survives reserve_ms runway =
     (case checked_i64 (reserve_ms * 1000) of None \<Rightarrow> False | Some reserve_us \<Rightarrow> reserve_us \<ge> runway)"

lemma survivesD: "survives r runway \<Longrightarrow> runway \<le> r * 1000"
  by (simp add: survives_def checked_i64_def split: if_splits)

lemma survives_iff: "is_i64 (r * 1000) \<Longrightarrow> survives r runway \<longleftrightarrow> runway \<le> r * 1000"
  by (simp add: survives_def checked_i64_def is_i64_def)

text \<open>What the verdict of a healthy and of a poisoned summary is, in terms of the samples.\<close>

lemma summary_admission_healthy:
  assumes "represents s h" and "h \<noteq> []" and "\<not> overflowed s"
  shows "\<exists>a. summary_admission s r ordered = Some a \<and>
    (sustainable a \<longleftrightarrow> total_demand (timings h) \<le> total_supply (timings h)) \<and>
    (survivable a \<longleftrightarrow> survives r (if ordered then ordered_runway (timings h)
                               else slack (timings h) + peak (timings h)))"
proof -
  from represents_healthy [OF assms(1,3)] have e: "summary_exact s (timings h)" by simp
  then have "stress_runway_us s = Some (slack (timings h) + peak (timings h))"
    by (simp add: summary_exact_def stress_runway_us_def checked_i64_def is_i64_def)
  then show ?thesis
    using e assms represents_empty_iff [OF assms(1)]
    by (cases ordered) (simp_all add: summary_admission_def summary_exact_def survives_def Let_def)
qed

lemma summary_admission_None:
  "represents s h \<Longrightarrow> summary_admission s r ordered = None \<longleftrightarrow> h = []"
  by (simp add: summary_admission_def represents_empty_iff Let_def split: option.splits)

lemma summary_admission_poisoned:
  "represents s h \<Longrightarrow> overflowed s \<Longrightarrow> summary_admission s r ordered = Some a \<Longrightarrow>
   \<not> sustainable a \<and> \<not> survivable a"
  by (auto simp: summary_admission_def conservative_refusal_def split: if_splits)

lemma summary_admission_safe:
  assumes "represents s h" and "summary_admission s r ordered = Some a"
  shows "h \<noteq> [] \<and>
    (sustainable a \<longrightarrow> total_demand (timings h) \<le> total_supply (timings h)) \<and>
    (survivable a \<longrightarrow> (if ordered then ordered_runway (timings h)
                      else slack (timings h) + peak (timings h)) \<le> r * 1000)"
proof (cases "overflowed s")
  case True
  from summary_admission_None [OF assms(1), of r ordered] have "h \<noteq> []" using assms(2) by auto
  with summary_admission_poisoned [OF assms(1) True assms(2)] show ?thesis by simp
next
  case False
  have ne: "h \<noteq> []" using summary_admission_None [OF assms(1), of r ordered] assms(2) by auto
  from summary_admission_healthy [OF assms(1) ne False, of r ordered] assms(2)
  have "sustainable a \<longleftrightarrow> total_demand (timings h) \<le> total_supply (timings h)"
    and "survivable a \<longleftrightarrow> survives r (if ordered then ordered_runway (timings h)
      else slack (timings h) + peak (timings h))" by auto
  then show ?thesis using ne survivesD by blast
qed

text \<open>
  C2. The order free verdict of the admission window is exact: after any sequence of observations and
  resets whose totals stay in the range of the machine integers, the window calls the playback
  survivable exactly when the given reserve carries the recorded acquisitions in every order they
  could have come in, and sustainable exactly when they took no longer than the media they brought.
\<close>

theorem order_free_admission_exact:
  assumes "summary_fits (timings (window_history ops))" and "window_history ops \<noteq> []"
    and "is_i64 (reserve_ms * 1000)"
  shows "\<exists>a. observed_admission (window_run ops) reserve_ms = Some a \<and>
    (survivable a \<longleftrightarrow> (\<forall>ys. mset ys = mset (timings (window_history ops)) \<longrightarrow>
       replay (reserve_ms * 1000) ys)) \<and>
    (sustainable a \<longleftrightarrow>
       total_demand (timings (window_history ops)) \<le> total_supply (timings (window_history ops)))"
proof -
  let ?h = "window_history ops"
  have "\<not> overflowed (win_summary (window_run ops))"
    using window_run_summary [of ops] assms(1) by (simp add: represents_def)
  from summary_admission_healthy [OF window_run_summary assms(2) this, of reserve_ms False]
  obtain a where "observed_admission (window_run ops) reserve_ms = Some a"
    "sustainable a \<longleftrightarrow> total_demand (timings ?h) \<le> total_supply (timings ?h)"
    "survivable a \<longleftrightarrow> survives reserve_ms (slack (timings ?h) + peak (timings ?h))"
    by (auto simp: observed_admission_def)
  moreover have "timings ?h \<noteq> []" using assms(2) by (cases ?h) auto
  from stress_iff_every_order [OF this timings_are_ok [OF window_history_ok], of "reserve_ms * 1000"]
  have "survives reserve_ms (slack (timings ?h) + peak (timings ?h)) \<longleftrightarrow>
    (\<forall>ys. mset ys = mset (timings ?h) \<longrightarrow> replay (reserve_ms * 1000) ys)"
    by (simp only: survives_iff [OF assms(3)])
  ultimately show ?thesis by blast
qed

theorem order_free_admission_exact_witness:
  "replay 7000000 [(2000000, 6000000), (7000000, 6000000)] \<and>
   \<not> (\<exists>a. observed_admission
        (window_run [Observe 500 7000000 6000000 6000, Observe 900 2000000 1900000 6000]) 6000
          = Some a \<and> survivable a)"
proof -
  let ?ops = "[Observe 500 7000000 6000000 6000, Observe 900 2000000 1900000 6000]"
  have h: "timings (window_history ?ops) = [(7000000, 6000000), (2000000, 6000000)]"
    by (simp add: window_history_def timing_def)
  have fits: "summary_fits (timings (window_history ?ops))"
    unfolding h by (simp add: summary_fits_def i64_max_def usize_max_def)
  have ne: "window_history ?ops \<noteq> []" by (simp add: window_history_def)
  have r: "is_i64 (6000 * 1000)" by (simp add: is_i64_def i64_max_def i64_min_def)
  have "\<not> replay (6000 * 1000) [(7000000, 6000000), (2000000, 6000000)]" by simp
  then have "\<not> (\<forall>ys. mset ys = mset (timings (window_history ?ops)) \<longrightarrow> replay (6000 * 1000) ys)"
    unfolding h by blast
  with order_free_admission_exact [OF fits ne r] show ?thesis by auto
qed

text \<open>
  Neither verdict of the window is ever optimistic, with no bound on the integers: whatever
  sequence of observations and resets came before, a survivable verdict means the reserve really
  carries the recorded acquisitions (in their own order for the ordered verdict, in every order for
  the order free one), a sustainable one means they took no longer than their media, and there is no
  verdict exactly when nothing was recorded.
\<close>

theorem admission_never_optimistic:
  "(case observed_ordered_admission (window_run ops) r of
      None \<Rightarrow> window_history ops = []
    | Some a \<Rightarrow> window_history ops \<noteq> [] \<and>
        (survivable a \<longrightarrow> replay (r * 1000) (timings (window_history ops))) \<and>
        (sustainable a \<longrightarrow>
          total_demand (timings (window_history ops)) \<le> total_supply (timings (window_history ops)))) \<and>
   (case observed_admission (window_run ops) r of
      None \<Rightarrow> window_history ops = []
    | Some a \<Rightarrow> window_history ops \<noteq> [] \<and>
        (survivable a \<longrightarrow> (\<forall>ys. mset ys = mset (timings (window_history ops)) \<longrightarrow>
          replay (r * 1000) ys)) \<and>
        (sustainable a \<longrightarrow>
          total_demand (timings (window_history ops)) \<le> total_supply (timings (window_history ops))))"
proof -
  let ?h = "window_history ops" and ?w = "win_summary (window_run ops)"
  note ok = timings_are_ok [OF window_history_ok [of ops]]
  have ordered: "window_history ops \<noteq> [] \<and> (survivable a \<longrightarrow> replay (r * 1000) (timings ?h)) \<and>
      (sustainable a \<longrightarrow> total_demand (timings ?h) \<le> total_supply (timings ?h))"
    if "summary_admission ?w r True = Some a" for a
    using summary_admission_safe [OF window_run_summary that] replay_iff [OF ok, of "r * 1000"] by auto
  have free: "window_history ops \<noteq> [] \<and>
      (survivable a \<longrightarrow> (\<forall>ys. mset ys = mset (timings ?h) \<longrightarrow> replay (r * 1000) ys)) \<and>
      (sustainable a \<longrightarrow> total_demand (timings ?h) \<le> total_supply (timings ?h))"
    if "summary_admission ?w r False = Some a" for a
  proof -
    note safe = summary_admission_safe [OF window_run_summary that]
    then have "timings ?h \<noteq> []" by (cases ?h) auto
    from stress_iff_every_order [OF this ok, of "r * 1000"] safe show ?thesis by auto
  qed
  show ?thesis
    unfolding observed_ordered_admission_def observed_admission_def
    using ordered free summary_admission_None [OF window_run_summary [of ops], of r]
    by (auto split: option.split)
qed

theorem admission_never_optimistic_witness:
  "survivable (the (observed_ordered_admission (window_run [Observe 900 2000000 1900000 6000]) 2000)) \<and>
   replay (2000 * 1000) (timings (window_history [Observe 900 2000000 1900000 6000]))"
proof -
  let ?ops = "[Observe 900 2000000 1900000 6000]"
  have some: "\<exists>a. observed_ordered_admission (window_run ?ops) 2000 = Some a \<and> survivable a"
    by (simp add: observed_ordered_admission_def window_run_def window_observe_def window_default_def
        summary_default_def from_sample_def summary_combine_def summary_admission_def
        stress_runway_us_def i64_of_nat_def checked_i64_def checked_nat_def i64_max_def i64_min_def
        usize_max_def Let_def)
  with admission_never_optimistic [of ?ops 2000, THEN conjunct1] show ?thesis by auto
qed

section \<open>The ring and its order statistic\<close>

lemma ring_index:
  fixes L i C :: nat
  assumes "i < L" "i < C"
  shows "(L mod C + C - 1 - i) mod C = (L - 1 - i) mod C"
proof -
  have "L mod C + C - 1 - i + C * (L div C) = L - 1 - i + C"
    using assms mod_mult_div_eq [of L C] by linarith
  then have "(L mod C + C - 1 - i + C * (L div C)) mod C = (L - 1 - i + C) mod C" by simp
  then show ?thesis by simp
qed

lemma recent_eq:
  assumes "ring_tracks w h" and "k \<le> WINDOW_CAPACITY"
  shows "recent w k = take k (rev h)"
proof (rule nth_equalityI)
  show len: "length (recent w k) = length (take k (rev h))"
    using assms by (simp add: recent_def ring_tracks_def min_def)
  fix i assume "i < length (recent w k)"
  with len have i: "i < k" "i < length h" by auto
  with assms(2) have iC: "i < WINDOW_CAPACITY" by simp
  have "recent w k ! i = win_ring w ! ((length h - 1 - i) mod WINDOW_CAPACITY)"
    using assms i iC ring_index [OF i(2) iC] by (simp add: recent_def ring_tracks_def)
  also have "\<dots> = h ! (length h - 1 - i)"
    using assms(1) i iC by (simp add: ring_tracks_def)
  finally show "recent w k ! i = take k (rev h) ! i" using i by (simp add: rev_nth)
qed

text \<open>
  The ring of 64 slots is the recent past: after any sequence of observations and resets, asking
  for the \<open>k\<close> most recent acquisitions yields the last \<open>k\<close> recorded since the last reset (all of them
  when there are fewer), newest first.
\<close>

theorem ring_is_recent_history:
  assumes "k \<le> WINDOW_CAPACITY"
  shows "recent (window_run ops) k = take k (rev (window_history ops))"
  by (rule recent_eq [OF window_run_ring assms])

theorem ring_is_recent_history_witness:
  "map aq_bytes (recent (window_run (map (\<lambda>i. Observe (i + 1) 5 5 6) [0..<70])) 3) = [70, 69, 68]"
proof -
  let ?ops = "map (\<lambda>i. Observe (i + 1) 5 5 6) [0..<70]"
  have h: "map aq_bytes (window_history (map (\<lambda>i. Observe (i + 1) 5 5 6) [0..<k])) = [1..<k + 1]" for k
    by (induction k) (simp_all add: window_history_def)
  have "map aq_bytes (take 3 (rev (window_history ?ops))) = [70, 69, 68]"
    unfolding take_map [symmetric] rev_map [symmetric] h by (simp add: upt_rec)
  then show ?thesis
    using ring_is_recent_history [of 3 ?ops] by (simp add: WINDOW_CAPACITY_def)
qed

lemma requested_len_eq:
  "requested_len p = (max (ap_k p) 1 * 1000 - 1) div max (epsilon_pm p) 1"
proof -
  define a e where ae: "a = max (ap_k p) 1 * 1000" "e = max (epsilon_pm p) 1"
  have "0 < a" "0 < e" by (simp_all add: ae)
  then have "(a + (e - 1)) div e = ((a - 1) + e) div e" by simp
  also have "\<dots> = (a - 1) div e + 1" using div_add_self2 [of e "a - 1"] \<open>0 < e\<close> by (simp del: One_nat_def)
  finally show ?thesis unfolding requested_len_def ae [symmetric] by (simp del: One_nat_def)
qed

lemma requested_len_least:
  "requested_len p \<le> m \<longleftrightarrow> max (ap_k p) 1 * 1000 \<le> max (epsilon_pm p) 1 * (m + 1)"
proof -
  define a e where ae: "a = max (ap_k p) 1 * 1000" "e = max (epsilon_pm p) 1"
  have pos: "0 < a" "0 < e" by (simp_all add: ae)
  have "(a - 1) div e \<le> m \<longleftrightarrow> a - 1 < (m + 1) * e"
    using div_less_iff_less_mult [OF pos(2), of "a - 1" "m + 1"] by (simp add: less_Suc_eq_le)
  also have "\<dots> \<longleftrightarrow> a \<le> e * (m + 1)" using pos by (simp add: mult.commute) linarith
  finally show ?thesis unfolding requested_len_eq ae [symmetric] .
qed

text \<open>
  The window length is the shortest that honours the policy: when the request is not clamped, it
  is the least number of samples for which the \<open>k\<close>-th largest is exceeded with probability at most
  the policy's epsilon by exchangeability (\<open>k/(n+1)\<close>), and the epsilon the readout reports for it is
  never worse than the policy's; when it is clamped, the window is full and the reported epsilon is
  never better than the policy's.
\<close>

theorem window_len_least:
  assumes "0 < ap_k p" and "0 < epsilon_pm p" and "epsilon_pm p \<le> 1000"
    and "requested_len p < 2 ^ 32"
  shows "(\<not> is_clamped p \<longrightarrow>
      (\<forall>m > 0. window_len p \<le> m \<longleftrightarrow> ap_k p * 1000 \<le> epsilon_pm p * (m + 1)) \<and>
      effective_epsilon_pm p \<le> epsilon_pm p) \<and>
    (is_clamped p \<longrightarrow> window_len p = WINDOW_CAPACITY \<and> epsilon_pm p \<le> effective_epsilon_pm p)"
proof -
  let ?k = "ap_k p" and ?e = "epsilon_pm p" and ?n = "window_len p"
  have k: "max ?k 1 = ?k" "max ?e 1 = ?e" using assms by auto
  have n: "?n = min (max (requested_len p) 1) 64"
    using assms(4) by (simp add: window_len_def WINDOW_CAPACITY_def)
  have least: "requested_len p \<le> m \<longleftrightarrow> ?k * 1000 \<le> ?e * (m + 1)" for m
    using requested_len_least [of p m] by (simp only: k)
  have eff: "effective_epsilon_pm p = min ((?k * 1000 + ?n) div (?n + 1)) 1000"
    by (simp add: effective_epsilon_pm_def k Let_def del: One_nat_def)
  have unclamped: "(\<forall>m > 0. ?n \<le> m \<longleftrightarrow> ?k * 1000 \<le> ?e * (m + 1)) \<and> effective_epsilon_pm p \<le> ?e"
    if "\<not> is_clamped p"
  proof -
    have r: "requested_len p \<le> 64" using that by (simp add: is_clamped_def WINDOW_CAPACITY_def)
    have all: "?n \<le> m \<longleftrightarrow> ?k * 1000 \<le> ?e * (m + 1)" if "0 < m" for m
      using that r unfolding least [symmetric] n by linarith
    have "?k * 1000 \<le> ?e * (?n + 1)" using all [of ?n] n by simp
    then have "(?k * 1000 + ?n) div (?n + 1) \<le> (?n + ?e * (?n + 1)) div (?n + 1)"
      by (intro div_le_mono) simp
    also have "\<dots> = ?e"
      using div_mult_self1 [of "?n + 1" ?n ?e] by (simp del: div_mult_self1 add: mult.commute)
    finally show ?thesis using all eff by simp
  qed
  have clamped: "?n = WINDOW_CAPACITY \<and> ?e \<le> effective_epsilon_pm p" if "is_clamped p"
  proof -
    have r: "64 < requested_len p" using that by (simp add: is_clamped_def WINDOW_CAPACITY_def)
    then have n64: "?n = 64" by (simp add: n)
    have "?e * 65 < ?k * 1000" using least [of 64] r by simp
    then have "?e * 65 div 65 \<le> (?k * 1000 + 64) div 65" by (intro div_le_mono) simp
    then show ?thesis using n64 eff assms(3) by (simp add: WINDOW_CAPACITY_def)
  qed
  show ?thesis using unclamped clamped by blast
qed

theorem window_len_least_witness:
  "window_len (admission policy_measured) = 19 \<and> effective_epsilon_pm (admission policy_measured) \<le> 50"
proof -
  let ?p = "admission policy_measured"
  have p: "ap_k ?p = 1" "epsilon_pm ?p = 50" by (simp_all add: policy_measured_def)
  have r: "requested_len ?p = 19" by (simp add: requested_len_def p)
  have nc: "\<not> is_clamped ?p" by (simp add: is_clamped_def r WINDOW_CAPACITY_def)
  have h: "0 < ap_k ?p" "0 < epsilon_pm ?p" "epsilon_pm ?p \<le> 1000" "requested_len ?p < 2 ^ 32"
    by (simp_all add: p r)
  from window_len_least [OF h] nc have "effective_epsilon_pm ?p \<le> epsilon_pm ?p" by blast
  then show ?thesis by (simp add: window_len_def r WINDOW_CAPACITY_def p)
qed

text \<open>The \<open>k\<close>-th largest of a list: fewer than \<open>k\<close> values are above it, at least \<open>k\<close> reach it.\<close>

lemma order_statistic:
  fixes xs :: "int list"
  assumes "0 < k" and "k \<le> length xs"
  defines "b \<equiv> sort xs ! (length xs - k)"
  shows "length (filter (\<lambda>x. b < x) xs) < k" "k \<le> length (filter (\<lambda>x. b \<le> x) xs)"
proof -
  let ?s = "sort xs" and ?m = "length xs - k"
  have perm: "length (filter P xs) = length (filter P ?s)" for P
    by (metis mset_filter mset_sort size_mset)
  have b: "b = ?s ! ?m" by (simp add: b_def)
  have low: "?s ! i \<le> b" if "i \<le> ?m" for i
    unfolding b using that assms by (intro sorted_nth_mono) auto
  have high: "b \<le> ?s ! i" if "?m \<le> i" "i < length xs" for i
    unfolding b using that assms by (intro sorted_nth_mono) auto
  have "length (filter (\<lambda>x. b < x) ?s) = card {i. i < length ?s \<and> b < ?s ! i}"
    by (rule length_filter_conv_card)
  also have "\<dots> \<le> card {?m + 1 ..< length xs}"
    using low by (intro card_mono) (auto simp: not_le [symmetric] Suc_le_eq intro: leI)
  finally show "length (filter (\<lambda>x. b < x) xs) < k" using assms by (simp add: perm)
  have "k = card {?m ..< length xs}" using assms by simp
  also have "\<dots> \<le> card {i. i < length ?s \<and> b \<le> ?s ! i}"
    using high by (intro card_mono) auto
  also have "\<dots> = length (filter (\<lambda>x. b \<le> x) ?s)" by (rule length_filter_conv_card [symmetric])
  finally show "k \<le> length (filter (\<lambda>x. b \<le> x) xs)" by (simp add: perm)
qed

lemma window_len_range: "0 < window_len p" "window_len p \<le> WINDOW_CAPACITY"
  by (simp_all add: window_len_def WINDOW_CAPACITY_def)

text \<open>
  The bound of the window is the order statistic it is named for: once the window is full enough
  it is the \<open>k\<close>-th largest duration the last acquisitions of the run would have taken for the queried
  size (fewer than \<open>k\<close> of them exceed it, at least \<open>k\<close> reach it), and before that there is no bound.
\<close>

theorem bound_is_order_statistic:
  "(case bound_us (window_run ops) query policy of
      None \<Rightarrow> length (window_history ops) < window_len policy
    | Some b \<Rightarrow>
       (let k = min (max (ap_k policy) 1) (window_len policy);
            past = map (\<lambda>s. transferred_us s query) (take (window_len policy) (rev (window_history ops)))
        in length past = window_len policy \<and> length (filter (\<lambda>x. b < x) past) < k \<and>
           k \<le> length (filter (\<lambda>x. b \<le> x) past)))"
proof -
  let ?n = "window_len policy" and ?h = "window_history ops" and ?w = "window_run ops"
  let ?past = "map (\<lambda>s. transferred_us s query) (take ?n (rev ?h))"
  let ?k = "min (max (ap_k policy) 1) ?n"
  have len: "win_len ?w = min (length ?h) WINDOW_CAPACITY"
    using window_run_ring [of ops] by (simp add: ring_tracks_def)
  have short: "win_len ?w < ?n \<longleftrightarrow> length ?h < ?n" using len window_len_range(2) [of policy] by auto
  show ?thesis
  proof (cases "length ?h < ?n")
    case True
    then show ?thesis using short by (simp add: bound_us_def)
  next
    case False
    then have past: "length ?past = ?n" by simp
    have k: "0 < ?k" "?k \<le> length ?past" using window_len_range(1) [of policy] past by auto
    have "recent ?w ?n = take ?n (rev ?h)" by (rule recent_eq [OF window_run_ring window_len_range(2)])
    then have "bound_us ?w query policy = Some (sort ?past ! (?n - ?k))"
      using False short by (simp only: bound_us_def Let_def if_False)
    then show ?thesis
      using order_statistic [OF k] by (simp only: past option.case Let_def simp_thms)
  qed
qed

theorem bound_is_order_statistic_witness:
  "\<exists>b. bound_us (window_run [Observe 9 7 7 6, Observe 9 5 5 6]) 4 \<lparr>epsilon_pm = 400, ap_k = 1\<rparr> = Some b
     \<and> 7 \<le> b"
proof -
  let ?ops = "[Observe 9 7 7 6, Observe 9 5 5 6]" and ?p = "\<lparr>epsilon_pm = 400, ap_k = 1\<rparr>"
  have n: "window_len ?p = 2" by (simp add: window_len_def requested_len_def WINDOW_CAPACITY_def)
  have past: "map (\<lambda>s. transferred_us s 4) (take 2 (rev (window_history ?ops))) = [5, 7]"
    by (simp add: window_history_def transferred_us_def i64_max_def)
  have len: "length (window_history ?ops) = 2" by (simp add: window_history_def)
  note stat = bound_is_order_statistic [of ?ops ?p 4, unfolded n past len Let_def]
  show ?thesis
  proof (cases "bound_us (window_run ?ops) 4 ?p")
    case None
    from stat [unfolded None option.case] show ?thesis by simp
  next
    case (Some b)
    have "\<not> b < 7" using stat [unfolded Some option.case] by (auto split: if_splits)
    then show ?thesis using Some by simp
  qed
qed

end
