(* ===== verification/Estimate.thy ===== *)
theory Estimate
  imports Units
begin

text \<open>
  \<open>abr/estimate.rs\<close>: what the player believes about the link. A capacity estimate is a fast and a slow
  mean with an uncertainty that discounts it; a segment sample is the evidence of one acquisition, and
  a capacity observation is the part of it the estimate may learn from.
\<close>

section \<open>Observations\<close>

definition REGIME_FACTOR :: nat where "REGIME_FACTOR = 4"
definition MAX_UNCERTAINTY_PM :: nat where "MAX_UNCERTAINTY_PM = 500"
definition WEAK_SAMPLE_HEADROOM :: nat where "WEAK_SAMPLE_HEADROOM = 8"
definition STRONG_OBSERVATION_BYTES :: nat where "STRONG_OBSERVATION_BYTES = 1048576"
definition MEASURABLE_OBSERVATION_US :: nat where "MEASURABLE_OBSERVATION_US = 250000"
definition NORMAL_OBSERVATION_BYTES :: nat where "NORMAL_OBSERVATION_BYTES = 256 * 1024"

lemmas estimate_consts = REGIME_FACTOR_def MAX_UNCERTAINTY_PM_def WEAK_SAMPLE_HEADROOM_def
  STRONG_OBSERVATION_BYTES_def MEASURABLE_OBSERVATION_US_def NORMAL_OBSERVATION_BYTES_def

record capacity_estimate =
  ce_fast :: nat
  ce_slow :: nat
  ce_uncertainty :: nat
  ce_samples :: nat

definition capacity_default :: capacity_estimate where
  "capacity_default = \<lparr>ce_fast = 0, ce_slow = 0, ce_uncertainty = 0, ce_samples = 0\<rparr>"

datatype observation_quality = Weak | Normal | Strong

record capacity_observation =
  co_kbps :: nat
  co_bytes :: nat
  co_active_us :: nat
  co_completed :: bool

definition quality :: "capacity_observation \<Rightarrow> observation_quality" where
  "quality ob =
     (if \<not> co_completed ob \<or> co_active_us ob < MEASURABLE_OBSERVATION_US then Weak
      else if co_bytes ob \<ge> STRONG_OBSERVATION_BYTES then Strong
      else if co_bytes ob \<ge> NORMAL_OBSERVATION_BYTES then Normal
      else Weak)"

definition obs_weight :: "capacity_observation \<Rightarrow> nat" where
  "obs_weight ob = (case quality ob of Weak \<Rightarrow> 1 | Normal \<Rightarrow> 2 | Strong \<Rightarrow> 3)"

definition is_collapse :: "capacity_observation \<Rightarrow> capacity_estimate \<Rightarrow> bool" where
  "is_collapse ob prior \<longleftrightarrow>
     co_completed ob \<and> ce_fast prior > 0 \<and> sat_mul_u32 (co_kbps ob) 4 < ce_fast prior"

definition clamped_to_evidence :: "capacity_observation \<Rightarrow> nat \<Rightarrow> capacity_observation" where
  "clamped_to_evidence ob wire_kbps =
     (if quality ob \<noteq> Weak \<or> wire_kbps = 0 then ob
      else ob\<lparr>co_kbps := min (co_kbps ob) (sat_mul_u32 wire_kbps WEAK_SAMPLE_HEADROOM)\<rparr>)"

definition is_regime_change :: "capacity_observation \<Rightarrow> capacity_estimate \<Rightarrow> bool" where
  "is_regime_change ob prior =
     (if \<not> co_completed ob \<or> ce_slow prior = 0 \<or> co_kbps ob = 0 then False
      else sat_mul_u32 (co_kbps ob) REGIME_FACTOR < ce_slow prior
           \<or> sat_mul_u32 (ce_slow prior) REGIME_FACTOR < co_kbps ob)"

definition weighted_mean :: "nat \<Rightarrow> nat \<Rightarrow> nat \<Rightarrow> nat \<Rightarrow> nat" where
  "weighted_mean old new weight denominator =
     (if old = 0 then new
      else let new_weight = min weight (min denominator u32_max)
        in min ((old * (denominator - new_weight) + new * new_weight) div denominator) u32_max)"

definition kbps_from :: "nat \<Rightarrow> nat \<Rightarrow> nat" where
  "kbps_from bytes us = sat_mul_u64 bytes 8000 div max us 1"

section \<open>The estimate\<close>

definition from_prior :: "nat \<Rightarrow> capacity_estimate" where
  "from_prior kbps = \<lparr>ce_fast = kbps, ce_slow = kbps,
     ce_uncertainty = MAX_UNCERTAINTY_PM, ce_samples = 1\<rparr>"

text \<open>The dispersion of a sample around the mean it has just moved, and the discount it sets.\<close>

definition sample_uncertainty :: "nat \<Rightarrow> nat \<Rightarrow> nat \<Rightarrow> nat" where
  "sample_uncertainty samples slow kbps =
     (let spread = abs_diff kbps slow;
          relative = (if slow = 0 then 1000 else min (spread * 1000 div slow) 1000);
          floor_pm = (if samples = 1 then 300 else 200);
          unc = max relative floor_pm
      in if kbps < slow
         then max unc (min (sat_mul_u32 (slow - kbps) 2000 div max slow 1) 800)
         else unc)"

definition ce_update :: "capacity_estimate \<Rightarrow> capacity_observation \<Rightarrow> capacity_estimate" where
  "ce_update e ob =
     (if \<not> co_completed ob then e
      else if ce_samples e > 0 \<and> is_regime_change ob e
      then (from_prior (co_kbps ob))\<lparr>ce_samples := 1\<rparr>
      else
        let slow = weighted_mean (ce_slow e) (co_kbps ob) (obs_weight ob) 8;
            fast = weighted_mean (ce_fast e) (co_kbps ob) (min (obs_weight ob) 2) 4
        in if ce_samples e = 0
           then \<lparr>ce_fast = co_kbps ob, ce_slow = co_kbps ob,
                  ce_uncertainty = MAX_UNCERTAINTY_PM, ce_samples = sat_add_u32 (ce_samples e) 1\<rparr>
           else \<lparr>ce_fast = fast, ce_slow = slow,
                  ce_uncertainty = sample_uncertainty (ce_samples e) slow (co_kbps ob),
                  ce_samples = sat_add_u32 (ce_samples e) 1\<rparr>)"

definition conservative_kbps :: "capacity_estimate \<Rightarrow> nat" where
  "conservative_kbps e =
     (let uncertainty = min (ce_uncertainty e) 500; discount = 1000 - uncertainty
      in min (ce_slow e * discount div 1000) u32_max)"

definition collapse :: "capacity_estimate \<Rightarrow> nat \<Rightarrow> capacity_estimate" where
  "collapse e measured_kbps =
     (let e' = (if ce_fast e > 0 \<and> sat_mul_u32 measured_kbps 4 < ce_fast e
                then e\<lparr>ce_slow := max measured_kbps (ce_slow e div 4), ce_uncertainty := 400\<rparr>
                else e)
      in e'\<lparr>ce_fast := measured_kbps\<rparr>)"

definition demote_to_prior :: "capacity_estimate \<Rightarrow> capacity_estimate" where
  "demote_to_prior e =
     (if ce_samples e = 0 then e
      else e\<lparr>ce_samples := 1, ce_fast := ce_slow e,
             ce_uncertainty := max (ce_uncertainty e) MAX_UNCERTAINTY_PM\<rparr>)"

definition age_ms :: "capacity_estimate \<Rightarrow> nat \<Rightarrow> abr_policy \<Rightarrow> capacity_estimate" where
  "age_ms e elapsed_ms policy =
     (let half_life = max (stale_half_life_ms policy) 1
      in if ce_samples e = 0 \<or> elapsed_ms < half_life then e
         else if elapsed_ms \<ge> sat_mul_u64 half_life 4 then demote_to_prior e
         else let halvings = min (unwrap_or (checked_nat u32_max (elapsed_ms div half_life)) u32_max) 16;
                  widened = MAX_UNCERTAINTY_PM - MAX_UNCERTAINTY_PM div 2 ^ halvings
              in e\<lparr>ce_uncertainty := max (ce_uncertainty e) widened\<rparr>)"

section \<open>Segment samples\<close>

record segment_sample =
  ss_bytes :: nat
  ss_active_fetch_us :: nat
  ss_total_fetch_us :: nat
  ss_media_duration_ms :: nat
  ss_media_obligation_ms :: nat
  ss_buffer :: buffer_snapshot
  ss_completed :: bool

definition sample_new_with_obligation ::
  "nat \<Rightarrow> nat \<Rightarrow> nat \<Rightarrow> nat \<Rightarrow> nat \<Rightarrow> buffer_snapshot \<Rightarrow> segment_sample option" where
  "sample_new_with_obligation bytes active_us total_us dur obl buf =
     (if bytes > 0 \<and> active_us > 0 \<and> total_us \<ge> active_us \<and> dur > 0 \<and> obl \<ge> dur
      then Some \<lparr>ss_bytes = bytes, ss_active_fetch_us = active_us, ss_total_fetch_us = total_us,
        ss_media_duration_ms = dur, ss_media_obligation_ms = obl, ss_buffer = buf,
        ss_completed = True\<rparr>
      else None)"

definition abandoned_acquisition ::
  "nat \<Rightarrow> nat \<Rightarrow> nat \<Rightarrow> nat \<Rightarrow> nat \<Rightarrow> buffer_snapshot \<Rightarrow> segment_sample option" where
  "abandoned_acquisition bytes active_us total_us dur obl buf =
     (if total_us \<ge> active_us \<and> dur > 0 \<and> obl \<ge> dur
      then Some \<lparr>ss_bytes = bytes, ss_active_fetch_us = active_us, ss_total_fetch_us = total_us,
        ss_media_duration_ms = dur, ss_media_obligation_ms = obl, ss_buffer = buf,
        ss_completed = False\<rparr>
      else None)"

definition with_buffer :: "segment_sample \<Rightarrow> buffer_snapshot \<Rightarrow> segment_sample" where
  "with_buffer s buf = s\<lparr>ss_buffer := buf\<rparr>"

definition network_kbps :: "segment_sample \<Rightarrow> nat" where
  "network_kbps s = min (kbps_from (ss_bytes s) (ss_active_fetch_us s)) u32_max"

definition media_kbps :: "segment_sample \<Rightarrow> nat" where
  "media_kbps s = min (sat_mul_u64 (ss_bytes s) 8 div ss_media_duration_ms s) u32_max"

definition production_ratio_pm :: "segment_sample \<Rightarrow> nat" where
  "production_ratio_pm s =
     min (sat_mul_u64 (ss_total_fetch_us s) 1000 div sat_mul_u64 (ss_media_duration_ms s) 1000) u32_max"

text \<open>What both constructors guarantee of a sample.\<close>

definition sample_wf :: "segment_sample \<Rightarrow> bool" where
  "sample_wf s \<longleftrightarrow> ss_active_fetch_us s \<le> ss_total_fetch_us s \<and> 0 < ss_media_duration_ms s
     \<and> ss_media_duration_ms s \<le> ss_media_obligation_ms s
     \<and> (ss_completed s \<longrightarrow> 0 < ss_bytes s \<and> 0 < ss_active_fetch_us s)"

lemma sample_new_wf: "sample_new_with_obligation b a t d obl buf = Some s \<Longrightarrow> sample_wf s \<and> ss_completed s"
  by (auto simp: sample_new_with_obligation_def sample_wf_def split: if_splits)

lemma abandoned_acquisition_wf: "abandoned_acquisition b a t d obl buf = Some s \<Longrightarrow> sample_wf s \<and> \<not> ss_completed s"
  by (auto simp: abandoned_acquisition_def sample_wf_def split: if_splits)

lemma with_buffer_wf [simp]: "sample_wf (with_buffer s buf) = sample_wf s"
  by (simp add: sample_wf_def with_buffer_def)

section \<open>Range and order of the estimate\<close>

definition ce_wf :: "capacity_estimate \<Rightarrow> bool" where
  "ce_wf e \<longleftrightarrow> ce_fast e \<le> u32_max \<and> ce_slow e \<le> u32_max \<and> ce_uncertainty e \<le> 1000
     \<and> ce_samples e \<le> u32_max"

lemma weighted_mean_between:
  assumes "0 < d" and "d \<le> u32_max" and "lo \<le> old" "lo \<le> new" and "old \<le> hi" "new \<le> hi" and "hi \<le> u32_max"
  shows "lo \<le> weighted_mean old new w d \<and> weighted_mean old new w d \<le> hi"
proof (cases "old = 0")
  case True
  then show ?thesis using assms by (simp add: weighted_mean_def)
next
  case False
  define v where "v = min w (min d u32_max)"
  have v: "v \<le> d" by (simp add: v_def)
  let ?n = "old * (d - v) + new * v"
  have "lo * (d - v) + lo * v \<le> ?n" and "?n \<le> hi * (d - v) + hi * v"
    using assms by (simp_all add: add_mono mult_le_mono1)
  then have "lo * d \<le> ?n" and "?n \<le> hi * d"
    using v by (simp_all flip: add_mult_distrib2)
  then have "lo \<le> ?n div d" and "?n div d \<le> hi"
    using assms(1) div_le_mono [of ?n "hi * d" d] by (simp_all add: less_eq_div_iff_mult_less_eq)
  moreover have "weighted_mean old new w d = min (?n div d) u32_max"
    using False by (simp add: weighted_mean_def v_def Let_def)
  ultimately show ?thesis using assms by (simp add: min_le_iff_disj)
qed

lemma sample_uncertainty_le: "sample_uncertainty n s k \<le> 1000"
  by (auto simp: sample_uncertainty_def Let_def min_le_iff_disj)

lemma sample_uncertainty_ge: "200 \<le> sample_uncertainty n s k"
  by (auto simp: sample_uncertainty_def Let_def le_max_iff_disj)

text \<open>An interval that holds the estimate and the observation holds the updated estimate.\<close>

definition ce_within :: "nat \<Rightarrow> nat \<Rightarrow> capacity_estimate \<Rightarrow> bool" where
  "ce_within lo hi e \<longleftrightarrow> (ce_samples e > 0 \<longrightarrow>
     lo \<le> ce_slow e \<and> ce_slow e \<le> hi \<and> lo \<le> ce_fast e \<and> ce_fast e \<le> hi)"

lemma ce_update_within:
  assumes "ce_within lo hi e" and "hi \<le> u32_max"
    and "co_completed ob \<Longrightarrow> lo \<le> co_kbps ob \<and> co_kbps ob \<le> hi"
  shows "ce_within lo hi (ce_update e ob)"
proof (cases "co_completed ob \<and> ce_samples e > 0 \<and> \<not> is_regime_change ob e")
  case True
  then have b: "lo \<le> ce_slow e" "ce_slow e \<le> hi" "lo \<le> ce_fast e" "ce_fast e \<le> hi"
    "lo \<le> co_kbps ob" "co_kbps ob \<le> hi"
    using assms by (auto simp: ce_within_def)
  then show ?thesis
    using weighted_mean_between [of 8 lo "ce_slow e" "co_kbps ob" hi "obs_weight ob"]
      weighted_mean_between [of 4 lo "ce_fast e" "co_kbps ob" hi "min (obs_weight ob) 2"] assms(2) True
    by (auto simp: ce_within_def ce_update_def Let_def u32_max_def)
next
  case False
  then show ?thesis using assms
    by (auto simp: ce_within_def ce_update_def from_prior_def Let_def)
qed

lemma ce_update_wf [inv_intros]:
  assumes "ce_wf e" and "co_kbps ob \<le> u32_max"
  shows "ce_wf (ce_update e ob)"
proof -
  have "weighted_mean (ce_slow e) (co_kbps ob) (obs_weight ob) 8 \<le> u32_max"
    and "weighted_mean (ce_fast e) (co_kbps ob) (min (obs_weight ob) 2) 4 \<le> u32_max"
    using assms weighted_mean_between [of 8 0 "ce_slow e" "co_kbps ob" u32_max]
      weighted_mean_between [of 4 0 "ce_fast e" "co_kbps ob" u32_max]
    by (auto simp: ce_wf_def u32_max_def)
  then show ?thesis using assms sample_uncertainty_le
    by (auto simp: ce_wf_def ce_update_def from_prior_def Let_def estimate_consts u32_max_def)
qed

lemma collapse_wf [inv_intros]: "ce_wf e \<Longrightarrow> k \<le> u32_max \<Longrightarrow> ce_wf (collapse e k)"
  by (auto simp: ce_wf_def collapse_def Let_def)

lemma demote_to_prior_wf [inv_intros]: "ce_wf e \<Longrightarrow> ce_wf (demote_to_prior e)"
  by (auto simp: ce_wf_def demote_to_prior_def estimate_consts u32_max_def)

lemma age_ms_wf [inv_intros]: "ce_wf e \<Longrightarrow> ce_wf (age_ms e t p)"
proof -
  assume wf: "ce_wf e"
  have "max (ce_uncertainty e) (500 - n) \<le> 1000" for n
    using wf by (auto simp: ce_wf_def)
  then show ?thesis using wf demote_to_prior_wf [OF wf]
    by (simp add: age_ms_def Let_def ce_wf_def MAX_UNCERTAINTY_PM_def)
qed

lemma capacity_default_wf [simp]: "ce_wf capacity_default"
  by (simp add: ce_wf_def capacity_default_def)

lemma conservative_le_slow: "conservative_kbps e \<le> ce_slow e"
proof -
  have "ce_slow e * (1000 - min (ce_uncertainty e) 500) div 1000 \<le> ce_slow e * 1000 div 1000"
    by (intro div_le_mono mult_le_mono2) simp
  then show ?thesis by (simp add: conservative_kbps_def Let_def min_le_iff_disj)
qed

lemma conservative_ge_half:
  assumes "ce_slow e \<le> u32_max"
  shows "ce_slow e div 2 \<le> conservative_kbps e"
proof -
  have "ce_slow e * 500 div 1000 \<le> ce_slow e * (1000 - min (ce_uncertainty e) 500) div 1000"
    by (intro div_le_mono mult_le_mono2) simp
  moreover have "ce_slow e * 500 div 1000 = ce_slow e div 2"
    using div_mult2_eq [of "ce_slow e * 500" 500 2] by simp
  ultimately show ?thesis using assms by (simp add: conservative_kbps_def Let_def)
qed

lemma conservative_mono:
  assumes "ce_slow e \<le> ce_slow f" and "ce_uncertainty f \<le> ce_uncertainty e"
  shows "conservative_kbps e \<le> conservative_kbps f"
proof -
  have "ce_slow e * (1000 - min (ce_uncertainty e) 500) \<le> ce_slow f * (1000 - min (ce_uncertainty f) 500)"
    using assms by (intro mult_le_mono) auto
  then show ?thesis by (simp add: conservative_kbps_def Let_def div_le_mono min.coboundedI1)
qed

section \<open>What the estimate promises\<close>

lemma ce_update_samples: "co_completed ob \<Longrightarrow> 0 < ce_samples (ce_update e ob)"
  by (simp add: ce_update_def from_prior_def Let_def sat_add_def u32_max_def)

lemma ce_update_abandoned [simp]: "\<not> co_completed ob \<Longrightarrow> ce_update e ob = e"
  by (simp add: ce_update_def)

lemma ce_update_keeps_samples: "0 < ce_samples e \<Longrightarrow> 0 < ce_samples (ce_update e ob)"
  by (cases "co_completed ob") (simp_all add: ce_update_samples)

lemma foldl_ce_update_samples:
  "0 < ce_samples e \<or> (\<exists>ob \<in> set obs. co_completed ob) \<Longrightarrow> 0 < ce_samples (foldl ce_update e obs)"
proof (induction obs arbitrary: e)
  case (Cons ob obs)
  then show ?case by (auto intro: Cons.IH dest: ce_update_samples ce_update_keeps_samples)
qed simp

lemma foldl_ce_update_within:
  assumes "hi \<le> u32_max"
  shows "ce_within lo hi e \<Longrightarrow>
    (\<And>ob. ob \<in> set obs \<Longrightarrow> co_completed ob \<Longrightarrow> lo \<le> co_kbps ob \<and> co_kbps ob \<le> hi) \<Longrightarrow>
    ce_within lo hi (foldl ce_update e obs)"
proof (induction obs arbitrary: e)
  case (Cons ob obs)
  then have "ce_within lo hi (ce_update e ob)"
    by (intro ce_update_within [OF _ assms]) auto
  then show ?case using Cons by simp
qed simp

text \<open>
  The capacity estimate never leaves the evidence: after any sequence of observations that holds a
  completed one, both means lie between the slowest and the fastest completed transfer, abandoned
  transfers count in neither direction, and the budget drawn from the estimate is at most the fastest
  and at least half the slowest of them.
\<close>

theorem estimate_within_evidence:
  assumes "hi \<le> u32_max" and "\<exists>ob \<in> set obs. co_completed ob"
    and "\<And>ob. ob \<in> set obs \<Longrightarrow> co_completed ob \<Longrightarrow> lo \<le> co_kbps ob \<and> co_kbps ob \<le> hi"
  shows "let e = foldl ce_update capacity_default obs in
    lo \<le> ce_slow e \<and> ce_slow e \<le> hi \<and> lo \<le> ce_fast e \<and> ce_fast e \<le> hi
    \<and> lo div 2 \<le> conservative_kbps e \<and> conservative_kbps e \<le> hi"
proof -
  let ?e = "foldl ce_update capacity_default obs"
  have "ce_within lo hi ?e"
    by (rule foldl_ce_update_within) (use assms in \<open>auto simp: ce_within_def capacity_default_def\<close>)
  moreover have "0 < ce_samples ?e"
    using foldl_ce_update_samples assms(2) by blast
  ultimately have b: "lo \<le> ce_slow ?e" "ce_slow ?e \<le> hi" "lo \<le> ce_fast ?e" "ce_fast ?e \<le> hi"
    by (auto simp: ce_within_def)
  then have "lo div 2 \<le> conservative_kbps ?e"
    using conservative_ge_half [of ?e] assms(1) div_le_mono [of lo "ce_slow ?e" 2] by linarith
  then show ?thesis using b conservative_le_slow [of ?e] by (simp add: Let_def)
qed

theorem estimate_within_evidence_witness:
  "2000 \<le> ce_slow (foldl ce_update capacity_default
     [\<lparr>co_kbps = 4000, co_bytes = 500000, co_active_us = 1000000, co_completed = True\<rparr>,
      \<lparr>co_kbps = 900000, co_bytes = 90, co_active_us = 8, co_completed = False\<rparr>,
      \<lparr>co_kbps = 2000, co_bytes = 500000, co_active_us = 2000000, co_completed = True\<rparr>])"
  using estimate_within_evidence [of 4000
     "[\<lparr>co_kbps = 4000, co_bytes = 500000, co_active_us = 1000000, co_completed = True\<rparr>,
      \<lparr>co_kbps = 900000, co_bytes = 90, co_active_us = 8, co_completed = False\<rparr>,
      \<lparr>co_kbps = 2000, co_bytes = 500000, co_active_us = 2000000, co_completed = True\<rparr>]" 2000]
  by (force simp: u32_max_def Let_def)

lemma widened_mono:
  fixes m n :: nat
  assumes "m \<le> n"
  shows "500 - 500 div 2 ^ m \<le> 500 - 500 div (2::nat) ^ n"
proof -
  have "(2::nat) ^ m \<le> 2 ^ n" using assms by (simp add: power_increasing)
  then show ?thesis by (intro diff_le_mono2 div_le_mono2) auto
qed

lemma age_ms_slow [simp]: "ce_slow (age_ms e t p) = ce_slow e"
  by (simp add: age_ms_def demote_to_prior_def Let_def)

lemma age_ms_uncertainty_ge: "ce_uncertainty e \<le> ce_uncertainty (age_ms e t p)"
  by (simp add: age_ms_def demote_to_prior_def Let_def)

text \<open>The discount a gap of \<open>t\<close> earns at half-life \<open>h\<close>.\<close>

definition gap_discount :: "nat \<Rightarrow> nat \<Rightarrow> nat" where
  "gap_discount h t =
     (if t < h then 0 else if sat_mul_u64 h 4 \<le> t then 500
      else 500 - 500 div 2 ^ min (unwrap_or (checked_nat u32_max (t div h)) u32_max) 16)"

lemma age_ms_uncertainty:
  "ce_samples e > 0 \<Longrightarrow>
   ce_uncertainty (age_ms e t p) = max (ce_uncertainty e) (gap_discount (max (stale_half_life_ms p) 1) t)"
  by (simp add: age_ms_def Let_def demote_to_prior_def MAX_UNCERTAINTY_PM_def gap_discount_def)

lemma gap_discount_mono:
  assumes "t \<le> t'"
  shows "gap_discount h t \<le> gap_discount h t'"
proof -
  have "unwrap_or (checked_nat u32_max (t div h)) u32_max \<le> unwrap_or (checked_nat u32_max (t' div h)) u32_max"
    using assms div_le_mono [of t t' h] by (simp add: checked_nat_def)
  then have "min (unwrap_or (checked_nat u32_max (t div h)) u32_max) 16
      \<le> min (unwrap_or (checked_nat u32_max (t' div h)) u32_max) 16"
    by (rule min.mono) simp
  from widened_mono [OF this] show ?thesis using assms by (simp add: gap_discount_def)
qed

lemma age_ms_uncertainty_mono:
  assumes "t \<le> t'" and "0 < ce_samples e"
  shows "ce_uncertainty (age_ms e t p) \<le> ce_uncertainty (age_ms e t' p)"
  using gap_discount_mono [OF assms(1)] assms(2) by (simp add: age_ms_uncertainty max.coboundedI2)

text \<open>
  Time spent not measuring only ever costs confidence: ageing keeps the measured rate, the longer
  the gap the smaller the budget, and past four half-lives the budget is half the rate, whatever the
  estimate was worth before.
\<close>

theorem ageing_only_discounts:
  assumes "t \<le> t'" and "0 < ce_samples e" and "ce_slow e \<le> u32_max"
  shows "ce_slow (age_ms e t' p) = ce_slow e
    \<and> conservative_kbps (age_ms e t' p) \<le> conservative_kbps (age_ms e t p)
    \<and> conservative_kbps (age_ms e t p) \<le> conservative_kbps e
    \<and> (4 * max (stale_half_life_ms p) 1 \<le> t' \<longrightarrow>
         conservative_kbps (age_ms e t' p) = ce_slow e div 2)"
proof -
  have eq: "conservative_kbps f = min (ce_slow f * (1000 - min (ce_uncertainty f) 500) div 1000) u32_max" for f
    by (simp add: conservative_kbps_def Let_def)
  have "conservative_kbps (age_ms e t' p) \<le> conservative_kbps (age_ms e t p)"
    by (rule conservative_mono) (simp_all add: age_ms_uncertainty_mono assms)
  moreover have "conservative_kbps (age_ms e t p) \<le> conservative_kbps e"
    by (rule conservative_mono) (simp_all add: age_ms_uncertainty_ge)
  moreover have "conservative_kbps (age_ms e t' p) = ce_slow e div 2"
    if "4 * max (stale_half_life_ms p) 1 \<le> t'"
  proof -
    have "age_ms e t' p = demote_to_prior e"
      using that assms(2)
      by (auto simp: age_ms_def Let_def sat_mul_def less_max_iff_disj min_le_iff_disj not_le)
    moreover have "ce_slow e * 500 div 1000 = ce_slow e div 2"
      using div_mult2_eq [of "ce_slow e * 500" 500 2] by simp
    moreover have "ce_slow e div 2 \<le> u32_max"
      using assms(3) by (rule order_trans [OF div_le_dividend])
    ultimately show ?thesis
      using assms(2) unfolding eq
      by (simp add: demote_to_prior_def MAX_UNCERTAINTY_PM_def min_absorb1)
  qed
  ultimately show ?thesis by simp
qed

theorem ageing_only_discounts_witness:
  "conservative_kbps (age_ms \<lparr>ce_fast = 9000, ce_slow = 8000, ce_uncertainty = 200, ce_samples = 9\<rparr>
     130000 policy_measured) = 4000"
  using ageing_only_discounts [of 130000 130000
      "\<lparr>ce_fast = 9000, ce_slow = 8000, ce_uncertainty = 200, ce_samples = 9\<rparr>" policy_measured]
  by (simp add: policy_measured_def u32_max_def)

end
