(* ===== verification/Plant.thy ===== *)
theory Plant
  imports Estimate
begin

text \<open>
  \<open>abr/plant.rs\<close>: what the world does. The production estimate (how hard the server works per unit of
  content), the buffer estimate with its slope, the starvation horizon, the reachable reserve of the
  feed queues, and the refill rule; with them the two reserve-dependent selections of the catalogue
  in \<open>abr/ladder.rs\<close> that call the refill rule. The queue capacities and feed leads are the
  constants of \<open>player/engine.rs\<close>.
\<close>

section \<open>Production\<close>

record production_estimate =
  pe_ratio :: nat
  pe_uncertainty :: nat
  pe_samples :: nat
  pe_server :: nat

definition production_default :: production_estimate where
  "production_default = \<lparr>pe_ratio = 0, pe_uncertainty = 0, pe_samples = 0, pe_server = 0\<rparr>"

definition production_observe :: "production_estimate \<Rightarrow> nat \<Rightarrow> nat \<Rightarrow> bool \<Rightarrow> production_estimate" where
  "production_observe e ratio_pm load_pm cold_start =
     (let weight = (if cold_start then 1 else 3);
          normalized = unwrap_or (checked_nat u32_max (sat_mul_u64 ratio_pm 1000 div max load_pm 1)) u32_max;
          (ratio, server) =
            (if pe_samples e = 0 then (ratio_pm, normalized)
             else (weighted_mean (pe_ratio e) ratio_pm weight 8,
                   weighted_mean (pe_server e) normalized weight 8));
          samples = sat_add_u32 (pe_samples e) 1;
          uncertainty =
            (if samples < 3 then 250 else if abs_diff ratio_pm ratio > 200 then 500 else 250)
      in \<lparr>pe_ratio = ratio, pe_uncertainty = uncertainty, pe_samples = samples, pe_server = server\<rparr>)"

definition predicted_ratio_pm ::
  "production_estimate \<Rightarrow> hls_candidate \<Rightarrow> hls_candidate \<Rightarrow> abr_policy \<Rightarrow> nat option" where
  "predicted_ratio_pm e cand cur policy =
     (if pe_samples e = 0 then None
      else if hc_rung cand = hc_rung cur then Some (pe_ratio e)
      else
        let overhead = min (pe_ratio e) (production_floor_pm policy);
            work = pe_ratio e - overhead;
            scaled = sat_mul_u64 work (production_load_pm cand) div max (production_load_pm cur) 1
        in Some (unwrap_or (checked_nat u32_max (sat_add_u64 overhead scaled)) u32_max))"

section \<open>The buffer\<close>

definition DRAIN_EPS_MS_PER_S :: int where "DRAIN_EPS_MS_PER_S = 50"

record buffer_estimate =
  be_buffered :: int
  be_slope :: int
  be_last_delta :: int
  be_samples :: nat
  be_draining_samples :: nat

definition buffer_default :: buffer_estimate where
  "buffer_default = \<lparr>be_buffered = 0, be_slope = 0, be_last_delta = 0, be_samples = 0,
     be_draining_samples = 0\<rparr>"

definition be_draining :: "buffer_estimate \<Rightarrow> bool" where
  "be_draining e \<longleftrightarrow> be_slope e < - DRAIN_EPS_MS_PER_S"

definition be_filling :: "buffer_estimate \<Rightarrow> bool" where
  "be_filling e \<longleftrightarrow> be_slope e > DRAIN_EPS_MS_PER_S"

definition be_update :: "buffer_estimate \<Rightarrow> int option \<Rightarrow> int \<Rightarrow> buffer_estimate" where
  "be_update e buffered wall_elapsed_ms =
     (case buffered of None \<Rightarrow> e | Some buffered_ms \<Rightarrow>
       (let delta = wrap_i64 (buffered_ms - be_buffered e);
            first = (be_samples e = 0);
            e1 = e\<lparr>be_last_delta := (if first then 0 else delta)\<rparr>
        in if \<not> first \<and> wall_elapsed_ms \<le> 0
           then e1\<lparr>be_last_delta := 0, be_buffered := buffered_ms\<rparr>
           else
             let sample_slope = (if first then 0 else trunc_div (wrap_i64 (delta * 1000)) wall_elapsed_ms);
                 slope = (if be_samples e1 = 0 then be_slope e1
                          else if be_samples e1 = 1 then sample_slope
                          else trunc_div (wrap_i64 (wrap_i64 (be_slope e1 * 3) + sample_slope)) 4);
                 e2 = e1\<lparr>be_slope := slope\<rparr>
             in e2\<lparr>be_draining_samples :=
                    (if be_draining e2 then sat_add_u32 (be_draining_samples e2) 1 else 0),
                  be_buffered := buffered_ms,
                  be_samples := sat_add_u32 (be_samples e2) 1\<rparr>))"

definition be_rebase :: "buffer_estimate \<Rightarrow> buffer_estimate" where
  "be_rebase e = e\<lparr>be_slope := 0, be_last_delta := 0, be_draining_samples := 0, be_samples := 0\<rparr>"

definition observed_starvation_secs :: "buffer_estimate \<Rightarrow> int option" where
  "observed_starvation_secs e =
     (if \<not> be_draining e then None
      else Some (trunc_div (max (be_buffered e) 0) (wrap_i64 (- be_slope e))))"

definition be_starving :: "buffer_estimate \<Rightarrow> bool" where
  "be_starving e \<longleftrightarrow>
     be_buffered e \<le> 2000 \<or> (be_buffered e \<le> 6000 \<and> be_draining_samples e \<ge> 2)"

section \<open>The starvation horizon\<close>

definition starvation_horizon :: "int \<Rightarrow> nat \<Rightarrow> nat \<Rightarrow> nat option" where
  "starvation_horizon buffer_ms requirement_kbps capacity_kbps =
     (if capacity_kbps \<ge> requirement_kbps \<or> requirement_kbps = 0 then None
      else
        let deficit = int (requirement_kbps - capacity_kbps);
            time_to_empty_ms = trunc_div (wrap_i64 (buffer_ms * int requirement_kbps)) deficit
        in nat_of_i64 u32_max (trunc_div time_to_empty_ms 1000))"

section \<open>The reachable reserve and the refill rule\<close>

definition AQ_VIDEO_BYTES :: int where "AQ_VIDEO_BYTES = 10 * 1024 * 1024"
definition AQ_AUDIO_BYTES :: int where "AQ_AUDIO_BYTES = 1024 * 1024"
definition MAX_FEED_AHEAD_NS :: int where "MAX_FEED_AHEAD_NS = 1600000000"
definition AUDIO_SLACK_NS :: int where "AUDIO_SLACK_NS = 2000000000"

definition aq_caps :: "int \<times> int" where
  "aq_caps = (AQ_VIDEO_BYTES, AQ_AUDIO_BYTES)"

definition feed_leads_ms :: "int \<times> int" where
  "feed_leads_ms = (MAX_FEED_AHEAD_NS div 1000000, (MAX_FEED_AHEAD_NS + AUDIO_SLACK_NS) div 1000000)"

definition lane_reserve_ms :: "int \<Rightarrow> int \<Rightarrow> nat \<Rightarrow> int" where
  "lane_reserve_ms lead_ms bytes es_kbps =
     (let bits = sat_mul_u64 (unwrap_or (nat_of_i64 u64_max bytes) 0) 8
      in sat_i64 (lead_ms + min (int (bits div max es_kbps 1)) i64_max))"

definition b_max_est_ms :: "nat \<Rightarrow> nat \<Rightarrow> int" where
  "b_max_est_ms video_es_kbps audio_es_kbps =
     (let (video_bytes, audio_bytes) = aq_caps; (video_lead_ms, audio_lead_ms) = feed_leads_ms
      in min (lane_reserve_ms video_lead_ms video_bytes video_es_kbps)
             (lane_reserve_ms audio_lead_ms audio_bytes audio_es_kbps))"

definition buffer_target_at_ms :: "nat \<Rightarrow> nat \<Rightarrow> abr_policy \<Rightarrow> int" where
  "buffer_target_at_ms video_es_kbps audio_es_kbps policy =
     (let reachable = trunc_div (sat_i64 (b_max_est_ms video_es_kbps audio_es_kbps
            * int (buffer_reserve_fraction_pm policy))) 1000
      in min (buffer_target_ms policy) reachable)"

definition refill_admits :: "nat \<Rightarrow> nat \<Rightarrow> nat \<Rightarrow> int \<Rightarrow> nat \<Rightarrow> abr_policy \<Rightarrow> bool" where
  "refill_admits candidate_wire_kbps candidate_video_es_kbps audio_es_kbps buffered_ms safe_budget_kbps policy =
     (let target = buffer_target_at_ms candidate_video_es_kbps audio_es_kbps policy;
          deficit = max (wrap_i64 (target - buffered_ms)) 0;
          horizon = max (buffer_refill_horizon_ms policy) 1;
          r_max = trunc_div (sat_i64 (int safe_budget_kbps * horizon)) (sat_i64 (horizon + deficit))
      in int candidate_wire_kbps \<le> r_max)"

section \<open>Reserve-dependent selection\<close>

definition modeled_sustainable :: "hls_candidate \<Rightarrow> nat \<Rightarrow> abr_policy \<Rightarrow> int \<Rightarrow> bool" where
  "modeled_sustainable cand safe_budget_kbps policy buffered_ms \<longleftrightarrow>
     expected_wire_kbps cand \<le> safe_budget_kbps
     \<and> (let video_es = expected_wire_kbps cand - assumed_audio_kbps policy
        in refill_admits (expected_wire_kbps cand) video_es (assumed_audio_kbps policy)
             buffered_ms safe_budget_kbps policy)"

definition best_sustainable :: "hls_catalog \<Rightarrow> nat \<Rightarrow> abr_policy \<Rightarrow> int \<Rightarrow> hls_candidate option" where
  "best_sustainable cat safe_budget_kbps policy buffered_ms =
     max_by_key expected_wire_kbps
       (filter (\<lambda>c. modeled_sustainable c safe_budget_kbps policy buffered_ms) (feasible cat))"

interpretation sustained: actuator_choice
  "\<lambda>(cat, policy, buffered). feasible cat" expected_wire_kbps
  "\<lambda>(cat, policy, buffered) b c. modeled_sustainable c b policy buffered"
  "\<lambda>(cat, policy, buffered) b. best_sustainable cat b policy buffered"
proof
  fix c :: "hls_catalog \<times> abr_policy \<times> int" and b x
  assume "(case c of (cat, policy, buffered) \<Rightarrow> \<lambda>b. best_sustainable cat b policy buffered) b = Some x"
  then show "x \<in> set (case c of (cat, policy, buffered) \<Rightarrow> feasible cat) \<and>
    (case c of (cat, policy, buffered) \<Rightarrow> \<lambda>b c. modeled_sustainable c b policy buffered) b x"
    by (auto simp: best_sustainable_def dest!: max_by_key_SomeD(1) split: prod.splits)
next
  fix c :: "hls_catalog \<times> abr_policy \<times> int" and b and x :: hls_candidate
  assume "x \<in> set (case c of (cat, policy, buffered) \<Rightarrow> feasible cat)"
    and "(case c of (cat, policy, buffered) \<Rightarrow> \<lambda>b c. modeled_sustainable c b policy buffered) b x"
  then show "\<exists>y. (case c of (cat, policy, buffered) \<Rightarrow> \<lambda>b. best_sustainable cat b policy buffered) b = Some y
    \<and> expected_wire_kbps x \<le> expected_wire_kbps y"
    by (auto simp: best_sustainable_def intro!: max_by_key_exists split: prod.splits)
qed

section \<open>The refill rule, physically\<close>

lemma lane_reserve_nonneg: "0 \<le> lead \<Longrightarrow> 0 \<le> lane_reserve_ms lead bytes es"
  by (simp add: lane_reserve_ms_def Let_def sat_i64_def range_defs)

lemma b_max_est_nonneg: "0 \<le> b_max_est_ms v a"
  by (simp add: b_max_est_ms_def aq_caps_def feed_leads_ms_def lane_reserve_nonneg
      MAX_FEED_AHEAD_NS_def AUDIO_SLACK_NS_def)

lemma buffer_target_range:
  "0 \<le> buffer_target_at_ms v a policy_measured \<and> buffer_target_at_ms v a policy_measured \<le> 2500"
proof -
  have "0 \<le> sat_i64 (b_max_est_ms v a * 500)"
    using b_max_est_nonneg [of v a] by (simp add: sat_i64_def range_defs)
  then show ?thesis
    by (simp add: buffer_target_at_ms_def policy_measured_def trunc_div_ge_0)
qed

lemma measured_horizon [simp]: "buffer_refill_horizon_ms policy_measured = 10000"
  by (simp add: policy_measured_def)

lemma refill_admits_linear:
  assumes "0 \<le> buffered" and "buffered \<le> i64_max" and "budget \<le> u32_max"
  shows "refill_admits wire v a buffered budget policy_measured \<longleftrightarrow>
    int wire * (10000 + max (buffer_target_at_ms v a policy_measured - buffered) 0) \<le> int budget * 10000"
proof -
  let ?t = "buffer_target_at_ms v a policy_measured"
  let ?d = "max (?t - buffered) 0"
  have t: "0 \<le> ?t" "?t \<le> 2500" using buffer_target_range by auto
  have "wrap_i64 (?t - buffered) = ?t - buffered"
    using t assms by (intro wrap_i64_id) (simp add: is_i64_def range_defs)
  moreover have "sat_i64 (int budget * 10000) = int budget * 10000"
    using assms(3) by (intro sat_i64_id) (simp add: is_i64_def range_defs)
  moreover have "sat_i64 (10000 + ?d) = 10000 + ?d"
    using t assms by (intro sat_i64_id) (auto simp: is_i64_def range_defs)
  moreover have "trunc_div (int budget * 10000) (10000 + ?d) = int budget * 10000 div (10000 + ?d)"
    by (intro trunc_div_nonneg) auto
  moreover have "int wire \<le> int budget * 10000 div (10000 + ?d) \<longleftrightarrow>
      int wire * (10000 + ?d) \<le> int budget * 10000"
    by (intro int_le_div_iff) auto
  ultimately show ?thesis
    by (simp add: refill_admits_def Let_def measured_horizon)
qed

text \<open>
  The refill rule is exactly the promise to close the reserve deficit inside the horizon: a
  rendition is admitted just when ten seconds of the budgeted link, spent on it, leave the player with
  at least its target and with no less than it has now.
\<close>

theorem refill_closes_deficit_in_horizon:
  assumes "0 \<le> buffered" and "buffered \<le> i64_max" and "budget \<le> u32_max"
  shows "refill_admits wire v a buffered budget policy_measured \<longleftrightarrow>
    wire = 0 \<or> max buffered (buffer_target_at_ms v a policy_measured)
      \<le> buffered + int budget * 10000 div int wire - 10000"
proof (cases "wire = 0")
  case True
  then show ?thesis by (simp add: refill_admits_linear [OF assms])
next
  case False
  let ?d = "max (buffer_target_at_ms v a policy_measured - buffered) 0"
  have "int wire * (10000 + ?d) \<le> int budget * 10000
      \<longleftrightarrow> 10000 + ?d \<le> int budget * 10000 div int wire"
    using False int_le_div_iff [of "int wire" "10000 + ?d" "int budget * 10000"]
    by (simp add: mult.commute)
  then show ?thesis using False by (auto simp: refill_admits_linear [OF assms])
qed

theorem refill_closes_deficit_in_horizon_witness:
  "refill_admits 4000 3808 192 1000 5000 policy_measured
   \<and> max (1000::int) (buffer_target_at_ms 3808 192 policy_measured) \<le> 1000 + 5000 * 10000 div 4000 - 10000"
proof -
  have t: "buffer_target_at_ms 3808 192 policy_measured \<le> 2500"
    using buffer_target_range by blast
  from refill_closes_deficit_in_horizon [of 1000 5000 4000 3808 192]
  show ?thesis using t by (simp add: i64_max_def u32_max_def)
qed

lemma modeled_sustainable_mono:
  assumes "modeled_sustainable c b policy_measured r"
    and "0 \<le> r" "r \<le> r'" "r' \<le> i64_max" "b \<le> b'" "b' \<le> u32_max"
  shows "modeled_sustainable c b' policy_measured r'"
proof -
  let ?t = "buffer_target_at_ms (expected_wire_kbps c - assumed_audio_kbps policy_measured)
    (assumed_audio_kbps policy_measured) policy_measured"
  have "int (expected_wire_kbps c) * (10000 + max (?t - r') 0)
      \<le> int (expected_wire_kbps c) * (10000 + max (?t - r) 0)"
    using assms(3) by (intro mult_left_mono) auto
  also have "\<dots> \<le> int b * 10000"
    using assms by (simp add: modeled_sustainable_def Let_def refill_admits_linear)
  also have "\<dots> \<le> int b' * 10000" using assms by simp
  finally show ?thesis using assms
    by (simp add: modeled_sustainable_def Let_def refill_admits_linear)
qed

text \<open>
  The actuator the planner offers is on the feasible menu, fits the budget and the refill rule, and
  is the richest that does; more capacity or more reserve never offers a poorer one.
\<close>

theorem best_sustainable_optimal_and_monotone:
  assumes "0 \<le> r" "r \<le> r'" "r' \<le> i64_max" "b \<le> b'" "b' \<le> u32_max"
    and best: "best_sustainable cat b policy_measured r = Some x"
  shows "x \<in> set (feasible cat) \<and> modeled_sustainable x b policy_measured r
    \<and> (\<forall>y \<in> set (feasible cat). modeled_sustainable y b policy_measured r \<longrightarrow>
         expected_wire_kbps y \<le> expected_wire_kbps x)
    \<and> (\<exists>x'. best_sustainable cat b' policy_measured r' = Some x'
         \<and> expected_wire_kbps x \<le> expected_wire_kbps x')"
proof -
  have sound: "x \<in> set (feasible cat)" "modeled_sustainable x b policy_measured r"
    using sustained.best_sound [of "(cat, policy_measured, r)" b x] best by auto
  have "expected_wire_kbps y \<le> expected_wire_kbps x"
    if "y \<in> set (feasible cat)" "modeled_sustainable y b policy_measured r" for y
    using sustained.best_complete [of y "(cat, policy_measured, r)" b] that best by auto
  moreover have "\<exists>x'. best_sustainable cat b' policy_measured r' = Some x'
      \<and> expected_wire_kbps x \<le> expected_wire_kbps x'"
    using sustained.best_wider [of "(cat, policy_measured, r)" "(cat, policy_measured, r')" b b' x]
      modeled_sustainable_mono assms by auto
  ultimately show ?thesis using sound by blast
qed

theorem best_sustainable_optimal_and_monotone_witness:
  "\<exists>x'. best_sustainable catalog_measured 9000 policy_measured 5000 = Some x'
     \<and> 4000 \<le> expected_wire_kbps x'"
proof -
  have "modeled_sustainable (point P720 4000 450) 5000 policy_measured 3000"
    using buffer_target_range [of "4000 - assumed_audio_kbps policy_measured" "assumed_audio_kbps policy_measured"]
    by (simp add: modeled_sustainable_def Let_def refill_admits_linear point_def range_defs)
  moreover have "point P720 4000 450 \<in> set (feasible catalog_measured)"
    by (simp add: feasible_def catalog_admits_def decodable_def covers_source_def catalog_measured_def
        point_def range_defs)
  ultimately obtain x where x: "best_sustainable catalog_measured 5000 policy_measured 3000 = Some x"
    and wire: "expected_wire_kbps (point P720 4000 450) \<le> expected_wire_kbps x"
    using sustained.best_complete [of "point P720 4000 450" "(catalog_measured, policy_measured, 3000)" 5000]
    by auto
  from best_sustainable_optimal_and_monotone [OF _ _ _ _ _ x, of 5000 9000] wire
  show ?thesis by (fastforce simp: range_defs point_def)
qed

lemma horizon_product:
  assumes "0 \<le> b" and "b \<le> 2147483647" and "R \<le> u32_max"
  shows "0 \<le> b * int R" and "wrap_i64 (b * int R) = b * int R"
proof -
  show "0 \<le> b * int R" using assms by simp
  have "b * int R \<le> 2147483647 * 4294967295"
    using assms by (intro mult_mono) (auto simp: u32_max_def)
  then show "wrap_i64 (b * int R) = b * int R"
    using \<open>0 \<le> b * int R\<close> by (intro wrap_i64_id) (simp add: is_i64_def range_defs)
qed

lemma starvation_horizon_eq:
  assumes "0 \<le> b" and "b \<le> 2147483647" and "R \<le> u32_max"
  shows "starvation_horizon b R C =
    (if R \<le> C then None else nat_of_i64 u32_max (b * int R div int (R - C) div 1000))"
proof (cases "C < R")
  case True
  have "trunc_div (b * int R) (int (R - C)) = b * int R div int (R - C)"
    using True horizon_product [OF assms] by (intro trunc_div_nonneg) auto
  moreover have "0 \<le> b * int R div int (R - C)"
    using True horizon_product [OF assms] by (simp add: pos_imp_zdiv_nonneg_iff)
  ultimately show ?thesis
    using True horizon_product [OF assms] by (simp add: starvation_horizon_def trunc_div_nonneg)
qed (simp add: starvation_horizon_def)

lemma starvation_horizon_None_iff:
  assumes "0 \<le> b" and "b \<le> 2147483647" and "R \<le> u32_max"
  shows "starvation_horizon b R C = None \<longleftrightarrow>
    R \<le> C \<or> int u32_max < b * int R div int (R - C) div 1000"
proof (cases "C < R")
  case True
  then have "0 \<le> b * int R div int (R - C) div 1000"
    using horizon_product [OF assms] by (simp add: pos_imp_zdiv_nonneg_iff)
  then show ?thesis using True by (auto simp: starvation_horizon_eq [OF assms] nat_of_i64_def)
qed (simp add: starvation_horizon_eq [OF assms])

lemma starvation_horizon_bounds:
  assumes "0 \<le> b" and "b \<le> 2147483647" and "R \<le> u32_max"
    and "starvation_horizon b R C = Some s"
  shows "C < R" and "int s * 1000 * (int R - int C) \<le> b * int R"
    and "b * int R < (int s + 1) * 1000 * (int R - int C)"
proof -
  show lt: "C < R" using assms(4) by (simp add: starvation_horizon_def split: if_splits)
  define D where "D = int (R - C)"
  have D: "0 < D" "D = int R - int C" using lt by (auto simp: D_def)
  have "0 \<le> b * int R div D div 1000"
    using D horizon_product [OF assms(1-3)] by (simp add: pos_imp_zdiv_nonneg_iff)
  then have s: "int s = b * int R div D div 1000"
    using assms(4) lt by (auto simp: starvation_horizon_eq [OF assms(1-3)] nat_of_i64_def D_def split: if_splits)
  show "int s * 1000 * (int R - int C) \<le> b * int R"
    using s D int_le_div_iff [of 1000 "int s" "b * int R div D"] int_le_div_iff [of D "int s * 1000" "b * int R"]
    by simp
  show "b * int R < (int s + 1) * 1000 * (int R - int C)"
    using s D int_div_less_iff [of 1000 "b * int R div D" "int s + 1"]
      int_div_less_iff [of D "b * int R" "(int s + 1) * 1000"] by simp
qed

text \<open>
  The starvation horizon is the truth about a draining buffer: with \<open>b\<close> milliseconds of content at
  \<open>R\<close> kbit/s and a link of \<open>C\<close> kbit/s, the content held plus the content delivered covers the content
  played up to the reported second and no longer covers it one second later; no horizon is reported
  exactly when the link carries the rate (or the horizon exceeds the range of its type).
\<close>

theorem starvation_horizon_exact:
  assumes "0 \<le> b" and "b \<le> 2147483647" and "R \<le> u32_max"
  shows "(case starvation_horizon b R C of
      None \<Rightarrow> R \<le> C \<or> int u32_max < b * int R div int (R - C) div 1000
    | Some s \<Rightarrow> C < R
        \<and> (\<forall>t. 0 \<le> t \<and> t \<le> 1000 * int s \<longrightarrow> int R * t \<le> b * int R + int C * t)
        \<and> (\<forall>t. 1000 * (int s + 1) \<le> t \<longrightarrow> b * int R + int C * t < int R * t))"
proof (cases "starvation_horizon b R C")
  case None
  then have "R \<le> C \<or> int u32_max < b * int R div int (R - C) div 1000"
    using starvation_horizon_None_iff [OF assms, of C] by blast
  then show ?thesis unfolding None option.case .
next
  case (Some s)
  note bounds = starvation_horizon_bounds [OF assms Some]
  define D where "D = int R - int C"
  have D: "0 < D" "int R = D + int C" using bounds(1) by (auto simp: D_def)
  have "int R * t \<le> b * int R + int C * t" if "t \<le> 1000 * int s" for t
  proof -
    have "t * D \<le> int s * 1000 * D" using that D by (intro mult_right_mono) auto
    with bounds(2) have "t * D \<le> b * int R" by (simp add: D_def)
    moreover have "int R * t = t * D + int C * t" using D(2) by (simp add: algebra_simps)
    ultimately show ?thesis by simp
  qed
  moreover have "b * int R + int C * t < int R * t" if "1000 * (int s + 1) \<le> t" for t
  proof -
    have "(int s + 1) * 1000 * D \<le> t * D" using that D by (intro mult_right_mono) auto
    with bounds(3) have "b * int R < t * D" by (simp add: D_def)
    moreover have "int R * t = t * D + int C * t" using D(2) by (simp add: algebra_simps)
    ultimately show ?thesis by simp
  qed
  ultimately show ?thesis using bounds(1) Some by simp
qed

theorem starvation_horizon_exact_witness:
  "starvation_horizon 6000 8000 6000 = Some 24 \<and> (8000::int) * 24000 \<le> 6000 * 8000 + 6000 * 24000"
proof -
  have some: "starvation_horizon 6000 8000 6000 = Some 24"
    by (simp add: starvation_horizon_def wrap_i64_def nat_of_i64_def trunc_div_nonneg u32_max_def)
  have b: "(0::int) \<le> 6000" and b': "(6000::int) \<le> 2147483647" and r: "(8000::nat) \<le> u32_max"
    by (simp_all add: u32_max_def)
  note exact = starvation_horizon_exact [OF b b' r, of 6000, unfolded some option.case]
  have "0 \<le> (24000::int) \<and> 24000 \<le> 1000 * int 24" by simp
  from exact [THEN conjunct2, THEN conjunct1, rule_format, OF this]
  show ?thesis using some by simp
qed

end
