(* ===== verification/Viability.thy ===== *)
theory Viability
  imports Plant
begin

text \<open>
  The vocabulary of the HLS controller (the first datatypes of \<open>abr/controller.rs\<close>) and the viability
  rules of a candidate (\<open>abr/viability.rs\<close>): how risky it is, how much time its first segment may take
  and which part of that deadline is a reserve that can still be rolled back.
\<close>

section \<open>Directions, reasons, proposals\<close>

datatype direction = Down | Up

datatype hls_reason =
    SafeBudgetIncrease | UnsafeCurrentState | ProductionConstraint | BufferConstraint | LadderFloor
  | StarvationHorizon | RejectBackoff | EvidenceWindow | DeadlineRollback | ReserveUnknown
  | AtBestRung | SwitchCost | ResponseLimited

datatype decision_reason = Hls hls_reason

datatype hls_exploration_state = Open | CommonBudgetBlocked | PerRungExhausted

record gate_counters =
  gc_dwell_ms :: nat
  gc_blocked_kbps :: nat
  gc_on_rung :: nat
  gc_draining :: nat

datatype reject_cause =
    Censored | Candidate | CompletedUnsustainable | ResponseUnchanged | StructuralAtOrBelow
  | Circumstance

record proposal =
  pr_rung :: rung
  pr_direction :: direction

datatype decision = Stay | Prime proposal

datatype reserve_policy = Preserve | TerminalFloor

datatype candidate_verdict =
  Ready | SetupBearing | Incomplete | VerdictReserveUnknown | Unsustainable | Unfunded

section \<open>Risk\<close>

definition source_requirement_kbps :: "nat \<Rightarrow> abr_policy \<Rightarrow> nat" where
  "source_requirement_kbps source_kbps policy = source_kbps"

record candidate_risk_rec =
  starvation_seconds :: "nat option"
  cr_production_ratio_pm :: "nat option"
  buffer_risk :: bool
  cr_score :: nat

definition RISK_NET :: int where "RISK_NET = 40"
definition RISK_BUFFER :: int where "RISK_BUFFER = 30"
definition RISK_SCORE_MAX :: nat where "RISK_SCORE_MAX = nat (RISK_NET + RISK_BUFFER)"

definition risk_score :: "nat option \<Rightarrow> bool \<Rightarrow> abr_policy \<Rightarrow> nat" where
  "risk_score horizon_secs risky policy =
     (let safe = int (starvation_safe_secs policy);
          fallback = int (starvation_fallback_secs policy);
          r_net_pm = (case horizon_secs of None \<Rightarrow> 0
            | Some t \<Rightarrow> if int t \<ge> safe then 0
                else if int t \<le> fallback then 1000
                else trunc_div ((safe - int t) * 1000) (max (safe - fallback) 1));
          net = trunc_div (RISK_NET * r_net_pm + 500) 1000;
          total = (if risky then net + RISK_BUFFER else net)
      in unwrap_or (nat_of_i64 u32_max total) u32_max)"

definition candidate_risk ::
  "hls_candidate \<Rightarrow> hls_candidate \<Rightarrow> capacity_estimate \<Rightarrow> production_estimate \<Rightarrow> buffer_estimate
    \<Rightarrow> abr_policy \<Rightarrow> candidate_risk_rec" where
  "candidate_risk cand current capacity production buffer policy =
     (let horizon = starvation_horizon (be_buffered buffer) (expected_wire_kbps cand)
                      (conservative_kbps capacity);
          risky = (be_buffered buffer < emergency_buffer_ms policy
                   \<or> be_starving buffer \<and> be_draining buffer)
      in \<lparr>starvation_seconds = horizon,
          cr_production_ratio_pm = predicted_ratio_pm production cand current policy,
          buffer_risk = risky, cr_score = risk_score horizon risky policy\<rparr>)"

definition hls_safe_budget :: "capacity_estimate \<Rightarrow> nat" where
  "hls_safe_budget capacity = conservative_kbps capacity"

section \<open>Time budgets of a candidate\<close>

definition candidate_warmup_budget ::
  "proposal \<Rightarrow> duration \<Rightarrow> duration \<Rightarrow> duration \<Rightarrow> duration \<Rightarrow> duration" where
  "candidate_warmup_budget p media_duration reserve transfer fixed_overhead =
     (let cold_start = (case pr_direction p of Up \<Rightarrow> reserve | Down \<Rightarrow> duration_max) in
      case pr_direction p of
        Up \<Rightarrow> min cold_start reserve
      | Down \<Rightarrow> max (min cold_start reserve) (duration_sat_add transfer fixed_overhead))"

definition candidate_media_reserve_deadline ::
  "proposal \<Rightarrow> reserve_policy \<Rightarrow> bool \<Rightarrow> duration \<Rightarrow> duration option" where
  "candidate_media_reserve_deadline p policy rebuffering budget =
     (let no_rollback_path = (rebuffering \<or> policy = TerminalFloor) in
      if \<not> (no_rollback_path \<and> pr_direction p = Down \<and> at_floor (pr_rung p)) then Some budget
      else None)"

definition predicted_transfer :: "nat \<Rightarrow> duration \<Rightarrow> nat \<Rightarrow> nat \<Rightarrow> duration" where
  "predicted_transfer target_wire_kbps media_duration capacity_kbps uncertainty_pm =
     (if capacity_kbps = 0 then 0
      else
        let bits = sat_mul u128_max target_wire_kbps (duration_as_millis media_duration);
            ms = bits div capacity_kbps;
            widened = sat_mul u128_max ms ((1000 + uncertainty_pm) mod 2 ^ 32) div 1000
        in duration_from_millis (unwrap_or (checked_nat u64_max widened) u64_max))"

definition candidate_prime_budget :: "duration \<Rightarrow> abr_policy \<Rightarrow> duration \<Rightarrow> duration" where
  "candidate_prime_budget media_duration policy reserve = min media_duration reserve"

definition upshift_transaction_cost :: "duration \<Rightarrow> abr_policy \<Rightarrow> duration" where
  "upshift_transaction_cost media_duration policy = 0"

definition reserve_as_budget :: "int \<Rightarrow> duration" where
  "reserve_as_budget reserve_ms =
     duration_from_millis (unwrap_or (nat_of_i64 u64_max (max reserve_ms 0)) 0)"

section \<open>The risk of a candidate is bounded and monotone\<close>

text \<open>The share of the network risk in the score, in thousandths.\<close>

definition net_risk_pm :: "nat option \<Rightarrow> abr_policy \<Rightarrow> int" where
  "net_risk_pm horizon_secs policy =
     (let safe = int (starvation_safe_secs policy);
          fallback = int (starvation_fallback_secs policy)
      in case horizon_secs of None \<Rightarrow> 0
         | Some t \<Rightarrow> if int t \<ge> safe then 0 else if int t \<le> fallback then 1000
             else (safe - int t) * 1000 div (safe - fallback))"

lemma net_risk_range: "0 \<le> net_risk_pm h policy \<and> net_risk_pm h policy \<le> 1000"
proof (cases h)
  case (Some t)
  define s f where sf: "s = int (starvation_safe_secs policy)" "f = int (starvation_fallback_secs policy)"
  have "0 \<le> (s - int t) * 1000 div (s - f) \<and> (s - int t) * 1000 div (s - f) \<le> 1000"
    if "int t < s" "f < int t"
  proof
    show "0 \<le> (s - int t) * 1000 div (s - f)" using that by (simp add: pos_imp_zdiv_nonneg_iff)
    have "(s - int t) * 1000 div (s - f) \<le> (s - f) * 1000 div (s - f)"
      using that by (intro zdiv_mono1) auto
    also have "\<dots> = 1000" using that nonzero_mult_div_cancel_left [of "s - f" 1000] by simp
    finally show "(s - int t) * 1000 div (s - f) \<le> 1000" .
  qed
  then show ?thesis by (simp add: net_risk_pm_def Some Let_def not_le flip: sf)
qed (simp add: net_risk_pm_def)

lemma net_risk_antimono:
  assumes "t \<le> u"
  shows "net_risk_pm (Some u) policy \<le> net_risk_pm (Some t) policy"
proof -
  define s f where sf: "s = int (starvation_safe_secs policy)" "f = int (starvation_fallback_secs policy)"
  have mid: "(s - int u) * 1000 div (s - f) \<le> (s - int t) * 1000 div (s - f)" if "f < s"
    using that assms by (intro zdiv_mono1) auto
  show ?thesis
  proof (cases "s \<le> int u \<or> int t \<le> f")
    case True
    then show ?thesis
      using net_risk_range [of "Some t" policy] net_risk_range [of "Some u" policy] assms
      by (auto simp: net_risk_pm_def Let_def simp flip: sf)
  next
    case False
    then show ?thesis using mid assms by (auto simp: net_risk_pm_def Let_def simp flip: sf)
  qed
qed

lemma risk_score_eq:
  "risk_score h risky policy =
     nat ((40 * net_risk_pm h policy + 500) div 1000 + (if risky then 30 else 0))"
proof -
  define s f where sf: "s = int (starvation_safe_secs policy)" "f = int (starvation_fallback_secs policy)"
  have "(case h of None \<Rightarrow> 0 | Some t \<Rightarrow> if int t \<ge> s then 0 else if int t \<le> f then 1000
      else trunc_div ((s - int t) * 1000) (max (s - f) 1)) = net_risk_pm h policy"
    by (cases h) (auto simp: net_risk_pm_def Let_def trunc_div_nonneg max_absorb1 simp flip: sf)
  then have eq: "risk_score h risky policy =
      (let net = trunc_div (RISK_NET * net_risk_pm h policy + 500) 1000;
           total = (if risky then net + RISK_BUFFER else net)
       in unwrap_or (nat_of_i64 u32_max total) u32_max)"
    by (simp add: risk_score_def Let_def flip: sf)
  have net: "trunc_div (40 * net_risk_pm h policy + 500) 1000 = (40 * net_risk_pm h policy + 500) div 1000"
    using net_risk_range [of h policy] by (simp add: trunc_div_nonneg)
  have "0 \<le> (40 * net_risk_pm h policy + 500) div 1000" "(40 * net_risk_pm h policy + 500) div 1000 \<le> 40"
    using net_risk_range [of h policy] by auto
  then show ?thesis
    unfolding eq RISK_NET_def RISK_BUFFER_def net by (simp add: nat_of_i64_def u32_max_def)
qed

text \<open>
  A candidate's risk score stays between 0 and its declared maximum of 70, it never falls when
  the projected starvation comes earlier or when the buffer becomes risky, and a candidate that would
  never starve carries no network risk.
\<close>

theorem risk_score_bounded_monotone:
  assumes "t \<le> u"
  shows "risk_score h risky policy \<le> RISK_SCORE_MAX \<and>
    risk_score None risky policy \<le> risk_score (Some u) risky policy \<and>
    risk_score (Some u) risky policy \<le> risk_score (Some t) risky policy \<and>
    risk_score h True policy = risk_score h False policy + 30 \<and>
    (u \<ge> starvation_safe_secs policy \<longrightarrow> risk_score (Some u) False policy = 0) \<and>
    (t \<le> starvation_fallback_secs policy \<and> t < starvation_safe_secs policy \<longrightarrow>
       risk_score (Some t) True policy = RISK_SCORE_MAX)"
proof -
  have bound: "0 \<le> (40 * net_risk_pm k policy + 500) div 1000 \<and> (40 * net_risk_pm k policy + 500) div 1000 \<le> 40"
    for k using net_risk_range [of k policy] by auto
  have mono: "(40 * net_risk_pm k policy + 500) div 1000 \<le> (40 * net_risk_pm l policy + 500) div 1000"
    if "net_risk_pm k policy \<le> net_risk_pm l policy" for k l
    using that by (intro zdiv_mono1) auto
  have "net_risk_pm None policy \<le> net_risk_pm (Some u) policy"
    using net_risk_range [of "Some u" policy] by (simp add: net_risk_pm_def)
  note steps = mono [OF this] mono [OF net_risk_antimono [OF assms]]
  have max: "RISK_SCORE_MAX = 70" by (simp add: RISK_SCORE_MAX_def RISK_NET_def RISK_BUFFER_def)
  have "risk_score h risky policy \<le> RISK_SCORE_MAX"
    using bound [of h] unfolding risk_score_eq max nat_le_iff by simp
  moreover have "risk_score None risky policy \<le> risk_score (Some u) risky policy"
    unfolding risk_score_eq using steps(1) by (intro nat_mono add_mono) auto
  moreover have "risk_score (Some u) risky policy \<le> risk_score (Some t) risky policy"
    unfolding risk_score_eq using steps(2) by (intro nat_mono add_mono) auto
  moreover have "risk_score h True policy = risk_score h False policy + 30"
    using bound [of h] by (simp add: risk_score_eq nat_add_distrib)
  moreover have "u \<ge> starvation_safe_secs policy \<longrightarrow> risk_score (Some u) False policy = 0"
    by (simp add: risk_score_eq net_risk_pm_def)
  moreover have "t \<le> starvation_fallback_secs policy \<and> t < starvation_safe_secs policy \<longrightarrow>
      risk_score (Some t) True policy = RISK_SCORE_MAX"
    by (simp add: risk_score_eq net_risk_pm_def max)
  ultimately show ?thesis by blast
qed

theorem risk_score_bounded_monotone_witness:
  "risk_score (Some 40) False policy_measured \<le> risk_score (Some 30) False policy_measured \<and>
   risk_score (Some 30) False policy_measured = 30"
  using risk_score_bounded_monotone [of 30 40 None False policy_measured]
  by (simp add: risk_score_eq net_risk_pm_def policy_measured_def)

section \<open>The budgets follow the direction\<close>

text \<open>
  The time a candidate may take is bounded by what the playback can afford in its direction: an
  upward candidate never gets more than the reserve, a downward one always gets at least the reserve
  and at least the predicted transfer with its overhead (the switch that relieves the playback is
  never refused for lack of budget), and only a downward move to the ladder's floor with no way back
  (rebuffering, or a terminal floor) runs without a reserve deadline.
\<close>

theorem budgets_follow_direction:
  assumes "reserve \<le> duration_max"
  shows "(pr_direction p = Up \<longrightarrow> candidate_warmup_budget p d reserve x overhead = reserve) \<and>
    (pr_direction p = Down \<longrightarrow>
       reserve \<le> candidate_warmup_budget p d reserve x overhead \<and>
       min duration_max (x + overhead) \<le> candidate_warmup_budget p d reserve x overhead \<and>
       candidate_warmup_budget p d reserve x overhead \<in> {reserve, min duration_max (x + overhead)}) \<and>
    (candidate_media_reserve_deadline p pol rebuffering budget = None \<longleftrightarrow>
       pr_direction p = Down \<and> at_floor (pr_rung p) \<and> (rebuffering \<or> pol = TerminalFloor)) \<and>
    (\<forall>b. candidate_media_reserve_deadline p pol rebuffering budget = Some b \<longrightarrow> b = budget)"
  using assms
  by (cases "pr_direction p")
    (auto simp: candidate_warmup_budget_def candidate_media_reserve_deadline_def duration_sat_add_def
      max_def min_def split: if_splits)

theorem budgets_follow_direction_witness:
  "7 \<le> candidate_warmup_budget \<lparr>pr_rung = P480, pr_direction = Down\<rparr> 6 2 5 2 \<and>
   candidate_media_reserve_deadline \<lparr>pr_rung = P480, pr_direction = Down\<rparr> TerminalFloor False 7 = Some 7"
  using budgets_follow_direction [of 2 "\<lparr>pr_rung = P480, pr_direction = Down\<rparr>" 6 5 2 TerminalFloor False 7]
  by (auto simp: duration_max_def at_floor_def below_def rung_index_def LADDER_def)

end
