(* ===== verification/Mode.thy ===== *)
theory Mode
  imports Viability Catalog
begin

text \<open>
  The choice between playing the source directly and playing an HLS rung (\<open>abr/mode.rs\<close>): the utility
  of both modes, the cost of a visible switch and its decay, and the comparison.
\<close>

section \<open>Modes and the cost of switching\<close>

datatype mode_kind = Original | ModeHls

record transition_history =
  visible_switches :: nat
  since_last_ms :: "nat option"

definition history_default :: transition_history where
  "history_default = \<lparr>visible_switches = 0, since_last_ms = None\<rparr>"

definition advanced_by :: "transition_history \<Rightarrow> nat \<Rightarrow> transition_history" where
  "advanced_by h elapsed_ms =
     \<lparr>visible_switches = visible_switches h,
      since_last_ms = map_option (\<lambda>ms. sat_add_u64 ms elapsed_ms) (since_last_ms h)\<rparr>"

definition penalty :: "transition_history \<Rightarrow> abr_policy \<Rightarrow> int" where
  "penalty h policy =
     (if visible_switches h = 0 then 0
      else
        let base = sat_i64 (visible_switch_penalty policy * int (visible_switches h)) in
        case since_last_ms h of None \<Rightarrow> base
        | Some since \<Rightarrow>
            let halvings = since div max (visible_switch_decay_ms policy) 1
            in base div 2 ^ min halvings 16)"

definition transition_cost :: "mode_kind \<Rightarrow> mode_kind \<Rightarrow> transition_history \<Rightarrow> abr_policy \<Rightarrow> int" where
  "transition_cost source target h policy =
     (if source = target then 0 else wrap_i64 (visible_switch_cost policy + penalty h policy))"

section \<open>Utilities\<close>

record mode_utility =
  mu_quality :: int
  mu_features :: int
  mu_risk :: int
  mu_server :: int
  mu_transition :: int
  mu_total :: int

record mode_inputs =
  in_current :: mode_kind
  in_source_kbps :: nat
  in_source_raster :: "nat \<times> nat"
  in_source_delivery :: capacity_estimate
  in_hls_delivery :: capacity_estimate
  in_production :: production_estimate
  in_buffer :: buffer_estimate
  in_remaining_ms :: int
  in_history :: transition_history
  original_feasible :: bool
  source_dv :: bool
  source_atmos :: bool
  unsafe_deficit_ms :: int

record source_features =
  sf_dv :: bool
  sf_atmos :: bool

definition benefit_scale_pm :: "int \<Rightarrow> abr_policy \<Rightarrow> int" where
  "benefit_scale_pm remaining_ms policy =
     (if remaining_ms \<le> 0 then 0
      else let horizon = max (benefit_horizon_ms policy) 1
           in trunc_div (wrap_i64 (min remaining_ms horizon * 1000)) horizon)"

definition scaled :: "int \<Rightarrow> int \<Rightarrow> int" where
  "scaled v scale_pm = trunc_div (wrap_i64 (v * scale_pm)) 1000"

definition quality_score_at_kbps :: "nat \<Rightarrow> int" where
  "quality_score_at_kbps wire_kbps =
     (if wire_kbps \<le> 500 then 0
      else if wire_kbps \<le> 1000 then 10
      else if wire_kbps \<le> 2500 then 25
      else if wire_kbps \<le> 5000 then 40
      else if wire_kbps \<le> 7000 then 50
      else if wire_kbps \<le> 9000 then 58
      else if wire_kbps \<le> 13000 then 66
      else if wire_kbps \<le> 17000 then 72
      else 76)"

definition QUALITY_ANCHORS :: "(int \<times> int) list" where
  "QUALITY_ANCHORS =
     [(500, 0), (1000, 10), (2500, 25), (5000, 40), (7000, 50), (9000, 58), (13000, 66), (17000, 72),
      (21000, 76)]"

fun quality_walk :: "int \<Rightarrow> int \<times> int \<Rightarrow> (int \<times> int) list \<Rightarrow> int" where
  "quality_walk kbps lower [] = snd lower * 1000"
| "quality_walk kbps lower ((edge, score) # anchors) =
     (if kbps \<le> edge then
        let span = edge - fst lower
        in snd lower * 1000
           + trunc_div ((kbps - fst lower) * (score - snd lower) * 1000) (max span 1)
      else quality_walk kbps (edge, score) anchors)"

definition quality_score_pm_at_kbps :: "nat \<Rightarrow> int" where
  "quality_score_pm_at_kbps wire_kbps = quality_walk (int wire_kbps) (0, 0) QUALITY_ANCHORS"

definition hls_scoring_kbps :: "hls_candidate \<Rightarrow> nat \<Rightarrow> nat" where
  "hls_scoring_kbps cand source_kbps =
     (if source_kbps = 0 then expected_wire_kbps cand else min (expected_wire_kbps cand) source_kbps)"

definition hls_utility :: "hls_candidate \<Rightarrow> hls_candidate \<Rightarrow> mode_inputs \<Rightarrow> abr_policy \<Rightarrow> mode_utility" where
  "hls_utility cand current inputs policy =
     (let scale = benefit_scale_pm (in_remaining_ms inputs) policy;
          risk = candidate_risk cand current (in_hls_delivery inputs) (in_production inputs)
                   (in_buffer inputs) policy;
          quality = scaled (quality_score_at_kbps (hls_scoring_kbps cand (in_source_kbps inputs))) scale;
          server = scaled (trunc_div (wrap_i64 (server_cost_weight policy * int (production_load_pm cand))) 1000)
                     scale;
          transition = transition_cost (in_current inputs) ModeHls (in_history inputs) policy;
          risk_cost = scaled (wrap_i64 (risk_weight policy * int (cr_score risk))) scale
      in \<lparr>mu_quality = quality, mu_features = 0, mu_risk = risk_cost, mu_server = server,
          mu_transition = transition,
          mu_total = wrap_i64 (quality - risk_cost - server - transition)\<rparr>)"

definition source_quality_score :: "mode_inputs \<Rightarrow> int" where
  "source_quality_score inputs =
     (let top = candidate catalog_measured P1080High;
          raster_cap = unwrap_or (max_opt (map expected_wire_kbps
            (feasible (limited_to catalog_measured (0, 0) (in_source_raster inputs))))) 0;
          rate = min (min (in_source_kbps inputs) (expected_wire_kbps top)) raster_cap
      in quality_score_at_kbps rate)"

definition original_risk_score :: "mode_inputs \<Rightarrow> abr_policy \<Rightarrow> nat" where
  "original_risk_score inputs policy =
     (let requirement = source_requirement_kbps (in_source_kbps inputs) policy;
          horizon = starvation_horizon (be_buffered (in_buffer inputs)) requirement
                      (conservative_kbps (in_source_delivery inputs));
          base = (case horizon of None \<Rightarrow> 0
            | Some seconds \<Rightarrow>
                if seconds \<ge> starvation_safe_secs policy then 2
                else if seconds \<ge> starvation_fallback_secs policy then 10
                else if seconds \<ge> starvation_fallback_secs policy div 2 then 25
                else 60);
          measured = (if ce_samples (in_source_delivery inputs) = 0 then base + 20 else base);
          threshold = max (sustained_unsafe_deficit_ms policy) 1;
          held_pm = min (trunc_div (sat_i64 (max (unsafe_deficit_ms inputs) 0 * 1000)) threshold) 2500
      in measured + unwrap_or (nat_of_i64 u32_max (trunc_div (60 * held_pm) 2500)) 60)"

definition original_utility :: "mode_inputs \<Rightarrow> abr_policy \<Rightarrow> mode_utility option" where
  "original_utility inputs policy =
     (if \<not> original_feasible inputs then None
      else
        let scale = benefit_scale_pm (in_remaining_ms inputs) policy;
            quality = scaled (wrap_i64 (original_quality_bonus policy + source_quality_score inputs)) scale;
            features = scaled (wrap_i64 (generation_loss_bonus policy
                + (if source_dv inputs then dv_bonus policy else 0)
                + (if source_atmos inputs then atmos_bonus policy else 0))) scale;
            transition = transition_cost (in_current inputs) Original (in_history inputs) policy;
            risk_cost = scaled (wrap_i64 (risk_weight policy * int (original_risk_score inputs policy))) scale
        in Some \<lparr>mu_quality = quality, mu_features = features, mu_risk = risk_cost, mu_server = 0,
                 mu_transition = transition,
                 mu_total = wrap_i64 (quality + features - risk_cost - transition)\<rparr>)"

section \<open>The comparison\<close>

datatype mode_reason = OriginalWorthIt | OriginalInfeasible | OriginalNotWorthIt

record mode_comparison =
  cmp_chosen :: mode_kind
  cmp_reason :: mode_reason
  cmp_winner :: mode_utility
  cmp_loser :: "mode_utility option"
  cmp_hls_rung :: rung
  cmp_scale_pm :: int

definition choose_mode ::
  "mode_inputs \<Rightarrow> hls_candidate \<Rightarrow> hls_candidate \<Rightarrow> abr_policy
    \<Rightarrow> mode_kind \<times> mode_reason \<times> mode_utility \<times> mode_utility option" where
  "choose_mode inputs current_hls best_hls policy =
     (let hls = hls_utility best_hls current_hls inputs policy in
      case original_utility inputs policy of
        Some orig \<Rightarrow>
          if mu_total orig > mu_total hls then (Original, OriginalWorthIt, orig, Some hls)
          else if mu_total orig = mu_total hls \<and> in_current inputs = Original
          then (Original, OriginalWorthIt, orig, Some hls)
          else (ModeHls, OriginalNotWorthIt, hls, Some orig)
      | None \<Rightarrow> (ModeHls, OriginalInfeasible, hls, None))"

section \<open>The quality curve\<close>

lemma trunc_div_mono:
  assumes "0 < d" "0 \<le> a" "a \<le> b"
  shows "trunc_div a d \<le> trunc_div b d"
  using assms by (simp add: trunc_div_nonneg zdiv_mono1)

text \<open>
  Anchors that rise in both coordinates: the walk is monotone, starts at the lower anchor and reaches
  every edge exactly.
\<close>

fun rising :: "int \<times> int \<Rightarrow> (int \<times> int) list \<Rightarrow> bool" where
  "rising lower [] = True"
| "rising lower (x # xs) \<longleftrightarrow> fst lower < fst x \<and> snd lower \<le> snd x \<and> rising x xs"

lemma quality_segment:
  fixes k :: int
  assumes "fst lower \<le> k" "k \<le> edge" "fst lower < edge" "snd lower \<le> score"
  shows "0 \<le> trunc_div ((k - fst lower) * (score - snd lower) * 1000) (max (edge - fst lower) 1)"
    and "trunc_div ((k - fst lower) * (score - snd lower) * 1000) (max (edge - fst lower) 1)
      \<le> (score - snd lower) * 1000"
    and "k = edge \<Longrightarrow> trunc_div ((k - fst lower) * (score - snd lower) * 1000) (max (edge - fst lower) 1)
      = (score - snd lower) * 1000"
proof -
  let ?w = "edge - fst lower" and ?h = "(score - snd lower) * 1000"
  have w: "max ?w 1 = ?w" "0 < ?w" using assms by auto
  have num: "(j - fst lower) * (score - snd lower) * 1000 = (j - fst lower) * ?h" for j by simp
  have nonneg: "0 \<le> (k - fst lower) * ?h" using assms by simp
  have eq: "trunc_div ((k - fst lower) * (score - snd lower) * 1000) (max ?w 1) = (k - fst lower) * ?h div ?w"
    unfolding num w(1) using nonneg w(2) by (rule trunc_div_nonneg)
  show "0 \<le> trunc_div ((k - fst lower) * (score - snd lower) * 1000) (max ?w 1)"
    unfolding eq using nonneg w(2) by (simp add: pos_imp_zdiv_nonneg_iff)
  have "(k - fst lower) * ?h div ?w \<le> ?w * ?h div ?w"
    using assms w(2) by (intro zdiv_mono1 mult_right_mono) auto
  also have top: "?w * ?h div ?w = ?h" using w(2) by (intro nonzero_mult_div_cancel_left) simp
  finally show "trunc_div ((k - fst lower) * (score - snd lower) * 1000) (max ?w 1) \<le> ?h" unfolding eq .
  show "k = edge \<Longrightarrow> trunc_div ((k - fst lower) * (score - snd lower) * 1000) (max ?w 1) = ?h"
    unfolding eq using top by simp
qed

lemma quality_walk_ge:
  "rising lower anchors \<Longrightarrow> fst lower \<le> k \<Longrightarrow> snd lower * 1000 \<le> quality_walk k lower anchors"
proof (induction k lower anchors rule: quality_walk.induct)
  case (2 k lower edge score anchors)
  show ?case
  proof (cases "k \<le> edge")
    case True
    with 2 quality_segment(1) [of lower k edge score] show ?thesis by (simp add: Let_def)
  next
    case False
    with 2 have "score * 1000 \<le> quality_walk k (edge, score) anchors" by simp
    with 2 False show ?thesis by simp
  qed
qed simp

lemma quality_walk_mono:
  "rising lower anchors \<Longrightarrow> fst lower \<le> j \<Longrightarrow> j \<le> k \<Longrightarrow>
   quality_walk j lower anchors \<le> quality_walk k lower anchors"
proof (induction k lower anchors rule: quality_walk.induct)
  case (2 k lower edge score anchors)
  let ?v = "\<lambda>i. trunc_div ((i - fst lower) * (score - snd lower) * 1000) (max (edge - fst lower) 1)"
  consider "k \<le> edge" | "j \<le> edge" "edge < k" | "edge < j" by linarith
  then show ?case
  proof cases
    case 1
    have "(j - fst lower) * (score - snd lower) * 1000 \<le> (k - fst lower) * (score - snd lower) * 1000"
      using 2 by (intro mult_right_mono) auto
    then have "?v j \<le> ?v k" using 2 by (intro trunc_div_mono) auto
    with 1 2 show ?thesis by (simp add: Let_def)
  next
    case 2
    note c = 2
    have "?v j \<le> (score - snd lower) * 1000"
      using "2.prems" c by (intro quality_segment(2)) auto
    moreover have "score * 1000 \<le> quality_walk k (edge, score) anchors"
      using "2.prems" c by (intro order_trans [OF _ quality_walk_ge]) auto
    ultimately show ?thesis using c by (simp add: Let_def)
  next
    case 3
    with 2 show ?thesis by simp
  qed
qed simp

lemma quality_anchors_rising: "rising (0, 0) QUALITY_ANCHORS"
  by (simp add: QUALITY_ANCHORS_def)

lemma quality_pm_mono: "j \<le> k \<Longrightarrow> quality_score_pm_at_kbps j \<le> quality_score_pm_at_kbps k"
  unfolding quality_score_pm_at_kbps_def by (rule quality_walk_mono [OF quality_anchors_rising]) auto

lemma quality_pm_at_anchors:
  "quality_score_pm_at_kbps 500 = 0" "quality_score_pm_at_kbps 1000 = 10000"
  "quality_score_pm_at_kbps 2500 = 25000" "quality_score_pm_at_kbps 5000 = 40000"
  "quality_score_pm_at_kbps 7000 = 50000" "quality_score_pm_at_kbps 9000 = 58000"
  "quality_score_pm_at_kbps 13000 = 66000" "quality_score_pm_at_kbps 17000 = 72000"
  by (simp_all add: quality_score_pm_at_kbps_def QUALITY_ANCHORS_def trunc_div_nonneg)

lemma quality_pm_top: "21000 \<le> k \<Longrightarrow> quality_score_pm_at_kbps k = 76000"
  by (auto simp: quality_score_pm_at_kbps_def QUALITY_ANCHORS_def trunc_div_nonneg)

lemma quality_score_at_range: "0 \<le> quality_score_at_kbps k" "quality_score_at_kbps k \<le> 76"
  by (simp_all add: quality_score_at_kbps_def)

lemma quality_score_at_mono: "j \<le> k \<Longrightarrow> quality_score_at_kbps j \<le> quality_score_at_kbps k"
  by (simp add: quality_score_at_kbps_def)

lemma quality_pm_below_step: "quality_score_pm_at_kbps k \<le> 1000 * quality_score_at_kbps k"
proof -
  note up = quality_pm_mono [of k]
  have top: "quality_score_pm_at_kbps k \<le> 76000"
    using up [of "max k 21000"] quality_pm_top [of "max k 21000"] by simp
  show ?thesis
    using up [of 500] up [of 1000] up [of 2500] up [of 5000] up [of 7000] up [of 9000] up [of 13000]
      up [of 17000] top quality_pm_at_anchors
    by (simp add: quality_score_at_kbps_def)
qed

text \<open>
  The continuous quality curve refines the step curve it replaces: it never falls as the rate
  grows, it never promises more than the step of the same rate, it meets the step at every upper edge,
  and it saturates at the top score.
\<close>

theorem quality_curve_refines_steps:
  assumes "j \<le> k"
  shows "quality_score_pm_at_kbps j \<le> quality_score_pm_at_kbps k \<and>
    quality_score_at_kbps j \<le> quality_score_at_kbps k \<and>
    0 \<le> quality_score_pm_at_kbps k \<and>
    quality_score_pm_at_kbps k \<le> 1000 * quality_score_at_kbps k \<and>
    (k \<in> {500, 1000, 2500, 5000, 7000, 9000, 13000, 17000} \<or> 21000 \<le> k \<longrightarrow>
      quality_score_pm_at_kbps k = 1000 * quality_score_at_kbps k)"
proof -
  have "0 \<le> quality_score_pm_at_kbps k"
    using quality_walk_ge [OF quality_anchors_rising, of "int k"] by (simp add: quality_score_pm_at_kbps_def)
  moreover have "quality_score_pm_at_kbps k = 1000 * quality_score_at_kbps k"
    if "k \<in> {500, 1000, 2500, 5000, 7000, 9000, 13000, 17000} \<or> 21000 \<le> k"
    using that by (auto simp: quality_pm_at_anchors quality_pm_top quality_score_at_kbps_def)
  ultimately show ?thesis
    using quality_pm_mono [OF assms] quality_score_at_mono [OF assms] quality_pm_below_step [of k] by blast
qed

theorem quality_curve_refines_steps_witness:
  "quality_score_pm_at_kbps 6000 \<le> quality_score_pm_at_kbps 7000 \<and> quality_score_pm_at_kbps 6000 = 45000"
  using quality_curve_refines_steps [of 6000 7000]
  by (simp add: quality_score_pm_at_kbps_def QUALITY_ANCHORS_def trunc_div_nonneg)

section \<open>The penalty of visible switches\<close>

lemma penalty_measured:
  assumes "visible_switches h \<le> u32_max"
  shows "penalty h policy_measured =
    (case since_last_ms h of None \<Rightarrow> 15 * int (visible_switches h)
     | Some since \<Rightarrow> 15 * int (visible_switches h) div 2 ^ min (since div 120000) 16)"
proof -
  have "is_i64 (15 * int (visible_switches h))"
    using assms by (simp add: is_i64_def i64_min_def i64_max_def u32_max_def)
  then show ?thesis by (simp add: penalty_def policy_measured_def sat_i64_id Let_def split: option.split)
qed

lemma penalty_range:
  assumes "visible_switches h \<le> u32_max"
  shows "0 \<le> penalty h policy_measured" "penalty h policy_measured \<le> 15 * int (visible_switches h)"
proof -
  let ?b = "15 * int (visible_switches h)"
  have "0 \<le> ?b div 2 ^ m \<and> ?b div 2 ^ m \<le> ?b" for m :: nat
    using zdiv_mono2 [of ?b 1 "2 ^ m"] by (simp add: pos_imp_zdiv_nonneg_iff)
  then show "0 \<le> penalty h policy_measured" "penalty h policy_measured \<le> ?b"
    unfolding penalty_measured [OF assms] by (auto split: option.split)
qed

text \<open>
  The penalty of visible switches is forgiving in time and strict in number: letting time pass
  never raises it and, with no switch, it is nothing; another visible switch never lowers it; it
  never exceeds 15 points per switch and halves with each two minutes that pass (for half an hour).
\<close>

theorem penalty_decays:
  assumes "visible_switches h + 1 \<le> u32_max" and "since_last_ms h = Some since"
  shows "penalty (advanced_by h elapsed) policy_measured \<le> penalty h policy_measured \<and>
    penalty h policy_measured \<le> penalty (h\<lparr>visible_switches := visible_switches h + 1\<rparr>) policy_measured \<and>
    0 \<le> penalty h policy_measured \<and> penalty h policy_measured \<le> 15 * int (visible_switches h) \<and>
    (since < 16 * 120000 - 120000 \<longrightarrow>
      penalty (advanced_by h 120000) policy_measured = penalty h policy_measured div 2)"
proof -
  let ?b = "15 * int (visible_switches h)"
  have v: "visible_switches h \<le> u32_max" using assms(1) by simp
  note p = penalty_measured
  have decay: "?b div 2 ^ n \<le> ?b div 2 ^ m" if "m \<le> n" for m n :: nat
    using that by (intro zdiv_mono2) auto
  have fwd: "min (since div 120000) 16 \<le> min (min u64_max (since + elapsed) div 120000) 16"
    if "since \<le> u64_max" using that by (intro min.mono div_le_mono) auto
  have big: "min (min u64_max (since + elapsed) div 120000) 16 = 16" if "\<not> since \<le> u64_max"
    using that by (simp add: u64_max_def)
  have "penalty (advanced_by h elapsed) policy_measured \<le> penalty h policy_measured"
  proof (cases "since \<le> u64_max")
    case True
    with decay [OF fwd [OF True]] show ?thesis
      using v by (simp add: p advanced_by_def assms(2) sat_add_def min.commute)
  next
    case False
    with big have "min (since div 120000) 16 = 16" by (simp add: u64_max_def)
    with big [OF False] show ?thesis
      using v by (simp add: p advanced_by_def assms(2) sat_add_def min.commute)
  qed
  moreover have "penalty h policy_measured \<le> penalty (h\<lparr>visible_switches := visible_switches h + 1\<rparr>) policy_measured"
    using v assms by (simp add: p zdiv_mono1)
  moreover have "penalty (advanced_by h 120000) policy_measured = penalty h policy_measured div 2"
    if "since < 16 * 120000 - 120000"
  proof -
    have "min u64_max (since + 120000) = since + 120000" using that by (simp add: u64_max_def)
    moreover have "(since + 120000) div 120000 = since div 120000 + 1" by simp
    moreover have "since div 120000 < 15" using that by (simp add: div_less_iff_less_mult)
    moreover have "?b div 2 ^ (since div 120000 + 1) = ?b div 2 ^ (since div 120000) div 2"
      using zdiv_zmult2_eq [of 2 ?b "2 ^ (since div 120000)"] by (simp add: mult.commute)
    ultimately show ?thesis
      using v by (simp add: p advanced_by_def assms(2) sat_add_def min.commute)
  qed
  ultimately show ?thesis using penalty_range [OF v] by blast
qed

theorem penalty_decays_witness:
  "penalty (advanced_by \<lparr>visible_switches = 2, since_last_ms = Some 0\<rparr> 120000) policy_measured = 15"
proof -
  let ?h = "\<lparr>visible_switches = 2, since_last_ms = Some 0\<rparr>"
  have "penalty ?h policy_measured = 30" by (simp add: penalty_measured u32_max_def)
  moreover have "visible_switches ?h + 1 \<le> u32_max" "since_last_ms ?h = Some 0" by (simp_all add: u32_max_def)
  ultimately show ?thesis using penalty_decays [of ?h 0 120000] by simp
qed

section \<open>The choice\<close>

lemma scale_range: "0 \<le> benefit_scale_pm r policy_measured \<and> benefit_scale_pm r policy_measured \<le> 1000"
proof -
  have "0 \<le> min r 120000 * 1000 div 120000 \<and> min r 120000 * 1000 div 120000 \<le> 1000" if "0 < r"
  proof
    show "0 \<le> min r 120000 * 1000 div 120000" using that by (simp add: pos_imp_zdiv_nonneg_iff)
    have "min r 120000 * 1000 div 120000 \<le> 120000 * 1000 div 120000" by (intro zdiv_mono1) auto
    then show "min r 120000 * 1000 div 120000 \<le> 1000" by simp
  qed
  moreover have "is_i64 (min r 120000 * 1000)" if "0 < r"
    unfolding is_i64_def i64_min_def i64_max_def using that by linarith
  ultimately show ?thesis
    by (auto simp: benefit_scale_pm_def policy_measured_def wrap_i64_id trunc_div_nonneg)
qed

lemma scaled_range:
  assumes "0 \<le> v" "v \<le> 1000000000000" "0 \<le> s" "s \<le> 1000"
  shows "0 \<le> scaled v s" "scaled v s \<le> v"
proof -
  have "v * s \<le> v * 1000" using assms by (intro mult_left_mono) auto
  have "0 \<le> v * s" using assms by simp
  have "is_i64 (v * s)"
    unfolding is_i64_def i64_min_def i64_max_def
    using \<open>v * s \<le> v * 1000\<close> \<open>0 \<le> v * s\<close> assms(2) by linarith
  then have eq: "scaled v s = v * s div 1000"
    using \<open>0 \<le> v * s\<close> by (simp add: scaled_def wrap_i64_id trunc_div_nonneg)
  show "0 \<le> scaled v s" unfolding eq using \<open>0 \<le> v * s\<close> by (simp add: pos_imp_zdiv_nonneg_iff)
  have "v * s div 1000 \<le> v * 1000 div 1000" using \<open>v * s \<le> v * 1000\<close> by (intro zdiv_mono1) auto
  then show "scaled v s \<le> v" unfolding eq by simp
qed

lemmas scaled_measured = scaled_range [OF _ _ scale_range [THEN conjunct1] scale_range [THEN conjunct2]]

text \<open>A mode's worth is its utility without the price of getting there.\<close>

definition worth :: "mode_utility \<Rightarrow> int" where
  "worth u = mu_quality u + mu_features u - mu_risk u - mu_server u"

definition switch_price :: "mode_inputs \<Rightarrow> int" where
  "switch_price inputs = 15 + penalty (in_history inputs) policy_measured"

definition inputs_ok :: "mode_inputs \<Rightarrow> bool" where
  "inputs_ok inputs = (visible_switches (in_history inputs) \<le> u32_max)"

lemma switch_price_range:
  assumes "inputs_ok inputs"
  shows "15 \<le> switch_price inputs" "switch_price inputs \<le> 15 + 15 * int u32_max"
  using penalty_range [of "in_history inputs"] assms by (auto simp: switch_price_def inputs_ok_def)

lemma transition_measured:
  assumes "inputs_ok inputs"
  shows "transition_cost a b (in_history inputs) policy_measured = (if a = b then 0 else switch_price inputs)"
proof -
  have "is_i64 (switch_price inputs)"
    using switch_price_range [OF assms] by (simp add: is_i64_def i64_min_def i64_max_def u32_max_def)
  then show ?thesis
    by (simp add: transition_cost_def switch_price_def policy_measured_def wrap_i64_id)
qed

lemma wrap_small: "\<bar>x\<bar> \<le> 1000000000000000 \<Longrightarrow> wrap_i64 x = x"
  by (rule wrap_i64_id) (auto simp: is_i64_def i64_min_def i64_max_def abs_le_iff)

lemma hls_worth:
  assumes "inputs_ok inputs" and "production_load_pm cand \<le> u32_max"
  shows "mu_total (hls_utility cand current inputs policy_measured) =
      worth (hls_utility cand current inputs policy_measured)
        - (if in_current inputs = ModeHls then 0 else switch_price inputs)"
    and "mu_transition (hls_utility cand current inputs policy_measured) =
      (if in_current inputs = ModeHls then 0 else switch_price inputs)"
    and "worth (hls_utility cand current (inputs\<lparr>in_current := m\<rparr>) policy_measured) =
      worth (hls_utility cand current inputs policy_measured)"
proof -
  let ?u = "hls_utility cand current inputs policy_measured"
  define risk where "risk = cr_score (candidate_risk cand current (in_hls_delivery inputs)
    (in_production inputs) (in_buffer inputs) policy_measured)"
  have "risk_score h b policy_measured \<le> 70" for h b
    using net_risk_range [of h policy_measured] unfolding risk_score_eq nat_le_iff by auto
  then have "risk \<le> 70" by (simp add: risk_def candidate_risk_def Let_def)
  then have r2: "wrap_i64 (2 * int risk) = 2 * int risk" by (intro wrap_small) simp
  let ?load = "4 * int (production_load_pm cand)"
  have load: "wrap_i64 ?load = ?load" "0 \<le> trunc_div ?load 1000" "trunc_div ?load 1000 \<le> 20000000"
    using assms(2) by (auto simp: wrap_small u32_max_def trunc_div_nonneg pos_imp_zdiv_nonneg_iff)
  have q: "0 \<le> mu_quality ?u" "mu_quality ?u \<le> 76"
    using scaled_measured [of "quality_score_at_kbps (hls_scoring_kbps cand (in_source_kbps inputs))" "in_remaining_ms inputs"]
      quality_score_at_range [of "hls_scoring_kbps cand (in_source_kbps inputs)"]
    by (auto simp: hls_utility_def Let_def)
  have s: "0 \<le> mu_server ?u" "mu_server ?u \<le> 20000000"
    using scaled_measured [of "trunc_div ?load 1000" "in_remaining_ms inputs"] load
    by (auto simp: hls_utility_def Let_def policy_measured_def)
  have k: "0 \<le> mu_risk ?u" "mu_risk ?u \<le> 140"
    using scaled_measured [of "2 * int risk" "in_remaining_ms inputs"] r2 \<open>risk \<le> 70\<close>
    by (auto simp: hls_utility_def Let_def policy_measured_def risk_def)
  show tr: "mu_transition ?u = (if in_current inputs = ModeHls then 0 else switch_price inputs)"
    using transition_measured [OF assms(1)] by (simp add: hls_utility_def Let_def)
  have f: "mu_features ?u = 0" by (simp add: hls_utility_def Let_def)
  have t: "0 \<le> mu_transition ?u" "mu_transition ?u \<le> 15 + 15 * int u32_max"
    using switch_price_range [OF assms(1)] by (auto simp: tr)
  have "mu_total ?u = wrap_i64 (mu_quality ?u - mu_risk ?u - mu_server ?u - mu_transition ?u)"
    by (simp add: hls_utility_def Let_def)
  also have "\<dots> = mu_quality ?u - mu_risk ?u - mu_server ?u - mu_transition ?u"
    using q s k t by (intro wrap_small) (simp add: u32_max_def abs_le_iff)
  finally show "mu_total ?u = worth ?u - (if in_current inputs = ModeHls then 0 else switch_price inputs)"
    by (simp add: worth_def f tr)
  show "worth (hls_utility cand current (inputs\<lparr>in_current := m\<rparr>) policy_measured) = worth ?u"
    by (simp add: worth_def hls_utility_def Let_def)
qed

lemma original_risk_range: "original_risk_score inputs policy \<le> 140"
proof -
  define held where "held = min (trunc_div (sat_i64 (max (unsafe_deficit_ms inputs) 0 * 1000))
    (max (sustained_unsafe_deficit_ms policy) 1)) 2500"
  have "0 \<le> sat_i64 (max (unsafe_deficit_ms inputs) 0 * 1000)"
    by (simp add: sat_i64_def i64_min_def i64_max_def)
  then have "0 \<le> held" "held \<le> 2500" by (auto simp: held_def intro!: trunc_div_ge_0)
  then have "0 \<le> trunc_div (60 * held) 2500" "trunc_div (60 * held) 2500 \<le> 60"
    by (auto simp: trunc_div_nonneg pos_imp_zdiv_nonneg_iff)
  then have "unwrap_or (nat_of_i64 u32_max (trunc_div (60 * held) 2500)) 60 \<le> 60"
    by (simp add: nat_of_i64_def u32_max_def)
  then show ?thesis
    by (simp add: original_risk_score_def Let_def flip: held_def split: option.split)
qed

lemma original_worth:
  assumes "inputs_ok inputs" and "original_utility inputs policy_measured = Some u"
  shows "mu_total u = worth u - (if in_current inputs = Original then 0 else switch_price inputs)"
    and "mu_transition u = (if in_current inputs = Original then 0 else switch_price inputs)"
    and "\<exists>v. original_utility (inputs\<lparr>in_current := m\<rparr>) policy_measured = Some v \<and> worth v = worth u"
proof -
  have feas: "original_feasible inputs" using assms(2) by (auto simp: original_utility_def split: if_splits)
  define risk where "risk = original_risk_score inputs policy_measured"
  have "risk \<le> 140" unfolding risk_def by (rule original_risk_range)
  then have r2: "wrap_i64 (2 * int risk) = 2 * int risk" by (intro wrap_small) simp
  let ?f = "8 + (if source_dv inputs then 13 else 0) + (if source_atmos inputs then 4 else 0) :: int"
  have f: "wrap_i64 ?f = ?f" "0 \<le> ?f" "?f \<le> 25" by (auto simp: wrap_small)
  have sq: "0 \<le> source_quality_score inputs" "source_quality_score inputs \<le> 76"
    using quality_score_at_range by (auto simp: source_quality_score_def Let_def)
  then have qw: "wrap_i64 (40 + source_quality_score inputs) = 40 + source_quality_score inputs"
    by (intro wrap_small) simp
  note u = assms(2) [unfolded original_utility_def Let_def, symmetric]
  have q: "0 \<le> mu_quality u" "mu_quality u \<le> 116"
    using scaled_measured [of "40 + source_quality_score inputs" "in_remaining_ms inputs"] sq qw u feas
    by (auto simp: policy_measured_def)
  have g: "0 \<le> mu_features u" "mu_features u \<le> 25"
    using scaled_measured [of ?f "in_remaining_ms inputs"] f u feas
    by (auto simp: policy_measured_def split: if_splits)
  have k: "0 \<le> mu_risk u" "mu_risk u \<le> 280"
    using scaled_measured [of "2 * int risk" "in_remaining_ms inputs"] r2 \<open>risk \<le> 140\<close> u feas
    by (auto simp: policy_measured_def risk_def)
  have s: "mu_server u = 0" using u feas by simp
  show tr: "mu_transition u = (if in_current inputs = Original then 0 else switch_price inputs)"
    using transition_measured [OF assms(1)] u feas by simp
  have t: "0 \<le> mu_transition u" "mu_transition u \<le> 15 + 15 * int u32_max"
    using switch_price_range [OF assms(1)] by (auto simp: tr)
  have "mu_total u = wrap_i64 (mu_quality u + mu_features u - mu_risk u - mu_transition u)"
    using u feas by simp
  also have "\<dots> = mu_quality u + mu_features u - mu_risk u - mu_transition u"
    using q g k t by (intro wrap_small) (simp add: u32_max_def abs_le_iff)
  finally show "mu_total u = worth u - (if in_current inputs = Original then 0 else switch_price inputs)"
    by (simp add: worth_def s tr)
  show "\<exists>v. original_utility (inputs\<lparr>in_current := m\<rparr>) policy_measured = Some v \<and> worth v = worth u"
    using u feas
    by (simp add: original_utility_def Let_def worth_def original_risk_score_def source_quality_score_def)
qed

lemma choose_mode_measured:
  assumes "inputs_ok inputs" and "production_load_pm best \<le> u32_max"
  shows "choose_mode inputs current best policy_measured =
    (let hls = hls_utility best current inputs policy_measured; price = switch_price inputs in
     case original_utility inputs policy_measured of
       None \<Rightarrow> (ModeHls, OriginalInfeasible, hls, None)
     | Some orig \<Rightarrow>
        if (if in_current inputs = Original then worth hls - price \<le> worth orig
            else worth hls < worth orig - price)
        then (Original, OriginalWorthIt, orig, Some hls)
        else (ModeHls, OriginalNotWorthIt, hls, Some orig))"
proof (cases "original_utility inputs policy_measured")
  case None
  then show ?thesis by (simp add: choose_mode_def Let_def)
next
  case (Some orig)
  note h = hls_worth(1) [OF assms, of current] and w = original_worth(1) [OF assms(1) Some]
  show ?thesis
    by (cases "in_current inputs") (auto simp: choose_mode_def Let_def Some h w)
qed

text \<open>
  The comparison of the two modes is stable and pays for what it breaks. Direct play is chosen
  only when it is feasible; a visible switch happens only towards a mode that is worth at least the
  price of the switch more than the one playing (strictly more towards direct play), unless direct
  play became infeasible; and the same evidence never sends direct play to HLS and HLS back to direct
  play.
\<close>

theorem mode_choice_pays_for_switch:
  assumes "visible_switches (in_history inputs) \<le> u32_max" and "production_load_pm best \<le> u32_max"
  shows "(case choose_mode inputs current best policy_measured of (mode, reason, winner, loser) \<Rightarrow>
      (mode = Original \<longrightarrow> original_feasible inputs) \<and>
      (loser = None \<longleftrightarrow> \<not> original_feasible inputs) \<and>
      (\<forall>l. loser = Some l \<and> mode \<noteq> in_current inputs \<longrightarrow>
         worth l + 15 + penalty (in_history inputs) policy_measured
           \<le> worth winner - (if mode = Original then 1 else 0)) \<and>
      (\<forall>l. loser = Some l \<and> mode = in_current inputs \<longrightarrow>
         worth l - (15 + penalty (in_history inputs) policy_measured) \<le> worth winner)) \<and>
    \<not> (fst (choose_mode (inputs\<lparr>in_current := Original\<rparr>) current best policy_measured) = ModeHls \<and>
       fst (choose_mode (inputs\<lparr>in_current := ModeHls\<rparr>) current best policy_measured) = Original)"
proof -
  let ?hls = "hls_utility best current inputs policy_measured"
  have ok: "inputs_ok inputs" "inputs_ok (inputs\<lparr>in_current := m\<rparr>)" for m
    using assms(1) by (simp_all add: inputs_ok_def)
  have feas: "original_utility i policy_measured = None \<longleftrightarrow> \<not> original_feasible i" for i
    by (simp add: original_utility_def Let_def)
  have price: "switch_price (inputs\<lparr>in_current := m\<rparr>) = switch_price inputs" for m
    by (simp add: switch_price_def)
  note c = choose_mode_measured [OF ok(1) assms(2), of current]
  note cm = choose_mode_measured [where current = current, OF ok(2) assms(2)]
  show ?thesis
  proof (cases "original_utility inputs policy_measured")
    case None
    then have none: "original_utility (inputs\<lparr>in_current := m\<rparr>) policy_measured = None" for m
      using feas by simp
    then show ?thesis unfolding c cm none None Let_def option.case using feas [of inputs] None by simp
  next
    case (Some u)
    have f: "original_feasible inputs" using feas [of inputs] Some by simp
    have first: "case choose_mode inputs current best policy_measured of (mode, reason, winner, loser) \<Rightarrow>
      (mode = Original \<longrightarrow> original_feasible inputs) \<and>
      (loser = None \<longleftrightarrow> \<not> original_feasible inputs) \<and>
      (\<forall>l. loser = Some l \<and> mode \<noteq> in_current inputs \<longrightarrow>
         worth l + 15 + penalty (in_history inputs) policy_measured
           \<le> worth winner - (if mode = Original then 1 else 0)) \<and>
      (\<forall>l. loser = Some l \<and> mode = in_current inputs \<longrightarrow>
         worth l - (15 + penalty (in_history inputs) policy_measured) \<le> worth winner)"
      using f switch_price_range(1) [OF ok(1)]
      by (cases "in_current inputs") (auto simp: c Some Let_def switch_price_def)
    have "\<not> (fst (choose_mode (inputs\<lparr>in_current := Original\<rparr>) current best policy_measured) = ModeHls \<and>
       fst (choose_mode (inputs\<lparr>in_current := ModeHls\<rparr>) current best policy_measured) = Original)"
    proof
      assume flip: "fst (choose_mode (inputs\<lparr>in_current := Original\<rparr>) current best policy_measured) = ModeHls \<and>
       fst (choose_mode (inputs\<lparr>in_current := ModeHls\<rparr>) current best policy_measured) = Original"
      obtain v v' where
        v: "original_utility (inputs\<lparr>in_current := Original\<rparr>) policy_measured = Some v" "worth v = worth u"
        and v': "original_utility (inputs\<lparr>in_current := ModeHls\<rparr>) policy_measured = Some v'" "worth v' = worth u"
        using original_worth(3) [OF ok(1) Some] by blast
      have "worth u < worth ?hls - switch_price inputs"
        using flip v hls_worth(3) [OF ok(1) assms(2), of current Original]
        by (auto simp: cm Let_def price split: if_splits)
      moreover have "worth ?hls < worth u - switch_price inputs"
        using flip v' hls_worth(3) [OF ok(1) assms(2), of current ModeHls]
        by (auto simp: cm Let_def price split: if_splits)
      ultimately show False using switch_price_range(1) [OF ok(1)] by linarith
    qed
    with first show ?thesis by blast
  qed
qed

definition calm_inputs :: "mode_kind \<Rightarrow> mode_inputs" where
  "calm_inputs m =
     \<lparr>in_current = m, in_source_kbps = 8000, in_source_raster = (1920, 1080),
      in_source_delivery = capacity_default, in_hls_delivery = capacity_default,
      in_production = production_default, in_buffer = buffer_default, in_remaining_ms = 600000,
      in_history = history_default, original_feasible = False, source_dv = False,
      source_atmos = False, unsafe_deficit_ms = 0\<rparr>"

theorem mode_choice_pays_for_switch_witness:
  "fst (choose_mode (calm_inputs Original) (candidate catalog_measured P480) (candidate catalog_measured P720)
     policy_measured) \<noteq> Original"
proof -
  let ?best = "candidate catalog_measured P720" and ?i = "calm_inputs Original"
  have load: "production_load_pm ?best \<le> u32_max"
    by (simp add: candidate_def catalog_measured_def point_def u32_max_def)
  have "visible_switches (in_history ?i) \<le> u32_max" by (simp add: calm_inputs_def history_default_def)
  from mode_choice_pays_for_switch [where current = "candidate catalog_measured P480", OF this load]
  show ?thesis by (auto simp: calm_inputs_def split: prod.splits)
qed

end
