(* ===== verification/Controller.thy ===== *)
theory Controller
  imports Window Mode
begin

text \<open>
  The state and the operations of the HLS controller (\<open>abr/controller.rs\<close>). The one long method of the
  source, \<open>observe_inner\<close>, is modelled as its consecutive phases: the evidence a sample leaves, the
  rollback of an abandoned acquisition, the pin, the downshift and the upshift. A Rust \<open>expect\<close> that
  could fail is the value \<open>None\<close> of the phase.
\<close>

section \<open>Failure certificates\<close>

record failure_certificate =
  deadline_budget_ms :: "int option"
  service_endpoint :: bool
  completed_unsustainable_hls_fast_kbps :: "nat option"
  structural :: bool

definition certificate_default :: failure_certificate where
  "certificate_default =
     \<lparr>deadline_budget_ms = None, service_endpoint = False,
      completed_unsustainable_hls_fast_kbps = None, structural = False\<rparr>"

definition some_and :: "('a \<Rightarrow> bool) \<Rightarrow> 'a option \<Rightarrow> bool" where
  "some_and P a = (case a of None \<Rightarrow> False | Some x \<Rightarrow> P x)"

lemma some_and_simps [simp]: "\<not> some_and P None" "some_and P (Some x) = P x"
  by (simp_all add: some_and_def)

definition completed_unsustainable_blocks :: "failure_certificate \<Rightarrow> capacity_estimate \<Rightarrow> bool" where
  "completed_unsustainable_blocks f dlv =
     some_and (\<lambda>old_regime. conservative_kbps dlv \<le> old_regime)
       (completed_unsustainable_hls_fast_kbps f)"

definition certificate_blocks :: "failure_certificate \<Rightarrow> int option \<Rightarrow> capacity_estimate \<Rightarrow> bool" where
  "certificate_blocks f exploration_budget_ms dlv =
     (structural f \<or> completed_unsustainable_blocks f dlv \<or>
      some_and (\<lambda>failed. opt_all (\<lambda>budget. budget \<le> failed) exploration_budget_ms)
        (deadline_budget_ms f))"

definition service_blocks :: "failure_certificate \<Rightarrow> int option \<Rightarrow> capacity_estimate \<Rightarrow> bool" where
  "service_blocks f exploration_budget_ms dlv =
     (completed_unsustainable_blocks f dlv \<or> service_endpoint f)"

section \<open>The state\<close>

record controller =
  c_current :: rung
  c_pending :: "proposal option"
  c_pending_reserve_policy :: "reserve_policy option"
  c_delivery :: capacity_estimate
  c_production :: production_estimate
  c_buffer :: buffer_estimate
  c_catalog :: hls_catalog
  c_policy :: abr_policy
  c_samples_on_rung :: nat
  c_now_ms :: nat
  c_last_buffer_observation_ms :: "nat option"
  c_rollback_media_ms :: "nat option"
  c_failures :: "failure_certificate list"
  c_common_budget_frontier_ms :: "int option"
  c_pending_exploration_budget_ms :: int
  c_rollback_rung :: "rung option"
  c_recovery_target :: "rung option"
  c_last_reason :: "decision_reason option"
  c_last_safe_budget_kbps :: nat
  c_last_emergency_horizon :: "nat option"
  c_pin :: "rung option"
  c_acquisitions :: acquisition_window
  c_last_window :: admission_readout
  c_active_variant :: "hls_variant option"
  c_active_variant_evidence_kbps :: "nat option"
  c_visible_switches :: nat
  c_last_switch_ms :: "nat option"

record controller_telemetry =
  t_current :: rung
  t_safe_budget_kbps :: nat
  t_emergency_horizon_secs :: "nat option"
  t_optimal :: "hls_candidate option"
  t_delivery :: capacity_estimate
  t_production :: production_estimate
  t_buffer :: buffer_estimate
  t_risk :: candidate_risk_rec
  t_pending :: "proposal option"
  t_reason :: "decision_reason option"
  t_window :: admission_readout
  t_gates :: gate_counters

definition readout_default :: admission_readout where
  "readout_default =
     \<lparr>rd_have = 0, rd_want = 0, rd_effective_epsilon_pm = 0, rd_clamped = False, rd_bound_us = None,
      rd_admission = None, rd_resets = 0\<rparr>"

definition starting_at :: "rung \<Rightarrow> capacity_estimate option \<Rightarrow> hls_catalog \<Rightarrow> controller" where
  "starting_at r prior cat =
     \<lparr>c_current = r, c_pending = None, c_pending_reserve_policy = None,
      c_delivery = unwrap_or prior capacity_default, c_production = production_default,
      c_buffer = buffer_default, c_catalog = cat, c_policy = policy_measured, c_samples_on_rung = 0,
      c_now_ms = 0, c_last_buffer_observation_ms = None, c_rollback_media_ms = None,
      c_failures = replicate (length LADDER) certificate_default, c_common_budget_frontier_ms = None,
      c_pending_exploration_budget_ms = 0, c_rollback_rung = None, c_recovery_target = None,
      c_last_reason = None, c_last_safe_budget_kbps = 0, c_last_emergency_horizon = None,
      c_pin = None, c_acquisitions = window_default, c_last_window = readout_default,
      c_active_variant = None, c_active_variant_evidence_kbps = None, c_visible_switches = 0,
      c_last_switch_ms = None\<rparr>"

definition pinned_to :: "controller \<Rightarrow> rung option \<Rightarrow> controller" where
  "pinned_to c pin = c\<lparr>c_pin := pin\<rparr>"

definition failure_of :: "controller \<Rightarrow> rung \<Rightarrow> failure_certificate" where
  "failure_of c r = c_failures c ! rung_index r"

definition update_failure ::
  "rung \<Rightarrow> (failure_certificate \<Rightarrow> failure_certificate) \<Rightarrow> controller \<Rightarrow> controller" where
  "update_failure r f c =
     c\<lparr>c_failures := (c_failures c)[rung_index r := f (c_failures c ! rung_index r)]\<rparr>"

section \<open>Queries\<close>

definition observe_active_variant :: "hls_variant \<Rightarrow> nat \<Rightarrow> controller \<Rightarrow> controller" where
  "observe_active_variant variant evidence_kbps c =
     (if c_active_variant c = Some variant then c
      else c\<lparr>c_active_variant := Some variant, c_active_variant_evidence_kbps := Some evidence_kbps\<rparr>)"

definition active_variant_needs_refresh :: "controller \<Rightarrow> bool" where
  "active_variant_needs_refresh c =
     some_and (\<lambda>v. definitively_underfills v (c_current c) (source_raster (c_catalog c)))
       (c_active_variant c)"

definition active_variant_refresh_released :: "controller \<Rightarrow> bool" where
  "active_variant_refresh_released c =
     some_and (\<lambda>observed. conservative_kbps (c_delivery c) > observed) (c_active_variant_evidence_kbps c)"

definition controller_worst_overhead_us :: "controller \<Rightarrow> nat" where
  "controller_worst_overhead_us c = worst_overhead_us (c_acquisitions c)"

text \<open>Rounding up a number of microseconds to milliseconds, with the signs of Rust's \<open>/\<close> and \<open>%\<close>.\<close>

definition us_to_ms_up :: "int \<Rightarrow> int" where
  "us_to_ms_up us =
     (let q = trunc_div us 1000 in wrap_i64 (q + (if us - q * 1000 \<noteq> 0 then 1 else 0)))"

definition exploration_budget_ms_for :: "controller \<Rightarrow> int \<Rightarrow> nat option \<Rightarrow> int option" where
  "exploration_budget_ms_for c reserve_ms rollback_media_ms =
     (case observed_admission (c_acquisitions c) reserve_ms of None \<Rightarrow> None
      | Some observed \<Rightarrow>
        if \<not> sustainable observed then None
        else
          let runway_ms = us_to_ms_up (runway_us observed) in
          case rollback_media_ms of None \<Rightarrow> None
          | Some rollback \<Rightarrow>
            if int rollback > 0 then
              let rollback_reserve_ms = max runway_ms (int rollback);
                  budget = sat_i64 (reserve_ms - rollback_reserve_ms)
              in if budget > 0 then Some budget else None
            else None)"

definition exploration_budget_ms :: "controller \<Rightarrow> int \<Rightarrow> int option" where
  "exploration_budget_ms c reserve_ms = exploration_budget_ms_for c reserve_ms (c_rollback_media_ms c)"

definition common_budget_blocks :: "controller \<Rightarrow> int option \<Rightarrow> bool" where
  "common_budget_blocks c budget =
     some_and (\<lambda>failed. opt_all (\<lambda>b. b \<le> failed) budget) (c_common_budget_frontier_ms c)"

definition above_current :: "controller \<Rightarrow> hls_candidate list" where
  "above_current c = filter (\<lambda>cand. hc_rung cand > c_current c) (feasible (c_catalog c))"

definition below_current :: "controller \<Rightarrow> hls_candidate list" where
  "below_current c = filter (\<lambda>cand. hc_rung cand < c_current c) (feasible (c_catalog c))"

definition hls_exploration_state_of :: "controller \<Rightarrow> hls_exploration_state" where
  "hls_exploration_state_of c =
     (let budget = exploration_budget_ms c (be_buffered (c_buffer c)) in
      if common_budget_blocks c budget then CommonBudgetBlocked
      else if \<exists>cand \<in> set (above_current c).
                \<not> certificate_blocks (failure_of c (hc_rung cand)) budget (c_delivery c)
      then Open else PerRungExhausted)"

definition hls_frontier_exhausted :: "controller \<Rightarrow> bool" where
  "hls_frontier_exhausted c = (hls_exploration_state_of c \<noteq> Open)"

definition prime_runway_ms :: "controller \<Rightarrow> int option" where
  "prime_runway_ms c = map_option us_to_ms_up (observed_runway_us (c_acquisitions c))"

definition recovery_floor :: "controller \<Rightarrow> rung" where
  "recovery_floor c = unwrap_or (min_opt (map hc_rung (below_current c))) (c_current c)"

definition completed_recovery_target :: "controller \<Rightarrow> nat \<Rightarrow> int \<Rightarrow> rung" where
  "completed_recovery_target c safe_budget_kbps buffered_ms =
     unwrap_or (map_option hc_rung (max_by_key expected_wire_kbps
        (filter (\<lambda>cand. modeled_sustainable cand safe_budget_kbps (c_policy c) buffered_ms)
          (below_current c))))
       (recovery_floor c)"

definition pending_reserve_policy_for :: "controller \<Rightarrow> proposal \<Rightarrow> reserve_policy option" where
  "pending_reserve_policy_for c p =
     (if c_pending c = Some p then c_pending_reserve_policy c else None)"

definition visible_switch_history :: "controller \<Rightarrow> transition_history" where
  "visible_switch_history c =
     \<lparr>visible_switches = c_visible_switches c,
      since_last_ms = map_option (\<lambda>at. c_now_ms c - at) (c_last_switch_ms c)\<rparr>"

definition upshift_earns_its_visible_switch :: "controller \<Rightarrow> rung \<Rightarrow> bool" where
  "upshift_earns_its_visible_switch c target =
     (if target = c_current c then True
      else
        let price = sat_i64 (penalty (visible_switch_history c) (c_policy c) * 1000) in
        if price \<le> 0 then True
        else
          let (width, height) = rung_raster target;
              (current_width, current_height) = rung_raster (c_current c)
          in if width > current_width \<or> height > current_height then True
             else
               let grade = (\<lambda>r. quality_score_pm_at_kbps (expected_wire_kbps (candidate (c_catalog c) r)))
               in grade target - grade (c_current c) \<ge> price)"

definition telemetry :: "controller \<Rightarrow> controller_telemetry" where
  "telemetry c =
     (let current = candidate (c_catalog c) (c_current c);
          budget = exploration_budget_ms c (be_buffered (c_buffer c))
      in \<lparr>t_current = c_current c, t_safe_budget_kbps = c_last_safe_budget_kbps c,
          t_emergency_horizon_secs = c_last_emergency_horizon c, t_optimal = None,
          t_delivery = c_delivery c, t_production = c_production c, t_buffer = c_buffer c,
          t_risk = candidate_risk current current (c_delivery c) (c_production c) (c_buffer c) (c_policy c),
          t_pending = c_pending c, t_reason = c_last_reason c, t_window = c_last_window c,
          t_gates =
            \<lparr>gc_dwell_ms = 0,
             gc_blocked_kbps =
               unwrap_or (max_opt (map (\<lambda>cand. rung_kbps (hc_rung cand))
                 (filter (\<lambda>cand. common_budget_blocks c budget \<or>
                            certificate_blocks (failure_of c (hc_rung cand)) budget (c_delivery c))
                   (above_current c)))) 0,
             gc_on_rung = c_samples_on_rung c, gc_draining = be_draining_samples (c_buffer c)\<rparr>\<rparr>)"

section \<open>Observing a segment\<close>

text \<open>The evidence every sample leaves, before any decision.\<close>

definition sample_observation :: "controller \<Rightarrow> segment_sample \<Rightarrow> capacity_observation" where
  "sample_observation c sample =
     clamped_to_evidence
       \<lparr>co_kbps = network_kbps sample, co_bytes = ss_bytes sample,
        co_active_us = ss_active_fetch_us sample, co_completed = ss_completed sample\<rparr>
       (expected_wire_kbps (candidate (c_catalog c) (c_current c)))"

definition observe_delivery :: "segment_sample \<Rightarrow> controller \<Rightarrow> controller \<times> bool" where
  "observe_delivery sample c =
     (let ratio = production_ratio_pm sample;
          current_candidate = candidate (c_catalog c) (c_current c);
          observation = sample_observation c sample;
          completed = ss_completed sample;
          network = (if completed then co_kbps observation else ce_fast (c_delivery c));
          regime_changed = (completed \<and> is_collapse observation (c_delivery c));
          collapsed = (if regime_changed then collapse (c_delivery c) network else c_delivery c);
          cold_start = (c_samples_on_rung c = 0)
      in (if completed
          then c\<lparr>c_delivery := ce_update collapsed observation,
                 c_production :=
                   production_observe (c_production c) ratio (production_load_pm current_candidate) cold_start,
                 c_samples_on_rung := sat_add_u8 (c_samples_on_rung c) 1,
                 c_rollback_rung := None,
                 c_recovery_target := None\<rparr>
          else c,
          regime_changed))"

definition observe_buffer :: "segment_sample \<Rightarrow> nat \<Rightarrow> controller \<Rightarrow> controller" where
  "observe_buffer sample now_ms c =
     (let wall_delta = unwrap_or (case c_last_buffer_observation_ms c of None \<Rightarrow> None
            | Some before \<Rightarrow> i64_of_nat (now_ms - before)) 0
      in if snapshot_buffered_ms (ss_buffer sample) \<noteq> None
         then c\<lparr>c_buffer := be_update (c_buffer c) (snapshot_buffered_ms (ss_buffer sample)) wall_delta,
                c_last_buffer_observation_ms := Some now_ms\<rparr>
         else c)"

definition observe_window :: "segment_sample \<Rightarrow> bool \<Rightarrow> bool \<Rightarrow> controller \<Rightarrow> controller" where
  "observe_window sample session_boundary regime_changed c =
     (let window =
        (if ss_completed sample \<and> \<not> session_boundary
         then window_observe (ss_bytes sample) (ss_total_fetch_us sample) (ss_active_fetch_us sample)
                (int (ss_media_duration_ms sample))
                (if regime_changed then window_reset (c_acquisitions c) else c_acquisitions c)
         else c_acquisitions c)
      in c\<lparr>c_acquisitions := window,
           c_last_window := observed_readout window (be_buffered (c_buffer c))\<rparr>)"

definition observe_evidence ::
  "segment_sample \<Rightarrow> nat option \<Rightarrow> nat \<Rightarrow> bool \<Rightarrow> controller \<Rightarrow> controller" where
  "observe_evidence sample rollback_media_ms now_ms session_boundary c =
     (let c1 = c\<lparr>c_now_ms := now_ms,
                 c_rollback_media_ms :=
                   (case rollback_media_ms of None \<Rightarrow> None
                    | Some duration \<Rightarrow> if duration > 0 then Some duration else None),
                 c_last_reason := None\<rparr>;
          (c2, regime_changed) = observe_delivery sample c1;
          c3 = observe_buffer sample now_ms c2;
          c4 = c3\<lparr>c_last_safe_budget_kbps := hls_safe_budget (c_delivery c3)\<rparr>
      in observe_window sample session_boundary regime_changed c4)"

text \<open>The exits of the decision phases.\<close>

definition stay :: "hls_reason \<Rightarrow> controller \<Rightarrow> controller \<times> decision" where
  "stay reason c = (c\<lparr>c_last_reason := Some (Hls reason)\<rparr>, Stay)"

definition propose :: "proposal \<Rightarrow> reserve_policy \<Rightarrow> controller \<Rightarrow> controller \<times> decision" where
  "propose p policy c =
     (c\<lparr>c_pending := Some p, c_pending_reserve_policy := Some policy\<rparr>, Prime p)"

definition because :: "hls_reason \<Rightarrow> controller \<Rightarrow> controller" where
  "because reason c = c\<lparr>c_last_reason := Some (Hls reason)\<rparr>"

definition observe_abandoned :: "controller \<Rightarrow> controller \<times> decision" where
  "observe_abandoned c =
     (let target = unwrap_or (or_else (c_recovery_target c) (c_rollback_rung c)) (recovery_floor c)
      in if target < c_current c
         then propose \<lparr>pr_rung = target, pr_direction = Down\<rparr> Preserve (because DeadlineRollback c)
         else stay LadderFloor c)"

definition observe_pinned :: "rung \<Rightarrow> int \<Rightarrow> int \<Rightarrow> controller \<Rightarrow> controller \<times> decision" where
  "observe_pinned pin buffered segment c =
     (if c_current c = pin then (c, Stay)
      else
        let direction = (if rung_kbps pin > rung_kbps (c_current c) then Up else Down);
            required = (case direction of Up \<Rightarrow> PIN_MIN_RESERVE_SEGMENTS
                        | Down \<Rightarrow> PIN_MIN_RESERVE_SEGMENTS_DOWN)
        in if buffered < sat_i64 (segment * required) then (c, Stay)
           else propose \<lparr>pr_rung = pin, pr_direction = direction\<rparr> Preserve c)"

definition observe_downshift ::
  "admission_verdict \<Rightarrow> nat \<Rightarrow> int \<Rightarrow> controller \<Rightarrow> controller \<times> decision" where
  "observe_downshift physics safe_budget buffered c =
     (let target = (if survivable physics then completed_recovery_target c safe_budget buffered
                    else recovery_floor c)
      in if target = c_current c then stay LadderFloor c
         else propose \<lparr>pr_rung = target, pr_direction = Down\<rparr>
                (if survivable physics then Preserve else TerminalFloor)
                (because (if \<not> survivable physics then BufferConstraint else UnsafeCurrentState) c))"

definition eligible :: "controller \<Rightarrow> int \<Rightarrow> rung list" where
  "eligible c budget =
     map hc_rung (filter (\<lambda>cand. \<not> certificate_blocks (failure_of c (hc_rung cand)) (Some budget) (c_delivery c))
       (above_current c))"

definition service_ceiling :: "controller \<Rightarrow> int \<Rightarrow> rung option" where
  "service_ceiling c budget =
     min_opt (map hc_rung
       (filter (\<lambda>cand. service_blocks (failure_of c (hc_rung cand)) (Some budget) (c_delivery c))
         (above_current c)))"

text \<open>\<open>Option::max\<close> on rungs: \<open>None\<close> is below every rung.\<close>

definition opt_max :: "rung option \<Rightarrow> rung option \<Rightarrow> rung option" where
  "opt_max a b = (case a of None \<Rightarrow> b | Some x \<Rightarrow> (case b of None \<Rightarrow> a | Some y \<Rightarrow> Some (max x y)))"

definition upshift_target :: "controller \<Rightarrow> nat \<Rightarrow> int \<Rightarrow> int \<Rightarrow> rung option" where
  "upshift_target c safe_budget budget buffered =
     (let elig = eligible c budget in
      case service_ceiling c budget of
        None \<Rightarrow> max_opt elig
      | Some ceiling \<Rightarrow>
          let under = filter (\<lambda>r. r < ceiling) elig;
              modeled_target = max_opt (filter (\<lambda>r.
                modeled_sustainable (candidate (c_catalog c) r) safe_budget (c_policy c) buffered) elig);
              ordinal_target = (if length under > 0 then Some (under ! ((length under - 1) div 2)) else None)
          in opt_max modeled_target ordinal_target)"

definition observe_refresh :: "int \<Rightarrow> controller \<Rightarrow> controller \<times> decision" where
  "observe_refresh budget c =
     (if active_variant_needs_refresh c then
        (if active_variant_refresh_released c
            \<and> \<not> certificate_blocks (failure_of c (c_current c)) (Some budget) (c_delivery c)
         then propose \<lparr>pr_rung = c_current c, pr_direction = Up\<rparr> Preserve
                (because ResponseLimited c\<lparr>c_pending_exploration_budget_ms := budget\<rparr>)
         else stay ResponseLimited c)
      else stay AtBestRung c)"

definition observe_upshift :: "nat \<Rightarrow> int \<Rightarrow> controller \<Rightarrow> controller \<times> decision" where
  "observe_upshift safe_budget buffered c =
     (case exploration_budget_ms c buffered of None \<Rightarrow> stay EvidenceWindow c
      | Some budget \<Rightarrow>
        if common_budget_blocks c (Some budget) then stay RejectBackoff c
        else if above_current c = [] then observe_refresh budget c
        else (case upshift_target c safe_budget budget buffered of None \<Rightarrow> stay RejectBackoff c
          | Some target \<Rightarrow>
            if \<not> upshift_earns_its_visible_switch c target then stay SwitchCost c
            else propose \<lparr>pr_rung = target, pr_direction = Up\<rparr> Preserve
                   (because SafeBudgetIncrease c\<lparr>c_pending_exploration_budget_ms := budget\<rparr>)))"

definition observe_inner ::
  "segment_sample \<Rightarrow> nat option \<Rightarrow> nat \<Rightarrow> bool \<Rightarrow> controller \<Rightarrow> (controller \<times> decision) option" where
  "observe_inner sample rollback_media_ms now_ms session_boundary c0 =
     (let c = observe_evidence sample rollback_media_ms now_ms session_boundary c0;
          segment = int (ss_media_duration_ms sample);
          safe_budget = hls_safe_budget (c_delivery c)
      in if session_boundary \<and> ss_completed sample then Some (stay EvidenceWindow c)
         else if c_pending c \<noteq> None then Some (c, Stay)
         else (case snapshot_buffered_ms (ss_buffer sample) of None \<Rightarrow> Some (stay ReserveUnknown c)
           | Some buffered \<Rightarrow>
             if \<not> ss_completed sample then Some (observe_abandoned c)
             else (case c_pin c of Some pin \<Rightarrow> Some (observe_pinned pin buffered segment c)
               | None \<Rightarrow>
                 let c' = c\<lparr>c_last_emergency_horizon := None\<rparr> in
                 (case observed_ordered_admission (c_acquisitions c') buffered of None \<Rightarrow> None
                  | Some physics \<Rightarrow>
                    if \<not> sustainable physics \<or> \<not> survivable physics
                    then Some (observe_downshift physics safe_budget buffered c')
                    else Some (observe_upshift safe_budget buffered c')))))"

definition observe_with_rollback ::
  "segment_sample \<Rightarrow> nat option \<Rightarrow> nat \<Rightarrow> controller \<Rightarrow> (controller \<times> decision) option" where
  "observe_with_rollback sample rollback_media_ms now_ms c =
     observe_inner sample rollback_media_ms now_ms False c"

definition observe_session_boundary ::
  "segment_sample \<Rightarrow> nat option \<Rightarrow> nat \<Rightarrow> controller \<Rightarrow> (controller \<times> decision) option" where
  "observe_session_boundary sample rollback_media_ms now_ms c =
     observe_inner sample rollback_media_ms now_ms True c"

section \<open>The life of a candidate\<close>

definition set_executed_exploration_budget :: "proposal \<Rightarrow> int \<Rightarrow> controller \<Rightarrow> controller \<times> bool" where
  "set_executed_exploration_budget p budget_ms c =
     (if c_pending c \<noteq> Some p \<or> pr_direction p \<noteq> Up \<or> budget_ms \<le> 0 then (c, False)
      else if common_budget_blocks c (Some budget_ms)
           \<or> certificate_blocks (failure_of c (pr_rung p)) (Some budget_ms) (c_delivery c)
      then (because RejectBackoff
              (c\<lparr>c_pending := None, c_pending_reserve_policy := None,
                 c_pending_exploration_budget_ms := 0\<rparr>), False)
      else (c\<lparr>c_pending_exploration_budget_ms := budget_ms\<rparr>, True))"

definition on_resume :: "nat \<Rightarrow> controller \<Rightarrow> controller" where
  "on_resume paused_ms c =
     c\<lparr>c_delivery := age_ms (c_delivery c) paused_ms (c_policy c), c_buffer := buffer_default,
       c_last_buffer_observation_ms := None, c_samples_on_rung := 0\<rparr>"

definition fetch_us_i64 :: "segment_sample \<Rightarrow> int" where
  "fetch_us_i64 sample = unwrap_or (i64_of_nat (ss_total_fetch_us sample)) i64_max"

definition candidate_verdict_of :: "controller \<Rightarrow> proposal \<Rightarrow> segment_sample \<Rightarrow> nat \<Rightarrow> candidate_verdict" where
  "candidate_verdict_of c p sample declared =
     (if c_pending c \<noteq> Some p \<or> \<not> ss_completed sample then Incomplete
      else if pr_direction p = Down \<and> pr_rung p = recovery_floor c
           \<and> c_pending_reserve_policy c = Some TerminalFloor then Ready
      else (case snapshot_buffered_ms (ss_buffer sample) of None \<Rightarrow> VerdictReserveUnknown
        | Some buffered \<Rightarrow>
          let segment = int (ss_media_duration_ms sample);
              segment_obligation = int (ss_media_obligation_ms sample);
              acquisition_us = fetch_us_i64 sample;
              duration_us = sat_i64 (segment * 1000)
          in (case pr_direction p of
               Down \<Rightarrow> if acquisition_us > duration_us \<and> pr_rung p \<noteq> recovery_floor c then Unsustainable
                       else if buffered \<ge> segment_obligation then Ready
                       else Unfunded
             | Up \<Rightarrow> if acquisition_us > duration_us then Unsustainable
                     else if sat_i64 (buffered * 1000) < acquisition_us then Unfunded
                     else Ready)))"

definition candidate_boundary_verdict ::
  "controller \<Rightarrow> proposal \<Rightarrow> segment_sample \<Rightarrow> nat \<Rightarrow> candidate_verdict" where
  "candidate_boundary_verdict c p sample declared =
     (let verdict = candidate_verdict_of c p sample declared in
      if verdict \<noteq> Unsustainable then verdict
      else if pr_direction p = Down then Unsustainable
      else (case snapshot_buffered_ms (ss_buffer sample) of None \<Rightarrow> VerdictReserveUnknown
        | Some buffered_ms \<Rightarrow>
          if sat_i64 (buffered_ms * 1000) \<ge> fetch_us_i64 sample then SetupBearing else Unfunded))"

definition commit_candidate_evidence :: "segment_sample \<Rightarrow> controller \<Rightarrow> controller" where
  "commit_candidate_evidence sample c =
     (if \<not> ss_completed sample then c
      else
        let window = window_observe (ss_bytes sample) (ss_total_fetch_us sample)
              (ss_active_fetch_us sample) (int (ss_media_duration_ms sample)) (c_acquisitions c)
        in c\<lparr>c_acquisitions := window,
             c_last_window := observed_readout window
               (unwrap_or (snapshot_buffered_ms (ss_buffer sample)) 0)\<rparr>)"

definition commit :: "proposal \<Rightarrow> nat \<Rightarrow> controller \<Rightarrow> controller \<times> bool" where
  "commit p now_ms c =
     (if c_pending c \<noteq> Some p then (c, False)
      else
        let previous = c_current c;
            c1 = c\<lparr>c_current := pr_rung p\<rparr>;
            c2 = (if pr_rung p \<noteq> previous
                  then c1\<lparr>c_active_variant := None, c_active_variant_evidence_kbps := None,
                          c_visible_switches := sat_add_u32 (c_visible_switches c1) 1,
                          c_last_switch_ms := Some now_ms\<rparr>
                  else c1);
            window = window_reset (c_acquisitions c2)
        in (update_failure (pr_rung p) (\<lambda>_. certificate_default)
              (c2\<lparr>c_pending := None, c_pending_reserve_policy := None,
                  c_pending_exploration_budget_ms := 0, c_common_budget_frontier_ms := None,
                  c_samples_on_rung := 0, c_acquisitions := window,
                  c_last_window := observed_readout window 0, c_buffer := be_rebase (c_buffer c2),
                  c_last_buffer_observation_ms := None,
                  c_rollback_rung :=
                    (if pr_direction p = Up \<and> pr_rung p > previous then Some previous else None),
                  c_recovery_target := None, c_now_ms := max (c_now_ms c2) now_ms\<rparr>), True))"

definition commit_candidate ::
  "proposal \<Rightarrow> segment_sample \<Rightarrow> hls_variant \<Rightarrow> nat \<Rightarrow> controller \<Rightarrow> controller \<times> bool" where
  "commit_candidate p sample variant now_ms c =
     (let response_improves =
        (pr_direction p \<noteq> Up \<or> some_and (\<lambda>active. strictly_dominates variant active) (c_active_variant c))
      in if \<not> response_improves \<or> candidate_verdict_of c p sample (declared_bps variant) \<noteq> Ready
         then (c, False)
         else
           (case commit p now_ms c of (c1, ok) \<Rightarrow>
              if \<not> ok then (c1, False)
              else (observe_active_variant variant (network_kbps sample)
                      (commit_candidate_evidence sample c1), True)))"

text \<open>\<open>for rung in LADDER.iter().copied().filter(|rung| *rung <= proposal.rung)\<close>.\<close>

definition mark_structural :: "rung \<Rightarrow> controller \<Rightarrow> controller" where
  "mark_structural r c =
     fold (\<lambda>s. update_failure s (\<lambda>f. f\<lparr>structural := True\<rparr>)) (filter (\<lambda>s. s \<le> r) LADDER) c"

definition raise_deadline :: "int \<Rightarrow> failure_certificate \<Rightarrow> failure_certificate" where
  "raise_deadline budget f =
     f\<lparr>deadline_budget_ms := Some (max (unwrap_or (deadline_budget_ms f) 0) budget)\<rparr>"

definition reject_upshift :: "proposal \<Rightarrow> reject_cause \<Rightarrow> controller \<Rightarrow> controller" where
  "reject_upshift p cause c =
     (let budget = c_pending_exploration_budget_ms c;
          raise_common = (\<lambda>c. c\<lparr>c_common_budget_frontier_ms :=
            Some (max (unwrap_or (c_common_budget_frontier_ms c) 0) budget)\<rparr>)
      in case cause of
           Censored \<Rightarrow> update_failure (pr_rung p)
             (\<lambda>f. raise_deadline budget f\<lparr>service_endpoint := True\<rparr>) (raise_common c)
         | ResponseUnchanged \<Rightarrow> update_failure (pr_rung p) (raise_deadline budget) (raise_common c)
         | Candidate \<Rightarrow> update_failure (pr_rung p)
             (\<lambda>f. raise_deadline budget f\<lparr>service_endpoint := True\<rparr>) c
         | CompletedUnsustainable \<Rightarrow> update_failure (pr_rung p)
             (\<lambda>f. f\<lparr>completed_unsustainable_hls_fast_kbps :=
                Some (max (unwrap_or (completed_unsustainable_hls_fast_kbps f) 0)
                          (ce_fast (c_delivery c)))\<rparr>) c
         | StructuralAtOrBelow \<Rightarrow> mark_structural (pr_rung p) c
         | Circumstance \<Rightarrow> c)"

definition reject :: "proposal \<Rightarrow> reject_cause \<Rightarrow> nat \<Rightarrow> controller \<Rightarrow> controller \<times> bool" where
  "reject p cause now_ms c =
     (if c_pending c \<noteq> Some p then (c, False)
      else
        let c1 = c\<lparr>c_pending := None, c_pending_reserve_policy := None,
                   c_now_ms := max (c_now_ms c) now_ms\<rparr>
        in if cause = Circumstance then (c1\<lparr>c_pending_exploration_budget_ms := 0\<rparr>, True)
           else if pr_direction p = Down then
             let c2 = (if cause \<in> {Censored, Candidate, CompletedUnsustainable, ResponseUnchanged}
                       then let floor = recovery_floor c1
                            in c1\<lparr>c_recovery_target := (if floor < c_current c1 then Some floor else None)\<rparr>
                       else c1)
             in (c2\<lparr>c_pending_exploration_budget_ms := 0\<rparr>, True)
           else ((reject_upshift p cause c1)\<lparr>c_pending_exploration_budget_ms := 0\<rparr>, True))"

end

