(* ===== verification/Controller_Correct.thy ===== *)
theory Controller_Correct
  imports Controller
begin

text \<open>
  What the HLS controller keeps true and what its decisions mean. The controller is a state machine
  whose steps are the public operations of the source; its invariant ties the pending proposal to the
  state that made it, and every decision property is a statement about one step from a state of a run.
\<close>

section \<open>Frame of an observation\<close>

lemma observe_delivery_frame:
  "c_pending (fst (observe_delivery s c)) = c_pending c"
  "c_current (fst (observe_delivery s c)) = c_current c"
  "c_catalog (fst (observe_delivery s c)) = c_catalog c"
  "c_policy (fst (observe_delivery s c)) = c_policy c"
  "c_failures (fst (observe_delivery s c)) = c_failures c"
  "c_pin (fst (observe_delivery s c)) = c_pin c"
  "c_pending_reserve_policy (fst (observe_delivery s c)) = c_pending_reserve_policy c"
  "c_common_budget_frontier_ms (fst (observe_delivery s c)) = c_common_budget_frontier_ms c"
  "c_pending_exploration_budget_ms (fst (observe_delivery s c)) = c_pending_exploration_budget_ms c"
  "c_acquisitions (fst (observe_delivery s c)) = c_acquisitions c"
  "c_visible_switches (fst (observe_delivery s c)) = c_visible_switches c"
  "c_last_switch_ms (fst (observe_delivery s c)) = c_last_switch_ms c"
  "c_rollback_rung (fst (observe_delivery s c)) = (if ss_completed s then None else c_rollback_rung c)"
  "c_recovery_target (fst (observe_delivery s c)) = (if ss_completed s then None else c_recovery_target c)"
  "c_active_variant (fst (observe_delivery s c)) = c_active_variant c"
  "c_rollback_media_ms (fst (observe_delivery s c)) = c_rollback_media_ms c"
  "c_samples_on_rung (fst (observe_delivery s c)) =
     (if ss_completed s then sat_add_u8 (c_samples_on_rung c) 1 else c_samples_on_rung c)"
  by (simp_all add: observe_delivery_def Let_def)

lemma observe_buffer_frame:
  "c_pending (observe_buffer s t c) = c_pending c"
  "c_current (observe_buffer s t c) = c_current c"
  "c_catalog (observe_buffer s t c) = c_catalog c"
  "c_policy (observe_buffer s t c) = c_policy c"
  "c_failures (observe_buffer s t c) = c_failures c"
  "c_pin (observe_buffer s t c) = c_pin c"
  "c_pending_reserve_policy (observe_buffer s t c) = c_pending_reserve_policy c"
  "c_common_budget_frontier_ms (observe_buffer s t c) = c_common_budget_frontier_ms c"
  "c_pending_exploration_budget_ms (observe_buffer s t c) = c_pending_exploration_budget_ms c"
  "c_acquisitions (observe_buffer s t c) = c_acquisitions c"
  "c_visible_switches (observe_buffer s t c) = c_visible_switches c"
  "c_last_switch_ms (observe_buffer s t c) = c_last_switch_ms c"
  "c_rollback_rung (observe_buffer s t c) = c_rollback_rung c"
  "c_recovery_target (observe_buffer s t c) = c_recovery_target c"
  "c_delivery (observe_buffer s t c) = c_delivery c"
  "c_active_variant (observe_buffer s t c) = c_active_variant c"
  "c_rollback_media_ms (observe_buffer s t c) = c_rollback_media_ms c"
  "c_samples_on_rung (observe_buffer s t c) = c_samples_on_rung c"
  by (simp_all add: observe_buffer_def Let_def)

lemmas observe_frame = observe_delivery_frame observe_buffer_frame

lemma observe_evidence_frame [simp]:
  "c_pending (observe_evidence s rb t sb c) = c_pending c"
  "c_current (observe_evidence s rb t sb c) = c_current c"
  "c_catalog (observe_evidence s rb t sb c) = c_catalog c"
  "c_policy (observe_evidence s rb t sb c) = c_policy c"
  "c_failures (observe_evidence s rb t sb c) = c_failures c"
  "c_pin (observe_evidence s rb t sb c) = c_pin c"
  "c_pending_reserve_policy (observe_evidence s rb t sb c) = c_pending_reserve_policy c"
  "c_common_budget_frontier_ms (observe_evidence s rb t sb c) = c_common_budget_frontier_ms c"
  "c_pending_exploration_budget_ms (observe_evidence s rb t sb c) = c_pending_exploration_budget_ms c"
  "c_visible_switches (observe_evidence s rb t sb c) = c_visible_switches c"
  "c_last_switch_ms (observe_evidence s rb t sb c) = c_last_switch_ms c"
  "c_active_variant (observe_evidence s rb t sb c) = c_active_variant c"
  "c_rollback_rung (observe_evidence s rb t sb c) = (if ss_completed s then None else c_rollback_rung c)"
  "c_recovery_target (observe_evidence s rb t sb c) = (if ss_completed s then None else c_recovery_target c)"
  "c_samples_on_rung (observe_evidence s rb t sb c) =
     (if ss_completed s then sat_add_u8 (c_samples_on_rung c) 1 else c_samples_on_rung c)"
  by (simp_all add: observe_evidence_def observe_window_def Let_def observe_frame split_def)

text \<open>The window an observation leaves is one of its runs, and it is not empty after a segment.\<close>

lemma observe_evidence_window:
  "\<exists>regime_changed. c_acquisitions (observe_evidence s rb t sb c) =
     (if ss_completed s \<and> \<not> sb
      then window_observe (ss_bytes s) (ss_total_fetch_us s) (ss_active_fetch_us s)
             (int (ss_media_duration_ms s))
             (if regime_changed then window_reset (c_acquisitions c) else c_acquisitions c)
      else c_acquisitions c)"
proof -
  let ?c = "c\<lparr>c_now_ms := t, c_rollback_media_ms := (case rb of None \<Rightarrow> None
      | Some duration \<Rightarrow> if duration > 0 then Some duration else None), c_last_reason := None\<rparr>"
  have "c_acquisitions (observe_evidence s rb t sb c) =
     (if ss_completed s \<and> \<not> sb
      then window_observe (ss_bytes s) (ss_total_fetch_us s) (ss_active_fetch_us s)
             (int (ss_media_duration_ms s))
             (if snd (observe_delivery s ?c) then window_reset (c_acquisitions c) else c_acquisitions c)
      else c_acquisitions c)"
    by (simp add: observe_evidence_def observe_window_def Let_def observe_frame split_def)
  then show ?thesis by blast
qed

definition window_ok :: "acquisition_window \<Rightarrow> bool" where
  "window_ok w = (\<exists>h. window_tracks (w, h))"

definition window_seeded :: "acquisition_window \<Rightarrow> bool" where
  "window_seeded w = (\<exists>h. window_tracks (w, h) \<and> h \<noteq> [])"

lemma window_ok_default [simp]: "window_ok window_default"
  using window_default_tracks by (auto simp: window_ok_def)

lemma window_ok_reset [simp]: "window_ok w \<Longrightarrow> window_ok (window_reset w)"
  unfolding window_ok_def
  by (metis window_step_tracks window_step.intros window_apply.simps(2))

lemma window_ok_observe [simp]: "window_ok w \<Longrightarrow> window_ok (window_observe b a act d w)"
  unfolding window_ok_def
  by (metis window_step_tracks window_step.intros window_apply.simps(1))

lemma window_seeded_observe:
  assumes "window_ok w" and "b \<noteq> 0" "a \<noteq> 0" "0 < d"
  shows "window_seeded (window_observe b a act d w)"
proof -
  obtain h where "window_tracks (w, h)" using assms(1) by (auto simp: window_ok_def)
  from window_step_tracks [OF window_step.intros [of w h "Observe b a act d"] this] assms
  show ?thesis by (auto simp: window_seeded_def)
qed

lemma window_seeded_ok: "window_seeded w \<Longrightarrow> window_ok w"
  by (auto simp: window_ok_def window_seeded_def)

lemma seeded_has_admission:
  "window_seeded w \<Longrightarrow> observed_ordered_admission w r \<noteq> None"
  unfolding window_seeded_def window_tracks_def observed_ordered_admission_def fst_conv snd_conv
  using summary_admission_None by blast

section \<open>The invariant\<close>

definition proposal_ok :: "controller \<Rightarrow> proposal \<Rightarrow> bool" where
  "proposal_ok c p =
     ((pr_direction p = Down \<longrightarrow> pr_rung p < c_current c) \<and>
      (pr_direction p = Up \<longrightarrow> c_current c \<le> pr_rung p) \<and>
      (pr_direction p = Up \<and> pr_rung p \<noteq> c_current c \<and> c_pin c \<noteq> Some (pr_rung p) \<longrightarrow>
         pr_rung p \<in> hc_rung ` set (feasible (c_catalog c))) \<and>
      (c_pending_reserve_policy c = Some TerminalFloor \<longrightarrow>
         pr_direction p = Down \<and> pr_rung p = recovery_floor c))"

definition opt_below :: "rung option \<Rightarrow> rung \<Rightarrow> bool" where
  "opt_below r current = opt_all (\<lambda>x. x < current) r"

lemma opt_below_simps [simp]: "opt_below None x" "opt_below (Some y) x \<longleftrightarrow> y < x"
  by (simp_all add: opt_below_def)

definition controller_inv :: "controller \<Rightarrow> bool" where
  "controller_inv c =
     ((c_pending c = None \<longleftrightarrow> c_pending_reserve_policy c = None) \<and>
      (c_pending c = None \<longrightarrow> c_pending_exploration_budget_ms c = 0) \<and>
      opt_all (proposal_ok c) (c_pending c) \<and>
      0 \<le> c_pending_exploration_budget_ms c \<and>
      length (c_failures c) = length LADDER \<and>
      opt_below (c_rollback_rung c) (c_current c) \<and> opt_below (c_recovery_target c) (c_current c) \<and>
      window_ok (c_acquisitions c) \<and>
      c_samples_on_rung c \<le> u8_max \<and> c_visible_switches c \<le> u32_max)"

text \<open>What the invariant reads of the state: a step that keeps these keeps it.\<close>

definition same_core :: "controller \<Rightarrow> controller \<Rightarrow> bool" where
  "same_core c d =
     (c_pending d = c_pending c \<and> c_pending_reserve_policy d = c_pending_reserve_policy c \<and>
      c_pending_exploration_budget_ms d = c_pending_exploration_budget_ms c \<and>
      c_current d = c_current c \<and> c_catalog d = c_catalog c \<and> c_pin d = c_pin c \<and>
      length (c_failures d) = length (c_failures c) \<and>
      (c_rollback_rung d = c_rollback_rung c \<or> c_rollback_rung d = None) \<and>
      (c_recovery_target d = c_recovery_target c \<or> c_recovery_target d = None) \<and>
      (window_ok (c_acquisitions c) \<longrightarrow> window_ok (c_acquisitions d)) \<and>
      (c_samples_on_rung c \<le> u8_max \<longrightarrow> c_samples_on_rung d \<le> u8_max) \<and>
      c_visible_switches d = c_visible_switches c)"

lemma recovery_floor_cong:
  "c_current d = c_current c \<Longrightarrow> c_catalog d = c_catalog c \<Longrightarrow> recovery_floor d = recovery_floor c"
  by (simp add: recovery_floor_def below_current_def)

lemma proposal_ok_cong:
  "c_current d = c_current c \<Longrightarrow> c_catalog d = c_catalog c \<Longrightarrow> c_pin d = c_pin c \<Longrightarrow>
   c_pending_reserve_policy d = c_pending_reserve_policy c \<Longrightarrow> proposal_ok d p = proposal_ok c p"
  by (simp add: proposal_ok_def recovery_floor_def below_current_def)

lemma same_core_inv: "same_core c d \<Longrightarrow> controller_inv c \<Longrightarrow> controller_inv d"
proof -
  assume core: "same_core c d" and inv: "controller_inv c"
  have "proposal_ok d = proposal_ok c"
    using core by (intro ext proposal_ok_cong) (simp_all add: same_core_def)
  moreover have "opt_below (c_rollback_rung d) (c_current d)" "opt_below (c_recovery_target d) (c_current d)"
    using core inv unfolding same_core_def controller_inv_def by (elim conjE disjE; simp)+
  ultimately show "controller_inv d"
    using core inv unfolding same_core_def controller_inv_def by simp
qed

lemma same_core_refl [simp]: "same_core c c"
  by (simp add: same_core_def)

lemma same_core_evidence: "same_core c (observe_evidence s rb t sb c)"
proof -
  have "window_ok (c_acquisitions (observe_evidence s rb t sb c))" if "window_ok (c_acquisitions c)"
  proof -
    obtain regime_changed where "c_acquisitions (observe_evidence s rb t sb c) =
      (if ss_completed s \<and> \<not> sb
       then window_observe (ss_bytes s) (ss_total_fetch_us s) (ss_active_fetch_us s)
              (int (ss_media_duration_ms s))
              (if regime_changed then window_reset (c_acquisitions c) else c_acquisitions c)
       else c_acquisitions c)"
      using observe_evidence_window [of s rb t sb c] by blast
    then show ?thesis using that by simp
  qed
  then show ?thesis by (simp add: same_core_def)
qed

lemma recovery_floor_le: "recovery_floor c \<le> c_current c"
proof (cases "min_opt (map hc_rung (below_current c))")
  case (Some r)
  then have "r \<in> set (map hc_rung (below_current c))" using min_opt_SomeD by blast
  then show ?thesis using Some by (auto simp: recovery_floor_def below_current_def)
next
  case None
  show ?thesis unfolding recovery_floor_def None by simp
qed

lemma completed_recovery_target_le: "completed_recovery_target c b m \<le> c_current c"
proof (cases "max_by_key expected_wire_kbps
    (filter (\<lambda>cand. modeled_sustainable cand b (c_policy c) m) (below_current c))")
  case (Some cand)
  then have "cand \<in> set (below_current c)" using max_by_key_SomeD(1) by fastforce
  then have "hc_rung cand < c_current c" by (simp add: below_current_def)
  then show ?thesis unfolding completed_recovery_target_def Some by simp
next
  case None
  show ?thesis unfolding completed_recovery_target_def None by (simp add: recovery_floor_le)
qed

text \<open>The exits of an observation.\<close>

lemma stay_core [simp]: "same_core c (fst (stay r c))" "snd (stay r c) = Stay"
  by (simp_all add: stay_def same_core_def)

definition idle :: "controller \<Rightarrow> bool" where
  "idle c = (controller_inv c \<and> c_pending c = None)"

lemma propose_inv:
  assumes "idle c" and "same_core c (d\<lparr>c_pending_exploration_budget_ms := 0\<rparr>)"
    and "0 \<le> c_pending_exploration_budget_ms d"
    and "proposal_ok (d\<lparr>c_pending_reserve_policy := Some pol\<rparr>) p"
  shows "controller_inv (fst (propose p pol d))"
  using assms
  by (auto simp: idle_def propose_def controller_inv_def same_core_def proposal_ok_def
      recovery_floor_def below_current_def)

section \<open>The phases of an observation\<close>

text \<open>
  From a state with nothing pending a phase either leaves what the invariant reads, or proposes: then
  the proposal is the pending one and everything else it depends on is untouched.
\<close>

definition outcome_ok :: "controller \<Rightarrow> controller \<times> decision \<Rightarrow> bool" where
  "outcome_ok c res =
     (case snd res of
        Stay \<Rightarrow> same_core c (fst res)
      | Prime p \<Rightarrow> controller_inv (fst res) \<and> c_pending (fst res) = Some p \<and>
          c_current (fst res) = c_current c \<and> c_catalog (fst res) = c_catalog c \<and>
          c_pin (fst res) = c_pin c \<and> c_visible_switches (fst res) = c_visible_switches c)"

lemma outcome_stay [simp]: "outcome_ok c (stay r c)" "outcome_ok c (c, Stay)"
  by (simp_all add: outcome_ok_def)

lemma outcome_propose:
  assumes "idle c" and "same_core c (d\<lparr>c_pending_exploration_budget_ms := 0\<rparr>)"
    and "0 \<le> c_pending_exploration_budget_ms d"
    and "proposal_ok (d\<lparr>c_pending_reserve_policy := Some pol\<rparr>) p"
  shows "outcome_ok c (propose p pol d)"
  using propose_inv [OF assms] assms(2) by (simp add: outcome_ok_def propose_def same_core_def)

lemma idle_budget: "idle c \<Longrightarrow> c_pending_exploration_budget_ms c = 0"
  by (simp add: idle_def controller_inv_def)

lemma because_core: "idle c \<Longrightarrow>
  same_core c ((because r c)\<lparr>c_pending_exploration_budget_ms := 0\<rparr>)"
  "idle c \<Longrightarrow> same_core c ((because r (c\<lparr>c_pending_exploration_budget_ms := b\<rparr>))\<lparr>c_pending_exploration_budget_ms := 0\<rparr>)"
  "idle c \<Longrightarrow> same_core c (c\<lparr>c_pending_exploration_budget_ms := 0\<rparr>)"
  "idle c \<Longrightarrow> same_core c (c\<lparr>c_last_reason := x, c_pending_exploration_budget_ms := 0\<rparr>)"
  by (simp_all add: because_def same_core_def idle_budget)

lemma abandoned_outcome:
  assumes "idle c"
  shows "outcome_ok c (observe_abandoned c)"
  using assms idle_budget [OF assms]
  by (auto simp: observe_abandoned_def Let_def because_core because_def proposal_ok_def
      intro!: outcome_propose)

lemma pinned_outcome:
  assumes "idle c" and "c_pin c = Some pin"
  shows "outcome_ok c (observe_pinned pin buffered segment c)"
  using assms idle_budget [OF assms(1)]
  by (auto simp: observe_pinned_def Let_def because_core proposal_ok_def rung_kbps_less_iff
      intro!: outcome_propose)

lemma downshift_outcome:
  assumes "idle c"
  shows "outcome_ok c (observe_downshift physics b buffered c)"
proof -
  let ?t = "if survivable physics then completed_recovery_target c b buffered else recovery_floor c"
  have le: "?t \<le> c_current c" by (simp add: recovery_floor_le completed_recovery_target_le)
  show ?thesis
  proof (cases "?t = c_current c")
    case True
    then show ?thesis by (simp add: observe_downshift_def)
  next
    case False
    with le have lt: "?t < c_current c" by simp
    show ?thesis
      unfolding observe_downshift_def Let_def if_not_P [OF False]
      using assms idle_budget [OF assms] lt
      by (intro outcome_propose)
        (auto simp: because_core because_def proposal_ok_def recovery_floor_def below_current_def
          split: if_splits)
  qed
qed

lemma max_opt_in: "max_opt xs = Some r \<Longrightarrow> r \<in> set xs"
  using max_opt_SomeD(1) by blast

lemma eligible_above:
  "r \<in> set (eligible c b) \<Longrightarrow> c_current c < r \<and> r \<in> hc_rung ` set (feasible (c_catalog c)) \<and>
   \<not> certificate_blocks (failure_of c r) (Some b) (c_delivery c)"
  by (auto simp: eligible_def above_current_def)

lemma upshift_target_eligible: "upshift_target c sb b m = Some r \<Longrightarrow> r \<in> set (eligible c b)"
proof (cases "service_ceiling c b")
  case None
  assume "upshift_target c sb b m = Some r"
  then show ?thesis by (simp add: upshift_target_def None max_opt_in Let_def)
next
  case (Some ceiling)
  define under where "under = filter (\<lambda>r. r < ceiling) (eligible c b)"
  define modeled where "modeled = max_opt (filter (\<lambda>r.
      modeled_sustainable (candidate (c_catalog c) r) sb (c_policy c) m) (eligible c b))"
  assume "upshift_target c sb b m = Some r"
  then have t: "opt_max modeled (if length under > 0 then Some (under ! ((length under - 1) div 2)) else None) = Some r"
    unfolding upshift_target_def Let_def Some option.case under_def modeled_def .
  have m: "x \<in> set (eligible c b)" if "modeled = Some x" for x
    using that max_opt_in by (fastforce simp: modeled_def)
  have o: "under ! ((length under - 1) div 2) \<in> set (eligible c b)" if "length under > 0"
  proof -
    have "(length under - 1) div 2 < length under" using that by linarith
    then have "under ! ((length under - 1) div 2) \<in> set under" by (rule nth_mem)
    then show ?thesis by (simp add: under_def)
  qed
  show ?thesis
  proof (cases modeled)
    case None
    with t o show ?thesis by (auto simp: opt_max_def split: if_splits)
  next
    case (Some x)
    with t o m [OF Some] show ?thesis by (auto simp: opt_max_def max_def split: if_splits)
  qed
qed

lemma exploration_budget_pos: "exploration_budget_ms c r = Some b \<Longrightarrow> 0 < b"
  by (auto simp: exploration_budget_ms_def exploration_budget_ms_for_def Let_def
      split: option.splits if_splits)

lemma refresh_outcome:
  assumes "idle c" and "0 < b"
  shows "outcome_ok c (observe_refresh b c)"
  using assms
  by (auto simp: observe_refresh_def because_core because_def proposal_ok_def intro!: outcome_propose)

lemma upshift_outcome:
  assumes "idle c"
  shows "outcome_ok c (observe_upshift sb buffered c)"
proof (cases "exploration_budget_ms c buffered")
  case None
  then show ?thesis by (simp add: observe_upshift_def)
next
  case (Some b)
  note pos = exploration_budget_pos [OF Some]
  show ?thesis
  proof (cases "upshift_target c sb b buffered")
    case None
    then show ?thesis using refresh_outcome [OF assms pos] by (simp add: observe_upshift_def Some)
  next
    case (Some target)
    have "outcome_ok c (propose \<lparr>pr_rung = target, pr_direction = Up\<rparr> Preserve
        (because SafeBudgetIncrease c\<lparr>c_pending_exploration_budget_ms := b\<rparr>))"
      using assms pos eligible_above [OF upshift_target_eligible [OF Some]]
      by (intro outcome_propose) (auto simp: because_core because_def proposal_ok_def)
    then show ?thesis using refresh_outcome [OF assms pos]
      by (simp add: observe_upshift_def \<open>exploration_budget_ms c buffered = Some b\<close> Some)
  qed
qed

section \<open>One observation\<close>

lemma same_core_trans_evidence:
  assumes "controller_inv c"
  shows "controller_inv (observe_evidence s rb t sb c)"
  by (rule same_core_inv [OF same_core_evidence assms])

text \<open>What an observation from any state does to the state the invariant reads.\<close>

definition observation_ok :: "controller \<Rightarrow> controller \<times> decision \<Rightarrow> bool" where
  "observation_ok c res =
     (controller_inv (fst res) \<and> c_current (fst res) = c_current c \<and>
      c_catalog (fst res) = c_catalog c \<and> c_pin (fst res) = c_pin c \<and>
      c_visible_switches (fst res) = c_visible_switches c \<and>
      (case snd res of
         Stay \<Rightarrow> c_pending (fst res) = c_pending c
       | Prime p \<Rightarrow> c_pending c = None \<and> c_pending (fst res) = Some p))"

lemma outcome_observation:
  assumes "idle d" and "outcome_ok d res" and "same_core c d"
  shows "observation_ok c res"
proof (cases "snd res")
  case Stay
  then have "same_core d (fst res)" using assms(2) by (simp add: outcome_ok_def)
  moreover have "controller_inv (fst res)" using same_core_inv calculation assms(1) by (auto simp: idle_def)
  ultimately show ?thesis using assms(3) Stay by (simp add: observation_ok_def same_core_def)
next
  case (Prime p)
  then show ?thesis using assms
    by (simp add: outcome_ok_def observation_ok_def same_core_def idle_def)
qed

lemma sample_seeds_window:
  assumes "controller_inv c" and "sample_wf s" and "ss_completed s"
  shows "window_seeded (c_acquisitions (observe_evidence s rb t False c))"
proof -
  obtain regime_changed where "c_acquisitions (observe_evidence s rb t False c) =
     window_observe (ss_bytes s) (ss_total_fetch_us s) (ss_active_fetch_us s) (int (ss_media_duration_ms s))
       (if regime_changed then window_reset (c_acquisitions c) else c_acquisitions c)"
    using observe_evidence_window [of s rb t False c] assms(3) by auto
  moreover have "window_ok (if regime_changed then window_reset (c_acquisitions c) else c_acquisitions c)"
    using assms(1) by (simp add: controller_inv_def)
  ultimately show ?thesis
    using assms(2,3) window_seeded_observe by (auto simp: sample_wf_def)
qed

lemma horizon_core [simp]:
  "same_core c (c\<lparr>c_last_emergency_horizon := x\<rparr>)"
  "idle (c\<lparr>c_last_emergency_horizon := x\<rparr>) = idle c"
proof -
  show core: "same_core c (c\<lparr>c_last_emergency_horizon := x\<rparr>)" for c x by (simp add: same_core_def)
  have "same_core (c\<lparr>c_last_emergency_horizon := x\<rparr>) c" by (simp add: same_core_def)
  with core [of c x] show "idle (c\<lparr>c_last_emergency_horizon := x\<rparr>) = idle c"
    using same_core_inv by (auto simp: idle_def)
qed

lemma same_core_trans: "same_core c d \<Longrightarrow> same_core d e \<Longrightarrow> same_core c e"
  unfolding same_core_def by (elim conjE) (intro conjI; auto)

text \<open>
  The three ways a completed sample of a session decides when nothing is pending, as the code reads
  its physics: the fall back, the climb, and the refusal to look.
\<close>

lemma observe_inner_outcome:
  assumes inv: "controller_inv c" and wf: "sample_wf s"
  shows "\<exists>res. observe_inner s rb t sb c = Some res \<and> observation_ok c res"
proof -
  let ?e = "observe_evidence s rb t sb c"
  have e: "controller_inv ?e" by (rule same_core_trans_evidence [OF inv])
  note core = same_core_evidence [of c s rb t sb]
  have stays: "observation_ok c (stay r ?e)" "observation_ok c (?e, Stay)" for r
  proof -
    show "observation_ok c (?e, Stay)" using e core by (simp add: observation_ok_def)
    have "controller_inv (fst (stay r ?e))" by (rule same_core_inv [OF _ e]) simp
    then show "observation_ok c (stay r ?e)" by (simp add: observation_ok_def stay_def)
  qed
  show ?thesis
  proof (cases "sb \<and> ss_completed s \<or> c_pending c \<noteq> None \<or> snapshot_buffered_ms (ss_buffer s) = None")
    case True
    then have "observe_inner s rb t sb c \<in>
        {Some (stay EvidenceWindow ?e), Some (?e, Stay), Some (stay ReserveUnknown ?e)}"
      by (auto simp: observe_inner_def Let_def)
    then show ?thesis using stays by blast
  next
    case False
    then obtain buffered where b: "snapshot_buffered_ms (ss_buffer s) = Some buffered" by auto
    have idle: "idle ?e" using e False by (simp add: idle_def)
    show ?thesis
    proof (cases "ss_completed s")
      case incomplete: False
      then show ?thesis
        using False b outcome_observation [OF idle abandoned_outcome [OF idle] core]
        by (simp add: observe_inner_def Let_def)
    next
      case complete: True
      with False have sb: "\<not> sb" by simp
      show ?thesis
      proof (cases "c_pin c")
        case (Some pin)
        then have "c_pin ?e = Some pin" by simp
        from outcome_observation [OF idle pinned_outcome [OF idle this] core]
        show ?thesis using False b complete sb Some by (simp add: observe_inner_def Let_def)
      next
        case None
        let ?h = "?e\<lparr>c_last_emergency_horizon := None\<rparr>"
        have h: "idle ?h" "same_core c ?h"
          using idle same_core_trans [OF core] by auto
        obtain physics where p: "observed_ordered_admission (c_acquisitions ?e) buffered = Some physics"
          using seeded_has_admission [OF sample_seeds_window [OF inv wf complete]] sb by fastforce
        let ?b = "hls_safe_budget (c_delivery ?e)"
        have "observe_inner s rb t sb c =
          Some (if \<not> sustainable physics \<or> \<not> survivable physics
                then observe_downshift physics ?b buffered ?h else observe_upshift ?b buffered ?h)"
          using False b complete sb None p by (simp add: observe_inner_def Let_def)
        moreover have "observation_ok c (observe_downshift physics ?b buffered ?h)"
          "observation_ok c (observe_upshift ?b buffered ?h)"
          using outcome_observation [OF h(1) _ h(2)] downshift_outcome [OF h(1)] upshift_outcome [OF h(1)]
          by blast+
        ultimately show ?thesis by (cases "\<not> sustainable physics \<or> \<not> survivable physics") (simp_all only: if_True if_False, blast+)
      qed
    qed
  qed
qed

section \<open>The steps of a session\<close>

text \<open>
  Every public operation of the controller that changes its state, with the samples the two
  constructors of the source build.
\<close>

inductive controller_step :: "controller \<Rightarrow> controller \<Rightarrow> bool" where
  step_observe: "sample_wf s \<Longrightarrow> observe_with_rollback s rb t c = Some (c', d) \<Longrightarrow> controller_step c c'"
| step_boundary: "sample_wf s \<Longrightarrow> observe_session_boundary s rb t c = Some (c', d) \<Longrightarrow> controller_step c c'"
| step_budget: "controller_step c (fst (set_executed_exploration_budget p b c))"
| step_resume: "controller_step c (on_resume ms c)"
| step_variant: "controller_step c (observe_active_variant v k c)"
| step_evidence: "controller_step c (commit_candidate_evidence s c)"
| step_commit: "controller_step c (fst (commit p t c))"
| step_commit_candidate: "controller_step c (fst (commit_candidate p s v t c))"
| step_reject: "controller_step c (fst (reject p cause t c))"

inductive_cases controller_stepE: "controller_step c d"

definition controller_start :: "controller \<Rightarrow> bool" where
  "controller_start c = (\<exists>r prior cat pin. c = pinned_to (starting_at r prior cat) pin)"

text \<open>Every observation of a well-formed sample returns.\<close>

lemma observe_step_ok:
  assumes "controller_inv c" and "sample_wf s" and "observe_inner s rb t sb c = Some res"
  shows "observation_ok c res"
  using observe_inner_outcome [OF assms(1,2), of rb t sb] assms(3) by simp

lemma update_failure_frame [simp]:
  "c_pending (update_failure r f c) = c_pending c"
  "c_pending_reserve_policy (update_failure r f c) = c_pending_reserve_policy c"
  "c_pending_exploration_budget_ms (update_failure r f c) = c_pending_exploration_budget_ms c"
  "c_current (update_failure r f c) = c_current c"
  "c_catalog (update_failure r f c) = c_catalog c"
  "c_pin (update_failure r f c) = c_pin c"
  "c_rollback_rung (update_failure r f c) = c_rollback_rung c"
  "c_recovery_target (update_failure r f c) = c_recovery_target c"
  "c_acquisitions (update_failure r f c) = c_acquisitions c"
  "c_samples_on_rung (update_failure r f c) = c_samples_on_rung c"
  "c_visible_switches (update_failure r f c) = c_visible_switches c"
  "c_common_budget_frontier_ms (update_failure r f c) = c_common_budget_frontier_ms c"
  "c_delivery (update_failure r f c) = c_delivery c"
  "length (c_failures (update_failure r f c)) = length (c_failures c)"
  by (simp_all add: update_failure_def)

lemma same_core_update_failure [simp]: "same_core c (update_failure r f c)"
  by (simp add: same_core_def)

lemma same_core_fold_failure: "same_core c (fold (\<lambda>s. update_failure s f) rs c)"
proof (induction rs arbitrary: c)
  case (Cons r rs)
  from same_core_trans [OF same_core_update_failure Cons.IH] show ?case by simp
qed simp

lemma variant_core: "same_core c (observe_active_variant v k c)"
  by (simp add: observe_active_variant_def same_core_def)

lemma resume_core: "same_core c (on_resume ms c)"
  by (simp add: on_resume_def same_core_def)

lemma evidence_core: "same_core c (commit_candidate_evidence s c)"
  by (simp add: commit_candidate_evidence_def same_core_def Let_def)

text \<open>Dropping the pending proposal: the state is idle again.\<close>

lemma drop_pending_inv:
  assumes "controller_inv c"
    and "same_core c (d\<lparr>c_pending := c_pending c, c_pending_reserve_policy := c_pending_reserve_policy c,
      c_pending_exploration_budget_ms := c_pending_exploration_budget_ms c\<rparr>)"
    and "c_pending d = None" "c_pending_reserve_policy d = None" "c_pending_exploration_budget_ms d = 0"
  shows "controller_inv d"
proof -
  from same_core_inv [OF assms(2,1)] assms(3-5) show ?thesis
    by (simp add: controller_inv_def)
qed

lemma budget_inv:
  assumes "controller_inv c"
  shows "controller_inv (fst (set_executed_exploration_budget p b c))"
proof -
  let ?drop = "because RejectBackoff (c\<lparr>c_pending := None, c_pending_reserve_policy := None,
      c_pending_exploration_budget_ms := 0\<rparr>)"
  have drop: "controller_inv ?drop"
    by (rule drop_pending_inv [OF assms]) (simp_all add: because_def same_core_def)
  have keep: "controller_inv (c\<lparr>c_pending_exploration_budget_ms := b\<rparr>)" if "c_pending c = Some p" "0 < b"
    using assms that by (auto simp: controller_inv_def proposal_ok_def recovery_floor_def below_current_def)
  show ?thesis using assms drop keep by (simp add: set_executed_exploration_budget_def)
qed

lemma reject_inv:
  assumes "controller_inv c"
  shows "controller_inv (fst (reject p cause t c))"
proof (cases "c_pending c = Some p")
  case False
  then show ?thesis using assms by (simp add: reject_def)
next
  case True
  let ?c1 = "c\<lparr>c_pending := None, c_pending_reserve_policy := None, c_now_ms := max (c_now_ms c) t\<rparr>"
  let ?up = "reject_upshift p cause ?c1"
  have up: "same_core ?c1 ?up"
    by (cases cause) (simp_all add: reject_upshift_def Let_def mark_structural_def same_core_fold_failure,
        simp_all add: same_core_def)
  have restore: "same_core c (d\<lparr>c_pending := c_pending c,
      c_pending_reserve_policy := c_pending_reserve_policy c,
      c_pending_exploration_budget_ms := c_pending_exploration_budget_ms c\<rparr>)" if "same_core ?c1 d" for d
    using that by (simp add: same_core_def)
  have "controller_inv (?up\<lparr>c_pending_exploration_budget_ms := 0\<rparr>)"
    using restore [OF up] up
    by (intro drop_pending_inv [OF assms]) (simp_all add: same_core_def)
  moreover have "controller_inv (?c1\<lparr>c_pending_exploration_budget_ms := 0\<rparr>)"
    by (rule drop_pending_inv [OF assms]) (simp_all add: same_core_def)
  moreover have "controller_inv (?c1\<lparr>c_recovery_target := (if recovery_floor ?c1 < c_current c
      then Some (recovery_floor ?c1) else None), c_pending_exploration_budget_ms := 0\<rparr>)"
    using assms
    by (simp add: controller_inv_def proposal_ok_def)
  ultimately show ?thesis using True by (simp add: reject_def Let_def)
qed

lemma commit_inv:
  assumes "controller_inv c"
  shows "controller_inv (fst (commit p t c))"
proof (cases "c_pending c = Some p")
  case False
  then show ?thesis using assms by (simp add: commit_def)
next
  case True
  then show ?thesis using assms
    by (simp add: commit_def Let_def controller_inv_def sat_add_def)
qed

lemma commit_candidate_inv:
  assumes "controller_inv c"
  shows "controller_inv (fst (commit_candidate p s v t c))"
proof -
  have "controller_inv (observe_active_variant v k (commit_candidate_evidence s (fst (commit p t c))))" for k
    by (rule same_core_inv [OF variant_core same_core_inv [OF evidence_core commit_inv [OF assms]]])
  then show ?thesis using assms commit_inv [OF assms, of p t]
    by (simp add: commit_candidate_def Let_def split_def)
qed

lemma controller_step_inv: "controller_step c d \<Longrightarrow> controller_inv c \<Longrightarrow> controller_inv d"
proof (induction rule: controller_step.induct)
  case (step_observe s rb t c c' d)
  then show ?case using observe_step_ok by (fastforce simp: observe_with_rollback_def observation_ok_def)
next
  case (step_boundary s rb t c c' d)
  then show ?case using observe_step_ok by (fastforce simp: observe_session_boundary_def observation_ok_def)
qed (auto intro: budget_inv reject_inv commit_inv commit_candidate_inv
    same_core_inv [OF resume_core] same_core_inv [OF variant_core] same_core_inv [OF evidence_core])

lemma controller_start_inv: "controller_start c \<Longrightarrow> controller_inv c"
  by (auto simp: controller_start_def starting_at_def pinned_to_def controller_inv_def)

interpretation session: state_machine controller_start controller_step controller_inv
  by unfold_locales (auto intro: controller_start_inv controller_step_inv)

lemma session_inv: "controller_start c0 \<Longrightarrow> controller_step\<^sup>*\<^sup>* c0 c \<Longrightarrow> controller_inv c"
  using session.steps_inv controller_start_inv by blast

section \<open>What a session keeps\<close>

text \<open>
  C21. The controller's state is consistent in every session: from any start and through any sequence
  of observations, commits, rejections, budget settings and resumes, a proposal is pending exactly
  when its reserve policy is; it points down to a lower rung or up to a feasible rung that is not
  lower (or to the pinned one, or re-requests the current one); a terminal floor is only ever the
  lowest feasible rung; without a proposal no exploration budget is held; the rungs to fall back to
  are below the current one, and there is one failure certificate per rung.
\<close>

theorem session_state_consistent:
  assumes "controller_start c0" and "controller_step\<^sup>*\<^sup>* c0 c"
  shows "(c_pending c = None \<longleftrightarrow> c_pending_reserve_policy c = None) \<and>
    (c_pending c = None \<longrightarrow> c_pending_exploration_budget_ms c = 0) \<and>
    (\<forall>p. c_pending c = Some p \<longrightarrow>
       (pr_direction p = Down \<longrightarrow> pr_rung p < c_current c) \<and>
       (pr_direction p = Up \<longrightarrow> c_current c \<le> pr_rung p \<and>
          (pr_rung p = c_current c \<or> c_pin c = Some (pr_rung p) \<or>
           pr_rung p \<in> hc_rung ` set (feasible (c_catalog c)))) \<and>
       (c_pending_reserve_policy c = Some TerminalFloor \<longrightarrow>
          pr_direction p = Down \<and> pr_rung p = recovery_floor c)) \<and>
    (\<forall>r. c_rollback_rung c = Some r \<or> c_recovery_target c = Some r \<longrightarrow> r < c_current c) \<and>
    length (c_failures c) = length LADDER"
  using session_inv [OF assms] by (auto simp: controller_inv_def proposal_ok_def)

text \<open>A concrete session: one segment that drained the reserve, and the step down it proposes.\<close>

definition demo_sample :: "nat \<Rightarrow> int \<Rightarrow> segment_sample" where
  "demo_sample total_us tail_ms =
     \<lparr>ss_bytes = 3000000, ss_active_fetch_us = total_us, ss_total_fetch_us = total_us,
      ss_media_duration_ms = 6000, ss_media_obligation_ms = 6000,
      ss_buffer = \<lparr>playback = 0, video_tail = tail_ms, audio_tail = None, audio_expected = False\<rparr>,
      ss_completed = True\<rparr>"

definition demo_start :: controller where
  "demo_start = pinned_to (starting_at P720 None catalog_measured) (Some P480)"

lemma demo_start_ok: "controller_start demo_start" "controller_inv demo_start"
proof -
  show "controller_start demo_start" unfolding controller_start_def demo_start_def by blast
  then show "controller_inv demo_start" by (rule controller_start_inv)
qed

lemma demo_sample_wf: "0 < total_us \<Longrightarrow> sample_wf (demo_sample total_us tail_ms)"
  by (simp add: demo_sample_def sample_wf_def)

lemma demo_buffered: "snapshot_buffered_ms (ss_buffer (demo_sample u m)) = Some (saturating_since m 0)"
  by (simp add: demo_sample_def snapshot_buffered_ms_def)

lemma demo_pinned_step:
  "\<exists>c. observe_with_rollback (demo_sample 2000000 20000) None 1 demo_start =
     Some (c, Prime \<lparr>pr_rung = P480, pr_direction = Down\<rparr>) \<and>
     c_pending c = Some \<lparr>pr_rung = P480, pr_direction = Down\<rparr> \<and> c_current c = P720"
proof -
  let ?s = "demo_sample 2000000 20000" and ?e = "observe_evidence (demo_sample 2000000 20000) None 1 False demo_start"
  have b: "saturating_since 20000 0 = 20000"
    by (simp add: saturating_since_def sat_i64_def i64_max_def i64_min_def)
  have cur: "c_current demo_start = P720" "c_pending demo_start = None" "c_pin demo_start = Some P480"
    by (simp_all add: demo_start_def pinned_to_def starting_at_def)
  have whole: "ss_completed ?s" "ss_media_duration_ms ?s = 6000" by (simp_all add: demo_sample_def)
  have seg: "sat_i64 (6000 * PIN_MIN_RESERVE_SEGMENTS_DOWN) = 12000"
    by (simp add: PIN_MIN_RESERVE_SEGMENTS_DOWN_def sat_i64_def i64_max_def i64_min_def)
  show ?thesis
    by (simp add: observe_with_rollback_def observe_inner_def Let_def demo_buffered b cur whole
        observe_pinned_def propose_def seg)
qed

theorem session_state_consistent_witness:
  "\<exists>c p. controller_step\<^sup>*\<^sup>* demo_start c \<and> c_pending c = Some p \<and> pr_rung p < c_current c"
proof -
  obtain c where obs: "observe_with_rollback (demo_sample 2000000 20000) None 1 demo_start =
     Some (c, Prime \<lparr>pr_rung = P480, pr_direction = Down\<rparr>)"
    and c: "c_pending c = Some \<lparr>pr_rung = P480, pr_direction = Down\<rparr>"
    using demo_pinned_step by blast
  have "controller_step demo_start c" by (rule step_observe [OF demo_sample_wf obs]) simp
  then have run: "controller_step\<^sup>*\<^sup>* demo_start c" by blast
  from session_state_consistent [OF demo_start_ok(1) run] c
  have "P480 < c_current c" by simp
  with run c show ?thesis by auto
qed

text \<open>
  Observing is total and changes no more than it may: in every state of a session an observation
  of a well-formed sample returns (neither \<open>expect\<close> of the source can fail), never changes the rung
  that plays, and proposes only when nothing is pending, in which case the proposal it returns is the
  one it leaves pending; otherwise the pending proposal stays as it was. A session boundary never
  proposes on a completed segment.
\<close>

theorem observe_total_and_framed:
  assumes "controller_start c0" and "controller_step\<^sup>*\<^sup>* c0 c" and "sample_wf s"
  shows "\<exists>c' d. observe_inner s rollback_media_ms now_ms boundary c = Some (c', d) \<and>
    c_current c' = c_current c \<and> c_visible_switches c' = c_visible_switches c \<and>
    (case d of Stay \<Rightarrow> c_pending c' = c_pending c
     | Prime p \<Rightarrow> c_pending c = None \<and> c_pending c' = Some p \<and> \<not> (boundary \<and> ss_completed s))"
proof -
  obtain c' d where obs: "observe_inner s rollback_media_ms now_ms boundary c = Some (c', d)"
    and ok: "observation_ok c (c', d)"
    using observe_inner_outcome [OF session_inv [OF assms(1,2)] assms(3)] by fastforce
  have "d = Stay" if "boundary \<and> ss_completed s"
    using obs that by (simp add: observe_inner_def Let_def stay_def)
  with obs ok show ?thesis
    by (auto simp: observation_ok_def split: decision.splits)
qed

theorem observe_total_and_framed_witness:
  "\<exists>c' d. observe_inner (demo_sample 9000000 20000) None 1 False demo_start = Some (c', d) \<and>
     c_current c' = P720"
proof -
  have "sample_wf (demo_sample 9000000 20000)" by (rule demo_sample_wf) simp
  from observe_total_and_framed [OF demo_start_ok(1) _ this, of demo_start None 1 False]
  show ?thesis by (auto simp: demo_start_def pinned_to_def starting_at_def)
qed

section \<open>The playing rung\<close>

lemma commit_effect:
  assumes "c_pending c = Some p" and "controller_inv c"
  shows "c_current (fst (commit p t c)) = pr_rung p" "c_pending (fst (commit p t c)) = None"
    "c_visible_switches (fst (commit p t c)) =
      (if pr_rung p = c_current c then c_visible_switches c else min u32_max (c_visible_switches c + 1))"
  using assms by (simp_all add: commit_def Let_def sat_add_def)

lemma commit_no_effect: "c_pending c \<noteq> Some p \<Longrightarrow> fst (commit p t c) = c"
  by (simp add: commit_def)

definition switches_with :: "controller \<Rightarrow> controller \<Rightarrow> bool" where
  "switches_with c d =
     ((c_current d = c_current c \<and> c_visible_switches d = c_visible_switches c) \<or>
      (c_current d \<noteq> c_current c \<and> c_visible_switches d = min u32_max (c_visible_switches c + 1) \<and>
       c_pending d = None \<and> (\<exists>p. c_pending c = Some p \<and> pr_rung p = c_current d)))"

lemma switches_frame:
  "c_current d = c_current c \<Longrightarrow> c_visible_switches d = c_visible_switches c \<Longrightarrow> switches_with c d"
  by (simp add: switches_with_def)

lemma commit_switches: "controller_inv c \<Longrightarrow> switches_with c (fst (commit p t c))"
  using commit_effect [of c p t] commit_no_effect [of c p t]
  by (cases "c_pending c = Some p") (auto simp: switches_with_def)

lemma commit_candidate_switches: "controller_inv c \<Longrightarrow> switches_with c (fst (commit_candidate p s v t c))"
proof -
  assume inv: "controller_inv c"
  let ?d = "\<lambda>k. observe_active_variant v k (commit_candidate_evidence s (fst (commit p t c)))"
  have frame: "c_current (?d k) = c_current (fst (commit p t c))"
    "c_visible_switches (?d k) = c_visible_switches (fst (commit p t c))"
    "c_pending (?d k) = c_pending (fst (commit p t c))" for k
    by (simp_all add: observe_active_variant_def commit_candidate_evidence_def Let_def)
  have "switches_with c (?d k)" for k
    using commit_switches [OF inv, of p t] by (simp add: switches_with_def frame)
  then show ?thesis using commit_switches [OF inv, of p t]
    by (simp add: commit_candidate_def Let_def split_def switches_frame)
qed

lemma reject_frame:
  "c_current (fst (reject p cause t c)) = c_current c"
  "c_visible_switches (fst (reject p cause t c)) = c_visible_switches c"
proof -
  have fold: "c_current (fold (\<lambda>s. update_failure s f) rs d) = c_current d"
    "c_visible_switches (fold (\<lambda>s. update_failure s f) rs d) = c_visible_switches d" for f rs d
    using same_core_fold_failure [of d f rs] by (simp_all add: same_core_def)
  show "c_current (fst (reject p cause t c)) = c_current c"
    "c_visible_switches (fst (reject p cause t c)) = c_visible_switches c"
    by (cases cause; simp add: reject_def reject_upshift_def mark_structural_def fold Let_def)+
qed

lemma step_switches: "controller_step c d \<Longrightarrow> controller_inv c \<Longrightarrow> switches_with c d"
proof (induction rule: controller_step.induct)
  case (step_observe s rb t c c' d)
  then show ?case
    using observe_step_ok by (fastforce simp: observe_with_rollback_def observation_ok_def intro: switches_frame)
next
  case (step_boundary s rb t c c' d)
  then show ?case
    using observe_step_ok by (fastforce simp: observe_session_boundary_def observation_ok_def intro: switches_frame)
next
  case (step_budget c p b)
  show ?case by (rule switches_frame) (simp_all add: set_executed_exploration_budget_def because_def)
next
  case (step_resume c ms)
  show ?case by (rule switches_frame) (simp_all add: on_resume_def)
next
  case (step_variant c v k)
  show ?case by (rule switches_frame) (simp_all add: observe_active_variant_def)
next
  case (step_evidence c s)
  show ?case by (rule switches_frame) (simp_all add: commit_candidate_evidence_def Let_def)
next
  case (step_reject c p cause t)
  show ?case by (rule switches_frame) (rule reject_frame)+
qed (auto intro: commit_switches commit_candidate_switches)

interpretation switching: monotone_machine "\<lambda>c d. controller_inv c \<and> controller_step c d" c_visible_switches
proof
  fix c d :: controller
  assume step: "controller_inv c \<and> controller_step c d"
  then have "c_visible_switches c \<le> u32_max" by (simp add: controller_inv_def)
  then show "c_visible_switches c \<le> c_visible_switches d"
    using step_switches [of c d] step by (auto simp: switches_with_def)
qed

lemma session_switches_mono:
  "controller_step\<^sup>*\<^sup>* c d \<Longrightarrow> controller_inv c \<Longrightarrow> c_visible_switches c \<le> c_visible_switches d"
proof -
  assume run: "controller_step\<^sup>*\<^sup>* c d" and inv: "controller_inv c"
  from run have "(\<lambda>c d. controller_inv c \<and> controller_step c d)\<^sup>*\<^sup>* c d \<and> controller_inv d"
  proof (induction rule: rtranclp_induct)
    case (step d e)
    then show ?case using controller_step_inv by (auto intro: rtranclp.rtrancl_into_rtrancl)
  qed (simp add: inv)
  then show ?thesis using switching.rank_steps by blast
qed

text \<open>
  The playing rung changes only by committing what was proposed: from every state of a session a
  step either keeps the rung and the count of visible switches, or moves to exactly the rung of the
  pending proposal, leaves nothing pending and counts one visible switch more; the count never falls
  along a session.
\<close>

theorem rung_changes_only_by_commit:
  assumes "controller_start c0" and "controller_step\<^sup>*\<^sup>* c0 c" and "controller_step c d"
  shows "(c_current d = c_current c \<and> c_visible_switches d = c_visible_switches c \<or>
      c_current d \<noteq> c_current c \<and> c_pending d = None \<and>
      (\<exists>p. c_pending c = Some p \<and> pr_rung p = c_current d) \<and>
      c_visible_switches d = min u32_max (c_visible_switches c + 1)) \<and>
    c_visible_switches c0 \<le> c_visible_switches c"
  using step_switches [OF assms(3) session_inv [OF assms(1,2)]]
    session_switches_mono [OF assms(2) controller_start_inv [OF assms(1)]]
  by (auto simp: switches_with_def)

theorem rung_changes_only_by_commit_witness:
  "\<exists>c d. controller_step\<^sup>*\<^sup>* demo_start c \<and> controller_step c d \<and> c_current c = P720 \<and>
     c_current d = P480 \<and> c_visible_switches d = min u32_max (c_visible_switches c + 1)"
proof -
  let ?p = "\<lparr>pr_rung = P480, pr_direction = Down\<rparr>"
  obtain c where obs: "observe_with_rollback (demo_sample 2000000 20000) None 1 demo_start =
     Some (c, Prime ?p)" and c: "c_pending c = Some ?p" "c_current c = P720"
    using demo_pinned_step by blast
  have "controller_step demo_start c" by (rule step_observe [OF demo_sample_wf obs]) simp
  then have run: "controller_step\<^sup>*\<^sup>* demo_start c" by blast
  have step: "controller_step c (fst (commit ?p 2 c))" by (rule step_commit)
  have cur: "c_current (fst (commit ?p 2 c)) = P480" using c(1) by (simp add: commit_def Let_def)
  from rung_changes_only_by_commit [OF demo_start_ok(1) run step] cur c(2)
  show ?thesis using run step by auto
qed

section \<open>Exploration spends surplus only\<close>

lemma summary_admission_runway:
  assumes "represents s h" and "summary_admission s r False = Some a" and "sustainable a"
  shows "h \<noteq> [] \<and> runway_us a = slack (timings h) + peak (timings h) \<and>
    is_i64 (slack (timings h) + peak (timings h)) \<and>
    total_demand (timings h) \<le> total_supply (timings h)"
proof -
  have healthy: "\<not> overflowed s" using summary_admission_poisoned [OF assms(1) _ assms(2)] assms(3) by blast
  from represents_healthy [OF assms(1) this] have e: "summary_exact s (timings h)" by simp
  then have "stress_runway_us s = Some (slack (timings h) + peak (timings h))"
    by (simp add: summary_exact_def stress_runway_us_def checked_i64_def is_i64_def)
  then show ?thesis
    using e assms(2,3) summary_admission_safe [OF assms(1,2)] healthy
    by (auto simp: summary_admission_def summary_exact_def Let_def split: if_splits)
qed

lemma us_to_ms_up_ge:
  assumes "0 \<le> us" and "us \<le> i64_max"
  shows "us \<le> us_to_ms_up us * 1000"
proof -
  let ?q = "us div 1000" and ?x = "us div 1000 + (if us - us div 1000 * 1000 \<noteq> 0 then 1 else 0)"
  have "0 \<le> ?q" "?q \<le> 9223372036854775" using assms by (auto simp: i64_max_def pos_imp_zdiv_nonneg_iff)
  then have "is_i64 ?x" by (simp add: is_i64_def i64_min_def i64_max_def)
  then have "us_to_ms_up us = ?x"
    using assms(1) by (simp add: us_to_ms_up_def trunc_div_nonneg Let_def wrap_i64_id)
  moreover have "us \<le> ?x * 1000"
  proof (cases "us mod 1000 = 0")
    case True
    then show ?thesis by (simp add: minus_div_mult_eq_mod mult_div_mod_eq dvd_div_mult_self mod_eq_0_iff_dvd)
  next
    case False
    have "us = us div 1000 * 1000 + us mod 1000" "us mod 1000 < 1000" by simp_all
    with False show ?thesis by (simp add: minus_div_mult_eq_mod)
  qed
  ultimately show ?thesis by simp
qed

lemma sat_i64_le: "0 < sat_i64 x \<Longrightarrow> sat_i64 x \<le> x"
  by (auto simp: sat_i64_def i64_min_def i64_max_def max_def min_def split: if_splits)

lemma exploration_budget_surplus:
  assumes "window_tracks (c_acquisitions c, h)" and "exploration_budget_ms c r = Some b"
  shows "0 < b \<and> h \<noteq> [] \<and> total_demand (timings h) \<le> total_supply (timings h) \<and>
    (\<forall>ys. mset ys = mset (timings h) \<longrightarrow> replay ((r - b) * 1000) ys) \<and>
    (\<exists>rollback. c_rollback_media_ms c = Some rollback \<and> 0 < rollback \<and> int rollback \<le> r - b)"
proof -
  from assms(2) obtain a rollback where
    a: "observed_admission (c_acquisitions c) r = Some a" "sustainable a"
    and rb: "c_rollback_media_ms c = Some rollback" "0 < rollback"
    and b: "b = sat_i64 (r - max (us_to_ms_up (runway_us a)) (int rollback))" "0 < b"
    by (auto simp: exploration_budget_ms_def exploration_budget_ms_for_def Let_def
        split: option.splits if_splits)
  have rep: "represents (win_summary (c_acquisitions c)) h" and acq: "list_all acquisition_ok h"
    using assms(1) by (simp_all add: window_tracks_def)
  from summary_admission_runway [OF rep _ a(2)] a(1)
  have h: "h \<noteq> []" "runway_us a = slack (timings h) + peak (timings h)"
    "is_i64 (slack (timings h) + peak (timings h))" "total_demand (timings h) \<le> total_supply (timings h)"
    by (auto simp: observed_admission_def)
  have "b \<le> r - max (us_to_ms_up (runway_us a)) (int rollback)" using b sat_i64_le by blast
  then have le: "us_to_ms_up (runway_us a) \<le> r - b" "int rollback \<le> r - b" by auto
  have "slack (timings h) + peak (timings h) \<le> us_to_ms_up (runway_us a) * 1000"
    unfolding h(2) [symmetric] using h(2,3) by (intro us_to_ms_up_ge) (simp_all add: is_i64_def)
  also have "\<dots> \<le> (r - b) * 1000" using le(1) by simp
  finally have "slack (timings h) + peak (timings h) \<le> (r - b) * 1000" .
  moreover have "timings h \<noteq> []" using h(1) by (cases h) auto
  ultimately have "\<forall>ys. mset ys = mset (timings h) \<longrightarrow> replay ((r - b) * 1000) ys"
    using stress_iff_every_order [OF _ timings_are_ok [OF acq]] by blast
  then show ?thesis using b(2) h rb le(2) by blast
qed

lemma horizon_irrelevant:
  "exploration_budget_ms (c\<lparr>c_last_emergency_horizon := x\<rparr>) r = exploration_budget_ms c r"
  "common_budget_blocks (c\<lparr>c_last_emergency_horizon := x\<rparr>) m = common_budget_blocks c m"
  "above_current (c\<lparr>c_last_emergency_horizon := x\<rparr>) = above_current c"
  "eligible (c\<lparr>c_last_emergency_horizon := x\<rparr>) k = eligible c k"
  "failure_of (c\<lparr>c_last_emergency_horizon := x\<rparr>) q = failure_of c q"
  "recovery_floor (c\<lparr>c_last_emergency_horizon := x\<rparr>) = recovery_floor c"
  "completed_recovery_target (c\<lparr>c_last_emergency_horizon := x\<rparr>) n r = completed_recovery_target c n r"
  "upshift_earns_its_visible_switch (c\<lparr>c_last_emergency_horizon := x\<rparr>) q = upshift_earns_its_visible_switch c q"
  by (simp_all add: exploration_budget_ms_def exploration_budget_ms_for_def common_budget_blocks_def
      above_current_def eligible_def failure_of_def recovery_floor_def below_current_def
      completed_recovery_target_def upshift_earns_its_visible_switch_def visible_switch_history_def)

lemma observe_upshift_PrimeD:
  assumes "observe_upshift sb r c = (d, Prime p)"
  shows "\<exists>b. exploration_budget_ms c r = Some b \<and> \<not> common_budget_blocks c (Some b) \<and>
    pr_direction p = Up \<and> \<not> certificate_blocks (failure_of c (pr_rung p)) (Some b) (c_delivery c) \<and>
    (pr_rung p = c_current c \<or>
     c_current c < pr_rung p \<and> pr_rung p \<in> hc_rung ` set (feasible (c_catalog c)) \<and>
     upshift_earns_its_visible_switch c (pr_rung p)) \<and>
    c_acquisitions d = c_acquisitions c \<and> c_pending_exploration_budget_ms d = b \<and>
    c_pending_reserve_policy d = Some Preserve"
proof (cases "exploration_budget_ms c r")
  case None
  then show ?thesis using assms by (simp add: observe_upshift_def stay_def)
next
  case (Some b)
  show ?thesis
  proof (cases "upshift_target c sb b r")
    case None
    with Some assms show ?thesis
      by (auto simp: observe_upshift_def observe_refresh_def stay_def propose_def because_def split: if_splits)
  next
    case (Some target)
    from eligible_above [OF upshift_target_eligible [OF Some]] Some \<open>exploration_budget_ms c r = Some b\<close> assms
    show ?thesis
      by (auto simp: observe_upshift_def observe_refresh_def stay_def propose_def because_def split: if_splits)
  qed
qed

lemma observe_downshift_PrimeD:
  "observe_downshift physics sb r c = (d, Prime p) \<Longrightarrow> pr_direction p = Down"
  by (auto simp: observe_downshift_def stay_def propose_def Let_def split: if_splits)

lemma observe_abandoned_PrimeD: "observe_abandoned c = (d, Prime p) \<Longrightarrow> pr_direction p = Down"
  by (auto simp: observe_abandoned_def stay_def propose_def Let_def split: if_splits)

lemma observe_upward_PrimeD:
  assumes "observe_inner s rb t sb c = Some (d, Prime p)" and "pr_direction p = Up" and "c_pin c = None"
  defines "e \<equiv> observe_evidence s rb t sb c"
  shows "\<exists>r physics. ss_completed s \<and> \<not> sb \<and> snapshot_buffered_ms (ss_buffer s) = Some r \<and>
    observed_ordered_admission (c_acquisitions e) r = Some physics \<and>
    sustainable physics \<and> survivable physics \<and>
    observe_upshift (hls_safe_budget (c_delivery e)) r (e\<lparr>c_last_emergency_horizon := None\<rparr>) = (d, Prime p)"
  using assms(1-3) observe_abandoned_PrimeD observe_downshift_PrimeD
  unfolding observe_inner_def Let_def e_def [symmetric]
  by (fastforce simp: e_def stay_def split: if_splits option.splits)

text \<open>
  C1. The controller climbs only on surplus. When an unpinned controller proposes an upward candidate
  after a segment, the acquisitions it recorded on the playing rung took no longer than their media
  and the reserve carries them in their observed order; the exploration budget it grants is positive
  and leaves a reserve that still holds one segment of the rung to roll back to and carries those
  acquisitions in every order; and the candidate is the current rung re-requested or a higher feasible
  one that no failure certificate blocks at this budget.
\<close>

theorem climbing_spends_surplus_only:
  assumes "controller_start c0" and "controller_step\<^sup>*\<^sup>* c0 c" and "sample_wf s"
    and "observe_with_rollback s rollback_media_ms now_ms c = Some (d, Prime p)"
    and "pr_direction p = Up" and "c_pin c = None"
  shows "\<exists>r b h rollback. snapshot_buffered_ms (ss_buffer s) = Some r \<and>
    represents (win_summary (c_acquisitions d)) h \<and> h \<noteq> [] \<and>
    total_demand (timings h) \<le> total_supply (timings h) \<and>
    replay (r * 1000) (timings h) \<and>
    c_pending_exploration_budget_ms d = b \<and> 0 < b \<and>
    rollback_media_ms = Some rollback \<and> int rollback \<le> r - b \<and>
    (\<forall>ys. mset ys = mset (timings h) \<longrightarrow> replay ((r - b) * 1000) ys) \<and>
    (pr_rung p = c_current c \<or>
     c_current c < pr_rung p \<and> pr_rung p \<in> hc_rung ` set (feasible (c_catalog c))) \<and>
    \<not> certificate_blocks (failure_of c (pr_rung p)) (Some b) (c_delivery d)"
proof -
  let ?e = "observe_evidence s rollback_media_ms now_ms False c"
  have inv: "controller_inv ?e" by (rule same_core_trans_evidence [OF session_inv [OF assms(1,2)]])
  obtain r physics where r: "snapshot_buffered_ms (ss_buffer s) = Some r"
    and physics: "observed_ordered_admission (c_acquisitions ?e) r = Some physics" "survivable physics"
    and up: "observe_upshift (hls_safe_budget (c_delivery ?e)) r (?e\<lparr>c_last_emergency_horizon := None\<rparr>) = (d, Prime p)"
    using observe_upward_PrimeD [OF assms(4) [unfolded observe_with_rollback_def] assms(5,6)] by blast
  from observe_upshift_PrimeD [OF up] obtain b where
    b: "exploration_budget_ms ?e r = Some b" "c_pending_exploration_budget_ms d = b"
      "c_acquisitions d = c_acquisitions ?e"
    and target: "pr_rung p = c_current c \<or> c_current c < pr_rung p \<and>
      pr_rung p \<in> hc_rung ` set (feasible (c_catalog c))"
    and cert: "\<not> certificate_blocks (failure_of ?e (pr_rung p)) (Some b) (c_delivery ?e)"
    by (auto simp: horizon_irrelevant)
  obtain h where h: "window_tracks (c_acquisitions ?e, h)"
    using inv by (auto simp: controller_inv_def window_ok_def)
  then have rep: "represents (win_summary (c_acquisitions ?e)) h" and ok: "timings_ok (timings h)"
    using timings_are_ok by (auto simp: window_tracks_def)
  note surplus = exploration_budget_surplus [OF h b(1)]
  have rollback: "c_rollback_media_ms ?e = (case rollback_media_ms of None \<Rightarrow> None
      | Some duration \<Rightarrow> if duration > 0 then Some duration else None)"
    by (simp add: observe_evidence_def observe_window_def Let_def split_def observe_frame)
  then obtain rb where rb: "rollback_media_ms = Some rb" "int rb \<le> r - b"
    using surplus by (auto split: option.splits if_splits)
  have "ordered_runway (timings h) \<le> r * 1000"
    using summary_admission_safe [OF rep physics(1) [unfolded observed_ordered_admission_def]] physics(2) by simp
  then have "replay (r * 1000) (timings h)" by (simp add: replay_iff [OF ok])
  moreover have "c_delivery d = c_delivery ?e" "failure_of ?e q = failure_of c q" for q
    using up by (auto simp: failure_of_def observe_upshift_def observe_refresh_def stay_def propose_def
        because_def split: option.splits if_splits)
  ultimately show ?thesis using r b rep surplus target cert rb by auto
qed

text \<open>A session that climbs: one fast segment with a minute in reserve.\<close>

definition climb_start :: controller where
  "climb_start = pinned_to (starting_at P240 None catalog_measured) None"

definition climb_window :: acquisition_window where
  "climb_window = window_observe 3000000 1000000 1000000 6000 window_default"

lemma climb_summary:
  "win_summary climb_window =
     \<lparr>sm_n = 1, sum_acquisition_us = 1000000, sum_duration_us = 6000000, delta_us = - 5000000,
      max_prefix_runway_us = 1000000, positive_slack_sum_us = 0, max_capped_delivery_us = 1000000,
      sample_overhead_max_us = 0, overflowed = False\<rparr>"
  by (simp add: climb_window_def window_observe_def window_default_def summary_default_def
      summary_combine_eq from_sample_def i64_of_nat_def checked_i64_def stress_runway_us_def
      is_i64_def i64_max_def i64_min_def usize_max_def Let_def)

lemma climb_admission:
  "observed_ordered_admission climb_window 60000 =
     Some \<lparr>sustainable = True, survivable = True, demand_us = 1000000, supply_us = 6000000,
           excess_us = 0, runway_us = 1000000, ad_samples = 1\<rparr>"
  "observed_admission climb_window 60000 =
     Some \<lparr>sustainable = True, survivable = True, demand_us = 1000000, supply_us = 6000000,
           excess_us = 0, runway_us = 1000000, ad_samples = 1\<rparr>"
  by (simp_all add: observed_ordered_admission_def observed_admission_def climb_summary
      summary_admission_def stress_runway_us_def checked_i64_def i64_max_def i64_min_def Let_def)

lemma climb_fields:
  "c_pending climb_start = None" "c_pin climb_start = None" "c_current climb_start = P240"
  "c_catalog climb_start = catalog_measured" "c_visible_switches climb_start = 0"
  "c_common_budget_frontier_ms climb_start = None"
  "c_failures climb_start = replicate (length LADDER) certificate_default"
  "c_acquisitions climb_start = window_default" "c_delivery climb_start = capacity_default"
  "c_active_variant climb_start = None"
  by (simp_all add: climb_start_def pinned_to_def starting_at_def)

lemma climb_evidence_window:
  "c_acquisitions (observe_evidence (demo_sample 1000000 60000) (Some 6000) 7 False climb_start) = climb_window"
  by (simp add: observe_evidence_def observe_window_def Let_def split_def observe_frame climb_fields)
    (simp add: observe_delivery_def Let_def is_collapse_def climb_fields capacity_default_def
      demo_sample_def climb_window_def)

lemma climb_rollback:
  "c_rollback_media_ms (observe_evidence (demo_sample 1000000 60000) (Some 6000) 7 False climb_start) = Some 6000"
  by (simp add: observe_evidence_def observe_window_def Let_def split_def observe_frame)

lemma climb_budget:
  "exploration_budget_ms (observe_evidence (demo_sample 1000000 60000) (Some 6000) 7 False climb_start) 60000
     = Some 54000"
  by (simp add: exploration_budget_ms_def exploration_budget_ms_for_def climb_evidence_window
      climb_admission climb_rollback us_to_ms_up_def trunc_div_nonneg wrap_i64_id is_i64_def
      sat_i64_def i64_max_def i64_min_def Let_def)



lemma rung_index_in_range: "rung_index r < length LADDER"
  using rung_disc_less [of r] by (simp add: LADDER_length)

lemma fresh_certificate: "failure_of c r = certificate_default"
  if "c_failures c = replicate (length LADDER) certificate_default"
  unfolding failure_of_def that by (rule nth_replicate [OF rung_index_in_range])

lemma default_certificate_blocks: "\<not> certificate_blocks certificate_default b e" "\<not> service_blocks certificate_default b e"
  by (simp_all add: certificate_blocks_def service_blocks_def completed_unsustainable_blocks_def certificate_default_def)

lemma climb_step:
  "\<exists>d p. observe_with_rollback (demo_sample 1000000 60000) (Some 6000) 7 climb_start = Some (d, Prime p) \<and>
     pr_direction p = Up"
proof -
  let ?s = "demo_sample 1000000 60000"
  let ?e = "observe_evidence ?s (Some 6000) 7 False climb_start"
  let ?h = "?e\<lparr>c_last_emergency_horizon := None\<rparr>"
  have fresh: "failure_of ?h r = certificate_default" for r
    by (rule fresh_certificate) (simp add: climb_fields)
  have whole: "ss_completed ?s" "snapshot_buffered_ms (ss_buffer ?s) = Some 60000"
    by (simp_all add: demo_buffered) (simp_all add: demo_sample_def saturating_since_def sat_i64_def i64_max_def i64_min_def)
  have "point P480 720 180 \<in> set (above_current ?h)"
    by (simp add: above_current_def climb_fields feasible_def catalog_measured_def catalog_admits_def
        covers_source_def decodable_def point_def u16_max_def rung_order_defs)
  then have "eligible ?h 54000 \<noteq> []" and ne: "above_current ?h \<noteq> []"
    by (auto simp: eligible_def fresh default_certificate_blocks filter_empty_conv)
  moreover have "service_ceiling ?h 54000 = None"
    by (simp add: service_ceiling_def fresh default_certificate_blocks filter_empty_conv)
  ultimately obtain t where t: "upshift_target ?h x 54000 60000 = Some t" for x
    by (cases "max_opt (eligible ?h 54000)") (auto simp: upshift_target_def)
  have earns: "upshift_earns_its_visible_switch ?h t"
    by (simp add: upshift_earns_its_visible_switch_def visible_switch_history_def penalty_def
        climb_fields sat_i64_def i64_max_def i64_min_def)
  have open': "\<not> common_budget_blocks ?h m" for m
    by (simp add: common_budget_blocks_def climb_fields)
  have "exploration_budget_ms ?h 60000 = Some 54000" by (simp add: horizon_irrelevant climb_budget)
  then have "observe_upshift x 60000 ?h = propose \<lparr>pr_rung = t, pr_direction = Up\<rparr> Preserve
      ((because SafeBudgetIncrease ?h)\<lparr>c_pending_exploration_budget_ms := 54000\<rparr>)" for x
    using t earns open' ne by (simp add: observe_upshift_def)
  then show ?thesis
    by (simp add: observe_with_rollback_def observe_inner_def Let_def whole climb_fields
        climb_evidence_window climb_admission propose_def)
qed

lemma climb_start_ok: "controller_start climb_start"
  unfolding controller_start_def climb_start_def by blast

theorem climbing_spends_surplus_only_witness:
  "\<exists>d p b. observe_with_rollback (demo_sample 1000000 60000) (Some 6000) 7 climb_start = Some (d, Prime p) \<and>
     c_pending_exploration_budget_ms d = b \<and> 0 < b \<and> 6000 \<le> 60000 - b"
proof -
  let ?s = "demo_sample 1000000 60000"
  obtain d p where obs: "observe_with_rollback ?s (Some 6000) 7 climb_start = Some (d, Prime p)"
    and up: "pr_direction p = Up" using climb_step by blast
  have wf: "sample_wf ?s" by (rule demo_sample_wf) simp
  have r: "snapshot_buffered_ms (ss_buffer ?s) = Some 60000"
    by (simp add: demo_buffered saturating_since_def sat_i64_def i64_max_def i64_min_def)
  from climbing_spends_surplus_only [OF climb_start_ok rtranclp.rtrancl_refl wf obs up climb_fields(2)]
  show ?thesis using obs r by auto
qed

section \<open>Leaving a rung the link no longer carries\<close>

lemma recovery_floor_lowest:
  assumes "below_current c \<noteq> []"
  shows "recovery_floor c \<in> hc_rung ` set (below_current c)"
    and "x \<in> set (below_current c) \<Longrightarrow> recovery_floor c \<le> hc_rung x"
proof -
  obtain m where m: "min_opt (map hc_rung (below_current c)) = Some m"
    using assms by (cases "min_opt (map hc_rung (below_current c))") auto
  then have r: "recovery_floor c = m" by (simp add: recovery_floor_def)
  show "recovery_floor c \<in> hc_rung ` set (below_current c)"
    using min_opt_SomeD(1) [OF m] unfolding r by simp
  show "x \<in> set (below_current c) \<Longrightarrow> recovery_floor c \<le> hc_rung x"
    using min_opt_SomeD(2) [OF m, of "hc_rung x"] unfolding r by simp
qed

lemma recovery_floor_at_bottom: "below_current c = [] \<Longrightarrow> recovery_floor c = c_current c"
  unfolding recovery_floor_def by (simp add: min_opt_def)

lemma completed_recovery_target_spec:
  fixes b :: nat and m :: int
  assumes "below_current c \<noteq> []"
  defines "ok \<equiv> \<lambda>x. modeled_sustainable x b (c_policy c) m"
  shows "if \<exists>x \<in> set (below_current c). ok x
     then \<exists>x \<in> set (below_current c). ok x \<and> completed_recovery_target c b m = hc_rung x \<and>
       (\<forall>y \<in> set (below_current c). ok y \<longrightarrow> expected_wire_kbps y \<le> expected_wire_kbps x)
     else completed_recovery_target c b m = recovery_floor c"
proof (cases "max_by_key expected_wire_kbps (filter ok (below_current c))")
  case None
  then have "filter ok (below_current c) = []" by (simp only: max_by_key_None_iff)
  then have "\<not> (\<exists>x \<in> set (below_current c). ok x)" by (simp add: filter_empty_conv)
  then show ?thesis using None by (simp add: completed_recovery_target_def ok_def)
next
  case (Some x)
  from max_by_key_SomeD(1) [OF Some] have x: "x \<in> set (below_current c)" "ok x" by auto
  have "expected_wire_kbps y \<le> expected_wire_kbps x" if "y \<in> set (below_current c)" "ok y" for y
    using max_by_key_SomeD(2) [OF Some] that by simp
  moreover have "completed_recovery_target c b m = hc_rung x"
    unfolding completed_recovery_target_def using Some by (simp add: ok_def)
  ultimately show ?thesis using x by auto
qed

lemma recovery_targets_strict:
  assumes "below_current c \<noteq> []"
  shows "recovery_floor c \<noteq> c_current c" "completed_recovery_target c b m \<noteq> c_current c"
proof -
  have lt: "hc_rung x \<noteq> c_current c" if "x \<in> set (below_current c)" for x
    using that by (auto simp: below_current_def)
  show r: "recovery_floor c \<noteq> c_current c" using recovery_floor_lowest(1) [OF assms] lt by (metis imageE)
  show "completed_recovery_target c b m \<noteq> c_current c"
    using completed_recovery_target_spec [OF assms, of b m] lt r by metis
qed

text \<open>
  C3. A rung the recorded acquisitions cannot sustain is left at once: after a segment of an unpinned,
  idle session whose ordered replay runs out of reserve or falls behind its media, the controller
  proposes a lower feasible rung whenever there is one. When the reserve would run out it is the
  lowest one, with no way back; when only the rate falls behind it is the best one below that the
  measured budget and the refill rule sustain, or the lowest if none is; and it stays exactly when
  nothing feasible is below.
\<close>

theorem unsafe_rung_is_left:
  assumes "controller_start c0" and "controller_step\<^sup>*\<^sup>* c0 c" and "sample_wf s" and "ss_completed s"
    and "c_pending c = None" and "c_pin c = None" and "snapshot_buffered_ms (ss_buffer s) = Some r"
    and "observed_ordered_admission
        (c_acquisitions (observe_evidence s rollback_media_ms now_ms False c)) r = Some physics"
    and "\<not> admitted physics"
  shows "\<exists>d dec. observe_with_rollback s rollback_media_ms now_ms c = Some (d, dec) \<and>
    (below_current c = [] \<longrightarrow> dec = Stay \<and> c_last_reason d = Some (Hls LadderFloor)) \<and>
    (below_current c \<noteq> [] \<longrightarrow> (\<exists>p. dec = Prime p \<and> pr_direction p = Down \<and>
       (\<not> survivable physics \<longrightarrow> c_pending_reserve_policy d = Some TerminalFloor \<and>
          (\<forall>x \<in> set (below_current c). pr_rung p \<le> hc_rung x)) \<and>
       (survivable physics \<longrightarrow> c_pending_reserve_policy d = Some Preserve \<and>
          (\<exists>x \<in> set (below_current c). pr_rung p = hc_rung x \<and>
             (\<forall>y \<in> set (below_current c).
                modeled_sustainable y (c_last_safe_budget_kbps d) (c_policy c) r \<longrightarrow>
                expected_wire_kbps y \<le> expected_wire_kbps x \<and>
                modeled_sustainable x (c_last_safe_budget_kbps d) (c_policy c) r)))))"
proof -
  let ?e = "observe_evidence s rollback_media_ms now_ms False c"
  let ?h = "?e\<lparr>c_last_emergency_horizon := None\<rparr>" and ?b = "hls_safe_budget (c_delivery ?e)"
  have bad: "\<not> sustainable physics \<or> \<not> survivable physics" using assms(9) by (simp add: admitted_def)
  have obs: "observe_with_rollback s rollback_media_ms now_ms c = Some (observe_downshift physics ?b r ?h)"
    using assms(4-8) bad by (simp add: observe_with_rollback_def observe_inner_def Let_def)
  have below: "below_current ?h = below_current c" by (simp add: below_current_def)
  have pol: "c_policy ?h = c_policy c" by simp
  have budget: "c_last_safe_budget_kbps ?e = ?b"
    by (simp add: observe_evidence_def observe_window_def Let_def split_def observe_frame)
  show ?thesis
  proof (cases "below_current c = []")
    case True
    then have "recovery_floor ?h = c_current c" "completed_recovery_target ?h ?b r = c_current c"
      using recovery_floor_at_bottom [of ?h] by (simp_all add: completed_recovery_target_def below)
    then show ?thesis using True by (simp add: obs observe_downshift_def stay_def)
  next
    case False
    then have h: "below_current ?h \<noteq> []" unfolding below .
    note strict = recovery_targets_strict [OF h]
    show ?thesis
    proof (cases "survivable physics")
      case survive: False
      have "\<forall>x \<in> set (below_current c). recovery_floor ?h \<le> hc_rung x"
        using recovery_floor_lowest(2) [OF h] by (simp only: below) simp
      then show ?thesis using strict(1) survive False
        by (simp add: obs observe_downshift_def propose_def because_def Let_def)
    next
      case survive: True
      let ?t = "completed_recovery_target ?h ?b r"
      have "\<exists>x \<in> set (below_current c). ?t = hc_rung x \<and>
          (\<forall>y \<in> set (below_current c). modeled_sustainable y ?b (c_policy c) r \<longrightarrow>
            expected_wire_kbps y \<le> expected_wire_kbps x \<and> modeled_sustainable x ?b (c_policy c) r)"
      proof (cases "\<exists>x \<in> set (below_current c). modeled_sustainable x ?b (c_policy c) r")
        case True
        then show ?thesis
          using completed_recovery_target_spec [OF h, of ?b r] unfolding below pol by auto
      next
        case no: False
        then have "?t = recovery_floor ?h"
          using completed_recovery_target_spec [OF h, of ?b r] unfolding below pol by auto
        moreover obtain x where "x \<in> set (below_current c)" "recovery_floor ?h = hc_rung x"
          using recovery_floor_lowest(1) [OF h] unfolding below by auto
        ultimately show ?thesis using no by auto
      qed
      then show ?thesis using strict(2) survive False
        by (simp add: obs observe_downshift_def propose_def because_def budget Let_def)
    qed
  qed
qed

definition drain_start :: controller where
  "drain_start = pinned_to (starting_at P720 None catalog_measured) None"

lemma drain_fields:
  "c_pending drain_start = None" "c_pin drain_start = None" "c_current drain_start = P720"
  "c_catalog drain_start = catalog_measured" "c_acquisitions drain_start = window_default"
  "c_delivery drain_start = capacity_default"
  by (simp_all add: drain_start_def pinned_to_def starting_at_def)

lemma drain_start_ok: "controller_start drain_start"
  unfolding controller_start_def drain_start_def by blast

lemma drain_admission:
  "\<exists>a. observed_ordered_admission (window_observe 3000000 9000000 9000000 6000 window_default) 5000 = Some a \<and>
     \<not> survivable a"
  by (simp add: window_observe_def window_default_def summary_default_def summary_combine_eq
      from_sample_def i64_of_nat_def checked_i64_def stress_runway_us_def is_i64_def i64_max_def
      i64_min_def usize_max_def Let_def observed_ordered_admission_def summary_admission_def)

lemma drain_evidence_window:
  "c_acquisitions (observe_evidence (demo_sample 9000000 5000) None 7 False drain_start) =
     window_observe 3000000 9000000 9000000 6000 window_default"
  by (simp add: observe_evidence_def observe_window_def Let_def split_def observe_frame drain_fields)
    (simp add: observe_delivery_def Let_def is_collapse_def drain_fields capacity_default_def demo_sample_def)

theorem unsafe_rung_is_left_witness:
  "\<exists>d p. observe_with_rollback (demo_sample 9000000 5000) None 7 drain_start = Some (d, Prime p) \<and>
     pr_direction p = Down \<and> pr_rung p \<le> P240"
proof -
  let ?s = "demo_sample 9000000 5000"
  obtain a where a: "observed_ordered_admission (c_acquisitions (observe_evidence ?s None 7 False drain_start)) 5000 = Some a"
    and bad: "\<not> survivable a" using drain_admission drain_evidence_window by auto
  have na: "\<not> admitted a" using bad by (simp add: admitted_def)
  have wf: "sample_wf ?s" by (rule demo_sample_wf) simp
  have whole: "ss_completed ?s" by (simp add: demo_sample_def)
  have r: "snapshot_buffered_ms (ss_buffer ?s) = Some 5000"
    by (simp add: demo_buffered saturating_since_def sat_i64_def i64_max_def i64_min_def)
  have low: "point P240 320 90 \<in> set (below_current drain_start)"
    by (simp add: below_current_def drain_fields feasible_def catalog_measured_def catalog_admits_def
        covers_source_def decodable_def point_def u16_max_def rung_order_defs)
  then have ne: "below_current drain_start \<noteq> []" by auto
  from unsafe_rung_is_left [OF drain_start_ok rtranclp.rtrancl_refl wf whole drain_fields(1,2) r a na]
  obtain d p where "observe_with_rollback ?s None 7 drain_start = Some (d, Prime p)"
    "pr_direction p = Down" "\<forall>x \<in> set (below_current drain_start). pr_rung p \<le> hc_rung x"
    using ne bad by auto
  with low show ?thesis by (auto simp: point_def)
qed

section \<open>Accepting a candidate\<close>

definition sample_timing :: "segment_sample \<Rightarrow> int \<times> int" where
  "sample_timing s = (int (ss_total_fetch_us s), int (ss_media_duration_ms s) * 1000)"

lemma fetch_us_small: "int (ss_total_fetch_us s) \<le> i64_max \<Longrightarrow> fetch_us_i64 s = int (ss_total_fetch_us s)"
  by (simp add: fetch_us_i64_def i64_of_nat_def checked_i64_def i64_min_def)

lemma sat_i64_less_iff: "0 \<le> x \<Longrightarrow> x \<le> i64_max \<Longrightarrow> sat_i64 y < x \<longleftrightarrow> y < x"
  by (auto simp: sat_i64_def i64_min_def)

lemma duration_small: "d \<le> u32_max \<Longrightarrow> sat_i64 (int d * 1000) = int d * 1000"
  by (rule sat_i64_id) (simp add: is_i64_def i64_min_def i64_max_def u32_max_def)

lemma verdict_up_ready_iff:
  assumes "pr_direction p = Up" and "int (ss_total_fetch_us s) \<le> i64_max" and "ss_media_duration_ms s \<le> u32_max"
  shows "candidate_verdict_of c p s v = Ready \<longleftrightarrow>
    c_pending c = Some p \<and> ss_completed s \<and> fst (sample_timing s) \<le> snd (sample_timing s) \<and>
    (\<exists>r. snapshot_buffered_ms (ss_buffer s) = Some r \<and> replay (r * 1000) [sample_timing s])"
  using assms
  by (auto simp: candidate_verdict_of_def Let_def fetch_us_small duration_small sat_i64_less_iff
      sample_timing_def split: option.splits)

lemma verdict_down_ready_iff:
  assumes "pr_direction p = Down" and "int (ss_total_fetch_us s) \<le> i64_max" and "ss_media_duration_ms s \<le> u32_max"
  shows "candidate_verdict_of c p s v = Ready \<longleftrightarrow>
    c_pending c = Some p \<and> ss_completed s \<and>
    (pr_rung p = recovery_floor c \<and> c_pending_reserve_policy c = Some TerminalFloor \<or>
     (fst (sample_timing s) \<le> snd (sample_timing s) \<or> pr_rung p = recovery_floor c) \<and>
     (\<exists>r. snapshot_buffered_ms (ss_buffer s) = Some r \<and> int (ss_media_obligation_ms s) \<le> r))"
  using assms
  by (auto simp: candidate_verdict_of_def Let_def fetch_us_small duration_small
      sample_timing_def split: option.splits)

lemma commit_candidate_eq:
  "commit_candidate p s v t c =
     (if (pr_direction p = Up \<longrightarrow> some_and (\<lambda>active. strictly_dominates v active) (c_active_variant c)) \<and>
         candidate_verdict_of c p s (declared_bps v) = Ready
      then (observe_active_variant v (network_kbps s) (commit_candidate_evidence s (fst (commit p t c))), True)
      else (c, False))"
proof -
  have "candidate_verdict_of c p s k = Ready \<Longrightarrow> commit p t c = (fst (commit p t c), True)" for k
    by (auto simp: candidate_verdict_of_def commit_def Let_def split: if_splits)
  then show ?thesis by (cases "pr_direction p") (auto simp: commit_candidate_def Let_def split: prod.splits)
qed

lemma committed_window:
  assumes "window_ok (c_acquisitions c)" and "sample_wf s" and "ss_completed s" and "c_pending c = Some p"
  shows "\<exists>h. represents (win_summary (c_acquisitions (commit_candidate_evidence s (fst (commit p t c))))) h \<and>
    timings h = [sample_timing s]"
proof -
  let ?a = "\<lparr>aq_bytes = ss_bytes s, aq_acquisition_us = ss_total_fetch_us s,
    aq_media_duration_ms = int (ss_media_duration_ms s),
    aq_overhead_us = ss_total_fetch_us s - min (ss_active_fetch_us s) (ss_total_fetch_us s)\<rparr>"
  have ok: "acquisition_ok ?a" "ss_bytes s \<noteq> 0" "ss_total_fetch_us s \<noteq> 0" "0 < int (ss_media_duration_ms s)"
    using assms(2,3) by (auto simp: acquisition_ok_def sample_wf_def)
  have reset: "c_acquisitions (fst (commit p t c)) = window_reset (c_acquisitions c)"
    using assms(4) by (simp add: commit_def Let_def update_failure_def)
  have "win_summary (c_acquisitions (commit_candidate_evidence s (fst (commit p t c)))) =
      summary_combine summary_default (from_sample ?a)"
    using ok(2-4) assms(3)
    by (simp add: commit_candidate_evidence_def Let_def reset window_observe_def window_reset_def window_default_def)
  moreover have "represents (summary_combine summary_default (from_sample ?a)) [?a]"
    using summary.represents_snoc [OF summary.represents_unit _ ok(1)] by simp
  ultimately show ?thesis by (intro exI [of _ "[?a]"]) (simp add: timing_def sample_timing_def)
qed

text \<open>
  C23. A candidate is accepted exactly when it carries its own first segment. Committing succeeds for
  the pending proposal only, on a completed segment: upwards exactly when its response strictly
  dominates the playing variant, the segment took no longer than its media and the reserve carried
  it; downwards exactly when the segment kept up (or it is the lowest rung) with its obligation in
  reserve, or it is the terminal floor. Success makes the candidate's rung the playing one and starts
  its record of acquisitions with exactly this segment; refusal changes nothing.
\<close>

theorem candidate_accepted_iff_carried:
  assumes "controller_start c0" and "controller_step\<^sup>*\<^sup>* c0 c" and "sample_wf s"
    and "int (ss_total_fetch_us s) \<le> i64_max" and "ss_media_duration_ms s \<le> u32_max"
    and "commit_candidate p s v now_ms c = (d, accepted)"
  shows "(accepted \<longleftrightarrow> c_pending c = Some p \<and> ss_completed s \<and>
      (case pr_direction p of
         Up \<Rightarrow> (\<exists>active. c_active_variant c = Some active \<and> strictly_dominates v active) \<and>
           fst (sample_timing s) \<le> snd (sample_timing s) \<and>
           (\<exists>r. snapshot_buffered_ms (ss_buffer s) = Some r \<and> replay (r * 1000) [sample_timing s])
       | Down \<Rightarrow>
           pr_rung p = recovery_floor c \<and> c_pending_reserve_policy c = Some TerminalFloor \<or>
           (fst (sample_timing s) \<le> snd (sample_timing s) \<or> pr_rung p = recovery_floor c) \<and>
           (\<exists>r. snapshot_buffered_ms (ss_buffer s) = Some r \<and> int (ss_media_obligation_ms s) \<le> r))) \<and>
    (accepted \<longrightarrow> c_current d = pr_rung p \<and> c_pending d = None \<and> c_active_variant d = Some v \<and>
       (\<exists>h. represents (win_summary (c_acquisitions d)) h \<and> timings h = [sample_timing s])) \<and>
    (\<not> accepted \<longrightarrow> d = c)"
proof -
  have inv: "controller_inv c" by (rule session_inv [OF assms(1,2)])
  have dom: "some_and (\<lambda>active. strictly_dominates v active) (c_active_variant c) \<longleftrightarrow>
      (\<exists>active. c_active_variant c = Some active \<and> strictly_dominates v active)"
    by (cases "c_active_variant c") auto
  let ?go = "(pr_direction p = Up \<longrightarrow> some_and (\<lambda>active. strictly_dominates v active) (c_active_variant c)) \<and>
         candidate_verdict_of c p s (declared_bps v) = Ready"
  have acc: "accepted \<longleftrightarrow> ?go" and no: "\<not> accepted \<Longrightarrow> d = c"
    using assms(6) unfolding commit_candidate_eq by (auto split: if_splits)
  have yes: "c_current d = pr_rung p \<and> c_pending d = None \<and> c_active_variant d = Some v \<and>
       (\<exists>h. represents (win_summary (c_acquisitions d)) h \<and> timings h = [sample_timing s])" if accepted
  proof -
    have d: "d = observe_active_variant v (network_kbps s) (commit_candidate_evidence s (fst (commit p now_ms c)))"
      using that assms(6) unfolding commit_candidate_eq by (auto split: if_splits)
    have pend: "c_pending c = Some p" "ss_completed s"
      using that acc by (auto simp: candidate_verdict_of_def split: if_splits)
    have "window_ok (c_acquisitions c)" using inv by (simp add: controller_inv_def)
    from committed_window [OF this assms(3) pend(2,1), of now_ms] commit_effect [OF pend(1) inv, of now_ms]
    show ?thesis
      by (simp add: d observe_active_variant_def commit_candidate_evidence_def Let_def)
  qed
  show ?thesis
    using acc no yes verdict_up_ready_iff [OF _ assms(4,5)] verdict_down_ready_iff [OF _ assms(4,5)] dom
    by (cases "pr_direction p") auto
qed

theorem candidate_accepted_iff_carried_witness:
  "\<exists>c d. controller_step\<^sup>*\<^sup>* demo_start c \<and>
     commit_candidate \<lparr>pr_rung = P480, pr_direction = Down\<rparr> (demo_sample 2000000 20000)
       (\<lparr>declared_bps = 900, hv_width = 848, hv_height = 480\<rparr>) 2 c = (d, True) \<and> c_current d = P480"
proof -
  let ?p = "\<lparr>pr_rung = P480, pr_direction = Down\<rparr>" and ?s = "demo_sample 2000000 20000"
  let ?v = "\<lparr>declared_bps = 900, hv_width = 848, hv_height = 480\<rparr>"
  obtain c where obs: "observe_with_rollback ?s None 1 demo_start = Some (c, Prime ?p)"
    and c: "c_pending c = Some ?p" using demo_pinned_step by blast
  have wf: "sample_wf ?s" by (rule demo_sample_wf) simp
  have "controller_step demo_start c" by (rule step_observe [OF wf obs])
  then have run: "controller_step\<^sup>*\<^sup>* demo_start c" by blast
  have small: "int (ss_total_fetch_us ?s) \<le> i64_max" "ss_media_duration_ms ?s \<le> u32_max"
    by (simp_all add: demo_sample_def i64_max_def u32_max_def)
  have t: "fst (sample_timing ?s) \<le> snd (sample_timing ?s)" "ss_completed ?s" "ss_media_obligation_ms ?s = 6000"
    by (simp_all add: sample_timing_def demo_sample_def)
  have r: "snapshot_buffered_ms (ss_buffer ?s) = Some 20000"
    by (simp add: demo_buffered saturating_since_def sat_i64_def i64_max_def i64_min_def)
  obtain d acc where com: "commit_candidate ?p ?s ?v 2 c = (d, acc)" by (cases "commit_candidate ?p ?s ?v 2 c")
  from candidate_accepted_iff_carried [OF demo_start_ok(1) run wf small com] c t r
  have "acc" "c_current d = P480" by auto
  with run com show ?thesis by auto
qed

section \<open>What a rejection leaves behind\<close>

lemma failure_of_update:
  assumes "length (c_failures c) = length LADDER"
  shows "failure_of (update_failure r f c) q = (if q = r then f (failure_of c r) else failure_of c q)"
proof -
  have "rung_index r < length (c_failures c)" using rung_index_in_range assms by simp
  then show ?thesis using rung_disc_inj [of q r]
    by (auto simp: failure_of_def update_failure_def nth_list_update)
qed

lemma failure_of_mark:
  "length (c_failures c) = length LADDER \<Longrightarrow>
   failure_of (fold (\<lambda>s. update_failure s (\<lambda>f. f\<lparr>structural := True\<rparr>)) rs c) q =
     (if q \<in> set rs then failure_of c q\<lparr>structural := True\<rparr> else failure_of c q)"
  by (induction rs arbitrary: c) (auto simp: failure_of_update)

definition rejected_failures :: "proposal \<Rightarrow> reject_cause \<Rightarrow> controller \<Rightarrow> rung \<Rightarrow> failure_certificate" where
  "rejected_failures p cause c q =
     (let budget = c_pending_exploration_budget_ms c; f = failure_of c q in
      case cause of
        Circumstance \<Rightarrow> f
      | StructuralAtOrBelow \<Rightarrow> if q \<le> pr_rung p then f\<lparr>structural := True\<rparr> else f
      | CompletedUnsustainable \<Rightarrow>
          if q = pr_rung p
          then f\<lparr>completed_unsustainable_hls_fast_kbps :=
            Some (max (unwrap_or (completed_unsustainable_hls_fast_kbps f) 0) (ce_fast (c_delivery c)))\<rparr>
          else f
      | ResponseUnchanged \<Rightarrow> if q = pr_rung p then raise_deadline budget f else f
      | _ \<Rightarrow> if q = pr_rung p then raise_deadline budget f\<lparr>service_endpoint := True\<rparr> else f)"

lemma reject_upward_eq:
  assumes "c_pending c = Some p" and "pr_direction p = Up" and "length (c_failures c) = length LADDER"
    and "reject p cause t c = (d, accepted)"
  shows "accepted \<and> c_pending d = None \<and> c_current d = c_current c \<and> c_catalog d = c_catalog c \<and>
    c_delivery d = c_delivery c \<and> failure_of d q = rejected_failures p cause c q \<and>
    c_common_budget_frontier_ms d =
      (if cause \<in> {Censored, ResponseUnchanged}
       then Some (max (unwrap_or (c_common_budget_frontier_ms c) 0) (c_pending_exploration_budget_ms c))
       else c_common_budget_frontier_ms c)"
proof -
  let ?c1 = "c\<lparr>c_pending := None, c_pending_reserve_policy := None, c_now_ms := max (c_now_ms c) t\<rparr>"
  have frame: "failure_of (x\<lparr>c_pending_exploration_budget_ms := b\<rparr>) q = failure_of x q"
    "failure_of ?c1 q = failure_of c q"
    "failure_of (?c1\<lparr>c_common_budget_frontier_ms := m\<rparr>) q = failure_of c q" for x b m q
    by (simp_all add: failure_of_def)
  have len: "length (c_failures ?c1) = length LADDER"
    "length (c_failures (?c1\<lparr>c_common_budget_frontier_ms := m\<rparr>)) = length LADDER" for m
    using assms(3) by simp_all
  have fold: "c_current (fold (\<lambda>s. update_failure s f) rs x) = c_current x"
    "c_catalog (fold (\<lambda>s. update_failure s f) rs x) = c_catalog x"
    "c_pending (fold (\<lambda>s. update_failure s f) rs x) = c_pending x"
    "c_delivery (fold (\<lambda>s. update_failure s f) rs x) = c_delivery x"
    "c_common_budget_frontier_ms (fold (\<lambda>s. update_failure s f) rs x) = c_common_budget_frontier_ms x"
    for f rs x by (induction rs arbitrary: x) simp_all
  have d: "d = (if cause = Circumstance then ?c1 else reject_upshift p cause ?c1)
      \<lparr>c_pending_exploration_budget_ms := 0\<rparr>" "accepted"
    using assms(1,2,4) by (cases cause; simp add: reject_def)+
  show ?thesis
    unfolding d(1) using d(2)
    by (cases cause)
      (simp_all add: reject_upshift_def Let_def rejected_failures_def frame failure_of_update [OF len(1)]
        failure_of_update [OF len(2)] mark_structural_def failure_of_mark [OF len(1)] fold)
qed

lemma eligible_eq:
  "eligible c b = filter (\<lambda>r. \<not> certificate_blocks (failure_of c r) (Some b) (c_delivery c))
     (map hc_rung (above_current c))"
  by (simp add: eligible_def filter_map comp_def)

text \<open>What a cause bars, for a budget and a delivery estimate, when a climb to \<open>r\<close> is rejected.\<close>

definition cause_bars :: "reject_cause \<Rightarrow> rung \<Rightarrow> int \<Rightarrow> nat \<Rightarrow> rung \<Rightarrow> int option \<Rightarrow> capacity_estimate \<Rightarrow> bool" where
  "cause_bars cause r budget fast q b dlv =
     (case cause of
        Circumstance \<Rightarrow> False
      | StructuralAtOrBelow \<Rightarrow> q \<le> r
      | CompletedUnsustainable \<Rightarrow> q = r \<and> conservative_kbps dlv \<le> fast
      | _ \<Rightarrow> q = r \<and> opt_all (\<lambda>x. x \<le> budget) b)"

lemma raised_endpoint:
  fixes budget :: int
  assumes "0 \<le> budget"
  shows "opt_all (\<lambda>x. x \<le> max (unwrap_or old 0) budget) b \<longleftrightarrow>
    some_and (\<lambda>failed. opt_all (\<lambda>x. x \<le> failed) b) old \<or> opt_all (\<lambda>x. x \<le> budget) b"
  using assms by (cases old; cases b) (auto simp: le_max_iff_disj)

lemma rejected_failures_exact:
  assumes "0 \<le> c_pending_exploration_budget_ms c"
  shows "certificate_blocks (rejected_failures p cause c q) b dlv \<longleftrightarrow>
    certificate_blocks (failure_of c q) b dlv \<or>
    cause_bars cause (pr_rung p) (c_pending_exploration_budget_ms c) (ce_fast (c_delivery c)) q b dlv"
proof -
  note endpoint = raised_endpoint [OF assms, of "deadline_budget_ms (failure_of c (pr_rung p))" b]
  have regime: "conservative_kbps dlv \<le> max (unwrap_or old 0) k \<longleftrightarrow>
      some_and (\<lambda>old. conservative_kbps dlv \<le> old) old \<or> conservative_kbps dlv \<le> k" for old k
    by (cases old) (auto simp: le_max_iff_disj)
  show ?thesis
    by (cases cause; cases "q = pr_rung p")
      (auto simp: rejected_failures_def cause_bars_def certificate_blocks_def completed_unsustainable_blocks_def
        raise_deadline_def endpoint regime Let_def)
qed

lemma rejected_frontier_exact:
  assumes "0 \<le> c_pending_exploration_budget_ms c"
    and "c_common_budget_frontier_ms d =
      (if cause \<in> {Censored, ResponseUnchanged}
       then Some (max (unwrap_or (c_common_budget_frontier_ms c) 0) (c_pending_exploration_budget_ms c))
       else c_common_budget_frontier_ms c)"
  shows "common_budget_blocks d b \<longleftrightarrow> common_budget_blocks c b \<or>
    cause \<in> {Censored, ResponseUnchanged} \<and> opt_all (\<lambda>x. x \<le> c_pending_exploration_budget_ms c) b"
  using raised_endpoint [OF assms(1), of "c_common_budget_frontier_ms c" b]
  by (simp add: common_budget_blocks_def assms(2))

text \<open>
  C22. A rejected climb is remembered exactly as its cause says. Rejecting the pending upward candidate of a
  session clears it and keeps the playing rung. A missed deadline, a failed candidate or an unchanged
  response bars that rung for every budget that is not larger, and the first and the last bar every
  exploration at such a budget; a completed but unsustainable candidate bars its rung for every budget as
  long as the conservative delivery estimate does not exceed the recent one at the rejection; a
  structural refusal bars the rung and every rung below; a circumstance bars nothing. Nothing else becomes
  barred and nothing becomes free: the rungs that can be tried at a budget are those that could be tried
  before without the newly barred ones. If the rejected rung could be tried, strictly fewer rungs are
  left at the same budget, except after a circumstance and after an unsustainable candidate whose
  conservative estimate exceeds the recent one at once, which leaves the rung open.
\<close>

theorem rejection_is_remembered:
  assumes "controller_start c0" and "controller_step\<^sup>*\<^sup>* c0 c"
    and "c_pending c = Some p" and "pr_direction p = Up"
    and "reject p cause now_ms c = (d, accepted)"
  defines "budget \<equiv> c_pending_exploration_budget_ms c"
  defines "bars \<equiv> cause_bars cause (pr_rung p) budget (ce_fast (c_delivery c))"
  shows "accepted \<and> c_pending d = None \<and> c_current d = c_current c \<and>
    (\<forall>q b dlv. certificate_blocks (failure_of d q) b dlv \<longleftrightarrow>
       certificate_blocks (failure_of c q) b dlv \<or> bars q b dlv) \<and>
    (\<forall>b. common_budget_blocks d b \<longleftrightarrow> common_budget_blocks c b \<or>
       cause \<in> {Censored, ResponseUnchanged} \<and> opt_all (\<lambda>x. x \<le> budget) b) \<and>
    (\<forall>b. eligible d b = filter (\<lambda>q. \<not> bars q (Some b) (c_delivery c)) (eligible c b)) \<and>
    (\<forall>b \<le> budget. pr_rung p \<in> set (eligible c b) \<longrightarrow>
       (length (eligible d b) < length (eligible c b) \<longleftrightarrow> cause \<noteq> Circumstance \<and>
          (cause = CompletedUnsustainable \<longrightarrow> conservative_kbps (c_delivery c) \<le> ce_fast (c_delivery c))))"
proof -
  have inv: "length (c_failures c) = length LADDER" "0 \<le> c_pending_exploration_budget_ms c"
    using session_inv [OF assms(1,2)] by (simp_all add: controller_inv_def)
  note r = reject_upward_eq [OF assms(3,4) inv(1) assms(5)]
  have f: "failure_of d q = rejected_failures p cause c q" for q using r by blast
  have above: "above_current d = above_current c" and dlv: "c_delivery d = c_delivery c"
    using r by (simp_all add: above_current_def)
  have exact: "certificate_blocks (failure_of d q) b x \<longleftrightarrow> certificate_blocks (failure_of c q) b x \<or> bars q b x" for q b x
    unfolding f bars_def budget_def by (rule rejected_failures_exact [OF inv(2)])
  have frontier: "common_budget_blocks d b \<longleftrightarrow> common_budget_blocks c b \<or>
      cause \<in> {Censored, ResponseUnchanged} \<and> opt_all (\<lambda>x. x \<le> budget) b" for b
    unfolding budget_def using r by (intro rejected_frontier_exact [OF inv(2)]) blast
  have left: "eligible d b = filter (\<lambda>q. \<not> bars q (Some b) (c_delivery c)) (eligible c b)" for b
    by (simp add: eligible_eq above dlv exact conj_commute)
  have shrinks: "length (eligible d b) < length (eligible c b) \<longleftrightarrow> cause \<noteq> Circumstance \<and>
      (cause = CompletedUnsustainable \<longrightarrow> conservative_kbps (c_delivery c) \<le> ce_fast (c_delivery c))"
    if b: "b \<le> budget" and el: "pr_rung p \<in> set (eligible c b)" for b
  proof -
    have "bars (pr_rung p) (Some b) (c_delivery c) \<longleftrightarrow> cause \<noteq> Circumstance \<and>
        (cause = CompletedUnsustainable \<longrightarrow> conservative_kbps (c_delivery c) \<le> ce_fast (c_delivery c))"
      using b by (cases cause) (simp_all add: bars_def cause_bars_def)
    moreover have "length (eligible d b) < length (eligible c b)" if "bars (pr_rung p) (Some b) (c_delivery c)"
      unfolding left using that el by (simp add: length_filter_less)
    moreover have "eligible d b = eligible c b" if "\<not> bars (pr_rung p) (Some b) (c_delivery c)"
    proof -
      have "\<not> bars q (Some b) (c_delivery c)" for q
        using that b by (cases cause) (auto simp: bars_def cause_bars_def)
      then show ?thesis by (simp add: left)
    qed
    ultimately show ?thesis by (metis less_irrefl)
  qed
  show ?thesis using r exact frontier left shrinks by blast
qed

theorem rejection_is_remembered_witness:
  "\<exists>c p. controller_step\<^sup>*\<^sup>* climb_start c \<and> c_pending c = Some p \<and>
     common_budget_blocks (fst (reject p Censored 9 c)) (Some (c_pending_exploration_budget_ms c))"
proof -
  let ?s = "demo_sample 1000000 60000"
  obtain c p where obs: "observe_with_rollback ?s (Some 6000) 7 climb_start = Some (c, Prime p)"
    and up: "pr_direction p = Up" using climb_step by blast
  have wf: "sample_wf ?s" by (rule demo_sample_wf) simp
  have "controller_step climb_start c" by (rule step_observe [OF wf obs])
  then have run: "controller_step\<^sup>*\<^sup>* climb_start c" by blast
  have inv: "controller_inv climb_start" by (rule controller_start_inv [OF climb_start_ok])
  have pend: "c_pending c = Some p"
    using observe_step_ok [OF inv wf obs [unfolded observe_with_rollback_def]] by (simp add: observation_ok_def)
  obtain d acc where rej: "reject p Censored 9 c = (d, acc)" by (cases "reject p Censored 9 c")
  from rejection_is_remembered [OF climb_start_ok run pend up rej]
  have "common_budget_blocks d (Some (c_pending_exploration_budget_ms c))" by simp
  with run pend rej show ?thesis by auto
qed

end
