(* ===== verification/Strings.thy ===== *)
theory Strings
  imports Prelude
begin

text \<open>
  The string operations of Rust's standard library the parsers of \<open>origin.rs\<close> and \<open>hls.rs\<close> use, on the
  bytes of a string: prefixes and suffixes, splitting at the first or at every separator, the ASCII
  classes, and decimal numbers both ways.
\<close>

section \<open>Prefixes, suffixes, splitting\<close>

fun strip_prefix :: "string \<Rightarrow> string \<Rightarrow> string option" where
  "strip_prefix [] s = Some s"
| "strip_prefix (p # ps) [] = None"
| "strip_prefix (p # ps) (c # cs) = (if p = c then strip_prefix ps cs else None)"

definition starts_with :: "string \<Rightarrow> string \<Rightarrow> bool" where
  "starts_with p s = (strip_prefix p s \<noteq> None)"

definition strip_suffix :: "string \<Rightarrow> string \<Rightarrow> string option" where
  "strip_suffix p s = map_option rev (strip_prefix (rev p) (rev s))"

definition ends_with :: "string \<Rightarrow> string \<Rightarrow> bool" where
  "ends_with p s = (strip_suffix p s \<noteq> None)"

fun split_once :: "char \<Rightarrow> string \<Rightarrow> (string \<times> string) option" where
  "split_once x [] = None"
| "split_once x (c # cs) =
     (if c = x then Some ([], cs)
      else map_option (\<lambda>(a, b). (c # a, b)) (split_once x cs))"

fun split_once_str :: "string \<Rightarrow> string \<Rightarrow> (string \<times> string) option" where
  "split_once_str pat [] = (if pat = [] then Some ([], []) else None)"
| "split_once_str pat (c # cs) =
     (case strip_prefix pat (c # cs) of
        Some rest \<Rightarrow> Some ([], rest)
      | None \<Rightarrow> map_option (\<lambda>(a, b). (c # a, b)) (split_once_str pat cs))"

fun split_on :: "char \<Rightarrow> string \<Rightarrow> string list" where
  "split_on x [] = [[]]"
| "split_on x (c # cs) =
     (if c = x then [] # split_on x cs
      else (case split_on x cs of [] \<Rightarrow> [[c]] | w # ws \<Rightarrow> (c # w) # ws))"

fun join_with :: "char \<Rightarrow> string list \<Rightarrow> string" where
  "join_with x [] = []"
| "join_with x [w] = w"
| "join_with x (w # v # ws) = w @ x # join_with x (v # ws)"

lemma strip_prefix_iff: "strip_prefix p s = Some r \<longleftrightarrow> s = p @ r"
  by (induction p s rule: strip_prefix.induct) auto

lemma strip_prefix_append [simp]: "strip_prefix p (p @ r) = Some r"
  by (simp add: strip_prefix_iff)

lemma starts_with_iff: "starts_with p s \<longleftrightarrow> (\<exists>r. s = p @ r)"
  by (auto simp: starts_with_def strip_prefix_iff)

lemma strip_suffix_iff: "strip_suffix p s = Some r \<longleftrightarrow> s = r @ p"
proof -
  have "strip_suffix p s = Some r \<longleftrightarrow> strip_prefix (rev p) (rev s) = Some (rev r)"
    by (cases "strip_prefix (rev p) (rev s)") (auto simp: strip_suffix_def)
  also have "\<dots> \<longleftrightarrow> s = r @ p"
    by (metis rev_append rev_rev_ident strip_prefix_iff)
  finally show ?thesis .
qed

lemma ends_with_iff: "ends_with p s \<longleftrightarrow> (\<exists>r. s = r @ p)"
  by (auto simp: ends_with_def strip_suffix_iff)

lemma split_once_None_iff: "split_once x s = None \<longleftrightarrow> x \<notin> set s"
  by (induction s) auto

lemma split_once_iff: "split_once x s = Some (a, b) \<longleftrightarrow> s = a @ x # b \<and> x \<notin> set a"
proof (induction s arbitrary: a)
  case (Cons c cs)
  then show ?case by (cases a) (auto split: prod.splits)
qed simp

lemma split_once_append [simp]: "x \<notin> set a \<Longrightarrow> split_once x (a @ x # b) = Some (a, b)"
  by (simp add: split_once_iff)

lemma split_once_str_SomeD: "split_once_str pat s = Some (a, b) \<Longrightarrow> s = a @ pat @ b"
proof (induction s arbitrary: a)
  case (Cons c cs)
  then show ?case by (auto simp: strip_prefix_iff split: option.splits)
qed (auto split: if_splits)

lemma split_on_nonempty [simp]: "split_on x s \<noteq> []"
  by (induction s) (auto split: list.splits)

lemma split_on_no_sep: "w \<in> set (split_on x s) \<Longrightarrow> x \<notin> set w"
proof (induction s arbitrary: w)
  case (Cons c cs)
  then show ?case by (cases "split_on x cs") (auto split: if_splits)
qed simp

lemma split_on_chars: "w \<in> set (split_on x s) \<Longrightarrow> set w \<subseteq> set s"
proof (induction s arbitrary: w)
  case (Cons c cs)
  obtain v vs where sp: "split_on x cs = v # vs" by (cases "split_on x cs") auto
  have "set v \<subseteq> set cs" by (rule Cons.IH) (simp add: sp)
  moreover have "set u \<subseteq> set cs" if "u \<in> set vs" for u by (rule Cons.IH) (simp add: sp that)
  ultimately show ?case using Cons.prems sp by (auto split: if_splits)
qed simp

lemma split_on_single: "x \<notin> set w \<Longrightarrow> split_on x w = [w]"
  by (induction w) auto

lemma split_on_append: "x \<notin> set w \<Longrightarrow> split_on x (w @ x # s) = w # split_on x s"
  by (induction w) auto

lemma join_split [simp]: "join_with x (split_on x s) = s"
proof (induction s)
  case (Cons c cs)
  then show ?case by (cases "split_on x cs"; cases "tl (split_on x cs)") auto
qed simp

lemma split_join:
  "ws \<noteq> [] \<Longrightarrow> \<forall>w \<in> set ws. x \<notin> set w \<Longrightarrow> split_on x (join_with x ws) = ws"
  by (induction x ws rule: join_with.induct) (auto simp: split_on_single split_on_append)

lemma join_with_chars: "set (join_with x ws) \<subseteq> insert x (\<Union> (set ` set ws))"
  by (induction x ws rule: join_with.induct) auto

lemma split_on_snoc: "x \<notin> set w \<Longrightarrow> split_on x (s @ x # w) = split_on x s @ [w]"
proof (induction s)
  case (Cons c cs)
  then show ?case by (cases "split_on x cs") auto
qed (simp add: split_on_single)

section \<open>ASCII classes\<close>

definition byte_of :: "char \<Rightarrow> nat" where
  "byte_of c = of_char c"

definition is_digit :: "char \<Rightarrow> bool" where
  "is_digit c = (48 \<le> byte_of c \<and> byte_of c \<le> 57)"

definition is_upper :: "char \<Rightarrow> bool" where
  "is_upper c = (65 \<le> byte_of c \<and> byte_of c \<le> 90)"

definition is_lower :: "char \<Rightarrow> bool" where
  "is_lower c = (97 \<le> byte_of c \<and> byte_of c \<le> 122)"

definition is_hexdigit :: "char \<Rightarrow> bool" where
  "is_hexdigit c = (is_digit c \<or> 65 \<le> byte_of c \<and> byte_of c \<le> 70 \<or> 97 \<le> byte_of c \<and> byte_of c \<le> 102)"

definition is_ascii :: "char \<Rightarrow> bool" where
  "is_ascii c = (byte_of c < 128)"

definition is_control :: "char \<Rightarrow> bool" where
  "is_control c = (byte_of c < 32 \<or> byte_of c = 127)"

definition is_ascii_space :: "char \<Rightarrow> bool" where
  "is_ascii_space c = (byte_of c \<in> {9, 10, 12, 13, 32})"

definition ascii_lower :: "char \<Rightarrow> char" where
  "ascii_lower c = (if is_upper c then char_of (byte_of c + 32) else c)"

definition to_lower :: "string \<Rightarrow> string" where
  "to_lower s = map ascii_lower s"

definition eq_ignore_case :: "string \<Rightarrow> string \<Rightarrow> bool" where
  "eq_ignore_case a b = (to_lower a = to_lower b)"

text \<open>
  The encodings of the Unicode \<open>White_Space\<close> characters, for \<open>str::trim\<close>: a valid UTF-8 string starts
  or ends with one of these characters exactly when its bytes do.
\<close>

definition whitespace_codes :: "nat list list" where
  "whitespace_codes =
     [[9], [10], [11], [12], [13], [32], [194, 133], [194, 160], [225, 154, 128], [226, 128, 128],
      [226, 128, 129], [226, 128, 130], [226, 128, 131], [226, 128, 132], [226, 128, 133],
      [226, 128, 134], [226, 128, 135], [226, 128, 136], [226, 128, 137], [226, 128, 138],
      [226, 128, 168], [226, 128, 169], [226, 128, 175], [226, 129, 159], [227, 128, 128]]"

definition is_trimmed :: "string \<Rightarrow> bool" where
  "is_trimmed s =
     list_all (\<lambda>w. \<not> starts_with (map char_of w) s \<and> \<not> ends_with (map char_of w) s) whitespace_codes"

lemma starts_byte: "starts_with (map char_of (b # bs)) s \<Longrightarrow> s \<noteq> [] \<and> byte_of (hd s) = b mod 256"
  by (auto simp: starts_with_iff byte_of_def)

lemma ends_byte: "ends_with (map char_of (bs @ [b])) s \<Longrightarrow> s \<noteq> [] \<and> byte_of (last s) = b mod 256"
  by (auto simp: ends_with_iff byte_of_def)

lemma whitespace_ends:
  "\<forall>w \<in> set whitespace_codes. w \<noteq> [] \<and> (hd w \<le> 32 \<or> 128 \<le> hd w) \<and> hd w < 256 \<and>
     (last w \<le> 32 \<or> 128 \<le> last w) \<and> last w < 256"
  by (simp add: whitespace_codes_def)

text \<open>No white space starts or ends with a printable ASCII byte.\<close>

lemma no_white_start:
  assumes "w \<in> set whitespace_codes" "32 < byte_of (hd s)" "byte_of (hd s) < 128"
  shows "\<not> starts_with (map char_of w) s"
proof
  have w: "w = hd w # tl w" and ends: "hd w \<le> 32 \<or> 128 \<le> hd w" "hd w < 256"
    using whitespace_ends assms(1) by auto
  assume "starts_with (map char_of w) s"
  with w starts_byte [of "hd w" "tl w" s] have "byte_of (hd s) = hd w mod 256" by simp
  then show False using ends assms by simp
qed

lemma no_white_end:
  assumes "w \<in> set whitespace_codes" "32 < byte_of (last s)" "byte_of (last s) < 128"
  shows "\<not> ends_with (map char_of w) s"
proof
  have w: "w = butlast w @ [last w]" and ends: "last w \<le> 32 \<or> 128 \<le> last w" "last w < 256"
    using whitespace_ends assms(1) by auto
  assume "ends_with (map char_of w) s"
  with w ends_byte [of "butlast w" "last w" s] have "byte_of (last s) = last w mod 256" by simp
  then show False using ends assms by simp
qed

lemma is_trimmed_ascii:
  assumes "32 < byte_of (hd s)" "byte_of (hd s) < 128" "32 < byte_of (last s)" "byte_of (last s) < 128"
  shows "is_trimmed s"
  using assms no_white_start no_white_end by (simp add: is_trimmed_def list_all_iff)

text \<open>What evaluates the string operations on literals.\<close>

lemmas byte_eval = byte_of_def is_digit_def is_upper_def is_lower_def is_hexdigit_def is_ascii_def
  is_control_def is_ascii_space_def

section \<open>Decimal numbers\<close>

definition digit_value :: "char \<Rightarrow> nat" where
  "digit_value c = byte_of c - 48"

definition digit_char :: "nat \<Rightarrow> char" where
  "digit_char d = char_of (48 + d)"

definition digits_value :: "string \<Rightarrow> nat" where
  "digits_value s = foldl (\<lambda>n c. 10 * n + digit_value c) 0 s"

fun show_nat :: "nat \<Rightarrow> string" where
  "show_nat n = (if n < 10 then [digit_char n] else show_nat (n div 10) @ [digit_char (n mod 10)])"

declare show_nat.simps [simp del]

definition show_int :: "int \<Rightarrow> string" where
  "show_int i = (if i < 0 then CHR ''-'' # show_nat (nat (- i)) else show_nat (nat i))"

definition parse_digits :: "nat \<Rightarrow> string \<Rightarrow> nat option" where
  "parse_digits m s = (if s \<noteq> [] \<and> list_all is_digit s then checked_nat m (digits_value s) else None)"

text \<open>\<open>parse::<u32>\<close>, \<open>parse::<u64>\<close>: an optional plus sign, then digits that fit.\<close>

definition parse_unsigned :: "nat \<Rightarrow> string \<Rightarrow> nat option" where
  "parse_unsigned m s = parse_digits m (unwrap_or (strip_prefix ''+'' s) s)"

definition parse_i64 :: "string \<Rightarrow> int option" where
  "parse_i64 s =
     (case s of
        [] \<Rightarrow> None
      | c # cs \<Rightarrow>
          if c = CHR ''-''
          then map_option (\<lambda>n. - int n) (parse_digits (nat i64_max + 1) cs)
          else map_option int (parse_digits (nat i64_max) (if c = CHR ''+'' then cs else s)))"

lemma byte_of_digit: "d < 10 \<Longrightarrow> byte_of (digit_char d) = 48 + d"
  by (simp add: byte_of_def digit_char_def)

lemma is_digit_char [simp]: "d < 10 \<Longrightarrow> is_digit (digit_char d)"
  by (simp add: is_digit_def byte_of_digit)

lemma digit_value_char [simp]: "d < 10 \<Longrightarrow> digit_value (digit_char d) = d"
  by (simp add: digit_value_def byte_of_digit)

lemma show_nat_digits: "list_all is_digit (show_nat n)"
  by (induction n rule: show_nat.induct) (subst show_nat.simps, auto)

lemma show_nat_nonempty [simp]: "show_nat n \<noteq> []"
  by (subst show_nat.simps) simp

lemma digits_value_show [simp]: "digits_value (show_nat n) = n"
proof (induction n rule: show_nat.induct)
  case (1 n)
  then show ?case by (subst show_nat.simps) (auto simp: digits_value_def)
qed

lemma parse_digits_show: "n \<le> m \<Longrightarrow> parse_digits m (show_nat n) = Some n"
  by (simp add: parse_digits_def show_nat_digits checked_nat_def)

lemma digit_not_special:
  "is_digit c \<Longrightarrow> c \<noteq> CHR ''-'' \<and> c \<noteq> CHR ''+'' \<and> c \<noteq> CHR '':'' \<and> c \<noteq> CHR ''/'' \<and>
     c \<noteq> CHR ''['' \<and> c \<noteq> CHR '']'' \<and> c \<noteq> CHR ''.'' \<and> c \<noteq> CHR '',''"
  by (auto simp: is_digit_def byte_of_def)

lemma show_nat_chars: "c \<in> set (show_nat n) \<Longrightarrow> is_digit c"
  using show_nat_digits by (auto simp: list_all_iff)

lemma parse_i64_show: "int n \<le> i64_max \<Longrightarrow> parse_i64 (show_nat n) = Some (int n)"
proof -
  assume n: "int n \<le> i64_max"
  obtain c cs where s: "show_nat n = c # cs" by (cases "show_nat n") auto
  then have "is_digit c" using show_nat_chars [of c n] by simp
  moreover have "parse_digits (nat i64_max) (show_nat n) = Some n"
    using n by (intro parse_digits_show) linarith
  ultimately show ?thesis using digit_not_special [of c] by (simp add: parse_i64_def s)
qed

lemma parse_unsigned_show: "n \<le> m \<Longrightarrow> parse_unsigned m (show_nat n) = Some n"
proof -
  assume n: "n \<le> m"
  obtain c cs where s: "show_nat n = c # cs" by (cases "show_nat n") auto
  then have "is_digit c" using show_nat_chars [of c n] by simp
  then have "strip_prefix ''+'' (show_nat n) = None" using digit_not_special [of c] by (auto simp: s)
  then show ?thesis using parse_digits_show [OF n] by (simp add: parse_unsigned_def)
qed

section \<open>Codecs\<close>

text \<open>A value that is written out and read back unchanged: the written form determines it.\<close>

locale codec =
  fixes encode :: "'a \<Rightarrow> 'w"
    and decode :: "'w \<Rightarrow> 'a option"
    and valid :: "'a \<Rightarrow> bool"
  assumes decode_encode: "valid x \<Longrightarrow> decode (encode x) = Some x"
begin

lemma encode_inj: "valid x \<Longrightarrow> valid y \<Longrightarrow> encode x = encode y \<Longrightarrow> x = y"
  by (metis decode_encode option.inject)

lemma reencode: "valid x \<Longrightarrow> map_option encode (decode (encode x)) = Some (encode x)"
  by (simp add: decode_encode)

end

interpretation decimal: codec show_nat "parse_unsigned u64_max" "\<lambda>n. n \<le> u64_max"
  by unfold_locales (rule parse_unsigned_show)

end
