(* ===== verification/Origin.thy ===== *)
theory Origin
  imports Strings
begin

text \<open>
  Where a server is (\<open>origin.rs\<close>): the reading of a URL into scheme, host, port and path, the two
  spellings of an IPv6 host, the credential policy of a build, and the stream URL that pairs an origin
  with a path. Hosts are stored without brackets and written with them.
\<close>

section \<open>Schemes, ports, policies\<close>

datatype scheme = Https | Http

definition scheme_str :: "scheme \<Rightarrow> string" where
  "scheme_str s = (case s of Http \<Rightarrow> ''http'' | Https \<Rightarrow> ''https'')"

definition scheme_is_tls :: "scheme \<Rightarrow> bool" where
  "scheme_is_tls s = (s = Https)"

definition DEFAULT_PORT :: int where "DEFAULT_PORT = 32400"

definition dial_port :: "int \<Rightarrow> int option" where
  "dial_port p = (if 1 \<le> p \<and> p \<le> 65535 then Some p else None)"

datatype credential_policy = HttpsOnly | AllowPlaintext

definition of_build :: "bool \<Rightarrow> bool \<Rightarrow> credential_policy" where
  "of_build devtriggers store_forced =
     (if devtriggers \<and> \<not> store_forced then AllowPlaintext else HttpsOnly)"

text \<open>The feature of the build and the forced store policy are parameters.\<close>

definition policy_build :: "bool \<Rightarrow> bool \<Rightarrow> credential_policy" where
  "policy_build devtriggers store_policy_forced = of_build devtriggers store_policy_forced"

section \<open>Origins\<close>

record origin =
  o_scheme :: scheme
  o_host :: string
  o_port :: int

definition unbracket :: "string \<Rightarrow> string" where
  "unbracket host =
     unwrap_or (case strip_prefix ''['' host of None \<Rightarrow> None | Some r \<Rightarrow> strip_suffix '']'' r) host"

definition is_v6_literal :: "string \<Rightarrow> bool" where
  "is_v6_literal host = (CHR '':'' \<in> set host)"

definition origin_new :: "scheme \<Rightarrow> string \<Rightarrow> int \<Rightarrow> origin" where
  "origin_new s host port = \<lparr>o_scheme = s, o_host = unbracket host, o_port = port\<rparr>"

definition origin_http :: "string \<Rightarrow> int \<Rightarrow> origin" where
  "origin_http host port = origin_new Http host port"

record parts =
  p_scheme :: scheme
  p_scheme_known :: bool
  p_host :: string
  p_port :: "int option"
  p_port_bad :: bool
  p_path :: string

definition parts_scheme :: "string \<Rightarrow> scheme \<times> bool \<times> string" where
  "parts_scheme url =
     (case split_once_str ''://'' url of
        Some (s, r) \<Rightarrow> if s = ''http'' then (Http, True, r)
                       else if s = ''https'' then (Https, True, r)
                       else (Http, False, r)
      | None \<Rightarrow> (Http, True, url))"

text \<open>The authority ends at the first slash; everything from there is the path.\<close>

definition parts_path :: "string \<Rightarrow> string \<times> string" where
  "parts_path rest =
     (case split_once CHR ''/'' rest of
        Some (auth, p) \<Rightarrow> (auth, CHR ''/'' # p)
      | None \<Rightarrow> (rest, []))"

definition parts_authority :: "string \<Rightarrow> string \<times> string option" where
  "parts_authority auth =
     (case (case strip_prefix ''['' auth of None \<Rightarrow> None | Some r \<Rightarrow> split_once CHR '']'' r) of
        Some (h, after) \<Rightarrow> (h, strip_prefix '':'' after)
      | None \<Rightarrow>
          (case split_once CHR '':'' auth of
             Some (h, p) \<Rightarrow> (h, Some p)
           | None \<Rightarrow> (auth, None)))"

definition parts_port :: "string option \<Rightarrow> int option" where
  "parts_port port_txt =
     (case port_txt of None \<Rightarrow> None
      | Some t \<Rightarrow> (case parse_i64 t of None \<Rightarrow> None | Some p \<Rightarrow> dial_port p))"

definition parts_of :: "string \<Rightarrow> parts" where
  "parts_of url =
     (let (s, known, rest) = parts_scheme url;
          (auth, path) = parts_path rest;
          (host, port_txt) = parts_authority auth;
          port = parts_port port_txt
      in \<lparr>p_scheme = s, p_scheme_known = known, p_host = host, p_port = port,
          p_port_bad = (port_txt \<noteq> None \<and> port = None), p_path = path\<rparr>)"

definition origin_parse :: "string \<Rightarrow> origin option" where
  "origin_parse url =
     (let p = parts_of url in
      if p_scheme_known p \<and> p_host p \<noteq> [] \<and> \<not> p_port_bad p
      then Some (origin_new (p_scheme p) (p_host p) (unwrap_or (p_port p) DEFAULT_PORT))
      else None)"

definition parse_connection :: "string \<Rightarrow> int \<Rightarrow> origin option" where
  "parse_connection uri advertised =
     (let p = parts_of uri in
      if \<not> p_scheme_known p \<or> p_host p = [] \<or> p_port_bad p then None
      else
        let port = unwrap_or (or_else (p_port p) (dial_port advertised)) DEFAULT_PORT
        in Some (origin_new (p_scheme p) (p_host p) port))"

definition origin_is_tls :: "origin \<Rightarrow> bool" where
  "origin_is_tls orig = scheme_is_tls (o_scheme orig)"

definition may_carry_credential :: "credential_policy \<Rightarrow> origin \<Rightarrow> bool" where
  "may_carry_credential policy orig = (origin_is_tls orig \<or> policy = AllowPlaintext)"

definition authority :: "origin \<Rightarrow> string" where
  "authority orig =
     (if is_v6_literal (o_host orig)
      then ''['' @ o_host orig @ '']:'' @ show_int (o_port orig)
      else o_host orig @ '':'' @ show_int (o_port orig))"

definition origin_base :: "origin \<Rightarrow> string" where
  "origin_base orig = scheme_str (o_scheme orig) @ ''://'' @ authority orig"

definition origin_log_form :: "origin \<Rightarrow> string" where
  "origin_log_form orig = (if o_scheme orig = Http then authority orig else origin_base orig)"

definition origin_split :: "string \<Rightarrow> origin \<times> string" where
  "origin_split url =
     (let p = parts_of url in
      (origin_new (p_scheme p) (p_host p) (unwrap_or (p_port p) DEFAULT_PORT), p_path p))"

definition url_host :: "string \<Rightarrow> string" where
  "url_host url = p_host (parts_of url)"

record stream_url =
  su_origin :: origin
  su_path :: string

definition to_url :: "stream_url \<Rightarrow> string" where
  "to_url u = origin_base (su_origin u) @ su_path u"

definition stream_url_parse :: "string \<Rightarrow> stream_url" where
  "stream_url_parse url =
     (let (orig, path) = origin_split url
      in \<lparr>su_origin = orig, su_path = (if path = [] then ''/'' else path)\<rparr>)"

section \<open>Reading back what was written\<close>

text \<open>
  The hosts a URL can name: not empty, no slash; with a colon (a v6 literal) no closing bracket;
  without one, not a bracket that is closed again.
\<close>

definition host_ok :: "string \<Rightarrow> bool" where
  "host_ok h =
     (h \<noteq> [] \<and> CHR ''/'' \<notin> set h \<and>
      (if is_v6_literal h then CHR '']'' \<notin> set h
       else \<not> (starts_with ''['' h \<and> CHR '']'' \<in> set h)))"

definition origin_ok :: "origin \<Rightarrow> bool" where
  "origin_ok orig = (host_ok (o_host orig) \<and> 1 \<le> o_port orig \<and> o_port orig \<le> 65535)"

lemma unbracket_cases:
  "unbracket h = (if \<exists>r. h = CHR ''['' # r @ '']'' then butlast (tl h) else h)"
proof (cases "\<exists>r. h = CHR ''['' # r @ '']''")
  case True
  then obtain r where "h = CHR ''['' # r @ '']''" by blast
  then show ?thesis using strip_suffix_iff [of "'']''" "r @ '']''" r] by (simp add: unbracket_def)
next
  case False
  have "(case strip_prefix ''['' h of None \<Rightarrow> None | Some r \<Rightarrow> strip_suffix '']'' r) = None"
  proof (cases "strip_prefix ''['' h")
    case (Some r)
    then have "h = CHR ''['' # r" by (simp add: strip_prefix_iff)
    then have "strip_suffix '']'' r = None" using False by (cases "strip_suffix '']'' r") (auto simp: strip_suffix_iff)
    with Some show ?thesis by simp
  qed simp
  with False show ?thesis by (simp add: unbracket_def)
qed

lemma unbracket_host_ok: "host_ok h \<Longrightarrow> unbracket h = h"
  by (auto simp: unbracket_cases host_ok_def starts_with_iff split: if_splits)

lemma show_int_chars: "0 \<le> i \<Longrightarrow> c \<in> set (show_int i) \<Longrightarrow> is_digit c"
  by (auto simp: show_int_def intro: show_nat_chars)

lemma parse_port_show: "1 \<le> p \<Longrightarrow> p \<le> 65535 \<Longrightarrow> parts_port (Some (show_int p)) = Some p"
  by (simp add: parts_port_def show_int_def parse_i64_show i64_max_def dial_port_def)

lemma parts_scheme_base: "parts_scheme (scheme_str s @ ''://'' @ r) = (s, True, r)"
  by (cases s) (simp_all add: parts_scheme_def scheme_str_def)

lemma parts_authority_written:
  assumes "host_ok h" and "1 \<le> p" and "p \<le> 65535"
  shows "parts_authority (authority \<lparr>o_scheme = s, o_host = h, o_port = p\<rparr>) = (h, Some (show_int p))"
proof (cases "is_v6_literal h")
  case True
  then have "CHR '']'' \<notin> set h" using assms(1) by (simp add: host_ok_def)
  then show ?thesis using True by (simp add: authority_def parts_authority_def)
next
  case False
  then have colon: "CHR '':'' \<notin> set h" by (simp add: is_v6_literal_def)
  have digits: "CHR '']'' \<notin> set (show_int p)"
    using show_int_chars [of p "CHR '']''"] digit_not_special assms(2) by auto
  have none: "(case strip_prefix ''['' (h @ CHR '':'' # show_int p) of None \<Rightarrow> None
      | Some r \<Rightarrow> split_once CHR '']'' r) = None"
  proof (cases h)
    case (Cons c cs)
    show ?thesis
    proof (cases "c = CHR ''[''")
      case True
      then have "CHR '']'' \<notin> set cs" using assms(1) False by (auto simp: host_ok_def Cons starts_with_def)
      then have "split_once CHR '']'' (cs @ CHR '':'' # show_int p) = None"
        using digits by (simp add: split_once_None_iff)
      with True show ?thesis by (simp add: Cons)
    next
      case no: False
      then show ?thesis by (auto simp: Cons)
    qed
  qed simp
  show ?thesis using False colon none by (simp add: authority_def parts_authority_def)
qed

lemma authority_no_slash:
  assumes "origin_ok orig"
  shows "CHR ''/'' \<notin> set (authority orig)"
  using assms show_int_chars [of "o_port orig" "CHR ''/''"] digit_not_special
  by (auto simp: authority_def origin_ok_def host_ok_def)

lemma parts_of_written:
  assumes "origin_ok orig" and "path = [] \<or> starts_with ''/'' path"
  shows "parts_of (origin_base orig @ path) =
    \<lparr>p_scheme = o_scheme orig, p_scheme_known = True, p_host = o_host orig,
     p_port = Some (o_port orig), p_port_bad = False, p_path = path\<rparr>"
proof -
  have auth: "CHR ''/'' \<notin> set (authority orig)" by (rule authority_no_slash [OF assms(1)])
  have "parts_path (authority orig @ path) = (authority orig, path)"
  proof (cases path)
    case Nil
    have "split_once CHR ''/'' (authority orig) = None" using auth by (simp add: split_once_None_iff)
    then show ?thesis using Nil by (simp add: parts_path_def)
  next
    case (Cons c cs)
    then have "path = CHR ''/'' # cs" using assms(2) by (auto simp: starts_with_iff)
    then show ?thesis using auth by (simp add: parts_path_def)
  qed
  moreover have "parts_authority (authority orig) = (o_host orig, Some (show_int (o_port orig)))"
    using parts_authority_written [of "o_host orig" "o_port orig" "o_scheme orig"] assms(1)
    by (cases orig) (simp add: origin_ok_def)
  ultimately show ?thesis
    using parse_port_show [of "o_port orig"] assms(1) parts_scheme_base [of "o_scheme orig" "authority orig @ path"]
    by (simp add: parts_of_def origin_base_def origin_ok_def)
qed

lemma parse_base: "origin_ok orig \<Longrightarrow> origin_parse (origin_base orig) = Some orig"
  using parts_of_written [of orig "[]"]
  by (auto simp: origin_parse_def origin_new_def unbracket_host_ok origin_ok_def host_ok_def Let_def)

interpretation origins: codec origin_base origin_parse origin_ok
  by unfold_locales (rule parse_base)

lemma split_written:
  "origin_ok orig \<Longrightarrow> path = [] \<or> starts_with ''/'' path \<Longrightarrow> origin_split (origin_base orig @ path) = (orig, path)"
  using parts_of_written [of orig path]
  by (simp add: origin_split_def origin_new_def unbracket_host_ok origin_ok_def)

section \<open>What parsing yields\<close>

lemma parts_authority_host:
  assumes "parts_authority auth = (h, txt)" and "CHR ''/'' \<notin> set auth" and "h \<noteq> []"
  shows "host_ok h"
proof (cases "case strip_prefix ''['' auth of None \<Rightarrow> None | Some r \<Rightarrow> split_once CHR '']'' r")
  case (Some pr)
  then obtain r after where r: "strip_prefix ''['' auth = Some r" "split_once CHR '']'' r = Some (h, after)"
    using assms(1) by (cases pr) (auto simp: parts_authority_def split: option.splits)
  then have "auth = ''['' @ h @ CHR '']'' # after" "CHR '']'' \<notin> set h"
    by (simp_all add: strip_prefix_iff split_once_iff)
  then show ?thesis using assms(2,3) by (auto simp: host_ok_def)
next
  case None
  have no: "\<not> (starts_with ''['' auth \<and> CHR '']'' \<in> set auth)"
    using None by (auto simp: starts_with_iff split_once_None_iff)
  show ?thesis
  proof (cases "split_once CHR '':'' auth")
    case (Some pr)
    then obtain p where "split_once CHR '':'' auth = Some (h, p)"
      using assms(1) None by (cases pr) (auto simp: parts_authority_def)
    then have h: "auth = h @ CHR '':'' # p" "CHR '':'' \<notin> set h" by (simp_all add: split_once_iff)
    have "\<not> (starts_with ''['' h \<and> CHR '']'' \<in> set h)" using no h(1) by (auto simp: starts_with_iff)
    then show ?thesis using h assms(2,3) by (simp add: host_ok_def is_v6_literal_def)
  next
    case colon: None
    have "h = auth" using assms(1) None colon by (simp add: parts_authority_def)
    moreover have "CHR '':'' \<notin> set auth" using colon by (simp add: split_once_None_iff)
    ultimately show ?thesis using no assms(2,3) by (simp add: host_ok_def is_v6_literal_def)
  qed
qed

lemma parts_path_no_slash: "parts_path rest = (auth, path) \<Longrightarrow> CHR ''/'' \<notin> set auth \<and> rest = auth @ path"
  by (auto simp: parts_path_def split_once_iff split_once_None_iff split: option.splits prod.splits)

lemma dial_port_SomeD: "dial_port p = Some q \<Longrightarrow> q = p \<and> 1 \<le> q \<and> q \<le> 65535"
  by (simp add: dial_port_def split: if_splits)

lemma parts_port_range: "parts_port t = Some q \<Longrightarrow> 1 \<le> q \<and> q \<le> 65535"
  by (auto simp: parts_port_def dest: dial_port_SomeD split: option.splits)

lemma parts_host_ok:
  assumes "p_host (parts_of url) \<noteq> []"
  shows "host_ok (p_host (parts_of url))"
proof -
  obtain s k rest where sch: "parts_scheme url = (s, k, rest)" by (cases "parts_scheme url") auto
  obtain auth path where pa: "parts_path rest = (auth, path)" by (cases "parts_path rest") auto
  obtain h t where au: "parts_authority auth = (h, t)" by (cases "parts_authority auth") auto
  have "p_host (parts_of url) = h" by (simp add: parts_of_def sch pa au Let_def)
  then show ?thesis using parts_authority_host [OF au] parts_path_no_slash [OF pa] assms by simp
qed

lemma parts_port_of_range: "p_port (parts_of url) = Some q \<Longrightarrow> 1 \<le> q \<and> q \<le> 65535"
  by (auto simp: parts_of_def Let_def dest: parts_port_range split: prod.splits)

lemma parse_origin_ok:
  assumes "origin_parse url = Some orig"
  shows "origin_ok orig \<and> o_host orig = p_host (parts_of url) \<and>
    o_scheme orig = p_scheme (parts_of url) \<and> p_scheme_known (parts_of url) \<and>
    o_port orig = unwrap_or (p_port (parts_of url)) DEFAULT_PORT \<and> \<not> p_port_bad (parts_of url)"
proof -
  have p: "p_host (parts_of url) \<noteq> []" "p_scheme_known (parts_of url)" "\<not> p_port_bad (parts_of url)"
    and orig: "orig = origin_new (p_scheme (parts_of url)) (p_host (parts_of url))
      (unwrap_or (p_port (parts_of url)) DEFAULT_PORT)"
    using assms by (auto simp: origin_parse_def Let_def split: if_splits)
  note h = parts_host_ok [OF p(1)]
  have "1 \<le> unwrap_or (p_port (parts_of url)) DEFAULT_PORT \<and>
      unwrap_or (p_port (parts_of url)) DEFAULT_PORT \<le> 65535"
    using parts_port_of_range [of url] by (cases "p_port (parts_of url)") (auto simp: DEFAULT_PORT_def)
  then show ?thesis using p h by (simp add: orig origin_new_def unbracket_host_ok origin_ok_def)
qed

text \<open>
  An origin read from a URL is complete and survives being written: whatever text was parsed, the
  host is not empty and has no slash, the port can be dialled, writing the origin and parsing it again
  yields the same origin (a v6 host bare in the value and bracketed in the text), and two origins read
  from URLs are written alike only if they are equal.
\<close>

theorem parsed_origin_roundtrips:
  assumes "origin_parse url = Some orig"
  shows "origin_parse (origin_base orig) = Some orig \<and> o_host orig \<noteq> [] \<and>
    CHR ''/'' \<notin> set (o_host orig) \<and> 1 \<le> o_port orig \<and> o_port orig \<le> 65535 \<and>
    (\<forall>url' orig'. origin_parse url' = Some orig' \<and> origin_base orig' = origin_base orig \<longrightarrow> orig' = orig)"
proof -
  have ok: "origin_ok orig" using parse_origin_ok [OF assms] by blast
  have "orig' = orig" if "origin_parse url' = Some orig'" "origin_base orig' = origin_base orig" for url' orig'
    using origins.encode_inj [of orig' orig] parse_origin_ok [OF that(1)] ok that(2) by blast
  then show ?thesis using parse_base [OF ok] ok by (auto simp: origin_ok_def host_ok_def)
qed

theorem parsed_origin_roundtrips_witness:
  "origin_parse ''http://[::1]:32400/web'' = Some \<lparr>o_scheme = Http, o_host = ''::1'', o_port = 32400\<rparr> \<and>
   origin_parse (origin_base \<lparr>o_scheme = Http, o_host = ''::1'', o_port = 32400\<rparr>) =
     Some \<lparr>o_scheme = Http, o_host = ''::1'', o_port = 32400\<rparr>"
proof -
  have "origin_parse ''http://[::1]:32400/web'' = Some \<lparr>o_scheme = Http, o_host = ''::1'', o_port = 32400\<rparr>"
    by (simp add: origin_parse_def parts_of_def parts_scheme_def parts_path_def parts_authority_def
        parts_port_def parse_i64_def parse_digits_def is_digit_def byte_of_def digits_value_def
        digit_value_def checked_nat_def i64_max_def dial_port_def origin_new_def unbracket_def Let_def)
  from this parsed_origin_roundtrips [OF this] show ?thesis by blast
qed

text \<open>
  A stored playback URL is split back into what it was built from: for every origin a URL can
  name and every path from the root, parsing the written stream URL yields exactly that origin and
  path; and splitting any text at all yields a port that can be dialled.
\<close>

theorem stream_url_roundtrips:
  assumes "origin_parse url = Some (su_origin u)" and "starts_with ''/'' (su_path u)"
  shows "stream_url_parse (to_url u) = u \<and>
    1 \<le> o_port (fst (origin_split any)) \<and> o_port (fst (origin_split any)) \<le> 65535"
proof -
  have "origin_ok (su_origin u)" using parse_origin_ok [OF assms(1)] by blast
  from split_written [OF this] assms(2)
  have "stream_url_parse (to_url u) = \<lparr>su_origin = su_origin u, su_path = su_path u\<rparr>"
    by (auto simp: stream_url_parse_def to_url_def starts_with_iff)
  moreover have "1 \<le> o_port (fst (origin_split any)) \<and> o_port (fst (origin_split any)) \<le> 65535"
    using parts_port_of_range [of any]
    by (cases "p_port (parts_of any)") (auto simp: origin_split_def origin_new_def DEFAULT_PORT_def Let_def)
  ultimately show ?thesis by simp
qed

text \<open>
  Under the store's policy a credential only ever rides TLS: an origin read from a URL may carry
  one exactly when the URL spells the scheme https, and no build whose store policy is forced, nor any
  build without the developer feature, has a looser policy.
\<close>

theorem credential_rides_https_only:
  assumes "origin_parse url = Some orig"
  shows "(may_carry_credential HttpsOnly orig \<longleftrightarrow> starts_with ''https://'' url) \<and>
    (policy_build devtriggers forced \<noteq> HttpsOnly \<longrightarrow> devtriggers \<and> \<not> forced) \<and>
    (may_carry_credential HttpsOnly orig \<longrightarrow> may_carry_credential (policy_build devtriggers forced) orig)"
proof -
  have known: "p_scheme_known (parts_of url)" and s: "o_scheme orig = p_scheme (parts_of url)"
    using parse_origin_ok [OF assms] by auto
  have sch: "p_scheme (parts_of url) = fst (parts_scheme url)" "p_scheme_known (parts_of url) = fst (snd (parts_scheme url))"
    by (auto simp: parts_of_def Let_def split: prod.splits)
  have "fst (parts_scheme url) = Https \<longleftrightarrow> starts_with ''https://'' url"
  proof
    assume "fst (parts_scheme url) = Https"
    then obtain r where "split_once_str ''://'' url = Some (''https'', r)"
      by (auto simp: parts_scheme_def split: option.splits if_splits prod.splits)
    then show "starts_with ''https://'' url" using split_once_str_SomeD by (fastforce simp: starts_with_iff)
  next
    assume "starts_with ''https://'' url"
    then obtain r where "url = scheme_str Https @ ''://'' @ r" by (auto simp: starts_with_iff scheme_str_def)
    then show "fst (parts_scheme url) = Https" using parts_scheme_base [of Https r] by simp
  qed
  then show ?thesis
    by (auto simp: may_carry_credential_def origin_is_tls_def scheme_is_tls_def s sch policy_build_def of_build_def)
qed

theorem credential_rides_https_only_witness:
  "may_carry_credential HttpsOnly \<lparr>o_scheme = Https, o_host = ''a'', o_port = 443\<rparr>"
proof -
  let ?o = "\<lparr>o_scheme = Https, o_host = ''a'', o_port = 443\<rparr>"
  have "origin_parse ''https://a:443'' = Some ?o"
    by (simp add: origin_parse_def parts_of_def parts_scheme_def parts_path_def parts_authority_def
        parts_port_def parse_i64_def parse_digits_def is_digit_def byte_of_def digits_value_def
        digit_value_def checked_nat_def i64_max_def dial_port_def origin_new_def unbracket_def Let_def)
  from credential_rides_https_only [OF this] show ?thesis by (simp add: starts_with_def)
qed

theorem stream_url_roundtrips_witness:
  "stream_url_parse (to_url \<lparr>su_origin = \<lparr>o_scheme = Https, o_host = ''a'', o_port = 443\<rparr>, su_path = ''/x?y''\<rparr>)
     = \<lparr>su_origin = \<lparr>o_scheme = Https, o_host = ''a'', o_port = 443\<rparr>, su_path = ''/x?y''\<rparr>"
proof -
  let ?u = "\<lparr>su_origin = \<lparr>o_scheme = Https, o_host = ''a'', o_port = 443\<rparr>, su_path = ''/x?y''\<rparr>"
  have "origin_parse ''https://a:443'' = Some (su_origin ?u)"
    by (simp add: origin_parse_def parts_of_def parts_scheme_def parts_path_def parts_authority_def
        parts_port_def parse_i64_def parse_digits_def is_digit_def byte_of_def digits_value_def
        digit_value_def checked_nat_def i64_max_def dial_port_def origin_new_def unbracket_def Let_def)
  moreover have "starts_with ''/'' (su_path ?u)" by (simp add: starts_with_def)
  ultimately show ?thesis using stream_url_roundtrips by blast
qed

end
