(* ===== verification/Hls.thy ===== *)
theory Hls
  imports Origin Units
begin

text \<open>
  The strict HLS parser and its refresh state (\<open>hls.rs\<close>): the resources a playlist may name, the
  inherited credential, the content timeline of the segments, the master and media playlists, and the
  tracker that turns refreshes into new segments. An \<open>expect\<close> that could fail is the outcome \<open>Panic\<close>.
\<close>

section \<open>Errors and outcomes\<close>

datatype hls_error =
    MissingHeader
  | Malformed nat string
  | InvalidUri string
  | CrossOrigin
  | UnsupportedTag string
  | UnsupportedFeature string
  | MissingVariant
  | MultipleVariants
  | MissingTargetDuration
  | MissingMediaSequence
  | ChildIsNotPlaylist
  | SegmentIsNotMpegTs
  | SequenceOverflow
  | RefreshSourceChanged
  | SequenceGap nat nat
  | SegmentChanged nat
  | UnknownOldSegment nat
  | SegmentAfterEndList nat
  | StaleEndList
  | MissingCredential
  | MultipleCredentials
  | CredentialChanged
  | DurationOverflow

datatype 'a outcome = Value 'a | Raise hls_error | Panic

fun and_then :: "'a outcome \<Rightarrow> ('a \<Rightarrow> 'b outcome) \<Rightarrow> 'b outcome" where
  "and_then (Value x) f = f x"
| "and_then (Raise e) f = Raise e"
| "and_then Panic f = Panic"

definition ok_or :: "'a option \<Rightarrow> hls_error \<Rightarrow> 'a outcome" where
  "ok_or a e = (case a of None \<Rightarrow> Raise e | Some x \<Rightarrow> Value x)"

definition expect :: "'a option \<Rightarrow> 'a outcome" where
  "expect a = (case a of None \<Rightarrow> Panic | Some x \<Rightarrow> Value x)"

definition require :: "bool \<Rightarrow> hls_error \<Rightarrow> 'a outcome \<Rightarrow> 'a outcome" where
  "require ok e rest = (if ok then rest else Raise e)"

definition error_display :: "hls_error \<Rightarrow> string" where
  "error_display err = (case err of
     MissingHeader \<Rightarrow> ''playlist does not start with #EXTM3U''
   | Malformed line reason \<Rightarrow> ''malformed playlist at line '' @ show_nat line @ '': '' @ reason
   | InvalidUri reason \<Rightarrow> ''invalid playlist URI: '' @ reason
   | CrossOrigin \<Rightarrow> ''playlist URI changes origin''
   | UnsupportedTag tag \<Rightarrow> ''unsupported HLS tag '' @ tag
   | UnsupportedFeature feature \<Rightarrow> ''unsupported HLS feature: '' @ feature
   | MissingVariant \<Rightarrow> ''master playlist has no variant''
   | MultipleVariants \<Rightarrow> ''master playlist has more than one variant''
   | MissingTargetDuration \<Rightarrow> ''media playlist has no target duration''
   | MissingMediaSequence \<Rightarrow> ''media playlist has no media sequence''
   | ChildIsNotPlaylist \<Rightarrow> ''master child is not an m3u8 playlist''
   | SegmentIsNotMpegTs \<Rightarrow> ''media segment is not MPEG-TS''
   | SequenceOverflow \<Rightarrow> ''media sequence overflows u64''
   | RefreshSourceChanged \<Rightarrow> ''refresh belongs to another media playlist''
   | SequenceGap expected found \<Rightarrow>
       ''media sequence gap: expected '' @ show_nat expected @ '', found '' @ show_nat found
   | SegmentChanged n \<Rightarrow> ''segment '' @ show_nat n @ '' changed across refreshes''
   | UnknownOldSegment n \<Rightarrow> ''refresh introduced unseen old segment '' @ show_nat n
   | SegmentAfterEndList n \<Rightarrow> ''segment '' @ show_nat n @ '' appeared after ENDLIST''
   | StaleEndList \<Rightarrow> ''ENDLIST came from a playlist older than the cursor''
   | MissingCredential \<Rightarrow> ''HLS master URL has no access credential''
   | MultipleCredentials \<Rightarrow> ''HLS master URL has multiple access credentials''
   | CredentialChanged \<Rightarrow> ''playlist URI replaces the route credential''
   | DurationOverflow \<Rightarrow> ''HLS timeline duration overflows'')"

section \<open>Resources\<close>

record resource =
  r_origin :: origin
  r_path :: string

fun percent_ok :: "string \<Rightarrow> bool" where
  "percent_ok [] = True"
| "percent_ok (c # cs) =
     (if c = CHR ''%''
      then (case cs of a # b # rest \<Rightarrow> is_hexdigit a \<and> is_hexdigit b \<and> percent_ok rest | _ \<Rightarrow> False)
      else percent_ok cs)"

definition uri_byte_ok :: "char \<Rightarrow> bool" where
  "uri_byte_ok c = (is_ascii c \<and> \<not> is_control c \<and> \<not> is_ascii_space c)"

definition validate_uri_text :: "string \<Rightarrow> unit outcome" where
  "validate_uri_text uri =
     require (CHR ''#'' \<notin> set uri) (InvalidUri ''fragments are unsupported'')
      (require (CHR 0x5C \<notin> set uri) (InvalidUri ''backslash in URI'')
       (require (list_all uri_byte_ok uri) (InvalidUri ''non-ASCII or whitespace byte'')
        (require (percent_ok uri) (InvalidUri ''malformed percent escape'') (Value ()))))"

text \<open>The component loop: the stack of kept components, in order.\<close>

fun normalize_components :: "bool \<Rightarrow> string list \<Rightarrow> string list \<Rightarrow> string list outcome" where
  "normalize_components is_root kept [] = Value kept"
| "normalize_components is_root kept (w # ws) =
     (if w = [] then
        (if is_root then normalize_components is_root kept ws
         else Raise (InvalidUri ''empty path component''))
      else if w = ''.'' then normalize_components is_root kept ws
      else if w = ''..'' then
        (if kept = [] then Raise (InvalidUri ''path escapes origin root'')
         else normalize_components is_root (butlast kept) ws)
      else normalize_components is_root (kept @ [w]) ws)"

definition normalize_absolute_path :: "string \<Rightarrow> string outcome" where
  "normalize_absolute_path path =
     and_then (validate_uri_text path) (\<lambda>_.
     require (starts_with ''/'' path \<and> \<not> starts_with ''//'' path) (InvalidUri ''path is not origin-relative'')
     (let (raw_path, query) = (case split_once CHR ''?'' path of
            None \<Rightarrow> (path, None) | Some (p, q) \<Rightarrow> (p, Some q))
      in require (raw_path \<noteq> []) (InvalidUri ''URI has no path'')
         (and_then (normalize_components (raw_path = ''/'') [] (split_on CHR ''/'' (tl raw_path)))
           (\<lambda>components.
             let normalized = (if components = [] then ''/'' else CHR ''/'' # join_with CHR ''/'' components)
             in case query of None \<Rightarrow> Value normalized
                | Some q \<Rightarrow> require (q \<noteq> []) (InvalidUri ''empty query'') (Value (normalized @ ''?'' @ q))))))"

definition resource_new :: "origin \<Rightarrow> string \<Rightarrow> resource outcome" where
  "resource_new orig path =
     and_then (normalize_absolute_path path) (\<lambda>p. Value \<lparr>r_origin = orig, r_path = p\<rparr>)"

text \<open>What \<open>Debug\<close> prints of the path of a resource.\<close>

definition resource_debug_path :: "resource \<Rightarrow> string" where
  "resource_debug_path r =
     (case split_once CHR ''?'' (r_path r) of Some (p, _) \<Rightarrow> p @ ''?<query>'' | None \<Rightarrow> r_path r)"

definition path_without_query :: "string \<Rightarrow> string" where
  "path_without_query path = (case split_once CHR ''?'' path of None \<Rightarrow> path | Some (p, _) \<Rightarrow> p)"

definition is_alpha :: "char \<Rightarrow> bool" where
  "is_alpha c = (is_upper c \<or> is_lower c)"

definition has_scheme :: "string \<Rightarrow> bool" where
  "has_scheme uri =
     (case position (\<lambda>c. c = CHR '':'') uri of None \<Rightarrow> False
      | Some colon \<Rightarrow>
          let first_delimiter = unwrap_or (position (\<lambda>c. c = CHR ''/'' \<or> c = CHR ''?'') uri) (length uri)
          in if colon > first_delimiter \<or> colon = 0 then False
             else let s = take colon uri
                  in is_alpha (s ! 0) \<and>
                     list_all (\<lambda>c. is_alpha c \<or> is_digit c \<or> c \<in> {CHR ''+'', CHR ''-'', CHR ''.''}) s)"

text \<open>\<open>base_path[..=slash]\<close> for the last slash.\<close>

definition directory_of :: "string \<Rightarrow> string option" where
  "directory_of path =
     (if CHR ''/'' \<in> set path then Some (rev (dropWhile (\<lambda>c. c \<noteq> CHR ''/'') (rev path))) else None)"

definition resolve :: "resource \<Rightarrow> string \<Rightarrow> resource outcome" where
  "resolve base reference =
     and_then (validate_uri_text reference) (\<lambda>_.
     if reference = [] \<or> starts_with ''?'' reference then Raise (InvalidUri ''URI has no path'')
     else if starts_with ''//'' reference then Raise CrossOrigin
     else if has_scheme reference then
       (if \<not> (starts_with ''http://'' reference \<or> starts_with ''https://'' reference)
        then Raise (InvalidUri ''unsupported URI scheme'')
        else and_then (ok_or (origin_parse reference) (InvalidUri ''malformed absolute URI'')) (\<lambda>child_origin.
          if child_origin \<noteq> r_origin base then Raise CrossOrigin
          else let path = snd (origin_split reference)
               in resource_new child_origin (if path = [] then ''/'' else path)))
     else if starts_with ''/'' reference then resource_new (r_origin base) reference
     else and_then (ok_or (directory_of (path_without_query (r_path base)))
            (InvalidUri ''base URI has no directory''))
          (\<lambda>dir. resource_new (r_origin base) (dir @ reference)))"

section \<open>The inherited credential\<close>

record inherited_auth =
  token_pair :: string

definition is_token_name :: "string \<Rightarrow> bool" where
  "is_token_name name = (eq_ignore_case name ''api_key'' \<or> eq_ignore_case name ''X-Plex-Token'')"

definition is_token_pair :: "string \<Rightarrow> bool" where
  "is_token_pair pair = (case split_once CHR ''='' pair of None \<Rightarrow> False | Some (name, _) \<Rightarrow> is_token_name name)"

definition capture :: "resource \<Rightarrow> inherited_auth outcome" where
  "capture master =
     and_then (ok_or (map_option snd (split_once CHR ''?'' (r_path master))) MissingCredential) (\<lambda>query.
     (case filter is_token_pair (split_on CHR ''&'' query) of
        [] \<Rightarrow> Raise MissingCredential
      | pair # found \<Rightarrow>
          if (case split_once CHR ''='' pair of None \<Rightarrow> False | Some (_, v) \<Rightarrow> v \<noteq> [])
          then (if found \<noteq> [] then Raise MultipleCredentials else Value \<lparr>token_pair = pair\<rparr>)
          else Raise MissingCredential))"

definition request_path :: "inherited_auth \<Rightarrow> resource \<Rightarrow> string outcome" where
  "request_path auth r =
     (let appended = Value (r_path r @ [if CHR ''?'' \<in> set (r_path r) then CHR ''&'' else CHR ''?''] @ token_pair auth)
      in case split_once CHR ''?'' (r_path r) of
           None \<Rightarrow> appended
         | Some (_, query) \<Rightarrow>
             (case filter is_token_pair (split_on CHR ''&'' query) of
                [] \<Rightarrow> appended
              | pair # found \<Rightarrow>
                  if pair \<noteq> token_pair auth then Raise CredentialChanged
                  else if found \<noteq> [] then Raise MultipleCredentials
                  else Value (r_path r)))"

definition from_request_path :: "origin \<Rightarrow> string \<Rightarrow> resource outcome" where
  "from_request_path orig req =
     (let path = (case split_once CHR ''?'' req of
            None \<Rightarrow> req
          | Some (p, query) \<Rightarrow>
              let kept = filter (\<lambda>pair. \<not> is_token_pair pair) (split_on CHR ''&'' query)
              in if kept = [] then p else p @ ''?'' @ join_with CHR ''&'' kept)
      in resource_new orig path)"

section \<open>The content timeline\<close>

record segment_timeline =
  next_start_ns :: int

record segment_clock =
  base_ns :: int
  clock_next_start_ns :: int
  video_origin_ns :: "int option"
  audio_origin_ns :: "int option"

definition timeline_default :: segment_timeline where
  "timeline_default = \<lparr>next_start_ns = 0\<rparr>"

definition timeline_begin :: "segment_timeline \<Rightarrow> duration \<Rightarrow> segment_clock outcome" where
  "timeline_begin t d =
     and_then (ok_or (i64_of_nat d) DurationOverflow) (\<lambda>duration_ns.
     and_then (ok_or (checked_i64 (next_start_ns t + duration_ns)) DurationOverflow) (\<lambda>next_start.
     Value \<lparr>base_ns = next_start_ns t, clock_next_start_ns = next_start, video_origin_ns = None,
            audio_origin_ns = None\<rparr>))"

definition timeline_commit :: "segment_clock \<Rightarrow> segment_timeline \<Rightarrow> segment_timeline" where
  "timeline_commit clock t = t\<lparr>next_start_ns := clock_next_start_ns clock\<rparr>"

definition timeline_end_ns :: "segment_timeline \<Rightarrow> int" where
  "timeline_end_ns t = next_start_ns t"

definition clock_end :: "segment_clock \<Rightarrow> media_time_ms" where
  "clock_end c = trunc_div (clock_next_start_ns c) 1000000"

definition normalize_from :: "int \<Rightarrow> int option \<Rightarrow> int \<Rightarrow> int option \<times> media_time_ms" where
  "normalize_from base first raw_ns =
     (let start = unwrap_or first raw_ns;
          relative = max (sat_i64 (raw_ns - start)) 0
      in (Some start, trunc_div (sat_i64 (base + relative)) 1000000))"

definition normalize_video :: "segment_clock \<Rightarrow> int \<Rightarrow> segment_clock \<times> media_time_ms" where
  "normalize_video c raw_ns =
     (let (first, t) = normalize_from (base_ns c) (video_origin_ns c) raw_ns
      in (c\<lparr>video_origin_ns := first\<rparr>, t))"

definition normalize_audio :: "segment_clock \<Rightarrow> int \<Rightarrow> segment_clock \<times> media_time_ms" where
  "normalize_audio c raw_ns =
     (let (first, t) = normalize_from (base_ns c) (audio_origin_ns c) raw_ns
      in (c\<lparr>audio_origin_ns := first\<rparr>, t))"

end
