(* ===== verification/Playlist.thy ===== *)
theory Playlist
  imports Hls
begin

text \<open>
  The two playlist parsers of \<open>hls.rs\<close>: the lines of a playlist, the attribute and number forms, the
  master playlist and the media playlist. Each parser is a state record and one step per line, composed
  the way the source's loop composes them. Below the model: what an accepted playlist satisfies.
\<close>

section \<open>Lines and tags\<close>

definition malformed :: "nat \<Rightarrow> string \<Rightarrow> 'a outcome" where
  "malformed line reason = Raise (Malformed line reason)"

definition check_line :: "nat \<Rightarrow> string \<Rightarrow> string outcome" where
  "check_line line_no raw =
     (let line = unwrap_or (strip_suffix [CHR 0x0D] raw) raw
      in if CHR 0x0D \<in> set line \<or> CHR 0x00 \<in> set line
         then malformed line_no ''control character in line''
         else if \<not> is_trimmed line then malformed line_no ''leading or trailing whitespace''
         else Value line)"

fun number_lines :: "nat \<Rightarrow> string list \<Rightarrow> (nat \<times> string) list outcome" where
  "number_lines line_no [] = Value []"
| "number_lines line_no (raw # rest) =
     and_then (check_line line_no raw) (\<lambda>line.
     and_then (number_lines (line_no + 1) rest) (\<lambda>lines. Value ((line_no, line) # lines)))"

definition playlist_lines :: "string \<Rightarrow> (nat \<times> string) list outcome" where
  "playlist_lines text =
     and_then (number_lines 1 (split_on CHR 0x0A text)) (\<lambda>lines.
     if map_option snd (first_of lines) \<noteq> Some ''#EXTM3U'' then Raise MissingHeader else Value lines)"

definition tag_name :: "string \<Rightarrow> string" where
  "tag_name line = (case split_once CHR '':'' line of None \<Rightarrow> line | Some (name, _) \<Rightarrow> name)"

definition forbidden_feature :: "string \<Rightarrow> string option" where
  "forbidden_feature line =
     (let t = tag_name line
      in if t = ''#EXT-X-KEY'' \<or> t = ''#EXT-X-SESSION-KEY'' then Some ''encrypted segments''
         else if t = ''#EXT-X-BYTERANGE'' then Some ''byte-range segments''
         else if t = ''#EXT-X-MAP'' then Some ''fMP4 initialization map''
         else if t = ''#EXT-X-DISCONTINUITY'' \<or> t = ''#EXT-X-DISCONTINUITY-SEQUENCE''
         then Some ''discontinuities''
         else None)"

text \<open>A slot that is written at most once.\<close>

definition set_once :: "'a option \<Rightarrow> 'a \<Rightarrow> nat \<Rightarrow> string \<Rightarrow> 'a option outcome" where
  "set_once slot value line reason = (if slot \<noteq> None then malformed line reason else Value (Some value))"

section \<open>Numbers\<close>

definition parse_positive_u32 :: "string \<Rightarrow> nat \<Rightarrow> nat outcome" where
  "parse_positive_u32 value line =
     and_then (ok_or (parse_unsigned u32_max value) (Malformed line ''invalid version'')) (\<lambda>n.
     if n = 0 then malformed line ''version must be positive'' else Value n)"

definition parse_u64 :: "string \<Rightarrow> nat \<Rightarrow> string \<Rightarrow> nat outcome" where
  "parse_u64 value line reason =
     (if value = [] \<or> \<not> list_all is_digit value then malformed line reason
      else ok_or (parse_unsigned u64_max value) (Malformed line reason))"

definition parse_positive_u64 :: "string \<Rightarrow> nat \<Rightarrow> string \<Rightarrow> nat outcome" where
  "parse_positive_u64 value line reason =
     and_then (parse_u64 value line reason) (\<lambda>n. if n = 0 then malformed line reason else Value n)"

text \<open>The two decimal forms split their number at the first point.\<close>

definition decimal_parts :: "string \<Rightarrow> string \<times> string option" where
  "decimal_parts number =
     (case split_once CHR ''.'' number of Some (s, f) \<Rightarrow> (s, Some f) | None \<Rightarrow> (number, None))"

definition parse_extinf :: "string \<Rightarrow> nat \<Rightarrow> duration outcome" where
  "parse_extinf value line =
     and_then (ok_or (map_option fst (split_once CHR '','' value)) (Malformed line ''EXTINF has no comma''))
      (\<lambda>number.
     let (seconds, fraction) = decimal_parts number
     in if seconds = [] \<or> \<not> list_all is_digit seconds then malformed line ''invalid EXTINF duration''
        else and_then (ok_or (parse_unsigned u64_max seconds) (Malformed line ''EXTINF duration overflows''))
          (\<lambda>secs.
        and_then (case fraction of
            None \<Rightarrow> Value 0
          | Some f \<Rightarrow>
              if f = [] \<or> length f > 9 \<or> \<not> list_all is_digit f then malformed line ''invalid EXTINF fraction''
              else and_then (ok_or (parse_unsigned u32_max f) (Malformed line ''invalid EXTINF fraction''))
                (\<lambda>n. Value (n * 10 ^ (9 - length f))))
          (\<lambda>nanos.
        if secs = 0 \<and> nanos = 0 then malformed line ''zero EXTINF duration''
        else Value (secs * 1000000000 + nanos))))"

definition parse_signed_decimal_micros :: "string \<Rightarrow> nat \<Rightarrow> int outcome" where
  "parse_signed_decimal_micros text line =
     (let (negative, value) = (case strip_prefix ''-'' text of Some v \<Rightarrow> (True, v) | None \<Rightarrow> (False, text));
          (seconds, fraction) = decimal_parts value
      in if seconds = [] \<or> \<not> list_all is_digit seconds then malformed line ''invalid start time offset''
         else and_then (ok_or (parse_i64 seconds) (Malformed line ''start time offset overflows'')) (\<lambda>secs.
         and_then (ok_or (checked_i64 (secs * 1000000)) (Malformed line ''start time offset overflows''))
           (\<lambda>whole.
         and_then (case fraction of
             None \<Rightarrow> Value whole
           | Some f \<Rightarrow>
               if f = [] \<or> length f > 6 \<or> \<not> list_all is_digit f then malformed line ''invalid start time offset''
               else and_then (ok_or (parse_i64 f) (Malformed line ''invalid start time offset'')) (\<lambda>n.
                 ok_or (checked_i64 (whole + n * 10 ^ (6 - length f)))
                   (Malformed line ''start time offset overflows'')))
           (\<lambda>micros.
         if negative
         then ok_or (checked_i64 (- micros)) (Malformed line ''start time offset overflows'')
         else Value micros))))"

section \<open>The attribute list of a variant\<close>

text \<open>
  The items between the commas outside quotes, with the item being read so far; the flag tells whether
  the text ended inside quotes.
\<close>

fun attribute_items :: "bool \<Rightarrow> string \<Rightarrow> string \<Rightarrow> string list \<times> bool" where
  "attribute_items quoted cur [] = ([cur], quoted)"
| "attribute_items quoted cur (c # cs) =
     (if c = CHR 0x22 then attribute_items (\<not> quoted) (cur @ [c]) cs
      else if c = CHR '','' \<and> \<not> quoted
      then (let (items, q) = attribute_items quoted [] cs in (cur # items, q))
      else attribute_items quoted (cur @ [c]) cs)"

definition is_key_byte :: "char \<Rightarrow> bool" where
  "is_key_byte c = (is_upper c \<or> is_digit c \<or> c = CHR ''-'')"

fun variant_attributes ::
  "nat \<Rightarrow> string list \<Rightarrow> nat option \<Rightarrow> string list \<Rightarrow> nat option outcome" where
  "variant_attributes line keys bandwidth [] = Value bandwidth"
| "variant_attributes line keys bandwidth (item # items) =
     and_then (ok_or (split_once CHR ''='' item) (Malformed line ''variant attribute has no value''))
      (\<lambda>(key, raw_value).
     if key = [] \<or> \<not> list_all is_key_byte key \<or> raw_value = [] \<or> key \<in> set keys
     then malformed line ''invalid or duplicate variant attribute''
     else let quoted_value = starts_with [CHR 0x22] raw_value
       in if quoted_value \<and>
             (length raw_value < 2 \<or> \<not> ends_with [CHR 0x22] raw_value \<or>
              CHR 0x22 \<in> set (butlast (tl raw_value)))
          then malformed line ''malformed quoted variant attribute''
          else if \<not> quoted_value \<and> (CHR 0x22 \<in> set raw_value \<or> list_ex is_ascii_space raw_value)
          then malformed line ''malformed variant attribute value''
          else if key = ''BANDWIDTH''
          then (if quoted_value then malformed line ''bandwidth must be an integer''
                else and_then (parse_positive_u64 raw_value line ''invalid bandwidth'')
                  (\<lambda>b. variant_attributes line (keys @ [key]) (Some b) items))
          else variant_attributes line (keys @ [key]) bandwidth items)"

definition parse_variant_bandwidth :: "string \<Rightarrow> nat \<Rightarrow> nat outcome" where
  "parse_variant_bandwidth value line =
     (if value = [] then malformed line ''empty variant attribute list''
      else let (items, quoted) = attribute_items False [] value
        in if quoted then malformed line ''unterminated quoted variant attribute''
           else and_then (variant_attributes line [] None items) (\<lambda>bandwidth.
             ok_or bandwidth (Malformed line ''variant has no bandwidth'')))"

section \<open>The line loop\<close>

fun run_lines :: "('s \<Rightarrow> nat \<Rightarrow> string \<Rightarrow> 's outcome) \<Rightarrow> 's \<Rightarrow> (nat \<times> string) list \<Rightarrow> 's outcome" where
  "run_lines step st [] = Value st"
| "run_lines step st ((n, line) # rest) = and_then (step st n line) (\<lambda>st'. run_lines step st' rest)"

section \<open>The master playlist\<close>

record variant =
  v_resource :: resource
  v_bandwidth :: nat

record master_playlist =
  mp_source :: resource
  mp_version :: "nat option"
  mp_variant :: variant

record master_state =
  ms_version :: "nat option"
  ms_independent :: bool
  ms_bandwidth :: "nat option"
  ms_variant :: "variant option"

definition master_start :: master_state where
  "master_start = \<lparr>ms_version = None, ms_independent = False, ms_bandwidth = None, ms_variant = None\<rparr>"

definition master_tag :: "master_state \<Rightarrow> nat \<Rightarrow> string \<Rightarrow> master_state outcome" where
  "master_tag st n line =
     (if ms_bandwidth st \<noteq> None then malformed n ''variant URI must immediately follow EXT-X-STREAM-INF''
      else case strip_prefix ''#EXT-X-STREAM-INF:'' line of
        Some value \<Rightarrow>
          if ms_variant st \<noteq> None then Raise MultipleVariants
          else and_then (parse_variant_bandwidth value n) (\<lambda>b. Value (st\<lparr>ms_bandwidth := Some b\<rparr>))
      | None \<Rightarrow> (case strip_prefix ''#EXT-X-VERSION:'' line of
        Some value \<Rightarrow>
          and_then (parse_positive_u32 value n) (\<lambda>v.
          and_then (set_once (ms_version st) v n ''duplicate version'') (\<lambda>s. Value (st\<lparr>ms_version := s\<rparr>)))
      | None \<Rightarrow>
          if line = ''#EXT-X-INDEPENDENT-SEGMENTS'' then
            (if ms_independent st then malformed n ''duplicate independent-segments tag''
             else Value (st\<lparr>ms_independent := True\<rparr>))
          else (case strip_prefix ''#EXT-X-ALLOW-CACHE:'' line of
        Some value \<Rightarrow>
          if value \<noteq> ''YES'' \<and> value \<noteq> ''NO'' then malformed n ''invalid allow-cache value'' else Value st
      | None \<Rightarrow>
          if line = ''#EXTM3U'' then malformed n ''duplicate header''
          else (case forbidden_feature line of
        Some feature \<Rightarrow> Raise (UnsupportedFeature feature)
      | None \<Rightarrow> if starts_with ''#EXT'' line then Raise (UnsupportedTag (tag_name line)) else Value st))))"

definition master_uri :: "resource \<Rightarrow> master_state \<Rightarrow> nat \<Rightarrow> string \<Rightarrow> master_state outcome" where
  "master_uri src st n line =
     and_then (ok_or (ms_bandwidth st) (Malformed n ''URI has no EXT-X-STREAM-INF'')) (\<lambda>bandwidth.
     if ms_variant st \<noteq> None then Raise MultipleVariants
     else and_then (resolve src line) (\<lambda>res.
       if \<not> ends_with ''.m3u8'' (path_without_query (r_path res)) then Raise ChildIsNotPlaylist
       else Value (st\<lparr>ms_bandwidth := None,
                      ms_variant := Some \<lparr>v_resource = res, v_bandwidth = bandwidth\<rparr>\<rparr>)))"

definition master_line :: "resource \<Rightarrow> master_state \<Rightarrow> nat \<Rightarrow> string \<Rightarrow> master_state outcome" where
  "master_line src st n line =
     (if line = [] then
        (if ms_bandwidth st \<noteq> None
         then malformed n ''variant URI must immediately follow EXT-X-STREAM-INF'' else Value st)
      else if starts_with ''#'' line then master_tag st n line
      else master_uri src st n line)"

definition parse_master :: "resource \<Rightarrow> string \<Rightarrow> master_playlist outcome" where
  "parse_master src text =
     and_then (playlist_lines text) (\<lambda>lines.
     and_then (run_lines (master_line src) master_start (drop 1 lines)) (\<lambda>st.
     if ms_bandwidth st \<noteq> None then Raise (Malformed 0 ''EXT-X-STREAM-INF has no URI'')
     else and_then (ok_or (ms_variant st) MissingVariant) (\<lambda>v.
       Value \<lparr>mp_source = src, mp_version = ms_version st, mp_variant = v\<rparr>)))"

section \<open>The media playlist\<close>

datatype playlist_type = Event | Vod

record segment =
  sg_sequence :: nat
  sg_duration :: duration
  sg_resource :: resource

record media_playlist =
  pl_source :: resource
  pl_version :: "nat option"
  pl_target_duration_secs :: nat
  pl_start_offset_micros :: "int option"
  pl_media_sequence :: nat
  pl_playlist_type :: "playlist_type option"
  pl_segments :: "segment list"
  pl_end_list :: bool

record media_state =
  md_version :: "nat option"
  md_target :: "nat option"
  md_start :: "int option"
  md_sequence :: "nat option"
  md_type :: "playlist_type option"
  md_independent :: bool
  md_duration :: "duration option"
  md_program_time :: bool
  md_segments :: "segment list"
  md_end_list :: bool

definition media_start :: media_state where
  "media_start = \<lparr>md_version = None, md_target = None, md_start = None, md_sequence = None, md_type = None,
     md_independent = False, md_duration = None, md_program_time = False, md_segments = [],
     md_end_list = False\<rparr>"

definition parse_playlist_type :: "string \<Rightarrow> nat \<Rightarrow> playlist_type outcome" where
  "parse_playlist_type value n =
     (if value = ''EVENT'' then Value Event else if value = ''VOD'' then Value Vod
      else malformed n ''invalid playlist type'')"

text \<open>The tags that may stand anywhere before the first segment, each of them once.\<close>

definition media_header_tag :: "media_state \<Rightarrow> nat \<Rightarrow> string \<Rightarrow> media_state outcome option" where
  "media_header_tag st n line =
     (case strip_prefix ''#EXT-X-VERSION:'' line of
        Some value \<Rightarrow> Some (
          and_then (parse_positive_u32 value n) (\<lambda>v.
          and_then (set_once (md_version st) v n ''duplicate version'') (\<lambda>s. Value (st\<lparr>md_version := s\<rparr>))))
      | None \<Rightarrow> (case strip_prefix ''#EXT-X-TARGETDURATION:'' line of
        Some value \<Rightarrow> Some (
          and_then (parse_positive_u64 value n ''invalid target duration'') (\<lambda>v.
          and_then (set_once (md_target st) v n ''duplicate target duration'') (\<lambda>s.
          Value (st\<lparr>md_target := s\<rparr>))))
      | None \<Rightarrow> (case strip_prefix ''#EXT-X-START:'' line of
        Some value \<Rightarrow> Some (
          and_then (ok_or (strip_prefix ''TIME-OFFSET='' value) (Malformed n ''invalid start attributes''))
            (\<lambda>offset.
          and_then (parse_signed_decimal_micros offset n) (\<lambda>v.
          and_then (set_once (md_start st) v n ''duplicate start tag'') (\<lambda>s. Value (st\<lparr>md_start := s\<rparr>)))))
      | None \<Rightarrow> (case strip_prefix ''#EXT-X-MEDIA-SEQUENCE:'' line of
        Some value \<Rightarrow> Some (
          and_then (parse_u64 value n ''invalid media sequence'') (\<lambda>v.
          and_then (set_once (md_sequence st) v n ''duplicate media sequence'') (\<lambda>s.
          Value (st\<lparr>md_sequence := s\<rparr>))))
      | None \<Rightarrow> (case strip_prefix ''#EXT-X-PLAYLIST-TYPE:'' line of
        Some value \<Rightarrow> Some (
          and_then (parse_playlist_type value n) (\<lambda>v.
          and_then (set_once (md_type st) v n ''duplicate playlist type'') (\<lambda>s. Value (st\<lparr>md_type := s\<rparr>))))
      | None \<Rightarrow> None)))))"

definition media_segment_tag :: "media_state \<Rightarrow> nat \<Rightarrow> string \<Rightarrow> media_state outcome" where
  "media_segment_tag st n line =
     (case strip_prefix ''#EXT-X-PROGRAM-DATE-TIME:'' line of
        Some value \<Rightarrow>
          if value = [] \<or> list_ex (\<lambda>c. is_ascii_space c \<or> is_control c) value
          then malformed n ''invalid program date-time''
          else if md_program_time st then malformed n ''two program date-times precede one segment''
          else Value (st\<lparr>md_program_time := True\<rparr>)
      | None \<Rightarrow> (case strip_prefix ''#EXTINF:'' line of
        Some value \<Rightarrow>
          if md_target st = None \<or> md_sequence st = None
          then malformed n ''target duration and media sequence must precede segments''
          else and_then (parse_extinf value n) (\<lambda>d. Value (st\<lparr>md_duration := Some d\<rparr>))
      | None \<Rightarrow>
          if line = ''#EXT-X-INDEPENDENT-SEGMENTS'' then
            (if md_independent st then malformed n ''duplicate independent-segments tag''
             else Value (st\<lparr>md_independent := True\<rparr>))
          else (case strip_prefix ''#EXT-X-ALLOW-CACHE:'' line of
        Some value \<Rightarrow>
          if value \<noteq> ''YES'' \<and> value \<noteq> ''NO'' then malformed n ''invalid allow-cache value'' else Value st
      | None \<Rightarrow>
          if line = ''#EXT-X-ENDLIST'' then
            (if md_program_time st then malformed n ''program date-time has no segment''
             else Value (st\<lparr>md_end_list := True\<rparr>))
          else if line = ''#EXTM3U'' then malformed n ''duplicate header''
          else (case forbidden_feature line of
        Some feature \<Rightarrow> Raise (UnsupportedFeature feature)
      | None \<Rightarrow> if starts_with ''#EXT'' line then Raise (UnsupportedTag (tag_name line)) else Value st))))"

definition media_tag :: "media_state \<Rightarrow> nat \<Rightarrow> string \<Rightarrow> media_state outcome" where
  "media_tag st n line =
     (if md_duration st \<noteq> None then malformed n ''segment URI must immediately follow EXTINF''
      else case media_header_tag st n line of Some r \<Rightarrow> r | None \<Rightarrow> media_segment_tag st n line)"

definition media_uri :: "resource \<Rightarrow> media_state \<Rightarrow> nat \<Rightarrow> string \<Rightarrow> media_state outcome" where
  "media_uri src st n line =
     and_then (ok_or (md_duration st) (Malformed n ''segment URI has no EXTINF'')) (\<lambda>d.
     and_then (expect (md_sequence st)) (\<lambda>first.
     and_then (ok_or (checked_nat u64_max (first + length (md_segments st))) SequenceOverflow) (\<lambda>sequence.
     and_then (resolve src line) (\<lambda>res.
     if \<not> ends_with ''.ts'' (to_lower (path_without_query (r_path res))) then Raise SegmentIsNotMpegTs
     else Value (st\<lparr>md_duration := None,
       md_segments := md_segments st @ [\<lparr>sg_sequence = sequence, sg_duration = d, sg_resource = res\<rparr>],
       md_program_time := False\<rparr>)))))"

definition media_line :: "resource \<Rightarrow> media_state \<Rightarrow> nat \<Rightarrow> string \<Rightarrow> media_state outcome" where
  "media_line src st n line =
     (if line = [] then
        (if md_duration st \<noteq> None then malformed n ''segment URI must immediately follow EXTINF''
         else Value st)
      else if md_end_list st then
        (if starts_with ''#'' line \<and> \<not> starts_with ''#EXT'' line then Value st
         else malformed n ''content follows EXT-X-ENDLIST'')
      else if starts_with ''#'' line then media_tag st n line
      else media_uri src st n line)"

definition media_finish :: "resource \<Rightarrow> media_state \<Rightarrow> media_playlist outcome" where
  "media_finish src st =
     (if md_duration st \<noteq> None then Raise (Malformed 0 ''EXTINF has no segment URI'')
      else if md_program_time st then Raise (Malformed 0 ''program date-time has no segment'')
      else and_then (ok_or (md_target st) MissingTargetDuration) (\<lambda>target.
        and_then (ok_or (md_sequence st) MissingMediaSequence) (\<lambda>first.
        and_then (ok_or (checked_nat u64_max (first + length (md_segments st))) SequenceOverflow) (\<lambda>_.
        Value \<lparr>pl_source = src, pl_version = md_version st, pl_target_duration_secs = target,
          pl_start_offset_micros = md_start st, pl_media_sequence = first, pl_playlist_type = md_type st,
          pl_segments = md_segments st, pl_end_list = md_end_list st\<rparr>))))"

definition parse_media :: "resource \<Rightarrow> string \<Rightarrow> media_playlist outcome" where
  "parse_media src text =
     and_then (playlist_lines text) (\<lambda>lines.
     and_then (run_lines (media_line src) media_start (drop 1 lines)) (media_finish src))"

text \<open>The reads of an accepted media playlist.\<close>

definition duration_checked_add :: "duration \<Rightarrow> duration \<Rightarrow> duration option" where
  "duration_checked_add a b = checked_nat duration_max (a + b)"

definition total_duration :: "media_playlist \<Rightarrow> duration outcome" where
  "total_duration p =
     foldl (\<lambda>acc s. and_then acc (\<lambda>t. ok_or (duration_checked_add t (sg_duration s)) DurationOverflow))
       (Value 0) (pl_segments p)"

fun start_search :: "nat \<Rightarrow> nat \<Rightarrow> nat \<Rightarrow> duration list \<Rightarrow> nat outcome" where
  "start_search target elapsed idx [] = Value idx"
| "start_search target elapsed idx (d # ds) =
     and_then (ok_or (checked_nat u128_max (elapsed + d)) DurationOverflow) (\<lambda>e.
     if e > target then Value idx else start_search target e (idx + 1) ds)"

definition preferred_start_index :: "media_playlist \<Rightarrow> nat outcome" where
  "preferred_start_index p =
     (case pl_start_offset_micros p of
        None \<Rightarrow> Value 0
      | Some offset \<Rightarrow>
          and_then (total_duration p) (\<lambda>total_ns.
          let magnitude_ns = sat_mul u128_max (nat \<bar>offset\<bar>) 1000;
              target_ns = (if offset < 0 then total_ns - magnitude_ns else min magnitude_ns total_ns)
          in start_search target_ns 0 0 (map sg_duration (pl_segments p))))"

end
