(* ===== verification/Hls_Correct.thy ===== *)
theory Hls_Correct
  imports Hls
begin

text \<open>
  What the resources, the inherited credential and the content timeline of \<open>hls.rs\<close> guarantee: every
  reference a playlist may make stays on its origin and below its root, a request carries exactly the
  route's credential and a resource never does, and segment clocks add up exactly.
\<close>

section \<open>Outcomes\<close>

named_theorems outcome_simps \<open>when a composed outcome is a value, an error or a panic\<close>

lemma and_then_Value [outcome_simps]: "and_then x f = Value b \<longleftrightarrow> (\<exists>a. x = Value a \<and> f a = Value b)"
  by (cases x) simp_all

lemma and_then_Panic [outcome_simps]: "and_then x f = Panic \<longleftrightarrow> x = Panic \<or> (\<exists>a. x = Value a \<and> f a = Panic)"
  by (cases x) simp_all

lemma ok_or_Value [outcome_simps]: "ok_or a e = Value x \<longleftrightarrow> a = Some x"
  by (simp add: ok_or_def split: option.splits)

lemma ok_or_no_Panic [outcome_simps]: "ok_or a e \<noteq> Panic"
  by (simp add: ok_or_def split: option.splits)

lemma expect_Value [outcome_simps]: "expect a = Value x \<longleftrightarrow> a = Some x"
  by (simp add: expect_def split: option.splits)

lemma expect_Panic [outcome_simps]: "expect a = Panic \<longleftrightarrow> a = None"
  by (simp add: expect_def split: option.splits)

lemma require_Value [outcome_simps]: "require ok e rest = Value x \<longleftrightarrow> ok \<and> rest = Value x"
  by (simp add: require_def)

lemma require_Panic [outcome_simps]: "require ok e rest = Panic \<longleftrightarrow> ok \<and> rest = Panic"
  by (simp add: require_def)

section \<open>URI text\<close>

definition uri_text_ok :: "string \<Rightarrow> bool" where
  "uri_text_ok s =
     (CHR ''#'' \<notin> set s \<and> CHR 0x5C \<notin> set s \<and> list_all uri_byte_ok s \<and> percent_ok s)"

lemma validate_Value: "validate_uri_text s = Value u \<longleftrightarrow> uri_text_ok s"
  by (simp add: validate_uri_text_def uri_text_ok_def outcome_simps)

lemma validate_no_Panic: "validate_uri_text s \<noteq> Panic"
  by (simp add: validate_uri_text_def outcome_simps)

lemma percent_ok_append:
  assumes "x \<noteq> CHR ''%''" and "\<not> is_hexdigit x"
  shows "percent_ok (a @ x # b) \<longleftrightarrow> percent_ok a \<and> percent_ok b"
proof (induction a rule: percent_ok.induct)
  case 1
  then show ?case using assms by simp
next
  case (2 c cs)
  show ?case
  proof (cases "c = CHR ''%''")
    case True
    show ?thesis
    proof (cases cs)
      case Nil
      then show ?thesis using True assms by (cases b) simp_all
    next
      case (Cons d ds)
      then show ?thesis using True assms 2(1) by (cases ds) simp_all
    qed
  next
    case False
    then show ?thesis using 2(2) by simp
  qed
qed

lemma separators_plain:
  "\<not> is_hexdigit CHR ''/''" "\<not> is_hexdigit CHR ''?''" "\<not> is_hexdigit CHR ''&''"
  by (simp_all add: is_hexdigit_def is_digit_def byte_of_def)

lemma separators_ok: "uri_byte_ok CHR ''/''" "uri_byte_ok CHR ''?''" "uri_byte_ok CHR ''&''"
  by (simp_all add: uri_byte_ok_def is_ascii_def is_control_def is_ascii_space_def byte_of_def)

lemma uri_text_ok_append:
  "x \<in> {CHR ''/'', CHR ''?'', CHR ''&''} \<Longrightarrow>
   uri_text_ok (a @ x # b) \<longleftrightarrow> uri_text_ok a \<and> uri_text_ok b"
  using percent_ok_append [of x a b] separators_plain separators_ok by (auto simp: uri_text_ok_def)

lemma uri_text_ok_Nil [simp]: "uri_text_ok []"
  by (simp add: uri_text_ok_def)

lemma uri_text_ok_join:
  "x \<in> {CHR ''/'', CHR ''?'', CHR ''&''} \<Longrightarrow>
   uri_text_ok (join_with x ws) \<longleftrightarrow> list_all uri_text_ok ws"
  by (induction x ws rule: join_with.induct) (simp_all add: uri_text_ok_append)

lemma uri_text_ok_split:
  assumes "x \<in> {CHR ''/'', CHR ''?'', CHR ''&''}"
  shows "list_all uri_text_ok (split_on x s) \<longleftrightarrow> uri_text_ok s"
  using uri_text_ok_join [OF assms, of "split_on x s"] by simp

section \<open>Canonical paths\<close>

text \<open>
  An absolute path whose components are neither empty nor \<open>.\<close> nor \<open>..\<close>, or the root, with an optional
  non-empty query.
\<close>

definition plain_component :: "string \<Rightarrow> bool" where
  "plain_component w =
     (w \<noteq> [] \<and> w \<noteq> ''.'' \<and> w \<noteq> ''..'' \<and> CHR ''/'' \<notin> set w \<and> CHR ''?'' \<notin> set w \<and> uri_text_ok w)"

definition absolute :: "string list \<Rightarrow> string" where
  "absolute ws = CHR ''/'' # join_with CHR ''/'' ws"

definition with_query :: "string \<Rightarrow> string option \<Rightarrow> string" where
  "with_query path query = (case query of None \<Rightarrow> path | Some q \<Rightarrow> path @ ''?'' @ q)"

definition canonical_path :: "string \<Rightarrow> bool" where
  "canonical_path p = (\<exists>ws query. p = with_query (absolute ws) query \<and> list_all plain_component ws \<and>
     opt_all (\<lambda>q. q \<noteq> [] \<and> uri_text_ok q) query)"

lemma normalize_components_Value:
  assumes "normalize_components is_root kept ws = Value ws'" and "list_all plain_component kept"
    and "list_all (\<lambda>w. CHR ''/'' \<notin> set w \<and> CHR ''?'' \<notin> set w \<and> uri_text_ok w) ws"
  shows "list_all plain_component ws'"
  using assms
proof (induction is_root kept ws rule: normalize_components.induct)
  case (2 is_root kept w ws)
  have "list_all plain_component (butlast kept)"
    using "2.prems"(2) by (auto simp: list_all_iff dest: in_set_butlastD)
  moreover have "plain_component w" if "w \<noteq> []" "w \<noteq> ''.''" "w \<noteq> ''..''"
    using "2.prems"(3) that by (simp add: plain_component_def)
  ultimately show ?case using 2 by (auto split: if_splits)
qed simp

lemma normalize_components_no_Panic: "normalize_components is_root kept ws \<noteq> Panic"
  by (induction is_root kept ws rule: normalize_components.induct) simp_all

lemma normalize_components_plain:
  "list_all plain_component ws \<Longrightarrow> normalize_components is_root kept ws = Value (kept @ ws)"
  by (induction is_root kept ws rule: normalize_components.induct) (auto simp: plain_component_def)

lemma with_query_split:
  "CHR ''?'' \<notin> set path \<Longrightarrow>
   split_once CHR ''?'' (with_query path query) = map_option (\<lambda>q. (path, q)) query"
  by (cases query) (simp_all add: with_query_def split_once_None_iff)

lemma absolute_no_query: "list_all plain_component ws \<Longrightarrow> CHR ''?'' \<notin> set (absolute ws)"
  using join_with_chars [of "CHR ''/''" ws] by (fastforce simp: absolute_def plain_component_def list_all_iff)

lemma absolute_path_text:
  "list_all plain_component ws \<Longrightarrow> uri_text_ok (absolute ws)"
proof -
  assume "list_all plain_component ws"
  then have "list_all uri_text_ok ws" by (auto simp: list_all_iff plain_component_def)
  then show ?thesis
    using uri_text_ok_append [of "CHR ''/''" "[]" "join_with CHR ''/'' ws"]
    by (simp add: absolute_def uri_text_ok_join)
qed

lemma with_query_text:
  "uri_text_ok (with_query path query) \<longleftrightarrow> uri_text_ok path \<and> opt_all uri_text_ok query"
  by (cases query) (simp_all add: with_query_def uri_text_ok_append)

lemma absolute_head:
  assumes "list_all plain_component ws"
  shows "starts_with ''/'' (with_query (absolute ws) query)"
    and "\<not> starts_with ''//'' (with_query (absolute ws) query)"
proof -
  show "starts_with ''/'' (with_query (absolute ws) query)"
    by (cases query) (simp_all add: starts_with_iff absolute_def with_query_def)
  show "\<not> starts_with ''//'' (with_query (absolute ws) query)"
  proof (cases ws)
    case Nil
    then show ?thesis by (cases query) (simp_all add: starts_with_iff absolute_def with_query_def)
  next
    case (Cons w rest)
    with assms obtain c cs where "w = c # cs" "c \<noteq> CHR ''/''"
      by (cases w) (auto simp: plain_component_def)
    then show ?thesis
      using Cons by (cases rest; cases query) (simp_all add: starts_with_iff absolute_def with_query_def)
  qed
qed

lemma absolute_split:
  assumes "list_all plain_component ws"
  shows "split_on CHR ''/'' (tl (absolute ws)) = (if ws = [] then [[]] else ws)"
    and "absolute ws = ''/'' \<longleftrightarrow> ws = []"
proof -
  have "\<forall>w \<in> set ws. CHR ''/'' \<notin> set w" using assms by (auto simp: list_all_iff plain_component_def)
  then show "split_on CHR ''/'' (tl (absolute ws)) = (if ws = [] then [[]] else ws)"
    by (simp add: absolute_def split_join)
  show "absolute ws = ''/'' \<longleftrightarrow> ws = []"
  proof (cases ws)
    case (Cons w rest)
    then have "w \<noteq> []" using assms by (simp add: plain_component_def)
    then show ?thesis using Cons by (cases rest) (simp_all add: absolute_def)
  qed (simp add: absolute_def)
qed

text \<open>A canonical path is a fixed point of the normalization, and every result is canonical.\<close>

lemma normalize_canonical:
  assumes "canonical_path p"
  shows "normalize_absolute_path p = Value p"
proof -
  from assms obtain ws query where p: "p = with_query (absolute ws) query"
    and ws: "list_all plain_component ws" and q: "opt_all (\<lambda>q. q \<noteq> [] \<and> uri_text_ok q) query"
    unfolding canonical_path_def by blast
  have "opt_all uri_text_ok query" using q by (cases query) simp_all
  then have "uri_text_ok p" using ws by (simp add: p with_query_text absolute_path_text)
  then have v: "validate_uri_text p = Value ()" using validate_Value [of p "()"] by simp
  have split: "split_once CHR ''?'' p = map_option (\<lambda>q. (absolute ws, q)) query"
    unfolding p by (rule with_query_split) (rule absolute_no_query [OF ws])
  have comps: "normalize_components (absolute ws = ''/'') [] (split_on CHR ''/'' (tl (absolute ws))) = Value ws"
    using normalize_components_plain [OF ws] absolute_split [OF ws] by (cases "ws = []") simp_all
  have recompose: "(if ws = [] then ''/'' else CHR ''/'' # join_with CHR ''/'' ws) = absolute ws"
    by (simp add: absolute_def)
  have ne: "absolute ws \<noteq> []" by (simp add: absolute_def)
  show ?thesis
    using absolute_head [OF ws, of query] comps recompose q ne v split
    by (cases query) (simp_all add: normalize_absolute_path_def require_def p with_query_def)
qed

lemma split_once_str_parts:
  "(case split_once x path of None \<Rightarrow> (path, None) | Some (p, q) \<Rightarrow> (p, Some q)) = (a, b) \<Longrightarrow>
   path = (case b of None \<Rightarrow> a | Some q \<Rightarrow> a @ x # q) \<and> x \<notin> set a"
  by (auto simp: split_once_iff split_once_None_iff split: option.splits)

lemma normalize_result_canonical:
  assumes "normalize_absolute_path path = Value p"
  shows "canonical_path p"
proof -
  obtain raw query where parts:
    "(case split_once CHR ''?'' path of None \<Rightarrow> (path, None) | Some (p, q) \<Rightarrow> (p, Some q)) = (raw, query)"
    by fastforce
  note split = split_once_str_parts [OF parts]
  from assms obtain ws where okay: "uri_text_ok path" and slash: "starts_with ''/'' path"
    and ne: "raw \<noteq> []"
    and ws: "normalize_components (raw = ''/'') [] (split_on CHR ''/'' (tl raw)) = Value ws"
    and p: "p = with_query (absolute ws) query" and q: "opt_all (\<lambda>q. q \<noteq> []) query"
    by (cases query)
       (auto simp: normalize_absolute_path_def parts outcome_simps validate_Value with_query_def absolute_def
        split: if_splits)
  have path: "path = with_query raw query" using split by (cases query) (simp_all add: with_query_def)
  have texts: "uri_text_ok raw" "opt_all uri_text_ok query"
    using okay by (simp_all add: path with_query_text)
  obtain c cs where raw: "raw = c # cs" using ne by (cases raw) auto
  have "c = CHR ''/''" using slash raw path by (cases query) (simp_all add: starts_with_iff with_query_def)
  then have "uri_text_ok cs"
    using texts(1) uri_text_ok_append [of "CHR ''/''" "[]" cs] by (simp add: raw)
  then have "list_all uri_text_ok (split_on CHR ''/'' cs)" by (simp add: uri_text_ok_split)
  moreover have "CHR ''?'' \<notin> set w" if "w \<in> set (split_on CHR ''/'' cs)" for w
    using split_on_chars [OF that] split raw by auto
  ultimately have "list_all (\<lambda>w. CHR ''/'' \<notin> set w \<and> CHR ''?'' \<notin> set w \<and> uri_text_ok w) (split_on CHR ''/'' cs)"
    using split_on_no_sep by (auto simp: list_all_iff)
  with ws raw have "list_all plain_component ws" by (auto intro: normalize_components_Value)
  moreover have "opt_all (\<lambda>q. q \<noteq> [] \<and> uri_text_ok q) query"
    using q texts(2) by (cases query) simp_all
  ultimately show ?thesis unfolding canonical_path_def p by blast
qed

lemma canonical_path_iff: "canonical_path p \<longleftrightarrow> normalize_absolute_path p = Value p"
  using normalize_canonical normalize_result_canonical by blast

lemma normalize_no_Panic: "normalize_absolute_path p \<noteq> Panic"
  by (auto simp: normalize_absolute_path_def Let_def outcome_simps validate_no_Panic
      normalize_components_no_Panic split: option.splits prod.splits)

lemma resource_new_Value:
  "resource_new orig path = Value r \<Longrightarrow> r_origin r = orig \<and> canonical_path (r_path r)"
  using normalize_result_canonical by (auto simp: resource_new_def outcome_simps)

lemma resource_new_no_Panic: "resource_new orig path \<noteq> Panic"
  by (simp add: resource_new_def outcome_simps normalize_no_Panic)

lemma resource_new_canonical:
  "canonical_path p \<Longrightarrow> resource_new orig p = Value \<lparr>r_origin = orig, r_path = p\<rparr>"
  by (simp add: resource_new_def normalize_canonical)

section \<open>Resolution\<close>

lemma resolve_no_Panic: "resolve base reference \<noteq> Panic"
  by (auto simp: resolve_def Let_def outcome_simps validate_no_Panic resource_new_no_Panic split: if_splits)

lemma resolve_Value:
  assumes "resolve base reference = Value r"
  shows "r_origin r = r_origin base" and "canonical_path (r_path r)"
  using assms resource_new_Value by (fastforce simp: resolve_def Let_def outcome_simps split: if_splits)+

lemma rev_dropWhile_last:
  "x \<notin> set b \<Longrightarrow> rev (dropWhile (\<lambda>c. c \<noteq> x) (rev (a @ x # b))) = a @ [x]"
proof -
  assume "x \<notin> set b"
  then have "dropWhile (\<lambda>c. c \<noteq> x) (rev b @ x # rev a) = x # rev a"
    by (subst dropWhile_append2) auto
  then show ?thesis by simp
qed

lemma join_with_snoc: "ds \<noteq> [] \<Longrightarrow> join_with x (ds @ [w]) = join_with x ds @ x # w"
  by (induction x ds rule: join_with.induct) auto

definition directory_text :: "string list \<Rightarrow> string" where
  "directory_text ds = (if ds = [] then ''/'' else absolute ds @ ''/'')"

lemma absolute_snoc: "absolute (ds @ [w]) = directory_text ds @ w"
  by (cases "ds = []") (simp_all add: absolute_def join_with_snoc directory_text_def)

lemma directory_of_absolute:
  "plain_component w \<Longrightarrow> directory_of (absolute (ds @ [w])) = Some (directory_text ds)"
proof -
  assume w: "plain_component w"
  obtain d where d: "directory_text ds = d @ ''/''"
    by (cases "ds = []") (auto simp: directory_text_def)
  from w have "CHR ''/'' \<notin> set w" by (simp add: plain_component_def)
  from rev_dropWhile_last [OF this, of d] show ?thesis
    by (simp add: directory_of_def absolute_snoc d)
qed

lemma relative_text:
  assumes "plain_component w" and "CHR '':'' \<notin> set w" and "opt_all (\<lambda>q. q \<noteq> [] \<and> uri_text_ok q) query"
  shows "uri_text_ok (with_query w query)" and "with_query w query \<noteq> []"
    and "\<not> starts_with ''?'' (with_query w query)" and "\<not> starts_with ''/'' (with_query w query)"
    and "\<not> starts_with ''//'' (with_query w query)" and "\<not> has_scheme (with_query w query)"
proof -
  from assms(1) obtain c cs where w: "w = c # cs" "c \<noteq> CHR ''/''" "c \<noteq> CHR ''?''"
    by (cases w) (auto simp: plain_component_def)
  show "uri_text_ok (with_query w query)"
    using assms by (cases query) (auto simp: with_query_text plain_component_def)
  show "with_query w query \<noteq> []" "\<not> starts_with ''?'' (with_query w query)"
    "\<not> starts_with ''/'' (with_query w query)" "\<not> starts_with ''//'' (with_query w query)"
    using w by (cases query; auto simp: with_query_def starts_with_iff)+
  show "\<not> has_scheme (with_query w query)"
  proof (cases query)
    case None
    have "position (\<lambda>c. c = CHR '':'') w = None" using assms(2) by (induction w) auto
    then show ?thesis using None by (simp add: has_scheme_def with_query_def)
  next
    case (Some q)
    have colon: "position (\<lambda>c. c = CHR '':'') (w @ rest) = map_option (\<lambda>i. i + length w) (position (\<lambda>c. c = CHR '':'') rest)"
      for rest
      using assms(2) by (induction w) (auto simp: option.map_comp comp_def option.map_ident)
    have slash: "position (\<lambda>c. c = CHR ''/'' \<or> c = CHR ''?'') (w @ ''?'' @ q) = Some (length w)"
    proof -
      have "CHR ''/'' \<notin> set w" "CHR ''?'' \<notin> set w" using assms(1) by (simp_all add: plain_component_def)
      then show ?thesis by (induction w) auto
    qed
    show ?thesis
      using colon [of "''?'' @ q"] slash Some
      by (auto simp: has_scheme_def with_query_def Let_def split: option.splits)
  qed
qed

lemma path_without_query_canonical:
  "list_all plain_component ws \<Longrightarrow> path_without_query (with_query (absolute ws) query) = absolute ws"
  using with_query_split [OF absolute_no_query, of ws query]
  by (cases query) (simp_all add: path_without_query_def, simp add: with_query_def)

lemma resolve_sibling:
  assumes base: "r_path base = with_query (absolute (ds @ [v])) bq" "list_all plain_component (ds @ [v])"
    and w: "plain_component w" "CHR '':'' \<notin> set w" and query: "opt_all (\<lambda>q. q \<noteq> [] \<and> uri_text_ok q) query"
  shows "resolve base (with_query w query) =
    Value \<lparr>r_origin = r_origin base, r_path = with_query (absolute (ds @ [w])) query\<rparr>"
proof -
  note rel = relative_text [OF w query]
  have v: "validate_uri_text (with_query w query) = Value ()"
    using rel(1) validate_Value [of "with_query w query" "()"] by simp
  have dir: "directory_of (path_without_query (r_path base)) = Some (directory_text ds)"
    using base directory_of_absolute [of v ds] by (simp add: path_without_query_canonical)
  have joined: "directory_text ds @ with_query w query = with_query (absolute (ds @ [w])) query"
    by (cases query) (simp_all add: absolute_snoc with_query_def)
  have "list_all plain_component (ds @ [w])" using base(2) w(1) by simp
  then have "canonical_path (with_query (absolute (ds @ [w])) query)"
    using query unfolding canonical_path_def by blast
  then show ?thesis
    using rel v dir joined
    by (simp add: resolve_def ok_or_def resource_new_canonical)
qed

section \<open>The credential\<close>

definition query_pairs :: "string \<Rightarrow> string list" where
  "query_pairs path = (case split_once CHR ''?'' path of None \<Rightarrow> [] | Some (_, q) \<Rightarrow> split_on CHR ''&'' q)"

text \<open>The credential pairs a path carries.\<close>

definition carries :: "string \<Rightarrow> string list" where
  "carries path = filter is_token_pair (query_pairs path)"

definition token_value :: "string \<Rightarrow> string" where
  "token_value pair = (case split_once CHR ''='' pair of None \<Rightarrow> [] | Some (_, v) \<Rightarrow> v)"

lemma captured:
  assumes "capture master = Value auth"
  shows "carries (r_path master) = [token_pair auth]" and "is_token_pair (token_pair auth)"
    and "CHR ''&'' \<notin> set (token_pair auth)" and "token_value (token_pair auth) \<noteq> []"
proof -
  from assms obtain p q where q: "split_once CHR ''?'' (r_path master) = Some (p, q)"
    and rest: "(case filter is_token_pair (split_on CHR ''&'' q) of
        [] \<Rightarrow> Raise MissingCredential
      | pair # found \<Rightarrow>
          if (case split_once CHR ''='' pair of None \<Rightarrow> False | Some (_, v) \<Rightarrow> v \<noteq> [])
          then (if found \<noteq> [] then Raise MultipleCredentials else Value \<lparr>token_pair = pair\<rparr>)
          else Raise MissingCredential) = Value auth"
    by (auto simp: capture_def outcome_simps)
  obtain pair found where fp: "filter is_token_pair (split_on CHR ''&'' q) = pair # found"
    using rest by (cases "filter is_token_pair (split_on CHR ''&'' q)") auto
  with rest have found: "filter is_token_pair (split_on CHR ''&'' q) = [pair]"
    and auth: "auth = \<lparr>token_pair = pair\<rparr>" and v: "token_value pair \<noteq> []"
    by (auto simp: token_value_def split: if_splits option.splits)
  have "pair \<in> set (filter is_token_pair (split_on CHR ''&'' q))" unfolding found by simp
  then have "is_token_pair pair" "pair \<in> set (split_on CHR ''&'' q)" by simp_all
  then show "carries (r_path master) = [token_pair auth]" "is_token_pair (token_pair auth)"
    "CHR ''&'' \<notin> set (token_pair auth)" "token_value (token_pair auth) \<noteq> []"
    using q found v split_on_no_sep by (auto simp: carries_def query_pairs_def auth)
qed

definition appended :: "string \<Rightarrow> string \<Rightarrow> string" where
  "appended path pair = path @ [if CHR ''?'' \<in> set path then CHR ''&'' else CHR ''?''] @ pair"

lemma query_pairs_appended:
  assumes "CHR ''&'' \<notin> set pair"
  shows "query_pairs (appended path pair) = query_pairs path @ [pair]"
proof (cases "split_once CHR ''?'' path")
  case None
  then have "CHR ''?'' \<notin> set path" by (simp add: split_once_None_iff)
  then show ?thesis using assms None by (simp add: query_pairs_def appended_def split_on_single)
next
  case (Some pq)
  then obtain p q where path: "path = p @ CHR ''?'' # q" "CHR ''?'' \<notin> set p"
    by (cases pq) (auto simp: split_once_iff)
  then have "split_once CHR ''?'' (appended path pair) = Some (p, q @ CHR ''&'' # pair)"
    by (simp add: appended_def)
  then show ?thesis using assms path by (simp add: query_pairs_def split_on_snoc)
qed

lemma request_path_cases:
  "request_path auth r =
     (case carries (r_path r) of
        [] \<Rightarrow> Value (appended (r_path r) (token_pair auth))
      | pair # found \<Rightarrow>
          if pair \<noteq> token_pair auth then Raise CredentialChanged
          else if found \<noteq> [] then Raise MultipleCredentials else Value (r_path r))"
  by (auto simp: request_path_def carries_def query_pairs_def appended_def Let_def
      split: option.splits list.splits)

lemma request_carries:
  assumes "is_token_pair (token_pair auth)" and "CHR ''&'' \<notin> set (token_pair auth)"
    and "request_path auth r = Value p"
  shows "carries p = [token_pair auth]"
proof (cases "carries (r_path r)")
  case Nil
  then have "p = appended (r_path r) (token_pair auth)" using assms(3) by (simp add: request_path_cases)
  then show ?thesis using assms Nil by (simp add: carries_def query_pairs_appended)
next
  case (Cons pair found)
  then show ?thesis using assms(3) by (auto simp: request_path_cases split: if_splits)
qed

lemma normalize_query_pairs:
  assumes "normalize_absolute_path path = Value p"
  shows "query_pairs p = query_pairs path"
proof -
  obtain raw query where parts:
    "(case split_once CHR ''?'' path of None \<Rightarrow> (path, None) | Some (p, q) \<Rightarrow> (p, Some q)) = (raw, query)"
    by fastforce
  note sp = split_once_str_parts [OF parts]
  from assms obtain ws where p: "p = with_query (absolute ws) query"
    and ws: "normalize_components (raw = ''/'') [] (split_on CHR ''/'' (tl raw)) = Value ws"
    by (cases query)
       (auto simp: normalize_absolute_path_def parts outcome_simps with_query_def absolute_def
        split: if_splits)
  have "CHR ''?'' \<notin> set w" if "w \<in> set ws" for w
  proof -
    have kept: "set ws' \<subseteq> set kept \<union> set comps"
      if "normalize_components is_root kept comps = Value ws'" for is_root kept comps ws'
      using that by (induction is_root kept comps rule: normalize_components.induct)
        (auto split: if_splits dest: in_set_butlastD)
    have "w \<in> set (split_on CHR ''/'' (tl raw))" using kept [OF ws] that by auto
    then show ?thesis using split_on_chars [of w "CHR ''/''" "tl raw"] sp by (cases raw) auto
  qed
  then have "CHR ''?'' \<notin> set (absolute ws)"
    using join_with_chars [of "CHR ''/''" ws] by (fastforce simp: absolute_def)
  then have "split_once CHR ''?'' p = map_option (\<lambda>q. (absolute ws, q)) query"
    unfolding p by (rule with_query_split)
  moreover have "split_once CHR ''?'' path = map_option (\<lambda>q. (raw, q)) query"
    using parts by (auto split: option.splits)
  ultimately show ?thesis by (cases query) (simp_all add: query_pairs_def)
qed

text \<open>What \<open>from_request_path\<close> rebuilds before normalizing.\<close>

definition without_credential :: "string \<Rightarrow> string" where
  "without_credential req =
     (case split_once CHR ''?'' req of
        None \<Rightarrow> req
      | Some (p, query) \<Rightarrow>
          (let kept = filter (\<lambda>pair. \<not> is_token_pair pair) (split_on CHR ''&'' query)
           in if kept = [] then p else p @ ''?'' @ join_with CHR ''&'' kept))"

lemma from_request_path_eq: "from_request_path orig req = resource_new orig (without_credential req)"
  by (simp add: from_request_path_def without_credential_def Let_def)

lemma without_credential_carries: "carries (without_credential req) = []"
proof (cases "split_once CHR ''?'' req")
  case None
  then show ?thesis by (simp add: without_credential_def carries_def query_pairs_def)
next
  case (Some pq)
  obtain p q where pq: "pq = (p, q)" by (cases pq)
  let ?kept = "filter (\<lambda>pair. \<not> is_token_pair pair) (split_on CHR ''&'' q)"
  have p: "CHR ''?'' \<notin> set p" using Some by (simp add: pq split_once_iff)
  have "split_on CHR ''&'' (join_with CHR ''&'' ?kept) = ?kept" if "?kept \<noteq> []"
    using that split_on_no_sep by (intro split_join) auto
  then show ?thesis
    using Some p split_once_None_iff [of "CHR ''?''" p]
    by (auto simp: pq without_credential_def carries_def query_pairs_def Let_def filter_empty_conv)
qed

lemma without_credential_appended:
  assumes "is_token_pair pair" and "CHR ''&'' \<notin> set pair" and "carries path = []"
  shows "without_credential (appended path pair) = path"
proof (cases "split_once CHR ''?'' path")
  case None
  then have "CHR ''?'' \<notin> set path" by (simp add: split_once_None_iff)
  then show ?thesis using assms by (simp add: without_credential_def appended_def split_on_single)
next
  case (Some pq)
  then obtain p q where path: "path = p @ CHR ''?'' # q" "CHR ''?'' \<notin> set p"
    by (cases pq) (auto simp: split_once_iff)
  then have "split_once CHR ''?'' (appended path pair) = Some (p, q @ CHR ''&'' # pair)"
    by (simp add: appended_def)
  moreover have "filter (\<lambda>pair. \<not> is_token_pair pair) (split_on CHR ''&'' q) = split_on CHR ''&'' q"
    using assms(3) path by (auto simp: carries_def query_pairs_def filter_id_conv filter_empty_conv)
  ultimately show ?thesis using assms path by (simp add: without_credential_def split_on_snoc)
qed

section \<open>The timeline\<close>

text \<open>One segment after the other: a clock per segment, committed when the segment is done.\<close>

fun timeline_run :: "duration list \<Rightarrow> segment_timeline \<Rightarrow> segment_timeline outcome" where
  "timeline_run [] t = Value t"
| "timeline_run (d # ds) t =
     and_then (timeline_begin t d) (\<lambda>clock. timeline_run ds (timeline_commit clock t))"

lemma timeline_begin_eq:
  assumes "0 \<le> next_start_ns t"
  shows "timeline_begin t d =
    (if next_start_ns t + int d \<le> i64_max
     then Value \<lparr>base_ns = next_start_ns t, clock_next_start_ns = next_start_ns t + int d,
                 video_origin_ns = None, audio_origin_ns = None\<rparr>
     else Raise DurationOverflow)"
  using assms by (auto simp: timeline_begin_def i64_of_nat_def checked_i64_def ok_or_def range_defs)

lemma timeline_run_eq:
  "0 \<le> next_start_ns t \<Longrightarrow> next_start_ns t \<le> i64_max \<Longrightarrow>
   timeline_run ds t =
     (if next_start_ns t + int (sum_list ds) \<le> i64_max
      then Value \<lparr>next_start_ns = next_start_ns t + int (sum_list ds)\<rparr>
      else Raise DurationOverflow)"
proof (induction ds arbitrary: t)
  case (Cons d ds)
  show ?case
  proof (cases "next_start_ns t + int d \<le> i64_max")
    case True
    have "timeline_run ds \<lparr>next_start_ns = next_start_ns t + int d\<rparr> =
      (if next_start_ns t + int d + int (sum_list ds) \<le> i64_max
       then Value \<lparr>next_start_ns = next_start_ns t + int d + int (sum_list ds)\<rparr>
       else Raise DurationOverflow)"
      using Cons.IH [of "\<lparr>next_start_ns = next_start_ns t + int d\<rparr>"] Cons.prems True by simp
    then show ?thesis using Cons.prems True
      by (cases t) (simp add: timeline_begin_eq timeline_commit_def add.assoc)
  next
    case False
    then show ?thesis using Cons.prems by (simp add: timeline_begin_eq)
  qed
qed (simp add: segment_timeline.equality)

datatype lane = Video_Lane | Audio_Lane

definition normalize_lane :: "lane \<Rightarrow> segment_clock \<Rightarrow> int \<Rightarrow> segment_clock \<times> media_time_ms" where
  "normalize_lane l = (case l of Video_Lane \<Rightarrow> normalize_video | Audio_Lane \<Rightarrow> normalize_audio)"

text \<open>The packets of a segment in demux order, each of its lane.\<close>

fun normalize_run :: "segment_clock \<Rightarrow> (lane \<times> int) list \<Rightarrow> (lane \<times> media_time_ms) list" where
  "normalize_run c [] = []"
| "normalize_run c ((l, raw) # ps) =
     (let (c', t) = normalize_lane l c raw in (l, t) # normalize_run c' ps)"

definition of_lane :: "lane \<Rightarrow> (lane \<times> 'a) list \<Rightarrow> 'a list" where
  "of_lane l ps = map snd (filter (\<lambda>p. fst p = l) ps)"

definition lane_origin :: "lane \<Rightarrow> segment_clock \<Rightarrow> int option" where
  "lane_origin l c = (case l of Video_Lane \<Rightarrow> video_origin_ns c | Audio_Lane \<Rightarrow> audio_origin_ns c)"

text \<open>The content time of a packet of a lane whose first packet was at \<open>first\<close>.\<close>

definition anchored :: "int \<Rightarrow> int \<Rightarrow> int \<Rightarrow> media_time_ms" where
  "anchored base first raw = trunc_div (sat_i64 (base + max (sat_i64 (raw - first)) 0)) 1000000"

lemma normalize_effect:
  "normalize_lane l c raw = (c', t) \<Longrightarrow>
     t = anchored (base_ns c) (unwrap_or (lane_origin l c) raw) raw \<and> base_ns c' = base_ns c \<and>
     lane_origin m c' = (if m = l then Some (unwrap_or (lane_origin l c) raw) else lane_origin m c)"
  by (cases l; cases m)
     (auto simp: normalize_lane_def normalize_video_def normalize_audio_def normalize_from_def lane_origin_def
       anchored_def Let_def)

lemma normalize_run_lane:
  "of_lane l (normalize_run c ps) =
     (case of_lane l ps of
        [] \<Rightarrow> []
      | raw # raws \<Rightarrow> map (anchored (base_ns c) (unwrap_or (lane_origin l c) raw)) (raw # raws))"
proof (induction ps arbitrary: c)
  case (Cons p ps)
  obtain m raw where p: "p = (m, raw)" by (cases p)
  obtain c' t where n: "normalize_lane m c raw = (c', t)" by (cases "normalize_lane m c raw")
  note eff = normalize_effect [OF n]
  show ?case
  proof (cases "m = l")
    case True
    then show ?thesis using Cons.IH [of c'] eff [of l] n
      by (cases "of_lane l ps") (simp_all add: p n of_lane_def)
  next
    case False
    then show ?thesis using Cons.IH [of c'] eff [of l]
      by (cases "of_lane l ps") (simp_all add: p n of_lane_def)
  qed
qed (simp add: of_lane_def)

lemma anchored_first:
  "is_i64 base \<Longrightarrow> 0 \<le> base \<Longrightarrow> anchored base first first = base div 1000000"
  by (simp add: anchored_def sat_i64_id trunc_div_nonneg sat_i64_def range_defs is_i64_def)

lemma anchored_mono: "0 \<le> base \<Longrightarrow> raw \<le> raw' \<Longrightarrow> anchored base first raw \<le> anchored base first raw'"
proof -
  assume base: "0 \<le> base" and le: "raw \<le> raw'"
  have nonneg: "0 \<le> sat_i64 (base + max (sat_i64 (r - first)) 0)" for r
    using base by (auto simp: sat_i64_def range_defs)
  have "sat_i64 (base + max (sat_i64 (raw - first)) 0) \<le> sat_i64 (base + max (sat_i64 (raw' - first)) 0)"
    using le by (intro sat_i64_mono add_left_mono max.mono) (simp_all add: sat_i64_mono)
  then show ?thesis by (simp add: anchored_def trunc_div_nonneg nonneg zdiv_mono1)
qed

lemma anchored_ge:
  assumes "is_i64 base" and "0 \<le> base"
  shows "base div 1000000 \<le> anchored base first raw"
proof -
  have "base \<le> sat_i64 (base + max (sat_i64 (raw - first)) 0)"
    using assms by (auto simp: sat_i64_def is_i64_def)
  then show ?thesis using assms(2) by (simp add: anchored_def trunc_div_nonneg zdiv_mono1)
qed

section \<open>Properties\<close>

text \<open>
  C32. Whatever a playlist writes as a reference, \<open>resolve\<close> either refuses it or yields a resource on
  exactly the origin of the base, with a canonical path: below the root, without empty, \<open>.\<close> or \<open>..\<close>
  components, and unchanged by another normalization. It never panics.
\<close>

theorem resolution_stays_on_origin:
  "resolve base reference \<noteq> Panic \<and>
   (case resolve base reference of
      Value r \<Rightarrow> r_origin r = r_origin base \<and> canonical_path (r_path r) \<and>
                 normalize_absolute_path (r_path r) = Value (r_path r)
    | _ \<Rightarrow> True)"
proof (cases "resolve base reference")
  case (Value r)
  then show ?thesis using resolve_Value [OF Value] normalize_canonical by simp
qed (simp_all add: resolve_no_Panic)

text \<open>
  A plain relative reference names the sibling of the base's last component: the base's directory
  is kept, its query is not inherited, and the reference's own query is kept as written.
\<close>

theorem relative_reference_is_sibling:
  assumes "r_path base = with_query (absolute (ds @ [v])) base_query"
    and "list_all plain_component (ds @ [v])"
    and "plain_component w" and "CHR '':'' \<notin> set w"
    and "opt_all (\<lambda>q. q \<noteq> [] \<and> uri_text_ok q) query"
  shows "resolve base (with_query w query) =
    Value \<lparr>r_origin = r_origin base, r_path = with_query (absolute (ds @ [w])) query\<rparr>"
  by (rule resolve_sibling [OF assms])

definition sample_base :: resource where
  "sample_base = \<lparr>r_origin = origin_http ''tv'' 8096, r_path = ''/v/main.m3u8?k=1''\<rparr>"

lemma relative_reference_is_sibling_witness:
  "resolve sample_base ''0.ts'' =
     Value \<lparr>r_origin = origin_http ''tv'' 8096, r_path = ''/v/0.ts''\<rparr>"
  using relative_reference_is_sibling [of sample_base "[''v'']" "''main.m3u8''" "Some ''k=1''" "''0.ts''" None]
  by (simp add: sample_base_def with_query_def absolute_def plain_component_def uri_text_ok_def uri_byte_ok_def
      is_ascii_def is_control_def is_ascii_space_def byte_of_def)

text \<open>
  C33. With a credential captured from a master URL, every request path \<open>request_path\<close> builds carries
  that credential pair and no other one, whatever the playlist wrote; the pair has a value and one of
  the credential names.
\<close>

theorem request_carries_one_credential:
  assumes "capture master = Value auth" and "request_path auth r = Value p"
  shows "carries p = [token_pair auth] \<and> carries (r_path master) = [token_pair auth] \<and>
    is_token_pair (token_pair auth) \<and> token_value (token_pair auth) \<noteq> []"
  using captured [OF assms(1)] request_carries [OF _ _ assms(2)] by blast

definition sample_master :: resource where
  "sample_master = \<lparr>r_origin = origin_http ''tv'' 8096, r_path = ''/m.m3u8?a=1&API_KEY=s''\<rparr>"

definition sample_auth :: inherited_auth where
  "sample_auth = \<lparr>token_pair = ''API_KEY=s''\<rparr>"


lemma sample_capture: "capture sample_master = Value sample_auth"
  by code_simp

lemma sample_request:
  "request_path sample_auth \<lparr>r_origin = origin_http ''tv'' 8096, r_path = ''/0.ts?b=2''\<rparr> =
     Value ''/0.ts?b=2&API_KEY=s''"
  by code_simp

lemma request_carries_one_credential_witness: "carries ''/0.ts?b=2&API_KEY=s'' = [''API_KEY=s'']"
  using request_carries_one_credential [OF sample_capture sample_request] by (simp add: sample_auth_def)

text \<open>
  \<open>from_request_path\<close> takes the credential back out: for a resource without one, the request path
  exists and leads back to the very same resource; and whatever path it is given, the resource it
  returns carries no credential.
\<close>

theorem credential_taken_back_out:
  assumes "capture master = Value auth" and "canonical_path (r_path r)" and "carries (r_path r) = []"
  shows "(\<exists>p. request_path auth r = Value p \<and> from_request_path (r_origin r) p = Value r) \<and>
    (case from_request_path orig req of
       Value r' \<Rightarrow> carries (r_path r') = [] \<and> canonical_path (r_path r') \<and> r_origin r' = orig
     | _ \<Rightarrow> True)"
proof -
  note auth = captured [OF assms(1)]
  let ?p = "appended (r_path r) (token_pair auth)"
  have request: "request_path auth r = Value ?p" using assms(3) by (simp add: request_path_cases)
  have inverse: "from_request_path (r_origin r) ?p = Value r"
    using without_credential_appended [OF auth(2,3) assms(3)] assms(2)
    by (simp add: from_request_path_eq resource_new_canonical)
  have clean: "carries (r_path r') = [] \<and> canonical_path (r_path r') \<and> r_origin r' = orig"
    if r': "from_request_path orig req = Value r'" for r'
  proof -
    obtain p where "normalize_absolute_path (without_credential req) = Value p" "r_path r' = p"
      using r' by (auto simp: from_request_path_eq resource_new_def outcome_simps)
    then have "carries (r_path r') = []"
      using normalize_query_pairs without_credential_carries by (auto simp: carries_def)
    then show ?thesis using r' resource_new_Value unfolding from_request_path_eq by blast
  qed
  have "case from_request_path orig req of
       Value r' \<Rightarrow> carries (r_path r') = [] \<and> canonical_path (r_path r') \<and> r_origin r' = orig
     | _ \<Rightarrow> True"
    using clean by (cases "from_request_path orig req") simp_all
  with request inverse show ?thesis by blast
qed

lemma credential_taken_back_out_witness:
  "\<exists>p. request_path sample_auth \<lparr>r_origin = origin_http ''tv'' 8096, r_path = ''/0.ts''\<rparr> = Value p \<and>
     from_request_path (origin_http ''tv'' 8096) p = Value \<lparr>r_origin = origin_http ''tv'' 8096, r_path = ''/0.ts''\<rparr>"
proof -
  let ?r = "\<lparr>r_origin = origin_http ''tv'' 8096, r_path = ''/0.ts''\<rparr>"
  have "list_all plain_component [''0.ts'']"
    by (simp add: plain_component_def uri_text_ok_def uri_byte_ok_def is_ascii_def is_control_def
        is_ascii_space_def byte_of_def)
  moreover have "r_path ?r = with_query (absolute [''0.ts'']) None"
    by (simp add: with_query_def absolute_def)
  ultimately have "canonical_path (r_path ?r)" unfolding canonical_path_def by (metis opt_all_simps(1))
  moreover have "carries (r_path ?r) = []" by (simp add: carries_def query_pairs_def)
  ultimately show ?thesis using credential_taken_back_out [OF sample_capture, of ?r] by simp
qed

text \<open>
  Committing segment clocks one after the other adds the durations exactly, without rounding or
  drift, from any non-negative position; \<open>DurationOverflow\<close> is reported exactly when the sum leaves
  the range of \<open>i64\<close>.
\<close>

theorem timeline_adds_exactly:
  assumes "0 \<le> next_start_ns t" and "next_start_ns t \<le> i64_max"
  shows "timeline_run ds t =
    (if next_start_ns t + int (sum_list ds) \<le> i64_max
     then Value \<lparr>next_start_ns = next_start_ns t + int (sum_list ds)\<rparr>
     else Raise DurationOverflow)"
  by (rule timeline_run_eq [OF assms])

lemma timeline_adds_exactly_witness:
  "timeline_run [2002000000, 2002000000] timeline_default = Value \<lparr>next_start_ns = 4004000000\<rparr>"
  using timeline_adds_exactly [of timeline_default "[2002000000, 2002000000]"]
  by (simp add: timeline_default_def range_defs)

text \<open>
  The two lanes of a segment are normalized independently of how their packets interleave: the
  content times of a lane are those of the lane alone, its first packet lands on the segment's start,
  no packet lands before it, and later raw timestamps never get an earlier content time.
\<close>

theorem lanes_anchor_independently:
  assumes "timeline_begin t d = Value c" and "0 \<le> next_start_ns t" and "next_start_ns t \<le> i64_max"
    and "of_lane l ps = raw # raws"
  shows "of_lane l (normalize_run c ps) = map (anchored (next_start_ns t) raw) (raw # raws) \<and>
    hd (of_lane l (normalize_run c ps)) = next_start_ns t div 1000000 \<and>
    list_all (\<lambda>m. next_start_ns t div 1000000 \<le> m) (of_lane l (normalize_run c ps)) \<and>
    (sorted (raw # raws) \<longrightarrow> sorted (of_lane l (normalize_run c ps)))"
proof -
  have c: "base_ns c = next_start_ns t" "lane_origin l c = None"
    using assms(1,2) by (auto simp: timeline_begin_eq lane_origin_def split: if_splits lane.splits)
  have out: "of_lane l (normalize_run c ps) = map (anchored (next_start_ns t) raw) (raw # raws)"
    using assms(4) by (simp add: normalize_run_lane c)
  have base: "is_i64 (next_start_ns t)" using assms(2,3) by (simp add: is_i64_def range_defs)
  have first: "hd (of_lane l (normalize_run c ps)) = next_start_ns t div 1000000"
    by (simp add: out anchored_first [OF base assms(2)])
  have above: "list_all (\<lambda>m. next_start_ns t div 1000000 \<le> m) (of_lane l (normalize_run c ps))"
    using anchored_ge [OF base assms(2)] by (simp add: out list_all_iff)
  have order: "sorted (of_lane l (normalize_run c ps))" if "sorted (raw # raws)"
    unfolding out sorted_map by (rule sorted_wrt_mono_rel [OF _ that]) (rule anchored_mono [OF assms(2)])
  from out first above order show ?thesis by blast
qed

lemma lanes_anchor_independently_witness:
  "of_lane Audio_Lane (normalize_run
     \<lparr>base_ns = 0, clock_next_start_ns = 2000000000, video_origin_ns = None, audio_origin_ns = None\<rparr>
     [(Video_Lane, 1400000000), (Audio_Lane, 1300000000), (Audio_Lane, 1321000000)]) =
   map (anchored 0 1300000000) [1300000000, 1321000000]"
  using lanes_anchor_independently
    [of timeline_default 2000000000
       "\<lparr>base_ns = 0, clock_next_start_ns = 2000000000, video_origin_ns = None, audio_origin_ns = None\<rparr>"
       Audio_Lane "[(Video_Lane, 1400000000), (Audio_Lane, 1300000000), (Audio_Lane, 1321000000)]"
       1300000000 "[1321000000]"]
  by (simp add: timeline_begin_eq timeline_default_def range_defs of_lane_def)

end
