(* ===== verification/Playlist_Correct.thy ===== *)
theory Playlist_Correct
  imports Playlist Hls_Correct
begin

text \<open>
  What an accepted playlist satisfies: the parsers never panic, a master has exactly one variant on the
  source's origin, a media playlist is a gap-free run of positive MPEG-TS segments that are exactly its
  \<open>EXTINF\<close>/URI line pairs, and its decimal numbers are read without rounding.
\<close>

section \<open>Line parsers\<close>

text \<open>A parser's step keeps its invariant and does not panic where the invariant holds.\<close>

locale line_parser =
  fixes step :: "'s \<Rightarrow> nat \<Rightarrow> string \<Rightarrow> 's outcome"
    and start :: 's
    and inv :: "'s \<Rightarrow> bool"
  assumes inv_start: "inv start"
    and inv_step: "inv st \<Longrightarrow> step st n line = Value st' \<Longrightarrow> inv st'"
    and step_no_Panic: "inv st \<Longrightarrow> step st n line \<noteq> Panic"
begin

lemma run_inv: "run_lines step st lines = Value st' \<Longrightarrow> inv st \<Longrightarrow> inv st'"
proof (induction lines arbitrary: st)
  case (Cons l lines)
  obtain n line where l: "l = (n, line)" by (cases l)
  from Cons.prems(1) obtain st1 where "step st n line = Value st1" "run_lines step st1 lines = Value st'"
    by (auto simp: l outcome_simps)
  then show ?case using Cons.IH inv_step [OF Cons.prems(2)] by blast
qed simp

lemma run_no_Panic: "inv st \<Longrightarrow> run_lines step st lines \<noteq> Panic"
proof (induction lines arbitrary: st)
  case (Cons l lines)
  obtain n line where l: "l = (n, line)" by (cases l)
  show ?case
    using Cons.IH inv_step [OF Cons.prems, of n line] step_no_Panic [OF Cons.prems, of n line]
    by (auto simp: l outcome_simps)
qed simp

lemma accepted_inv: "run_lines step start lines = Value st \<Longrightarrow> inv st"
  using run_inv inv_start by blast

lemma never_Panic: "run_lines step start lines \<noteq> Panic"
  using run_no_Panic inv_start by blast

end

section \<open>No primitive panics\<close>

lemma malformed_simps [outcome_simps]: "malformed n reason \<noteq> Value x" "malformed n reason \<noteq> Panic"
  by (simp_all add: malformed_def)

lemma set_once_Value [outcome_simps]: "set_once slot v n reason = Value s \<longleftrightarrow> slot = None \<and> s = Some v"
  by (auto simp: set_once_def outcome_simps)

lemma set_once_no_Panic [outcome_simps]: "set_once slot v n reason \<noteq> Panic"
  by (simp add: set_once_def outcome_simps)

lemma number_lines_no_Panic: "number_lines n raws \<noteq> Panic"
  by (induction n raws rule: number_lines.induct)
     (auto simp: check_line_def Let_def outcome_simps)

lemma playlist_lines_no_Panic: "playlist_lines text \<noteq> Panic"
  by (simp add: playlist_lines_def outcome_simps number_lines_no_Panic)

lemma parse_u64_no_Panic [outcome_simps]: "parse_u64 value n reason \<noteq> Panic"
  by (simp add: parse_u64_def outcome_simps)

lemma parse_positive_u64_no_Panic [outcome_simps]: "parse_positive_u64 value n reason \<noteq> Panic"
  by (simp add: parse_positive_u64_def outcome_simps)

lemma parse_positive_u32_no_Panic [outcome_simps]: "parse_positive_u32 value n \<noteq> Panic"
  by (simp add: parse_positive_u32_def outcome_simps)

lemma parse_extinf_no_Panic [outcome_simps]: "parse_extinf value n \<noteq> Panic"
  by (auto simp: parse_extinf_def outcome_simps split: prod.splits option.splits if_splits)

lemma parse_signed_no_Panic [outcome_simps]: "parse_signed_decimal_micros value n \<noteq> Panic"
  by (auto simp: parse_signed_decimal_micros_def outcome_simps Let_def
      split: prod.splits option.splits if_splits)

lemma parse_playlist_type_no_Panic [outcome_simps]: "parse_playlist_type value n \<noteq> Panic"
  by (simp add: parse_playlist_type_def outcome_simps)

lemma variant_attributes_no_Panic: "variant_attributes n keys b items \<noteq> Panic"
  by (induction n keys b items rule: variant_attributes.induct)
     (auto simp: outcome_simps Let_def split: prod.splits if_splits)

lemma parse_variant_bandwidth_no_Panic [outcome_simps]: "parse_variant_bandwidth value n \<noteq> Panic"
  by (auto simp: parse_variant_bandwidth_def outcome_simps variant_attributes_no_Panic split: prod.splits)

section \<open>Numbers\<close>

lemma parse_digits_Some: "parse_digits m s = Some n \<longleftrightarrow>
   s \<noteq> [] \<and> list_all is_digit s \<and> digits_value s \<le> m \<and> n = digits_value s"
  by (auto simp: parse_digits_def checked_nat_Some)

lemma parse_unsigned_digits:
  assumes "list_all is_digit s"
  shows "parse_unsigned m s = parse_digits m s"
proof (cases s)
  case (Cons c cs)
  then have "strip_prefix ''+'' s = None" using assms digit_not_special [of c] by auto
  then show ?thesis by (simp add: parse_unsigned_def)
qed (simp add: parse_unsigned_def)

lemma parse_i64_digits:
  assumes "list_all is_digit s"
  shows "parse_i64 s = map_option int (parse_digits (nat i64_max) s)"
proof (cases s)
  case (Cons c cs)
  then show ?thesis using assms digit_not_special [of c] by (simp add: parse_i64_def)
qed (simp add: parse_i64_def parse_digits_def)

lemma parse_u64_Value: "parse_u64 value n reason = Value v \<longleftrightarrow> parse_digits u64_max value = Some v"
  by (auto simp: parse_u64_def outcome_simps parse_unsigned_digits parse_digits_Some)

lemma parse_positive_u64_Value:
  "parse_positive_u64 value n reason = Value v \<longleftrightarrow> parse_digits u64_max value = Some v \<and> 0 < v"
  by (auto simp: parse_positive_u64_def outcome_simps parse_u64_Value)

lemma digits_value_append: "digits_value (a @ b) = digits_value a * 10 ^ length b + digits_value b"
proof (induction b rule: rev_induct)
  case (snoc c b)
  have "digits_value ((a @ b) @ [c]) = 10 * digits_value (a @ b) + digit_value c"
    by (simp add: digits_value_def)
  moreover have "digits_value (b @ [c]) = 10 * digits_value b + digit_value c"
    by (simp add: digits_value_def)
  ultimately show ?case using snoc by (simp add: algebra_simps)
qed (simp add: digits_value_def)

lemma digit_value_le: "is_digit c \<Longrightarrow> digit_value c \<le> 9"
  by (auto simp: is_digit_def digit_value_def)

lemma digits_value_bound: "list_all is_digit s \<Longrightarrow> digits_value s < 10 ^ length s"
proof (induction s rule: rev_induct)
  case (snoc c s)
  have "digits_value (s @ [c]) = 10 * digits_value s + digit_value c" by (simp add: digits_value_def)
  moreover have "digit_value c \<le> 9" using snoc.prems digit_value_le by simp
  moreover have "digits_value s < 10 ^ length s" using snoc by simp
  ultimately show ?case by simp
qed (simp add: digits_value_def)

text \<open>A decimal number as written: digits, and after a point the digits of the fraction.\<close>

definition decimal_text :: "string \<Rightarrow> string option \<Rightarrow> string" where
  "decimal_text whole fraction = (case fraction of None \<Rightarrow> whole | Some f \<Rightarrow> whole @ CHR ''.'' # f)"

definition decimal_digits :: "string \<Rightarrow> string option \<Rightarrow> nat \<Rightarrow> bool" where
  "decimal_digits whole fraction places =
     (whole \<noteq> [] \<and> list_all is_digit whole \<and>
      opt_all (\<lambda>f. f \<noteq> [] \<and> length f \<le> places \<and> list_all is_digit f) fraction)"

lemma decimal_parts_eq:
  assumes "decimal_parts number = (whole, fraction)"
  shows "number = decimal_text whole fraction"
  using assms by (auto simp: decimal_parts_def decimal_text_def split_once_iff split: option.splits)

lemma digits_no_separator: "list_all is_digit s \<Longrightarrow> CHR ''.'' \<notin> set s \<and> CHR '','' \<notin> set s \<and> CHR ''-'' \<notin> set s"
  using digit_not_special by (auto simp: list_all_iff)

lemma decimal_parts_text:
  assumes "decimal_digits whole fraction places"
  shows "decimal_parts (decimal_text whole fraction) = (whole, fraction)"
    and "CHR '','' \<notin> set (decimal_text whole fraction)"
    and "CHR ''-'' \<notin> set (decimal_text whole fraction)"
proof -
  have w: "list_all is_digit whole" "opt_all (list_all is_digit) fraction"
    using assms by (cases fraction; simp add: decimal_digits_def)+
  note no_w = digits_no_separator [OF w(1)]
  show "decimal_parts (decimal_text whole fraction) = (whole, fraction)"
    using no_w split_once_None_iff [of "CHR ''.''" whole]
    by (cases fraction) (simp_all add: decimal_parts_def decimal_text_def)
  show "CHR '','' \<notin> set (decimal_text whole fraction)" "CHR ''-'' \<notin> set (decimal_text whole fraction)"
    using no_w w(2) digits_no_separator by (cases fraction; auto simp: decimal_text_def)+
qed

text \<open>The value in units of \<open>10 ^ places\<close> to the whole.\<close>

definition scaled_value :: "nat \<Rightarrow> string \<Rightarrow> string option \<Rightarrow> nat" where
  "scaled_value places whole fraction =
     digits_value whole * 10 ^ places +
     (case fraction of None \<Rightarrow> 0 | Some f \<Rightarrow> digits_value f * 10 ^ (places - length f))"

lemma scaled_value_exact:
  assumes "decimal_digits whole fraction places"
  shows "scaled_value places whole fraction * 10 ^ length (unwrap_or fraction []) =
    digits_value (whole @ unwrap_or fraction []) * 10 ^ places"
proof (cases fraction)
  case None
  then show ?thesis by (simp add: scaled_value_def)
next
  case (Some f)
  then have "length f \<le> places" using assms by (simp add: decimal_digits_def)
  then have "(10::nat) ^ (places - length f) * 10 ^ length f = 10 ^ places"
    by (simp add: power_add [symmetric])
  then show ?thesis using Some by (simp add: scaled_value_def digits_value_append algebra_simps)
qed

lemma fraction_fits_u32: "list_all is_digit f \<Longrightarrow> length f \<le> 9 \<Longrightarrow> digits_value f \<le> u32_max"
proof -
  assume "list_all is_digit f" "length f \<le> 9"
  moreover have "(10::nat) ^ length f \<le> 10 ^ 9" using calculation(2) by (intro power_increasing) simp_all
  ultimately show ?thesis using digits_value_bound [of f] by (simp add: range_defs)
qed

lemma parse_extinf_text:
  assumes "decimal_parts number = (whole, fraction)" and "CHR '','' \<notin> set number"
  shows "parse_extinf (number @ CHR '','' # title) n = Value d \<longleftrightarrow>
    decimal_digits whole fraction 9 \<and> digits_value whole \<le> u64_max \<and>
    d = scaled_value 9 whole fraction \<and> 0 < d"
proof (cases fraction)
  case None
  then show ?thesis
    using assms by (auto simp: parse_extinf_def outcome_simps decimal_digits_def parse_unsigned_digits
        parse_digits_Some scaled_value_def)
next
  case (Some f)
  then show ?thesis
    using assms fraction_fits_u32 [of f]
    by (auto simp: parse_extinf_def outcome_simps decimal_digits_def parse_unsigned_digits
        parse_digits_Some scaled_value_def)
qed

lemma parse_extinf_Value:
  "parse_extinf value n = Value d \<longleftrightarrow>
   (\<exists>whole fraction title. value = decimal_text whole fraction @ CHR '','' # title \<and>
      decimal_digits whole fraction 9 \<and> digits_value whole \<le> u64_max \<and>
      d = scaled_value 9 whole fraction \<and> 0 < d)" (is "?l \<longleftrightarrow> ?r")
proof
  assume l: ?l
  then obtain number title where sp: "split_once CHR '','' value = Some (number, title)"
    by (auto simp: parse_extinf_def outcome_simps)
  then have v: "value = number @ CHR '','' # title" "CHR '','' \<notin> set number"
    by (simp_all add: split_once_iff)
  obtain whole fraction where dp: "decimal_parts number = (whole, fraction)" by fastforce
  show ?r
    using l parse_extinf_text [OF dp v(2)] decimal_parts_eq [OF dp] v(1) by blast
next
  assume ?r
  then obtain whole fraction title where v: "value = decimal_text whole fraction @ CHR '','' # title"
    and rest: "decimal_digits whole fraction 9" "digits_value whole \<le> u64_max"
      "d = scaled_value 9 whole fraction" "0 < d" by blast
  show ?l
    unfolding v using parse_extinf_text [OF decimal_parts_text(1,2) [OF rest(1)]] rest by blast
qed

lemma checked_i64_nonneg: "0 \<le> x \<Longrightarrow> checked_i64 x = Some y \<longleftrightarrow> x \<le> i64_max \<and> y = x"
  by (auto simp: checked_i64_def range_defs)

definition micros_value :: "bool \<Rightarrow> string \<Rightarrow> string option \<Rightarrow> int" where
  "micros_value negative whole fraction =
     (if negative then - int (scaled_value 6 whole fraction) else int (scaled_value 6 whole fraction))"

lemma fraction_fits_i64: "list_all is_digit f \<Longrightarrow> length f \<le> 6 \<Longrightarrow> digits_value f \<le> nat i64_max"
proof -
  assume "list_all is_digit f" "length f \<le> 6"
  moreover have "(10::nat) ^ length f \<le> 10 ^ 6" using calculation(2) by (intro power_increasing) simp_all
  ultimately show ?thesis using digits_value_bound [of f] by (simp add: range_defs)
qed

lemma parse_signed_text:
  assumes "decimal_parts number = (whole, fraction)"
    and "case strip_prefix ''-'' text of Some v \<Rightarrow> negative \<and> v = number
         | None \<Rightarrow> \<not> negative \<and> text = number"
  shows "parse_signed_decimal_micros text n = Value m \<longleftrightarrow>
    decimal_digits whole fraction 6 \<and> int (scaled_value 6 whole fraction) \<le> i64_max \<and>
    m = micros_value negative whole fraction"
proof -
  have start: "(case strip_prefix ''-'' text of Some v \<Rightarrow> (True, v) | None \<Rightarrow> (False, text)) = (negative, number)"
    using assms(2) by (auto split: option.splits)
  have neg: "checked_i64 (- int k) = Some m \<longleftrightarrow> m = - int k" if "int k \<le> i64_max" for k
    using that by (auto simp: checked_i64_def range_defs)
  let ?w = "digits_value whole"
  have w: "?w \<le> nat i64_max" if "int ?w * 1000000 \<le> i64_max"
    using that by (simp add: range_defs)
  show ?thesis
  proof (cases fraction)
    case None
    then show ?thesis
      using assms(1) start w neg [of "scaled_value 6 whole fraction"]
      by (cases negative)
         (auto simp: parse_signed_decimal_micros_def outcome_simps decimal_digits_def parse_i64_digits
           parse_digits_Some scaled_value_def checked_i64_nonneg micros_value_def)
  next
    case (Some f)
    have w': "int ?w * 1000000 \<le> i64_max"
      if "int ?w * 1000000 + int (digits_value f) * 10 ^ (6 - length f) \<le> i64_max"
    proof -
      have "0 \<le> int (digits_value f) * 10 ^ (6 - length f)" by simp
      with that show ?thesis by linarith
    qed
    show ?thesis
      using assms(1) start w w' neg [of "scaled_value 6 whole fraction"] fraction_fits_i64 [of f] Some
      by (cases negative)
         (auto simp: parse_signed_decimal_micros_def outcome_simps decimal_digits_def parse_i64_digits
           parse_digits_Some scaled_value_def checked_i64_nonneg micros_value_def)
  qed
qed

lemma parse_signed_Value:
  "parse_signed_decimal_micros text n = Value m \<longleftrightarrow>
   (\<exists>negative whole fraction. text = (if negative then ''-'' else []) @ decimal_text whole fraction \<and>
      decimal_digits whole fraction 6 \<and> int (scaled_value 6 whole fraction) \<le> i64_max \<and>
      m = micros_value negative whole fraction)" (is "?l \<longleftrightarrow> ?r")
proof
  assume l: ?l
  define negative where "negative = (strip_prefix ''-'' text \<noteq> None)"
  define number where "number = (case strip_prefix ''-'' text of Some v \<Rightarrow> v | None \<Rightarrow> text)"
  obtain whole fraction where dp: "decimal_parts number = (whole, fraction)" by fastforce
  have sp: "case strip_prefix ''-'' text of Some v \<Rightarrow> negative \<and> v = number
         | None \<Rightarrow> \<not> negative \<and> text = number"
    by (simp add: negative_def number_def split: option.splits)
  have "text = (if negative then ''-'' else []) @ number"
    by (auto simp: negative_def number_def strip_prefix_iff split: option.splits)
  then show ?r using l parse_signed_text [OF dp sp] decimal_parts_eq [OF dp] by blast
next
  assume ?r
  then obtain negative whole fraction where
    t: "text = (if negative then ''-'' else []) @ decimal_text whole fraction"
    and rest: "decimal_digits whole fraction 6" "int (scaled_value 6 whole fraction) \<le> i64_max"
      "m = micros_value negative whole fraction" by blast
  have "strip_prefix ''-'' (decimal_text whole fraction) = None"
  proof -
    have "CHR ''-'' \<notin> set (decimal_text whole fraction)" by (rule decimal_parts_text(3) [OF rest(1)])
    then show ?thesis by (cases "decimal_text whole fraction") auto
  qed
  then have "case strip_prefix ''-'' text of Some v \<Rightarrow> negative \<and> v = decimal_text whole fraction
         | None \<Rightarrow> \<not> negative \<and> text = decimal_text whole fraction"
    by (simp add: t)
  from parse_signed_text [OF decimal_parts_text(1) [OF rest(1)] this] show ?l using rest by blast
qed

section \<open>The media playlist\<close>

definition segment_ok :: "resource \<Rightarrow> segment \<Rightarrow> bool" where
  "segment_ok src s =
     (r_origin (sg_resource s) = r_origin src \<and>
      normalize_absolute_path (r_path (sg_resource s)) = Value (r_path (sg_resource s)) \<and>
      ends_with ''.ts'' (to_lower (path_without_query (r_path (sg_resource s)))) \<and>
      0 < sg_duration s)"

definition media_inv :: "resource \<Rightarrow> media_state \<Rightarrow> bool" where
  "media_inv src st =
     ((md_duration st \<noteq> None \<or> md_segments st \<noteq> [] \<longrightarrow> md_sequence st \<noteq> None) \<and>
      opt_all (\<lambda>d. 0 < d) (md_duration st) \<and> (md_end_list st \<longrightarrow> md_duration st = None) \<and>
      opt_all (\<lambda>t. 0 < t \<and> t \<le> u64_max) (md_target st) \<and>
      opt_all (\<lambda>f. map sg_sequence (md_segments st) = [f ..< f + length (md_segments st)]) (md_sequence st) \<and>
      list_all (segment_ok src) (md_segments st))"

lemma media_header_tag_Value:
  assumes "media_header_tag st n line = Some r" and "r = Value st'"
  shows "md_duration st' = md_duration st \<and> md_segments st' = md_segments st \<and>
    md_end_list st' = md_end_list st \<and>
    (md_sequence st = None \<or> md_sequence st' = md_sequence st) \<and>
    (md_target st' = md_target st \<or> opt_all (\<lambda>t. 0 < t \<and> t \<le> u64_max) (md_target st'))"
  using assms by (auto simp: media_header_tag_def outcome_simps parse_positive_u64_Value parse_digits_Some
      split: option.splits)

lemma media_header_tag_no_Panic: "media_header_tag st n line \<noteq> Some Panic"
  by (simp add: media_header_tag_def outcome_simps split: option.splits)

lemma media_segment_tag_no_Panic: "media_segment_tag st n line \<noteq> Panic"
  by (simp add: media_segment_tag_def outcome_simps split: option.splits)

text \<open>Away from the header tags a line is an \<open>EXTINF\<close> that sets the duration, or changes no content.\<close>

lemma media_segment_tag_Value:
  assumes "media_segment_tag st n line = Value st'"
  shows "md_segments st' = md_segments st \<and> md_sequence st' = md_sequence st \<and> md_target st' = md_target st \<and>
    (md_end_list st' \<longrightarrow> md_end_list st \<or> strip_prefix ''#EXTINF:'' line = None) \<and>
    (case strip_prefix ''#EXTINF:'' line of
       None \<Rightarrow> md_duration st' = md_duration st
     | Some value \<Rightarrow> md_sequence st \<noteq> None \<and> (\<exists>d. parse_extinf value n = Value d \<and> md_duration st' = Some d))"
proof (cases "strip_prefix ''#EXTINF:'' line")
  case None
  then show ?thesis
    using assms by (auto simp: media_segment_tag_def outcome_simps split: option.splits if_splits)
next
  case (Some v)
  then have "line = ''#EXTINF:'' @ v" by (simp add: strip_prefix_iff)
  then show ?thesis
    using assms Some by (auto simp: media_segment_tag_def outcome_simps split: if_splits)
qed

lemma media_uri_Value:
  assumes "media_uri src st n line = Value st'"
  obtains d f res where "md_duration st = Some d" "md_sequence st = Some f"
    "f + length (md_segments st) \<le> u64_max" "resolve src line = Value res"
    "ends_with ''.ts'' (to_lower (path_without_query (r_path res)))"
    "md_segments st' = md_segments st @
       [\<lparr>sg_sequence = f + length (md_segments st), sg_duration = d, sg_resource = res\<rparr>]"
    "md_duration st' = None" "md_sequence st' = md_sequence st" "md_target st' = md_target st"
  using assms by (auto simp: media_uri_def outcome_simps checked_nat_Some split: if_splits)

lemma media_tag_Value:
  assumes "media_tag st n line = Value st'"
  shows "md_duration st = None \<and> md_segments st' = md_segments st \<and>
    (md_sequence st = None \<or> md_sequence st' = md_sequence st) \<and>
    (md_target st' = md_target st \<or> opt_all (\<lambda>t. 0 < t \<and> t \<le> u64_max) (md_target st')) \<and>
    (md_end_list st' \<longrightarrow> md_end_list st \<or> strip_prefix ''#EXTINF:'' line = None) \<and>
    (case strip_prefix ''#EXTINF:'' line of
       None \<Rightarrow> md_duration st' = None
     | Some v \<Rightarrow> md_sequence st' \<noteq> None \<and> (\<exists>d. parse_extinf v n = Value d \<and> md_duration st' = Some d))"
proof (cases "media_header_tag st n line")
  case None
  then have "media_segment_tag st n line = Value st'" "md_duration st = None"
    using assms by (auto simp: media_tag_def outcome_simps split: if_splits)
  then show ?thesis using media_segment_tag_Value [of st n line st'] by (auto split: option.splits)
next
  case (Some r)
  then have r: "r = Value st'" "md_duration st = None"
    using assms by (auto simp: media_tag_def outcome_simps split: if_splits)
  have "strip_prefix ''#EXTINF:'' line = None"
  proof (rule ccontr)
    assume "strip_prefix ''#EXTINF:'' line \<noteq> None"
    then obtain v where "line = ''#EXTINF:'' @ v" by (auto simp: strip_prefix_iff)
    then show False using Some by (simp add: media_header_tag_def)
  qed
  then show ?thesis using media_header_tag_Value [OF Some r(1)] r(2) by simp
qed

lemma media_line_Value:
  assumes "media_line src st n line = Value st'" and "media_inv src st"
  shows "media_uri src st n line = Value st' \<and> \<not> starts_with ''#'' line \<and> line \<noteq> [] \<and> md_duration st \<noteq> None \<or>
    st' = st \<and> md_duration st = None \<and> strip_prefix ''#EXTINF:'' line = None \<or>
    media_tag st n line = Value st' \<and> \<not> md_end_list st"
proof -
  have ext: "starts_with ''#EXT'' line \<and> line \<noteq> []" if "strip_prefix ''#EXTINF:'' line \<noteq> None"
    using that by (auto simp: strip_prefix_iff starts_with_iff)
  have dur: "md_duration st \<noteq> None" if "media_uri src st n line = Value st'"
    using that by (auto simp: media_uri_def outcome_simps)
  have ended: "md_end_list st \<Longrightarrow> md_duration st = None" using assms(2) by (simp add: media_inv_def)
  show ?thesis
    using assms(1) ext dur ended
    by (cases "strip_prefix ''#EXTINF:'' line") (auto simp: media_line_def outcome_simps split: if_splits)
qed

lemma media_line_inv:
  assumes inv: "media_inv src st" and step: "media_line src st n line = Value st'"
  shows "media_inv src st'"
  using media_line_Value [OF step inv]
proof (elim disjE conjE)
  assume uri: "media_uri src st n line = Value st'"
  show ?thesis
  proof (rule media_uri_Value [OF uri])
    fix d f res
    assume st: "md_duration st = Some d" "md_sequence st = Some f" and res: "resolve src line = Value res"
      and ts: "ends_with ''.ts'' (to_lower (path_without_query (r_path res)))"
      and segs: "md_segments st' = md_segments st @
        [\<lparr>sg_sequence = f + length (md_segments st), sg_duration = d, sg_resource = res\<rparr>]"
      and st': "md_duration st' = None" "md_sequence st' = md_sequence st" "md_target st' = md_target st"
    have "segment_ok src \<lparr>sg_sequence = f + length (md_segments st), sg_duration = d, sg_resource = res\<rparr>"
      using inv st resolve_Value [OF res] ts normalize_canonical by (simp add: media_inv_def segment_ok_def)
    then show ?thesis using inv st segs st' by (simp add: media_inv_def)
  qed
next
  assume "st' = st"
  then show ?thesis using inv by simp
next
  assume tag: "media_tag st n line = Value st'" and open_list: "\<not> md_end_list st"
  note eff = media_tag_Value [OF tag]
  have pos: "0 < d" if "parse_extinf v n = Value d" for v d using that by (auto simp: parse_extinf_Value)
  show ?thesis
  proof (cases "strip_prefix ''#EXTINF:'' line")
    case None
    then show ?thesis using inv eff open_list by (auto simp: media_inv_def)
  next
    case (Some v)
    then show ?thesis using inv eff open_list pos by (auto simp: media_inv_def)
  qed
qed

lemma media_line_no_Panic: "media_inv src st \<Longrightarrow> media_line src st n line \<noteq> Panic"
proof -
  assume inv: "media_inv src st"
  have "media_tag st n line \<noteq> Panic"
    using media_header_tag_no_Panic [of st n line] media_segment_tag_no_Panic [of st n line]
    by (auto simp: media_tag_def outcome_simps split: option.splits)
  moreover have "media_uri src st n line \<noteq> Panic"
    using inv resolve_no_Panic by (auto simp: media_uri_def outcome_simps media_inv_def ok_or_def split: option.splits)
  ultimately show ?thesis by (simp add: media_line_def outcome_simps)
qed

interpretation media: line_parser "media_line src" media_start "media_inv src" for src
proof unfold_locales
  show "media_inv src media_start" by (simp add: media_inv_def media_start_def)
qed (rule media_line_inv, assumption+, rule media_line_no_Panic)

lemma media_finish_Value:
  "media_finish src st = Value p \<longleftrightarrow>
     md_duration st = None \<and> \<not> md_program_time st \<and>
     (\<exists>t f. md_target st = Some t \<and> md_sequence st = Some f \<and> f + length (md_segments st) \<le> u64_max \<and>
       p = \<lparr>pl_source = src, pl_version = md_version st, pl_target_duration_secs = t,
          pl_start_offset_micros = md_start st, pl_media_sequence = f, pl_playlist_type = md_type st,
          pl_segments = md_segments st, pl_end_list = md_end_list st\<rparr>)"
  by (auto simp: media_finish_def outcome_simps checked_nat_Some)

lemma media_finish_no_Panic: "media_finish src st \<noteq> Panic"
  by (simp add: media_finish_def outcome_simps)

lemma parse_media_Value:
  assumes "parse_media src text = Value p"
  obtains lines st where "playlist_lines text = Value lines"
    "run_lines (media_line src) media_start (drop 1 lines) = Value st" "media_inv src st"
    "media_finish src st = Value p"
  using assms media.accepted_inv by (auto simp: parse_media_def outcome_simps)

text \<open>
  The reference extraction: each \<open>EXTINF\<close> line paired with the line after it, given the \<open>EXTINF\<close> (line
  number and value) still waiting for its URI.
\<close>

fun extinf_pairs :: "(nat \<times> string) option \<Rightarrow> (nat \<times> string) list \<Rightarrow> (nat \<times> string \<times> string) list" where
  "extinf_pairs pending [] = []"
| "extinf_pairs (Some (m, v)) ((n, line) # rest) = (m, v, line) # extinf_pairs None rest"
| "extinf_pairs None ((n, line) # rest) =
     extinf_pairs (map_option (\<lambda>v. (n, v)) (strip_prefix ''#EXTINF:'' line)) rest"

definition segment_of :: "resource \<Rightarrow> nat \<times> string \<times> string \<Rightarrow> segment \<Rightarrow> bool" where
  "segment_of src x s = (case x of (n, v, uri) \<Rightarrow>
     parse_extinf v n = Value (sg_duration s) \<and> resolve src uri = Value (sg_resource s))"

lemma segment_of_simp [simp]:
  "segment_of src (n, v, uri) s \<longleftrightarrow>
     parse_extinf v n = Value (sg_duration s) \<and> resolve src uri = Value (sg_resource s)"
  by (simp add: segment_of_def)

lemma run_pairs:
  assumes "run_lines (media_line src) st lines = Value st'" and "media_inv src st"
    and "md_duration st' = None"
    and "case pending of None \<Rightarrow> md_duration st = None
         | Some (m, v) \<Rightarrow> \<exists>d. parse_extinf v m = Value d \<and> md_duration st = Some d"
  shows "\<exists>new. md_segments st' = md_segments st @ new \<and> list_all2 (segment_of src) (extinf_pairs pending lines) new"
  using assms
proof (induction lines arbitrary: st pending)
  case Nil
  then show ?case by simp
next
  case (Cons l lines)
  obtain n line where l: "l = (n, line)" by (cases l)
  from Cons.prems(1) obtain st1 where step: "media_line src st n line = Value st1"
    and run: "run_lines (media_line src) st1 lines = Value st'"
    by (auto simp: l outcome_simps)
  note inv1 = media_line_inv [OF Cons.prems(2) step]
  from media_line_Value [OF step Cons.prems(2)] show ?case
  proof (elim disjE conjE)
    assume uri: "media_uri src st n line = Value st1"
    show ?thesis
    proof (rule media_uri_Value [OF uri])
      fix d f res
      assume st: "md_duration st = Some d" and res: "resolve src line = Value res"
        and segs: "md_segments st1 = md_segments st @
          [\<lparr>sg_sequence = f + length (md_segments st), sg_duration = d, sg_resource = res\<rparr>]"
        and st1: "md_duration st1 = None"
      from st Cons.prems(4) obtain m v where pend: "pending = Some (m, v)" and d: "parse_extinf v m = Value d"
        by (auto split: option.splits)
      from Cons.IH [OF run inv1 Cons.prems(3), of None] st1 obtain new where
        "md_segments st' = md_segments st1 @ new" "list_all2 (segment_of src) (extinf_pairs None lines) new"
        by auto
      then show ?thesis using segs res d by (auto simp: pend l)
    qed
  next
    assume "st1 = st" "md_duration st = None" and no: "strip_prefix ''#EXTINF:'' line = None"
    then show ?thesis
      using Cons.IH [OF run inv1 Cons.prems(3), of None] Cons.prems(4)
      by (auto simp: l split: option.splits)
  next
    assume tag: "media_tag st n line = Value st1"
    note eff = media_tag_Value [OF tag]
    have pend: "pending = None" using Cons.prems(4) eff by (auto split: option.splits)
    show ?thesis
      using Cons.IH [OF run inv1 Cons.prems(3), of "map_option (\<lambda>v. (n, v)) (strip_prefix ''#EXTINF:'' line)"] eff
      by (auto simp: l pend split: option.splits)
  qed
qed

section \<open>The master playlist\<close>

definition is_uri_line :: "string \<Rightarrow> bool" where
  "is_uri_line line = (line \<noteq> [] \<and> \<not> starts_with ''#'' line)"

definition is_stream_line :: "string \<Rightarrow> bool" where
  "is_stream_line line = (strip_prefix ''#EXT-X-STREAM-INF:'' line \<noteq> None)"

definition plain_line :: "nat \<times> string \<Rightarrow> bool" where
  "plain_line l = (\<not> is_uri_line (snd l) \<and> \<not> is_stream_line (snd l))"

text \<open>The lines read so far, for each state of the parser.\<close>

definition stream_pair :: "resource \<Rightarrow> variant \<Rightarrow> nat \<times> string \<Rightarrow> nat \<times> string \<Rightarrow> bool" where
  "stream_pair src v l1 l2 =
     (\<exists>value. snd l1 = ''#EXT-X-STREAM-INF:'' @ value \<and> parse_variant_bandwidth value (fst l1) = Value (v_bandwidth v) \<and>
        resolve src (snd l2) = Value (v_resource v) \<and>
        ends_with ''.m3u8'' (path_without_query (r_path (v_resource v))))"

definition master_shape :: "resource \<Rightarrow> (nat \<times> string) list \<Rightarrow> master_state \<Rightarrow> bool" where
  "master_shape src seen st =
     (case ms_variant st of
        None \<Rightarrow>
          (case ms_bandwidth st of
             None \<Rightarrow> list_all plain_line seen
           | Some b \<Rightarrow> \<exists>pre n value. seen = pre @ [(n, ''#EXT-X-STREAM-INF:'' @ value)] \<and> list_all plain_line pre \<and>
               parse_variant_bandwidth value n = Value b)
      | Some v \<Rightarrow> ms_bandwidth st = None \<and>
          (\<exists>pre l1 l2 post. seen = pre @ [l1, l2] @ post \<and> list_all plain_line pre \<and> list_all plain_line post \<and>
             stream_pair src v l1 l2))"

lemma master_tag_Value:
  assumes "master_tag st n line = Value st'"
  shows "ms_bandwidth st = None \<and> ms_variant st' = ms_variant st \<and>
    (case strip_prefix ''#EXT-X-STREAM-INF:'' line of
       None \<Rightarrow> ms_bandwidth st' = None
     | Some v \<Rightarrow> ms_variant st = None \<and> (\<exists>b. parse_variant_bandwidth v n = Value b \<and> ms_bandwidth st' = Some b))"
  using assms by (auto simp: master_tag_def outcome_simps split: option.splits if_splits)

lemma master_uri_Value:
  assumes "master_uri src st n line = Value st'"
  obtains b res where "ms_bandwidth st = Some b" "ms_variant st = None" "resolve src line = Value res"
    "ends_with ''.m3u8'' (path_without_query (r_path res))"
    "ms_bandwidth st' = None" "ms_variant st' = Some \<lparr>v_resource = res, v_bandwidth = b\<rparr>"
  using assms by (auto simp: master_uri_def outcome_simps split: if_splits)

lemma master_tag_no_Panic: "master_tag st n line \<noteq> Panic"
  by (simp add: master_tag_def outcome_simps split: option.splits)

lemma master_uri_no_Panic: "master_uri src st n line \<noteq> Panic"
  by (auto simp: master_uri_def outcome_simps resolve_no_Panic split: if_splits)

lemma master_line_no_Panic: "master_line src st n line \<noteq> Panic"
  by (simp add: master_line_def outcome_simps master_tag_no_Panic master_uri_no_Panic)

lemma stream_line_not_uri: "strip_prefix ''#EXT-X-STREAM-INF:'' line = Some v \<Longrightarrow> starts_with ''#'' line"
  by (auto simp: strip_prefix_iff starts_with_iff)

lemma master_step_shape:
  assumes shape: "master_shape src seen st" and step: "master_line src st n line = Value st'"
  shows "master_shape src (seen @ [(n, line)]) st'"
proof (cases "line = [] \<or> starts_with ''#'' line")
  case False
  then have "master_uri src st n line = Value st'" using step by (simp add: master_line_def)
  then show ?thesis
  proof (rule master_uri_Value)
    fix b res
    assume st: "ms_bandwidth st = Some b" "ms_variant st = None" and res: "resolve src line = Value res"
      and m3u8: "ends_with ''.m3u8'' (path_without_query (r_path res))"
      and st': "ms_bandwidth st' = None" "ms_variant st' = Some \<lparr>v_resource = res, v_bandwidth = b\<rparr>"
    from shape st obtain pre m v where seen: "seen = pre @ [(m, ''#EXT-X-STREAM-INF:'' @ v)]"
      and pre: "list_all plain_line pre" and b: "parse_variant_bandwidth v m = Value b"
      by (auto simp: master_shape_def)
    have "stream_pair src \<lparr>v_resource = res, v_bandwidth = b\<rparr> (m, ''#EXT-X-STREAM-INF:'' @ v) (n, line)"
      using b res m3u8 by (simp add: stream_pair_def)
    moreover have "seen @ [(n, line)] = pre @ [(m, ''#EXT-X-STREAM-INF:'' @ v), (n, line)] @ []"
      by (simp add: seen)
    ultimately have "\<exists>pre l1 l2 post. seen @ [(n, line)] = pre @ [l1, l2] @ post \<and> list_all plain_line pre \<and>
        list_all plain_line post \<and> stream_pair src \<lparr>v_resource = res, v_bandwidth = b\<rparr> l1 l2"
      using pre by (intro exI conjI) (assumption | simp)+
    then show ?thesis by (simp add: master_shape_def st')
  qed
next
  case no_uri: True
  have keep: "master_shape src (seen @ [(n, line)]) st'"
    if "plain_line (n, line)" "ms_bandwidth st = None" "ms_variant st' = ms_variant st" "ms_bandwidth st' = None"
  proof (cases "ms_variant st")
    case None
    then show ?thesis using shape that by (simp add: master_shape_def)
  next
    case (Some v)
    with shape obtain pre l1 l2 post where "seen = pre @ [l1, l2] @ post" "list_all plain_line pre"
      "list_all plain_line post" "stream_pair src v l1 l2"
      by (auto simp: master_shape_def)
    then have "seen @ [(n, line)] = pre @ [l1, l2] @ (post @ [(n, line)]) \<and> list_all plain_line pre \<and>
        list_all plain_line (post @ [(n, line)]) \<and> stream_pair src v l1 l2"
      using that(1) by simp
    then have "\<exists>pre l1 l2 post. seen @ [(n, line)] = pre @ [l1, l2] @ post \<and> list_all plain_line pre \<and>
        list_all plain_line post \<and> stream_pair src v l1 l2" by blast
    then show ?thesis using Some that by (simp only: master_shape_def option.case simp_thms)
  qed
  show ?thesis
  proof (cases "line = []")
    case True
    then show ?thesis
      using step keep by (auto simp: master_line_def outcome_simps plain_line_def is_uri_line_def
          is_stream_line_def split: if_splits)
  next
    case False
    with no_uri step have tag: "master_tag st n line = Value st'" and hash: "starts_with ''#'' line"
      by (simp_all add: master_line_def)
    note eff = master_tag_Value [OF tag]
    show ?thesis
    proof (cases "strip_prefix ''#EXT-X-STREAM-INF:'' line")
      case None
      then show ?thesis using eff hash by (intro keep) (simp_all add: plain_line_def is_uri_line_def is_stream_line_def)
    next
      case (Some v)
      then have "line = ''#EXT-X-STREAM-INF:'' @ v" by (simp add: strip_prefix_iff)
      then show ?thesis using eff shape Some by (auto simp: master_shape_def)
    qed
  qed
qed

lemma master_run_shape:
  "run_lines (master_line src) st lines = Value st' \<Longrightarrow> master_shape src seen st \<Longrightarrow>
   master_shape src (seen @ lines) st'"
proof (induction lines arbitrary: st seen)
  case (Cons l lines)
  obtain n line where l: "l = (n, line)" by (cases l)
  from Cons.prems(1) obtain st1 where step: "master_line src st n line = Value st1"
    and run: "run_lines (master_line src) st1 lines = Value st'"
    by (auto simp: l outcome_simps)
  from Cons.IH [OF run master_step_shape [OF Cons.prems(2) step]] show ?case by (simp add: l)
qed simp

lemma parse_positive_value: "parse_variant_bandwidth v n = Value b \<Longrightarrow> 0 < b \<and> b \<le> u64_max"
proof -
  have attrs: "opt_all (\<lambda>b. 0 < b \<and> b \<le> u64_max) b' \<Longrightarrow>
      variant_attributes m keys b' items = Value r \<Longrightarrow> opt_all (\<lambda>b. 0 < b \<and> b \<le> u64_max) r" for m keys b' items r
    by (induction m keys b' items rule: variant_attributes.induct)
       (auto simp: outcome_simps Let_def parse_positive_u64_Value parse_digits_Some split: if_splits)
  assume "parse_variant_bandwidth v n = Value b"
  then obtain items where "variant_attributes n [] None items = Value (Some b)"
    by (auto simp: parse_variant_bandwidth_def outcome_simps split: if_splits prod.splits)
  from attrs [OF _ this] show ?thesis by simp
qed

interpretation master: line_parser "master_line src" master_start
  "\<lambda>st. opt_all (\<lambda>v. r_origin (v_resource v) = r_origin src \<and> 0 < v_bandwidth v) (ms_variant st) \<and>
     opt_all (\<lambda>b. 0 < b) (ms_bandwidth st)" for src
proof unfold_locales
  fix st st' n line
  assume inv: "opt_all (\<lambda>v. r_origin (v_resource v) = r_origin src \<and> 0 < v_bandwidth v) (ms_variant st) \<and>
     opt_all (\<lambda>b. 0 < b) (ms_bandwidth st)" and step: "master_line src st n line = Value st'"
  have uri: "opt_all (\<lambda>v. r_origin (v_resource v) = r_origin src \<and> 0 < v_bandwidth v) (ms_variant st') \<and>
     opt_all (\<lambda>b. 0 < b) (ms_bandwidth st')" if "master_uri src st n line = Value st'"
    using that inv by (auto elim!: master_uri_Value simp: resolve_Value)
  have "opt_all (\<lambda>b. 0 < b) (ms_bandwidth st') \<and> ms_variant st' = ms_variant st" if "master_tag st n line = Value st'"
    using master_tag_Value [OF that] parse_positive_value by (auto split: option.splits)
  then show "opt_all (\<lambda>v. r_origin (v_resource v) = r_origin src \<and> 0 < v_bandwidth v) (ms_variant st') \<and>
     opt_all (\<lambda>b. 0 < b) (ms_bandwidth st')"
    using inv step uri by (auto simp: master_line_def outcome_simps split: if_splits)
qed (simp_all add: master_start_def master_line_no_Panic)

section \<open>The start of a playlist\<close>

definition content_ns :: "media_playlist \<Rightarrow> nat" where
  "content_ns p = sum_list (map sg_duration (pl_segments p))"

lemma foldl_Raise:
  "foldl (\<lambda>acc s. and_then acc (\<lambda>t. ok_or (duration_checked_add t (sg_duration s)) DurationOverflow))
     (Raise e) ss = Raise e"
  by (induction ss) simp_all

lemma total_duration_eq:
  "total_duration p = (if content_ns p \<le> duration_max then Value (content_ns p) else Raise DurationOverflow)"
proof -
  have "foldl (\<lambda>acc s. and_then acc (\<lambda>t. ok_or (duration_checked_add t (sg_duration s)) DurationOverflow))
      (Value t) ss =
    (if t + sum_list (map sg_duration ss) \<le> duration_max then Value (t + sum_list (map sg_duration ss))
     else Raise DurationOverflow)" if "t \<le> duration_max" for t ss
    using that
  proof (induction ss arbitrary: t)
    case (Cons s ss)
    show ?case
    proof (cases "t + sg_duration s \<le> duration_max")
      case True
      then show ?thesis using Cons.IH [OF True]
        by (simp add: duration_checked_add_def checked_nat_def ok_or_def add.assoc)
    next
      case False
      then have "ok_or (duration_checked_add t (sg_duration s)) DurationOverflow = Raise DurationOverflow"
        by (simp add: duration_checked_add_def checked_nat_def ok_or_def)
      then show ?thesis using False by (simp add: foldl_Raise)
    qed
  qed simp
  from this [of 0 "pl_segments p"] show ?thesis
    by (simp add: total_duration_def content_ns_def)
qed

lemma start_search_eq:
  "e \<le> target \<Longrightarrow> e + sum_list ds \<le> u128_max \<Longrightarrow>
   \<exists>k. start_search target e idx ds = Value (idx + k) \<and> k \<le> length ds \<and> e + sum_list (take k ds) \<le> target \<and>
     (k < length ds \<longrightarrow> target < e + sum_list (take (Suc k) ds))"
proof (induction ds arbitrary: e idx)
  case (Cons d ds)
  show ?case
  proof (cases "e + d > target")
    case True
    then show ?thesis using Cons.prems
      by (intro exI [of _ 0]) (simp add: checked_nat_def ok_or_def)
  next
    case False
    then obtain k where k: "start_search target (e + d) (idx + 1) ds = Value (idx + 1 + k)" "k \<le> length ds"
      "e + d + sum_list (take k ds) \<le> target" "k < length ds \<longrightarrow> target < e + d + sum_list (take (Suc k) ds)"
      using Cons.IH [of "e + d" "idx + 1"] Cons.prems by auto
    then show ?thesis using Cons.prems False
      by (intro exI [of _ "Suc k"]) (simp add: checked_nat_def ok_or_def add.assoc)
  qed
qed simp

text \<open>The content time the tag asks for: from the head, or from the tail when negative.\<close>

definition start_target :: "int \<Rightarrow> nat \<Rightarrow> nat" where
  "start_target offset content =
     (if offset < 0 then content - nat (- offset) * 1000 else min (nat offset * 1000) content)"

lemma start_magnitude: "is_i64 offset \<Longrightarrow> sat_mul u128_max (nat \<bar>offset\<bar>) 1000 = nat \<bar>offset\<bar> * 1000"
proof -
  assume "is_i64 offset"
  then have "nat \<bar>offset\<bar> \<le> 9223372036854775808" by (auto simp: is_i64_def range_defs)
  then show ?thesis by (simp add: sat_mul_def u128_max_def)
qed

section \<open>Properties\<close>

text \<open>
  No text makes the parsers panic: the \<open>expect\<close> on the media sequence in \<open>parse_media\<close> cannot fail,
  because an \<open>EXTINF\<close> is only accepted once the media sequence is known; every other failure is an error
  value.
\<close>

theorem parsers_never_panic: "parse_media src text \<noteq> Panic \<and> parse_master src text \<noteq> Panic"
proof
  show "parse_media src text \<noteq> Panic"
    by (simp add: parse_media_def outcome_simps playlist_lines_no_Panic media.never_Panic media_finish_no_Panic)
  show "parse_master src text \<noteq> Panic"
    by (simp add: parse_master_def outcome_simps playlist_lines_no_Panic master.never_Panic)
qed

text \<open>
  C31. An accepted media playlist is a gap-free run: its segments are numbered consecutively from the
  media sequence and the next number still fits \<open>u64\<close>; every segment lies on the source's origin under
  a canonical path ending in \<open>.ts\<close> and has a positive duration; the target duration is positive.
\<close>

theorem media_playlist_well_formed:
  assumes "parse_media src text = Value p"
  shows "pl_source p = src \<and>
    map sg_sequence (pl_segments p) = [pl_media_sequence p ..< pl_media_sequence p + length (pl_segments p)] \<and>
    pl_media_sequence p + length (pl_segments p) \<le> u64_max \<and>
    list_all (segment_ok src) (pl_segments p) \<and> 0 < pl_target_duration_secs p"
proof (rule parse_media_Value [OF assms])
  fix lines st
  assume "media_inv src st" and "media_finish src st = Value p"
  then show ?thesis by (auto simp: media_finish_Value media_inv_def)
qed

text \<open>
  C30. The segments are exactly the \<open>EXTINF\<close>/URI pairs of the text, in order: each has the duration its
  \<open>EXTINF\<close> states and the resource the line right after it resolves to. No segment is lost, invented or
  reordered.
\<close>

theorem segments_are_extinf_pairs:
  assumes "parse_media src text = Value p"
  shows "\<exists>lines. playlist_lines text = Value lines \<and>
    list_all2 (segment_of src) (extinf_pairs None (drop 1 lines)) (pl_segments p)"
proof (rule parse_media_Value [OF assms])
  fix lines st
  assume lines: "playlist_lines text = Value lines"
    and run: "run_lines (media_line src) media_start (drop 1 lines) = Value st"
    and fin: "media_finish src st = Value p"
  have "md_duration st = None" "pl_segments p = md_segments st" using fin by (auto simp: media_finish_Value)
  moreover have "md_segments media_start = []" "md_duration media_start = None" by (simp_all add: media_start_def)
  ultimately show ?thesis
    using run_pairs [OF run media.inv_start, of None] lines by auto
qed

text \<open>
  An accepted master has exactly one variant: its lines are one \<open>EXT-X-STREAM-INF\<close> immediately
  followed by one URI, and no other URI or \<open>EXT-X-STREAM-INF\<close> line anywhere; the variant is what that pair
  states, an \<open>.m3u8\<close> on the source's origin with a positive bandwidth.
\<close>

theorem master_has_one_variant:
  assumes "parse_master src text = Value p"
  shows "mp_source p = src \<and> r_origin (v_resource (mp_variant p)) = r_origin src \<and> 0 < v_bandwidth (mp_variant p) \<and>
    (\<exists>header pre l1 l2 post. playlist_lines text = Value (header # pre @ [l1, l2] @ post) \<and>
       list_all plain_line pre \<and> list_all plain_line post \<and> stream_pair src (mp_variant p) l1 l2)"
proof -
  from assms obtain lines st where lines: "playlist_lines text = Value lines"
    and run: "run_lines (master_line src) master_start (drop 1 lines) = Value st"
    and v: "ms_variant st = Some (mp_variant p)" and source: "mp_source p = src"
    by (auto simp: parse_master_def outcome_simps split: if_splits)
  have "master_shape src [] master_start" by (simp add: master_shape_def master_start_def)
  from master_run_shape [OF run this] v obtain pre l1 l2 post where
    shape: "drop 1 lines = pre @ [l1, l2] @ post" "list_all plain_line pre" "list_all plain_line post"
      "stream_pair src (mp_variant p) l1 l2"
    by (auto simp: master_shape_def)
  then obtain header where "lines = header # drop 1 lines" by (cases lines) auto
  with shape have "lines = header # pre @ [l1, l2] @ post" by simp
  with lines shape have "\<exists>header pre l1 l2 post. playlist_lines text = Value (header # pre @ [l1, l2] @ post) \<and>
       list_all plain_line pre \<and> list_all plain_line post \<and> stream_pair src (mp_variant p) l1 l2" by blast
  moreover have "r_origin (v_resource (mp_variant p)) = r_origin src \<and> 0 < v_bandwidth (mp_variant p)"
    using master.accepted_inv [OF run] v by simp
  ultimately show ?thesis using source by blast
qed

text \<open>
  Decimal numbers are read exactly. \<open>EXTINF\<close> accepts precisely the positive decimals with at most nine
  fraction digits whose seconds fit \<open>u64\<close>, as that many nanoseconds; a start offset is precisely an
  optionally negative decimal with at most six fraction digits whose microseconds fit \<open>i64\<close>. Scaled back
  by the fraction's length, the value is the number's digits: nothing is rounded.
\<close>

theorem decimals_read_exactly:
  "(parse_extinf value n = Value d \<longleftrightarrow>
     (\<exists>whole fraction title. value = decimal_text whole fraction @ CHR '','' # title \<and>
        decimal_digits whole fraction 9 \<and> digits_value whole \<le> u64_max \<and> 0 < d \<and>
        d * 10 ^ length (unwrap_or fraction []) = digits_value (whole @ unwrap_or fraction []) * 10 ^ 9)) \<and>
   (parse_signed_decimal_micros text n = Value m \<longleftrightarrow>
     (\<exists>negative whole fraction. text = (if negative then ''-'' else []) @ decimal_text whole fraction \<and>
        decimal_digits whole fraction 6 \<and> \<bar>m\<bar> \<le> i64_max \<and> m = (if negative then - \<bar>m\<bar> else \<bar>m\<bar>) \<and>
        \<bar>m\<bar> * 10 ^ length (unwrap_or fraction []) = int (digits_value (whole @ unwrap_or fraction []) * 10 ^ 6)))"
proof
  have nano: "decimal_digits whole fraction 9 \<Longrightarrow>
      d = scaled_value 9 whole fraction \<longleftrightarrow>
      d * 10 ^ length (unwrap_or fraction []) = digits_value (whole @ unwrap_or fraction []) * 10 ^ 9" for whole fraction
    using scaled_value_exact [of whole fraction 9]
    by (metis mult_cancel2 power_eq_0_iff zero_neq_numeral)
  show "parse_extinf value n = Value d \<longleftrightarrow>
     (\<exists>whole fraction title. value = decimal_text whole fraction @ CHR '','' # title \<and>
        decimal_digits whole fraction 9 \<and> digits_value whole \<le> u64_max \<and> 0 < d \<and>
        d * 10 ^ length (unwrap_or fraction []) = digits_value (whole @ unwrap_or fraction []) * 10 ^ 9)"
    unfolding parse_extinf_Value using nano by blast
next
  have micro: "\<bar>m\<bar> = int (scaled_value 6 whole fraction) \<longleftrightarrow>
      \<bar>m\<bar> * 10 ^ length (unwrap_or fraction []) = int (digits_value (whole @ unwrap_or fraction []) * 10 ^ 6)"
    if "decimal_digits whole fraction 6" for whole fraction
  proof -
    have "int (scaled_value 6 whole fraction) * 10 ^ length (unwrap_or fraction []) =
        int (digits_value (whole @ unwrap_or fraction []) * 10 ^ 6)"
      using scaled_value_exact [OF that] by (metis of_nat_mult of_nat_numeral of_nat_power)
    then show ?thesis by (metis mult_cancel_right power_eq_0_iff zero_neq_numeral)
  qed
  have signs: "m = micros_value negative whole fraction \<longleftrightarrow>
      m = (if negative then - \<bar>m\<bar> else \<bar>m\<bar>) \<and> \<bar>m\<bar> = int (scaled_value 6 whole fraction)" for negative whole fraction
    by (auto simp: micros_value_def)
  show "parse_signed_decimal_micros text n = Value m \<longleftrightarrow>
     (\<exists>negative whole fraction. text = (if negative then ''-'' else []) @ decimal_text whole fraction \<and>
        decimal_digits whole fraction 6 \<and> \<bar>m\<bar> \<le> i64_max \<and> m = (if negative then - \<bar>m\<bar> else \<bar>m\<bar>) \<and>
        \<bar>m\<bar> * 10 ^ length (unwrap_or fraction []) = int (digits_value (whole @ unwrap_or fraction []) * 10 ^ 6))"
    unfolding parse_signed_Value using micro signs by metis
qed

text \<open>
  The start index is the segment that contains the content time \<open>EXT-X-START\<close> asks for (counted from
  the tail when negative, clamped to the content): everything before it ends at or before that time, and
  it ends after it. Without the tag it is the first segment.
\<close>

theorem start_index_is_containing_segment:
  assumes "content_ns p \<le> duration_max" and "pl_start_offset_micros p = Some offset" and "is_i64 offset"
  shows "\<exists>i. preferred_start_index p = Value i \<and> i \<le> length (pl_segments p) \<and>
    sum_list (map sg_duration (take i (pl_segments p))) \<le> start_target offset (content_ns p) \<and>
    (i < length (pl_segments p) \<longrightarrow>
       start_target offset (content_ns p) < sum_list (map sg_duration (take (Suc i) (pl_segments p))))"
proof -
  let ?ds = "map sg_duration (pl_segments p)"
  have fits: "0 + sum_list ?ds \<le> u128_max"
    using assms(1) by (simp add: content_ns_def duration_max_def u128_max_def)
  from start_search_eq [OF le0 fits, of "start_target offset (content_ns p)" 0] obtain k where
    k: "start_search (start_target offset (content_ns p)) 0 0 ?ds = Value k" "k \<le> length ?ds"
      "sum_list (take k ?ds) \<le> start_target offset (content_ns p)"
      "k < length ?ds \<longrightarrow> start_target offset (content_ns p) < sum_list (take (Suc k) ?ds)"
    by auto
  have "preferred_start_index p = Value k"
    using k(1) assms(1,2) start_magnitude [OF assms(3)]
    by (cases "offset < 0") (simp_all add: preferred_start_index_def total_duration_eq start_target_def Let_def)
  then show ?thesis using k by (auto simp: take_map)
qed

section \<open>Concrete playlists\<close>

lemmas parse_eval = byte_eval ok_or_def require_def parse_digits_def parse_unsigned_def checked_nat_def
  digits_value_def digit_value_def range_defs starts_with_def strip_suffix_def ends_with_def

lemmas resolve_eval = resolve_def validate_uri_text_def uri_byte_ok_def has_scheme_def directory_of_def
  path_without_query_def resource_new_def normalize_absolute_path_def

lemmas line_eval = playlist_lines_def check_line_def is_trimmed_ascii

lemmas media_eval = parse_media_def media_line_def media_start_def media_tag_def media_header_tag_def
  media_segment_tag_def media_uri_def media_finish_def parse_positive_u64_def parse_u64_def set_once_def
  parse_extinf_def decimal_parts_def expect_def to_lower_def ascii_lower_def forbidden_feature_def tag_name_def
definition sample_source :: resource where
  "sample_source = \<lparr>r_origin = origin_http ''tv'' 80, r_path = ''/v/main.m3u8''\<rparr>"

definition sample_media_text :: string where
  "sample_media_text = join_with CHR 0x0A
     [''#EXTM3U'', ''#EXT-X-TARGETDURATION:3'', ''#EXT-X-MEDIA-SEQUENCE:7'', ''#EXTINF:2.002,'', ''7.ts'',
      ''#EXTINF:1,x'', ''8.ts'', ''#EXT-X-ENDLIST'']"

definition sample_segment :: "nat \<Rightarrow> duration \<Rightarrow> string \<Rightarrow> segment" where
  "sample_segment n d path = \<lparr>sg_sequence = n, sg_duration = d,
     sg_resource = \<lparr>r_origin = origin_http ''tv'' 80, r_path = path\<rparr>\<rparr>"

definition sample_playlist :: media_playlist where
  "sample_playlist = \<lparr>pl_source = sample_source, pl_version = None, pl_target_duration_secs = 3,
     pl_start_offset_micros = None, pl_media_sequence = 7, pl_playlist_type = None,
     pl_segments = [sample_segment 7 2002000000 ''/v/7.ts'', sample_segment 8 1000000000 ''/v/8.ts''],
     pl_end_list = True\<rparr>"

definition sample_master_text :: string where
  "sample_master_text = join_with CHR 0x0A
     [''#EXTM3U'', ''#EXT-X-STREAM-INF:BANDWIDTH=9,CODECS=x'', ''a.m3u8'']"

definition sample_master_playlist :: master_playlist where
  "sample_master_playlist = \<lparr>mp_source = sample_source, mp_version = None,
     mp_variant = \<lparr>v_resource = \<lparr>r_origin = origin_http ''tv'' 80, r_path = ''/v/a.m3u8''\<rparr>,
       v_bandwidth = 9\<rparr>\<rparr>"

lemma sample_resolve:
  "resolve sample_source ''7.ts'' = Value \<lparr>r_origin = origin_http ''tv'' 80, r_path = ''/v/7.ts''\<rparr>"
  "resolve sample_source ''8.ts'' = Value \<lparr>r_origin = origin_http ''tv'' 80, r_path = ''/v/8.ts''\<rparr>"
  "resolve sample_source ''a.m3u8'' = Value \<lparr>r_origin = origin_http ''tv'' 80, r_path = ''/v/a.m3u8''\<rparr>"
  by (simp_all add: sample_source_def resolve_eval parse_eval)

lemma sample_media_lines: "playlist_lines sample_media_text = Value (zip [1..<9]
    [''#EXTM3U'', ''#EXT-X-TARGETDURATION:3'', ''#EXT-X-MEDIA-SEQUENCE:7'', ''#EXTINF:2.002,'', ''7.ts'',
      ''#EXTINF:1,x'', ''8.ts'', ''#EXT-X-ENDLIST''])"
  by (simp add: sample_media_text_def line_eval parse_eval upt_rec)

lemma sample_media: "parse_media sample_source sample_media_text = Value sample_playlist"
  by (simp add: parse_media_def sample_media_lines sample_resolve media_eval parse_eval path_without_query_def
      sample_playlist_def sample_segment_def upt_rec)

lemma sample_master_lines: "playlist_lines sample_master_text = Value (zip [1..<4]
     [''#EXTM3U'', ''#EXT-X-STREAM-INF:BANDWIDTH=9,CODECS=x'', ''a.m3u8''])"
  by (simp add: sample_master_text_def line_eval parse_eval upt_rec)

lemma sample_master_parsed: "parse_master sample_source sample_master_text = Value sample_master_playlist"
  by (simp add: parse_master_def sample_master_lines sample_resolve master_line_def master_start_def master_tag_def
     master_uri_def parse_variant_bandwidth_def is_key_byte_def parse_positive_u64_def parse_u64_def parse_eval path_without_query_def
      sample_master_playlist_def upt_rec)

lemma media_playlist_well_formed_witness:
  "map sg_sequence (pl_segments sample_playlist) = [7, 8] \<and> list_all (segment_ok sample_source) (pl_segments sample_playlist)"
  using media_playlist_well_formed [OF sample_media]
  by (simp add: sample_playlist_def sample_segment_def upt_rec)

lemma segments_are_extinf_pairs_witness:
  "list_all2 (segment_of sample_source) [(4, ''2.002,'', ''7.ts''), (6, ''1,x'', ''8.ts'')] (pl_segments sample_playlist)"
  using segments_are_extinf_pairs [OF sample_media] by (simp add: sample_media_lines upt_rec numeral_eq_Suc)

lemma master_has_one_variant_witness: "0 < v_bandwidth (mp_variant sample_master_playlist)"
  using master_has_one_variant [OF sample_master_parsed] by simp

lemma start_index_is_containing_segment_witness:
  "\<exists>i. preferred_start_index (sample_playlist\<lparr>pl_start_offset_micros := Some (- 500000)\<rparr>) = Value i \<and> i \<le> 2"
  using start_index_is_containing_segment [of "sample_playlist\<lparr>pl_start_offset_micros := Some (- 500000)\<rparr>" "- 500000"]
  by (auto simp: sample_playlist_def sample_segment_def content_ns_def duration_max_def is_i64_def range_defs)

end
