(* ===== verification/Tracker.thy ===== *)
theory Tracker
  imports Playlist_Correct
begin

text \<open>
  The media tracker of \<open>hls.rs\<close> (\<open>MediaTracker::apply\<close>): the refreshes of one media playlist turned into
  the segments not delivered before. Validation comes first and a failing refresh leaves the tracker
  as it was. Below the model: what every run of refreshes delivers, and exactly when one is accepted.
\<close>

section \<open>The tracker\<close>

record refresh =
  rf_new_segments :: "segment list"
  rf_end_list :: bool

record media_tracker =
  tk_source :: "resource option"
  tk_next :: "nat option"
  tk_seen :: "nat \<rightharpoonup> segment"
  tk_ended :: bool

definition tracker_default :: media_tracker where
  "tracker_default = \<lparr>tk_source = None, tk_next = None, tk_seen = Map.empty, tk_ended = False\<rparr>"

text \<open>The validation loop: the next expected number and the segments to add.\<close>

fun apply_segments ::
  "media_tracker \<Rightarrow> nat \<Rightarrow> segment list \<Rightarrow> segment list \<Rightarrow> (nat \<times> segment list) outcome" where
  "apply_segments t expected additions [] = Value (expected, additions)"
| "apply_segments t expected additions (s # ss) =
     (if sg_sequence s < expected then
        (case tk_seen t (sg_sequence s) of
           Some previous \<Rightarrow>
             if previous = s then apply_segments t expected additions ss
             else Raise (SegmentChanged (sg_sequence s))
         | None \<Rightarrow> Raise (UnknownOldSegment (sg_sequence s)))
      else if sg_sequence s > expected then Raise (SequenceGap expected (sg_sequence s))
      else if tk_ended t then Raise (SegmentAfterEndList (sg_sequence s))
      else and_then (ok_or (checked_nat u64_max (expected + 1)) SequenceOverflow) (\<lambda>next.
        apply_segments t next (additions @ [s]) ss))"

definition insert_seen :: "segment list \<Rightarrow> (nat \<rightharpoonup> segment) \<Rightarrow> nat \<rightharpoonup> segment" where
  "insert_seen additions seen = foldl (\<lambda>m s. m(sg_sequence s \<mapsto> s)) seen additions"

definition apply_checked :: "media_tracker \<Rightarrow> media_playlist \<Rightarrow> (media_tracker \<times> refresh) outcome" where
  "apply_checked t p =
     require (case tk_source t of None \<Rightarrow> True | Some src \<Rightarrow> src = pl_source p) RefreshSourceChanged
     (let start = unwrap_or (tk_next t) (pl_media_sequence p) in
      require (pl_media_sequence p \<le> start) (SequenceGap start (pl_media_sequence p))
      (and_then (apply_segments t start [] (pl_segments p)) (\<lambda>(expected, additions).
       and_then (ok_or (checked_nat u64_max (pl_media_sequence p + length (pl_segments p))) SequenceOverflow)
        (\<lambda>playlist_next.
         require (\<not> (pl_end_list p \<and> playlist_next < expected)) StaleEndList
         (let ended = tk_ended t \<or> pl_end_list p in
          Value (t\<lparr>tk_source := Some (unwrap_or (tk_source t) (pl_source p)),
                   tk_next := Some expected,
                   tk_seen := insert_seen additions (tk_seen t),
                   tk_ended := ended\<rparr>,
                 \<lparr>rf_new_segments = additions, rf_end_list = ended\<rparr>))))))"

definition tracker_apply :: "media_tracker \<Rightarrow> media_playlist \<Rightarrow> media_tracker \<times> refresh outcome" where
  "tracker_apply t p =
     (case apply_checked t p of
        Value (t', r) \<Rightarrow> (t', Value r)
      | Raise e \<Rightarrow> (t, Raise e)
      | Panic \<Rightarrow> (t, Panic))"

section \<open>The validation loop\<close>

lemma numbering_Cons:
  "map f (s # ss) = [e ..< e + length (s # ss)] \<longleftrightarrow> f s = e \<and> map f ss = [Suc e ..< Suc e + length ss]"
proof -
  have "[e ..< e + length (s # ss)] = e # [Suc e ..< Suc e + length ss]"
    by (simp add: upt_conv_Cons del: upt_Suc)
  then show ?thesis by (simp del: upt_Suc)
qed

lemma numbering_append:
  "map f (xs @ ys) = [e ..< e + length (xs @ ys)] \<longleftrightarrow>
   map f xs = [e ..< e + length xs] \<and> map f ys = [e + length xs ..< e + length xs + length ys]"
proof -
  have "[e ..< e + length (xs @ ys)] = [e ..< e + length xs] @ [e + length xs ..< e + length xs + length ys]"
    using upt_add_eq_append [of e "e + length xs" "length ys"] by (simp add: add.assoc)
  then show ?thesis by (simp add: append_eq_append_conv)
qed

lemma apply_segments_no_Panic: "apply_segments t e adds ss \<noteq> Panic"
  by (induction t e adds ss rule: apply_segments.induct)
     (auto simp: outcome_simps split: option.splits if_splits)

text \<open>Whatever the playlist, an accepted loop extends the run without a gap, and not at all once ended.\<close>

lemma apply_segments_Value:
  "apply_segments t e adds ss = Value (e', adds') \<Longrightarrow>
   \<exists>new. adds' = adds @ new \<and> map sg_sequence new = [e ..< e'] \<and> e' = e + length new \<and>
     (tk_ended t \<longrightarrow> new = []) \<and> (new \<noteq> [] \<longrightarrow> e' \<le> u64_max)"
proof (induction t e adds ss rule: apply_segments.induct)
  case (2 t expected additions s ss)
  show ?case
  proof (cases "sg_sequence s < expected")
    case True
    then show ?thesis using 2 by (auto split: option.splits if_splits)
  next
    case False
    then have eq: "sg_sequence s = expected" "\<not> tk_ended t" "expected + 1 \<le> u64_max"
      and rec: "apply_segments t (expected + 1) (additions @ [s]) ss = Value (e', adds')"
      using "2.prems" by (auto simp: outcome_simps checked_nat_Some split: if_splits)
    from False eq rec "2.IH"(2) [of "expected + 1"] obtain new where
      new: "adds' = (additions @ [s]) @ new" "map sg_sequence new = [Suc expected ..< Suc expected + length new]"
      "e' = Suc expected + length new" "new \<noteq> [] \<longrightarrow> e' \<le> u64_max"
      by (auto simp: ok_or_def checked_nat_def)
    then have "map sg_sequence (s # new) = [expected ..< expected + length (s # new)]"
      using eq(1) numbering_Cons [of sg_sequence s new expected] by simp
    moreover have "e' = expected + length (s # new)" "e' \<le> u64_max" using new eq(3) by auto
    ultimately show ?thesis using eq(2) new(1) by (intro exI [of _ "s # new"]) simp
  qed
qed simp

lemma apply_segments_replays:
  "list_all (\<lambda>s. sg_sequence s < e) old \<Longrightarrow>
   apply_segments t e adds (old @ ss) = Value r \<longleftrightarrow>
     list_all (\<lambda>s. tk_seen t (sg_sequence s) = Some s) old \<and> apply_segments t e adds ss = Value r"
  by (induction old) (auto split: option.splits)

lemma apply_segments_news:
  "map sg_sequence new = [e ..< e + length new] \<Longrightarrow> e \<le> u64_max \<Longrightarrow>
   apply_segments t e adds new = Value (e', adds') \<longleftrightarrow>
     (tk_ended t \<longrightarrow> new = []) \<and> e + length new \<le> u64_max \<and> e' = e + length new \<and> adds' = adds @ new"
proof (induction new arbitrary: e adds)
  case (Cons s new)
  then have s: "sg_sequence s = e" and rest: "map sg_sequence new = [Suc e ..< Suc e + length new]"
    using numbering_Cons [of sg_sequence s new e] by simp_all
  show ?case
  proof (cases "e + 1 \<le> u64_max")
    case True
    then show ?thesis using Cons.IH [of "Suc e" "adds @ [s]"] rest s
      by (auto simp: outcome_simps ok_or_def checked_nat_def)
  next
    case False
    then show ?thesis using s by (simp add: outcome_simps checked_nat_def)
  qed
qed auto

section \<open>Runs of refreshes\<close>

definition delivered_by :: "refresh outcome \<Rightarrow> segment list" where
  "delivered_by r = (case r of Value rf \<Rightarrow> rf_new_segments rf | _ \<Rightarrow> [])"

fun track :: "media_tracker \<Rightarrow> media_playlist list \<Rightarrow> media_tracker \<times> segment list" where
  "track t [] = (t, [])"
| "track t (p # ps) =
     (let (t', r) = tracker_apply t p; (t'', rest) = track t' ps in (t'', delivered_by r @ rest))"

text \<open>The tracker's state is a function of the segments it has delivered.\<close>

definition seen_of :: "segment list \<Rightarrow> nat \<rightharpoonup> segment" where
  "seen_of delivered = insert_seen delivered Map.empty"

definition tracks :: "media_tracker \<times> segment list \<Rightarrow> bool" where
  "tracks x = (case x of (t, delivered) \<Rightarrow>
     tk_seen t = seen_of delivered \<and>
     (case tk_next t of
        None \<Rightarrow> delivered = [] \<and> tk_source t = None \<and> \<not> tk_ended t
      | Some n \<Rightarrow> tk_source t \<noteq> None \<and> (\<exists>first. n = first + length delivered \<and>
          map sg_sequence delivered = [first ..< n] \<and> n \<le> u64_max)))"

lemma insert_seen_append: "insert_seen (xs @ ys) seen = insert_seen ys (insert_seen xs seen)"
  by (simp add: insert_seen_def)

lemma insert_seen_other: "n \<notin> sg_sequence ` set xs \<Longrightarrow> insert_seen xs seen n = seen n"
  by (induction xs arbitrary: seen) (auto simp: insert_seen_def)

lemma insert_seen_member:
  "distinct (map sg_sequence xs) \<Longrightarrow> s \<in> set xs \<Longrightarrow> insert_seen xs seen (sg_sequence s) = Some s"
proof (induction xs arbitrary: seen)
  case (Cons x xs)
  then show ?case
    using insert_seen_other [of "sg_sequence x" xs "seen(sg_sequence x \<mapsto> x)"]
    by (auto simp: insert_seen_def)
qed simp

lemma seen_of_iff:
  assumes "map sg_sequence delivered = [first ..< n]"
  shows "seen_of delivered k = Some s \<longleftrightarrow> s \<in> set delivered \<and> sg_sequence s = k"
proof
  have d: "distinct (map sg_sequence delivered)" by (simp add: assms)
  show "s \<in> set delivered \<and> sg_sequence s = k \<Longrightarrow> seen_of delivered k = Some s"
    using insert_seen_member [OF d] by (auto simp: seen_of_def)
  assume l: "seen_of delivered k = Some s"
  then have "k \<in> sg_sequence ` set delivered"
    using insert_seen_other [of k delivered Map.empty] by (auto simp: seen_of_def)
  then obtain s' where "s' \<in> set delivered" "sg_sequence s' = k" by auto
  with insert_seen_member [OF d, of s' Map.empty] l show "s \<in> set delivered \<and> sg_sequence s = k"
    by (simp add: seen_of_def)
qed

lemma apply_checked_Value:
  assumes "apply_checked t p = Value (t', r)"
  obtains e adds where "apply_segments t (unwrap_or (tk_next t) (pl_media_sequence p)) [] (pl_segments p) = Value (e, adds)"
    "t' = t\<lparr>tk_source := Some (unwrap_or (tk_source t) (pl_source p)), tk_next := Some e,
            tk_seen := insert_seen adds (tk_seen t), tk_ended := tk_ended t \<or> pl_end_list p\<rparr>"
    "r = \<lparr>rf_new_segments = adds, rf_end_list = tk_ended t \<or> pl_end_list p\<rparr>"
    "pl_media_sequence p + length (pl_segments p) \<le> u64_max"
  using assms by (auto simp: apply_checked_def outcome_simps Let_def checked_nat_Some)

lemma tracker_apply_inv:
  assumes inv: "tracks (t, d)" and app: "tracker_apply t p = (t', r)"
  shows "tracks (t', d @ delivered_by r)"
proof (cases "apply_checked t p")
  case (Value x)
  obtain t1 rf where x: "x = (t1, rf)" by (cases x)
  have t': "t' = t1" "r = Value rf" using app by (simp_all add: tracker_apply_def Value x)
  have "apply_checked t p = Value (t1, rf)" by (simp add: Value x)
  then show ?thesis
  proof (rule apply_checked_Value)
    fix e adds
    assume loop: "apply_segments t (unwrap_or (tk_next t) (pl_media_sequence p)) [] (pl_segments p) = Value (e, adds)"
      and t1: "t1 = t\<lparr>tk_source := Some (unwrap_or (tk_source t) (pl_source p)), tk_next := Some e,
            tk_seen := insert_seen adds (tk_seen t), tk_ended := tk_ended t \<or> pl_end_list p\<rparr>"
      and rf: "rf = \<lparr>rf_new_segments = adds, rf_end_list = tk_ended t \<or> pl_end_list p\<rparr>"
      and fits: "pl_media_sequence p + length (pl_segments p) \<le> u64_max"
    let ?n = "unwrap_or (tk_next t) (pl_media_sequence p)"
    from apply_segments_Value [OF loop] have adds: "map sg_sequence adds = [?n ..< ?n + length adds]"
      "e = ?n + length adds" "adds \<noteq> [] \<longrightarrow> e \<le> u64_max" by auto
    from inv obtain first where first: "?n = first + length d" "map sg_sequence d = [first ..< first + length d]"
      "?n \<le> u64_max"
      using fits by (cases "tk_next t") (auto simp: tracks_def)
    have "map sg_sequence (d @ adds) = [first ..< first + length (d @ adds)]"
      unfolding numbering_append using first adds(1) by simp
    moreover have "e = first + length (d @ adds)" using first(1) adds(2) by simp
    moreover have "e \<le> u64_max" using first(3) adds(2,3) by (cases "adds = []") auto
    moreover have "insert_seen adds (tk_seen t) = seen_of (d @ adds)"
      using inv by (simp add: tracks_def seen_of_def insert_seen_append)
    ultimately show ?thesis unfolding t' delivered_by_def by (auto simp: tracks_def t1 rf)
  qed
next
  case (Raise e)
  then show ?thesis using inv app by (auto simp: tracker_apply_def delivered_by_def)
next
  case Panic
  then show ?thesis using inv app by (auto simp: tracker_apply_def delivered_by_def)
qed

inductive track_step :: "media_tracker \<times> segment list \<Rightarrow> media_tracker \<times> segment list \<Rightarrow> bool" where
  refreshed: "tracker_apply t p = (t', r) \<Longrightarrow> track_step (t, d) (t', d @ delivered_by r)"

interpretation tracking: state_machine "\<lambda>x. x = (tracker_default, [])" track_step tracks
proof unfold_locales
  show "track_step x y \<Longrightarrow> tracks x \<Longrightarrow> tracks y" for x y
    by (erule track_step.cases) (simp add: tracker_apply_inv)
qed (simp add: tracks_def tracker_default_def seen_of_def insert_seen_def)

lemma track_steps: "track t ps = (t', new) \<Longrightarrow> track_step\<^sup>*\<^sup>* (t, d) (t', d @ new)"
proof (induction ps arbitrary: t d new t')
  case (Cons p ps)
  obtain t1 r where app: "tracker_apply t p = (t1, r)" by fastforce
  obtain t2 rest where run: "track t1 ps = (t2, rest)" by fastforce
  have "track_step (t, d) (t1, d @ delivered_by r)" by (rule refreshed [OF app])
  moreover have "track_step\<^sup>*\<^sup>* (t1, d @ delivered_by r) (t2, (d @ delivered_by r) @ rest)"
    by (rule Cons.IH [OF run])
  ultimately show ?case using Cons.prems by (auto simp: app run)
qed simp

lemma track_tracks: "track tracker_default ps = (t, delivered) \<Longrightarrow> tracks (t, delivered)"
  using tracking.steps_inv [OF track_steps [of tracker_default ps t delivered "[]"]] tracking.inv_start by simp

section \<open>When a refresh is accepted\<close>

text \<open>
  The specification of one refresh of a playlist numbered without gaps, over what has been delivered:
  what it repeats agrees with what was delivered, and it reaches at least to the cursor's start.
\<close>

definition acceptable :: "media_tracker \<Rightarrow> segment list \<Rightarrow> media_playlist \<Rightarrow> bool" where
  "acceptable t delivered p =
     (let n = unwrap_or (tk_next t) (pl_media_sequence p);
          old = take (n - pl_media_sequence p) (pl_segments p);
          new = drop (n - pl_media_sequence p) (pl_segments p)
      in (case tk_source t of None \<Rightarrow> True | Some src \<Rightarrow> src = pl_source p) \<and>
         pl_media_sequence p \<le> n \<and> set old \<subseteq> set delivered \<and>
         (tk_ended t \<longrightarrow> new = []) \<and> pl_media_sequence p + length (pl_segments p) \<le> u64_max \<and>
         (pl_end_list p \<longrightarrow> n \<le> pl_media_sequence p + length (pl_segments p)))"

lemma refresh_accepted_iff:
  assumes inv: "tracks (t, d)"
    and run: "map sg_sequence (pl_segments p) = [pl_media_sequence p ..< pl_media_sequence p + length (pl_segments p)]"
  defines "n \<equiv> unwrap_or (tk_next t) (pl_media_sequence p)"
  shows "apply_checked t p = Value (t', r) \<longleftrightarrow> acceptable t d p \<and>
    t' = t\<lparr>tk_source := Some (unwrap_or (tk_source t) (pl_source p)),
           tk_next := Some (n + length (drop (n - pl_media_sequence p) (pl_segments p))),
           tk_seen := insert_seen (drop (n - pl_media_sequence p) (pl_segments p)) (tk_seen t),
           tk_ended := tk_ended t \<or> pl_end_list p\<rparr> \<and>
    r = \<lparr>rf_new_segments = drop (n - pl_media_sequence p) (pl_segments p),
         rf_end_list = tk_ended t \<or> pl_end_list p\<rparr>"
proof (cases "pl_media_sequence p \<le> n \<and> pl_media_sequence p + length (pl_segments p) \<le> u64_max")
  case False
  then show ?thesis
    by (auto simp: apply_checked_def acceptable_def outcome_simps checked_nat_Some n_def Let_def)
next
  case True
  define old where "old = take (n - pl_media_sequence p) (pl_segments p)"
  define new where "new = drop (n - pl_media_sequence p) (pl_segments p)"
  let ?m = "pl_media_sequence p"
  have segs: "pl_segments p = old @ new" by (simp add: old_def new_def)
  have nums: "map sg_sequence old = [?m ..< ?m + length old]"
    "map sg_sequence new = [?m + length old ..< ?m + length old + length new]"
    using run unfolding segs numbering_append by simp_all
  have len: "?m + length old \<le> n" using True by (auto simp: old_def)
  have reach: "?m + length old = n" if "new \<noteq> []" using that True by (simp add: old_def new_def)
  have "sg_sequence s < n" if "s \<in> set old" for s
  proof -
    have "sg_sequence s \<in> set (map sg_sequence old)" using that by simp
    then show ?thesis unfolding nums(1) using len by simp
  qed
  then have below: "list_all (\<lambda>s. sg_sequence s < n) old" by (simp add: list_all_iff)
  have n_max: "n \<le> u64_max"
    using inv True by (cases "tk_next t") (auto simp: n_def tracks_def)
  have replay: "list_all (\<lambda>s. tk_seen t (sg_sequence s) = Some s) old \<longleftrightarrow> set old \<subseteq> set d"
  proof -
    have "tk_seen t (sg_sequence s) = Some s \<longleftrightarrow> s \<in> set d" for s
    proof (cases "tk_next t")
      case None
      then show ?thesis using inv by (simp add: tracks_def seen_of_def insert_seen_def)
    next
      case (Some k)
      with inv obtain first where "tk_seen t = seen_of d" "map sg_sequence d = [first ..< k]"
        by (auto simp: tracks_def)
      then show ?thesis using seen_of_iff by simp
    qed
    then show ?thesis by (auto simp: list_all_iff)
  qed
  have news: "apply_segments t n [] new = Value (e, adds) \<longleftrightarrow>
      (tk_ended t \<longrightarrow> new = []) \<and> n + length new \<le> u64_max \<and> e = n + length new \<and> adds = new" for e adds
  proof (cases "new = []")
    case False
    then have "map sg_sequence new = [n ..< n + length new]" using nums(2) reach by simp
    then show ?thesis using apply_segments_news [OF _ n_max, of new t "[]" e adds] by simp
  qed (use n_max in auto)
  have loop: "apply_segments t n [] (pl_segments p) = Value (e, adds) \<longleftrightarrow> set old \<subseteq> set d \<and>
      (tk_ended t \<longrightarrow> new = []) \<and> e = n + length new \<and> adds = new" for e adds
    unfolding segs apply_segments_replays [OF below] replay news
    using True reach n_max by (cases "new = []") (auto simp: segs)
  have stale: "\<not> (pl_end_list p \<and> ?m + length (pl_segments p) < n + length new) \<longleftrightarrow>
      (pl_end_list p \<longrightarrow> n \<le> ?m + length (pl_segments p))"
    using reach by (cases "new = []") (auto simp: segs)
  have acc: "acceptable t d p \<longleftrightarrow> (case tk_source t of None \<Rightarrow> True | Some src \<Rightarrow> src = pl_source p) \<and>
      set old \<subseteq> set d \<and> (tk_ended t \<longrightarrow> new = []) \<and>
      (pl_end_list p \<longrightarrow> n \<le> ?m + length (pl_segments p))"
    using True unfolding acceptable_def n_def [symmetric] Let_def old_def [symmetric] new_def [symmetric] by blast
  have "apply_checked t p = Value (t', r) \<longleftrightarrow>
      (case tk_source t of None \<Rightarrow> True | Some src \<Rightarrow> src = pl_source p) \<and>
      (\<exists>e adds. apply_segments t n [] (pl_segments p) = Value (e, adds) \<and>
        \<not> (pl_end_list p \<and> ?m + length (pl_segments p) < e) \<and>
        t' = t\<lparr>tk_source := Some (unwrap_or (tk_source t) (pl_source p)), tk_next := Some e,
               tk_seen := insert_seen adds (tk_seen t), tk_ended := tk_ended t \<or> pl_end_list p\<rparr> \<and>
        r = \<lparr>rf_new_segments = adds, rf_end_list = tk_ended t \<or> pl_end_list p\<rparr>)"
    using True by (auto simp: apply_checked_def outcome_simps checked_nat_Some n_def [symmetric] Let_def)
  then show ?thesis
    unfolding loop acc new_def [symmetric] using stale by blast
qed

lemma ended_delivers_nothing: "tk_ended t \<Longrightarrow> tracker_apply t p = (t', r) \<Longrightarrow> tk_ended t' \<and> delivered_by r = []"
proof (cases "apply_checked t p")
  case (Value x)
  obtain t1 rf where x: "x = (t1, rf)" by (cases x)
  assume ended: "tk_ended t" and app: "tracker_apply t p = (t', r)"
  have r: "t' = t1" "r = Value rf" using app by (simp_all add: tracker_apply_def Value x)
  have "apply_checked t p = Value (t1, rf)" by (simp add: Value x)
  then show ?thesis
    by (rule apply_checked_Value) (use ended r apply_segments_Value in \<open>fastforce simp: delivered_by_def\<close>)
qed (auto simp: tracker_apply_def delivered_by_def)

lemma ended_run: "tk_ended t \<Longrightarrow> track t ps = (t', new) \<Longrightarrow> tk_ended t' \<and> new = []"
proof (induction ps arbitrary: t new t')
  case (Cons p ps)
  obtain t1 r where app: "tracker_apply t p = (t1, r)" by fastforce
  obtain t2 rest where run: "track t1 ps = (t2, rest)" by fastforce
  show ?case
    using ended_delivers_nothing [OF Cons.prems(1) app] Cons.IH [OF _ run] Cons.prems(2)
    by (simp add: app run)
qed simp

text \<open>A tracker ends exactly by accepting an \<open>ENDLIST\<close>.\<close>

definition ended_by :: "media_tracker \<Rightarrow> media_playlist list \<Rightarrow> bool" where
  "ended_by t ps = (\<exists>before p after r. ps = before @ p # after \<and> pl_end_list p \<and>
     snd (tracker_apply (fst (track t before)) p) = Value r)"

lemma ended_by_Cons:
  "ended_by t (p # ps) \<longleftrightarrow>
     pl_end_list p \<and> (\<exists>r. snd (tracker_apply t p) = Value r) \<or> ended_by (fst (tracker_apply t p)) ps"
proof -
  have first: "fst (track t (p # before)) = fst (track (fst (tracker_apply t p)) before)" for before
    by (simp split: prod.split)
  have "ended_by t (p # ps) \<longleftrightarrow> (\<exists>before q after r. p # ps = before @ q # after \<and> pl_end_list q \<and>
     snd (tracker_apply (fst (track t before)) q) = Value r)"
    by (simp add: ended_by_def)
  also have "\<dots> \<longleftrightarrow> pl_end_list p \<and> (\<exists>r. snd (tracker_apply t p) = Value r) \<or>
      (\<exists>before q after r. ps = before @ q # after \<and> pl_end_list q \<and>
         snd (tracker_apply (fst (track t (p # before))) q) = Value r)"
    by (subst Cons_eq_append_conv) (auto simp del: track.simps(2); force)
  finally show ?thesis unfolding first ended_by_def .
qed

lemma refresh_ends:
  assumes "tracker_apply t p = (t', r)"
  shows "tk_ended t' \<longleftrightarrow> tk_ended t \<or> pl_end_list p \<and> (\<exists>x. r = Value x)"
proof (cases "apply_checked t p")
  case (Value x)
  obtain t1 rf where x: "x = (t1, rf)" by (cases x)
  have r: "t' = t1" "r = Value rf" using assms by (simp_all add: tracker_apply_def Value x)
  have "apply_checked t p = Value (t1, rf)" by (simp add: Value x)
  then show ?thesis by (rule apply_checked_Value) (simp add: r)
qed (use assms in \<open>auto simp: tracker_apply_def\<close>)

lemma track_ends: "track t ps = (t', new) \<Longrightarrow> tk_ended t' \<longleftrightarrow> tk_ended t \<or> ended_by t ps"
proof (induction ps arbitrary: t t' new)
  case Nil
  then show ?case by (simp add: ended_by_def)
next
  case (Cons p ps)
  obtain t1 r where app: "tracker_apply t p = (t1, r)" by fastforce
  obtain t2 rest where run: "track t1 ps = (t2, rest)" by fastforce
  show ?case using Cons.IH [OF run] refresh_ends [OF app] Cons.prems by (auto simp: app run ended_by_Cons)
qed

section \<open>Properties\<close>

text \<open>
  C25. Over any sequence of refreshes, well-formed or not and with failures anywhere in between, the
  segments the tracker hands out are numbered consecutively: none is skipped, repeated or reordered. What
  it remembers for replay comparison is exactly what it handed out. It has ended exactly
  when a playlist with an \<open>ENDLIST\<close> was accepted among them, and from then on it never hands out another
  segment.
\<close>

theorem tracker_delivers_gap_free:
  assumes "track tracker_default ps = (t, delivered)"
  shows "(\<exists>first. map sg_sequence delivered = [first ..< first + length delivered] \<and>
      (\<forall>n s. tk_seen t n = Some s \<longleftrightarrow> s \<in> set delivered \<and> sg_sequence s = n) \<and>
      opt_all (\<lambda>n. n = first + length delivered) (tk_next t)) \<and>
    (tk_ended t \<longleftrightarrow> (\<exists>before p after r. ps = before @ p # after \<and> pl_end_list p \<and>
       snd (tracker_apply (fst (track tracker_default before)) p) = Value r)) \<and>
    (\<forall>before p after r. ps = before @ p # after \<and> pl_end_list p \<and>
       snd (tracker_apply (fst (track tracker_default before)) p) = Value r \<longrightarrow> snd (track t later) = [])"
proof (intro conjI)
  have inv: "tracks (t, delivered)" by (rule track_tracks [OF assms])
  show "\<exists>first. map sg_sequence delivered = [first ..< first + length delivered] \<and>
      (\<forall>n s. tk_seen t n = Some s \<longleftrightarrow> s \<in> set delivered \<and> sg_sequence s = n) \<and>
      opt_all (\<lambda>n. n = first + length delivered) (tk_next t)"
  proof (cases "tk_next t")
    case None
    then show ?thesis using inv by (simp add: tracks_def seen_of_def insert_seen_def)
  next
    case (Some n)
    with inv obtain first where f: "n = first + length delivered" "map sg_sequence delivered = [first ..< n]"
      "tk_seen t = seen_of delivered"
      by (auto simp: tracks_def)
    then show ?thesis using Some seen_of_iff [OF f(2)] by auto
  qed
  show ends: "tk_ended t \<longleftrightarrow> (\<exists>before p after r. ps = before @ p # after \<and> pl_end_list p \<and>
      snd (tracker_apply (fst (track tracker_default before)) p) = Value r)"
    using track_ends [OF assms] by (simp add: tracker_default_def ended_by_def)
  show "\<forall>before p after r. ps = before @ p # after \<and> pl_end_list p \<and>
      snd (tracker_apply (fst (track tracker_default before)) p) = Value r \<longrightarrow> snd (track t later) = []"
    using ends ended_run [of t later "fst (track t later)" "snd (track t later)"] by auto
qed

text \<open>
  C24. A parsed playlist is accepted by the tracker exactly when it satisfies the specification
  \<open>acceptable\<close>: same source, not beyond the cursor, its repeated part agreeing with what was delivered,
  nothing new after the end, and an \<open>ENDLIST\<close> not older than the cursor. Then the refresh is exactly the
  part of the playlist at and after the cursor. Otherwise it is an error and the tracker is unchanged.
\<close>

theorem refresh_is_exact:
  assumes "track tracker_default ps = (t, delivered)" and "parse_media src text = Value p"
  shows "if acceptable t delivered p
    then \<exists>t'. tracker_apply t p =
      (t', Value \<lparr>rf_new_segments = drop (unwrap_or (tk_next t) (pl_media_sequence p) - pl_media_sequence p) (pl_segments p),
                  rf_end_list = tk_ended t \<or> pl_end_list p\<rparr>)
    else \<exists>e. tracker_apply t p = (t, Raise e)"
proof -
  have run: "map sg_sequence (pl_segments p) = [pl_media_sequence p ..< pl_media_sequence p + length (pl_segments p)]"
  proof (rule parse_media_Value [OF assms(2)])
    fix lines st
    assume "media_inv src st" and "media_finish src st = Value p"
    then show ?thesis by (auto simp: media_finish_Value media_inv_def)
  qed
  note iff = refresh_accepted_iff [OF track_tracks [OF assms(1)] run]
  show ?thesis
  proof (cases "acceptable t delivered p")
    case True
    then obtain t' where "apply_checked t p = Value (t',
        \<lparr>rf_new_segments = drop (unwrap_or (tk_next t) (pl_media_sequence p) - pl_media_sequence p) (pl_segments p),
         rf_end_list = tk_ended t \<or> pl_end_list p\<rparr>)"
      using iff by blast
    then show ?thesis using True by (simp add: tracker_apply_def)
  next
    case False
    then have no: "apply_checked t p \<noteq> Value x" for x using iff by (cases x) blast
    have "apply_checked t p \<noteq> Panic"
      by (auto simp: apply_checked_def outcome_simps apply_segments_no_Panic Let_def)
    then obtain e where "apply_checked t p = Raise e" using no by (cases "apply_checked t p") auto
    then show ?thesis using False by (simp add: tracker_apply_def)
  qed
qed

lemma sample_track: "track tracker_default [sample_playlist] =
  (fst (track tracker_default [sample_playlist]), pl_segments sample_playlist)"
  by (simp add: tracker_apply_def apply_checked_def require_def ok_or_def checked_nat_def tracker_default_def
      sample_playlist_def sample_segment_def delivered_by_def range_defs Let_def)

lemma tracker_delivers_gap_free_witness:
  "map sg_sequence (pl_segments sample_playlist) = [7, 8] \<and>
   snd (track (fst (track tracker_default [sample_playlist])) [sample_playlist\<lparr>pl_media_sequence := 8\<rparr>]) = []"
proof -
  have accepted: "\<exists>r. snd (tracker_apply (fst (track tracker_default [])) sample_playlist) = Value r"
    and ends: "pl_end_list sample_playlist"
    by (simp_all add: tracker_apply_def apply_checked_def require_def ok_or_def checked_nat_def tracker_default_def
        sample_playlist_def sample_segment_def range_defs Let_def)
  note gap_free = tracker_delivers_gap_free [OF sample_track, of "[sample_playlist\<lparr>pl_media_sequence := 8\<rparr>]"]
  have "\<exists>before p after r. [sample_playlist] = before @ p # after \<and> pl_end_list p \<and>
      snd (tracker_apply (fst (track tracker_default before)) p) = Value r"
    using accepted ends by (metis append_Nil)
  then have "snd (track (fst (track tracker_default [sample_playlist])) [sample_playlist\<lparr>pl_media_sequence := 8\<rparr>]) = []"
    using gap_free by blast
  moreover have "map sg_sequence (pl_segments sample_playlist) = [7, 8]"
    using gap_free by (auto simp: sample_playlist_def sample_segment_def upt_rec split: if_splits)
  ultimately show ?thesis by simp
qed

lemma refresh_is_exact_witness:
  "\<exists>t'. tracker_apply tracker_default sample_playlist =
     (t', Value \<lparr>rf_new_segments = pl_segments sample_playlist, rf_end_list = True\<rparr>)"
proof -
  have "track tracker_default [] = (tracker_default, [])" by simp
  moreover have "acceptable tracker_default [] sample_playlist"
    by (simp add: acceptable_def tracker_default_def sample_playlist_def range_defs)
  ultimately show ?thesis
    using refresh_is_exact [of "[]" tracker_default "[]", OF _ sample_media]
    by (simp add: tracker_default_def sample_playlist_def)
qed

end
