(* ===== verification/Original.thy ===== *)
theory Original
  imports Mode
begin

text \<open>
  \<open>abr/original.rs\<close> and \<open>abr/bootstrap.rs\<close>: the way between the original file and the HLS ladder. The
  bounded source experiment that may lead from HLS to the original (\<open>OriginalRecovery\<close>), the controller
  that watches the original play and says when to leave it (\<open>OriginalModeController\<close>), and the rung
  an HLS session starts on. Both controllers are records with one function per method.
\<close>

section \<open>Where an HLS session starts\<close>

definition rung_of :: "hls_candidate option \<Rightarrow> rung option" where
  "rung_of = map_option hc_rung"

definition first_feasible :: "hls_catalog \<Rightarrow> hls_candidate option" where
  "first_feasible cat = first_of (feasible cat)"

definition policy_startup_floor_kbps :: "abr_policy \<Rightarrow> nat" where
  "policy_startup_floor_kbps policy = rung_kbps P480"

definition original_fallback_rung :: "nat \<Rightarrow> hls_catalog \<Rightarrow> abr_policy \<Rightarrow> rung" where
  "original_fallback_rung measured_kbps cat policy =
     unwrap_or (rung_of (or_else (best_for_budget cat measured_kbps) (first_feasible cat))) P240"

definition feasible_rung :: "hls_catalog \<Rightarrow> rung \<Rightarrow> hls_candidate option" where
  "feasible_rung cat r = List.find (\<lambda>c. hc_rung c = r) (feasible cat)"

definition original_open_fallback_rung :: "rung option \<Rightarrow> hls_catalog \<Rightarrow> abr_policy \<Rightarrow> rung" where
  "original_open_fallback_rung bootstrap_rung cat policy =
     (let fallback = unwrap_or (rung_of (or_else (best_for_budget cat (policy_startup_floor_kbps policy))
            (first_feasible cat))) P480
      in unwrap_or (rung_of (case bootstrap_rung of None \<Rightarrow> None | Some r \<Rightarrow> feasible_rung cat r)) fallback)"

definition option_list :: "'a option \<Rightarrow> 'a list" where
  "option_list a = (case a of None \<Rightarrow> [] | Some x \<Rightarrow> [x])"

definition hls_reentry_rung ::
  "rung option \<Rightarrow> capacity_estimate option \<Rightarrow> hls_catalog \<Rightarrow> abr_policy \<Rightarrow> rung" where
  "hls_reentry_rung current prior cat policy =
     (let fallback = or_else (best_for_budget cat (policy_startup_floor_kbps policy)) (first_feasible cat);
          kept = (case current of None \<Rightarrow> None | Some r \<Rightarrow> feasible_rung cat r);
          posterior = (case prior of None \<Rightarrow> None | Some e \<Rightarrow> best_for_budget cat (conservative_kbps e))
      in unwrap_or (rung_of (max_by_key expected_wire_kbps
            (option_list fallback @ option_list kept @ option_list posterior))) P480)"

section \<open>The source experiment\<close>

definition SOURCE_PROBE_MIN_BYTES :: nat where "SOURCE_PROBE_MIN_BYTES = 512 * 1024"
definition SOURCE_PROBE_MAX_BYTES :: nat where "SOURCE_PROBE_MAX_BYTES = 8 * 1024 * 1024"

record source_probe_plan_rec =
  target_bytes :: nat
  budget_ms :: nat

text \<open>\<open>usize\<close> has 32 bits; \<open>clamp\<close> is the maximum with the lower, then the minimum with the upper bound.\<close>

definition source_probe_plan :: "nat \<Rightarrow> nat \<Rightarrow> source_probe_plan_rec option" where
  "source_probe_plan source_kbps max_budget_ms =
     (if source_kbps = 0 \<or> max_budget_ms = 0 then None
      else
        let target = min SOURCE_PROBE_MAX_BYTES (max SOURCE_PROBE_MIN_BYTES
              (sat_mul_u32 (unwrap_or (checked_nat u32_max source_kbps) u32_max) 125));
            represented_ms = sat_add_u64 (sat_mul_u64 target 8) (source_kbps - 1) div source_kbps
        in Some \<lparr>target_bytes = target, budget_ms = min (max represented_ms 1) max_budget_ms\<rparr>)"

datatype recovery_verdict = Recover | NotWorthIt | Insufficient | ProbeFailed

record retained_probe_decision =
  rp_verdict :: recovery_verdict
  rp_measured_kbps :: nat

datatype probe_block = ShallowReserve | BlockDraining | BelowHlsCeiling | BlockNotWorthIt | NoNewLinkEvidence

definition probe_block_str :: "probe_block \<Rightarrow> string" where
  "probe_block_str b = (case b of
     ShallowReserve \<Rightarrow> ''shallow_reserve''
   | BlockDraining \<Rightarrow> ''draining''
   | BelowHlsCeiling \<Rightarrow> ''below_hls_ceiling''
   | BlockNotWorthIt \<Rightarrow> ''not_worth_it''
   | NoNewLinkEvidence \<Rightarrow> ''no_new_link_evidence'')"

datatype source_probe_state = Fresh | AwaitHlsAbove nat | Terminal | ReconsiderAfterHlsCommit

record original_recovery =
  or_source_kbps :: nat
  or_policy :: abr_policy
  or_probe :: capacity_estimate
  or_features :: source_features
  or_history :: transition_history
  or_elapsed_ms :: nat
  or_probes :: nat
  or_state :: source_probe_state
  or_last_comparison :: "mode_comparison option"
  or_catalog :: hls_catalog

definition recovery_new ::
  "nat \<Rightarrow> abr_policy \<Rightarrow> source_features \<Rightarrow> transition_history \<Rightarrow> hls_catalog \<Rightarrow> original_recovery option" where
  "recovery_new source_kbps policy features history cat =
     (if source_kbps > 0
      then Some \<lparr>or_source_kbps = source_kbps, or_policy = policy, or_probe = capacity_default,
        or_features = features, or_history = history, or_elapsed_ms = 0, or_probes = 0, or_state = Fresh,
        or_last_comparison = None, or_catalog = cat\<rparr>
      else None)"

definition advance_to :: "original_recovery \<Rightarrow> nat \<Rightarrow> original_recovery" where
  "advance_to r elapsed_ms = r\<lparr>or_elapsed_ms := elapsed_ms\<rparr>"

definition recovery_basis :: "original_recovery \<Rightarrow> nat \<times> nat \<times> nat \<times> nat \<times> nat" where
  "recovery_basis r =
     (ce_slow (or_probe r), ce_uncertainty (or_probe r), ce_samples (or_probe r),
      conservative_kbps (or_probe r), source_requirement_kbps (or_source_kbps r) (or_policy r))"

definition on_hls_commit :: "original_recovery \<Rightarrow> direction \<Rightarrow> original_recovery" where
  "on_hls_commit r dir =
     (if or_state r \<noteq> Terminal then r
      else case dir of
        Up \<Rightarrow> r\<lparr>or_last_comparison := None, or_state := ReconsiderAfterHlsCommit\<rparr>
      | Down \<Rightarrow> r\<lparr>or_last_comparison := None, or_probe := capacity_default, or_state := Fresh\<rparr>)"

definition best_hls :: "original_recovery \<Rightarrow> hls_candidate \<Rightarrow> buffer_estimate \<Rightarrow> capacity_estimate \<Rightarrow> hls_candidate" where
  "best_hls r cur buffer hls_delivery =
     unwrap_or (best_sustainable (or_catalog r) (hls_safe_budget hls_delivery) (or_policy r) (be_buffered buffer)) cur"

definition recovery_inputs ::
  "original_recovery \<Rightarrow> capacity_estimate \<Rightarrow> production_estimate \<Rightarrow> buffer_estimate \<Rightarrow> capacity_estimate \<Rightarrow> int
    \<Rightarrow> mode_inputs" where
  "recovery_inputs r source_delivery production buffer hls_delivery remaining_ms =
     \<lparr>in_current = ModeHls, in_source_kbps = or_source_kbps r, in_source_raster = source_raster (or_catalog r),
      in_source_delivery = source_delivery, in_hls_delivery = hls_delivery, in_production = production,
      in_buffer = buffer, in_remaining_ms = remaining_ms,
      in_history = advanced_by (or_history r) (or_elapsed_ms r), original_feasible = True,
      source_dv = sf_dv (or_features r), source_atmos = sf_atmos (or_features r), unsafe_deficit_ms = 0\<rparr>"

text \<open>The estimate of a completed source response: the rate itself, undiscounted.\<close>

definition exact_estimate :: "nat \<Rightarrow> capacity_estimate" where
  "exact_estimate kbps = \<lparr>ce_fast = kbps, ce_slow = kbps, ce_uncertainty = 0, ce_samples = 1\<rparr>"

definition recovery_choice ::
  "original_recovery \<Rightarrow> capacity_estimate \<Rightarrow> hls_candidate \<Rightarrow> production_estimate \<Rightarrow> buffer_estimate
    \<Rightarrow> capacity_estimate \<Rightarrow> int \<Rightarrow> mode_kind \<times> mode_reason \<times> mode_utility \<times> mode_utility option" where
  "recovery_choice r source_delivery cur production buffer hls_delivery remaining_ms =
     choose_mode (recovery_inputs r source_delivery production buffer hls_delivery remaining_ms) cur
       (best_hls r cur buffer hls_delivery) (or_policy r)"

definition worth_probing ::
  "original_recovery \<Rightarrow> hls_candidate \<Rightarrow> production_estimate \<Rightarrow> buffer_estimate \<Rightarrow> capacity_estimate \<Rightarrow> int \<Rightarrow> bool" where
  "worth_probing r cur production buffer hls_delivery remaining_ms =
     (let assumed = exact_estimate (source_requirement_kbps (or_source_kbps r) (or_policy r))
      in fst (recovery_choice r assumed cur production buffer hls_delivery remaining_ms) = Original)"

text \<open>The plan, what it must be paid from, and what is there.\<close>

definition probe_funding ::
  "original_recovery \<Rightarrow> int option \<Rightarrow> nat option \<Rightarrow> int option \<Rightarrow> (source_probe_plan_rec \<times> int \<times> int) option" where
  "probe_funding r runway rollback buffered =
     (case (source_probe_plan (or_source_kbps r) (probe_budget_ms (or_policy r)), runway, rollback, buffered) of
        (Some plan, Some runway_ms, Some rollback_media_ms, Some buffered_ms) \<Rightarrow>
          (let continuity_ms = max (max runway_ms 0) (int rollback_media_ms);
               required_ms = sat_i64 (sat_i64 (unwrap_or (i64_of_nat (budget_ms plan)) i64_max * 2) + continuity_ms)
           in Some (plan, required_ms, buffered_ms))
      | _ \<Rightarrow> None)"

definition link_evidence :: "source_probe_state \<Rightarrow> capacity_estimate \<Rightarrow> bool" where
  "link_evidence st hls_delivery =
     (case st of
        Fresh \<Rightarrow> True
      | AwaitHlsAbove floor_kbps \<Rightarrow> conservative_kbps hls_delivery > floor_kbps
      | Terminal \<Rightarrow> False
      | ReconsiderAfterHlsCommit \<Rightarrow> False)"

definition probe_due_with_rollback ::
  "original_recovery \<Rightarrow> hls_candidate \<Rightarrow> bool \<Rightarrow> production_estimate \<Rightarrow> segment_sample \<Rightarrow> nat option \<Rightarrow> int option
    \<Rightarrow> buffer_estimate \<Rightarrow> capacity_estimate \<Rightarrow> int \<Rightarrow> probe_block + source_probe_plan_rec" where
  "probe_due_with_rollback r cur hls_frontier_exhausted production sample rollback runway buffer hls_delivery
      remaining_ms =
     (let funding = probe_funding r runway rollback (snapshot_buffered_ms (ss_buffer sample));
          deep_reserve = (case funding of None \<Rightarrow> False | Some (_, required_ms, buffered_ms) \<Rightarrow> buffered_ms \<ge> required_ms);
          refilling = (\<not> be_draining buffer)
      in if \<not> (deep_reserve \<and> refilling \<and> hls_frontier_exhausted)
         then Inl (if \<not> deep_reserve then ShallowReserve else if \<not> refilling then BlockDraining else BelowHlsCeiling)
         else if \<not> link_evidence (or_state r) hls_delivery then Inl NoNewLinkEvidence
         else if \<not> worth_probing r cur production buffer hls_delivery remaining_ms then Inl BlockNotWorthIt
         else (case funding of None \<Rightarrow> Inl ShallowReserve | Some (plan, _, _) \<Rightarrow> Inr plan))"

definition await_stronger_hls :: "original_recovery \<Rightarrow> nat \<Rightarrow> capacity_estimate \<Rightarrow> original_recovery" where
  "await_stronger_hls r source_kbps hls_delivery =
     r\<lparr>or_state := AwaitHlsAbove (max source_kbps (ce_fast hls_delivery))\<rparr>"

definition begin_probe_attempt :: "original_recovery \<Rightarrow> original_recovery" where
  "begin_probe_attempt r = r\<lparr>or_probes := sat_add_u8 (or_probes r) 1, or_last_comparison := None\<rparr>"

definition decide_from_completed_probe ::
  "original_recovery \<Rightarrow> hls_candidate \<Rightarrow> production_estimate \<Rightarrow> buffer_estimate \<Rightarrow> capacity_estimate \<Rightarrow> int
    \<Rightarrow> original_recovery \<times> recovery_verdict" where
  "decide_from_completed_probe r cur production buffer hls_delivery remaining_ms =
     (let (mode, reason, winner, loser) = recovery_choice r (or_probe r) cur production buffer hls_delivery remaining_ms;
          comparison = \<lparr>cmp_chosen = mode, cmp_reason = reason, cmp_winner = winner, cmp_loser = loser,
            cmp_hls_rung = hc_rung (best_hls r cur buffer hls_delivery),
            cmp_scale_pm = benefit_scale_pm remaining_ms (or_policy r)\<rparr>
      in (r\<lparr>or_last_comparison := Some comparison, or_state := Terminal\<rparr>,
          if mode = Original then Recover else NotWorthIt))"

definition reconsider_after_hls_commit ::
  "original_recovery \<Rightarrow> hls_candidate \<Rightarrow> production_estimate \<Rightarrow> buffer_estimate \<Rightarrow> capacity_estimate \<Rightarrow> int
    \<Rightarrow> original_recovery \<times> retained_probe_decision option" where
  "reconsider_after_hls_commit r cur production buffer hls_delivery remaining_ms =
     (if or_state r \<noteq> ReconsiderAfterHlsCommit then (r, None)
      else
        let measured_kbps = ce_slow (or_probe r);
            (r', verdict) = decide_from_completed_probe r cur production buffer hls_delivery remaining_ms
        in (r', Some \<lparr>rp_verdict = verdict, rp_measured_kbps = measured_kbps\<rparr>))"

definition observe_probe ::
  "original_recovery \<Rightarrow> capacity_observation \<Rightarrow> hls_candidate \<Rightarrow> production_estimate \<Rightarrow> buffer_estimate
    \<Rightarrow> capacity_estimate \<Rightarrow> int \<Rightarrow> original_recovery \<times> recovery_verdict" where
  "observe_probe r0 ob cur production buffer hls_delivery remaining_ms =
     (let r = begin_probe_attempt r0 in
      if \<not> co_completed ob then (await_stronger_hls r 0 hls_delivery, Insufficient)
      else
        let r = r\<lparr>or_probe := exact_estimate (co_kbps ob)\<rparr>;
            requirement = source_requirement_kbps (or_source_kbps r) (or_policy r)
        in if co_kbps ob < requirement then (await_stronger_hls r (co_kbps ob) hls_delivery, Insufficient)
           else decide_from_completed_probe r cur production buffer hls_delivery remaining_ms)"

definition observe_probe_failed :: "original_recovery \<Rightarrow> capacity_estimate \<Rightarrow> original_recovery \<times> recovery_verdict" where
  "observe_probe_failed r hls_delivery =
     (await_stronger_hls (begin_probe_attempt r) 0 hls_delivery, ProbeFailed)"

section \<open>Watching the original play\<close>

definition ORIGINAL_WINDOW_US :: nat where "ORIGINAL_WINDOW_US = 750000"

datatype original_exit = ImminentStarvation | SustainedDeficit | EmergencyLowBuffer

record original_observation =
  ob_measured_kbps :: nat
  ob_conservative_kbps :: nat
  ob_requirement_kbps :: nat
  ob_buffered_ms :: int
  ob_slope_ms_per_s :: int
  ob_horizon_secs :: "nat option"
  ob_unsafe_deficit_ms :: int
  ob_fallback :: "original_exit option"
  ob_target :: "rung option"

record original_controller =
  om_source_kbps :: nat
  om_policy :: abr_policy
  om_catalog :: hls_catalog
  om_delivery :: capacity_estimate
  om_buffer :: buffer_estimate
  om_history :: transition_history
  om_features :: source_features
  om_last_bytes :: nat
  om_last_active_us :: nat
  om_deficit_ms :: int
  om_deficit_active :: bool
  om_last_now_ms :: nat

definition original_new ::
  "nat \<Rightarrow> abr_policy \<Rightarrow> hls_catalog \<Rightarrow> transition_history \<Rightarrow> source_features \<Rightarrow> original_controller option" where
  "original_new source_kbps policy cat history features =
     (if source_kbps > 0
      then Some \<lparr>om_source_kbps = source_kbps, om_policy = policy, om_catalog = cat,
        om_delivery = capacity_default, om_buffer = buffer_default, om_history = history,
        om_features = features, om_last_bytes = 0, om_last_active_us = 0, om_deficit_ms = 0,
        om_deficit_active = False, om_last_now_ms = 0\<rparr>
      else None)"

definition clear_deficit :: "original_controller \<Rightarrow> original_controller" where
  "clear_deficit c = c\<lparr>om_deficit_ms := 0, om_deficit_active := False\<rparr>"

definition original_on_seek :: "original_controller \<Rightarrow> nat \<Rightarrow> nat \<Rightarrow> original_controller" where
  "original_on_seek c bytes active_us =
     (clear_deficit (c\<lparr>om_last_bytes := bytes, om_last_active_us := active_us\<rparr>))\<lparr>om_buffer := buffer_default\<rparr>"

definition original_on_resume :: "original_controller \<Rightarrow> nat \<Rightarrow> original_controller" where
  "original_on_resume c paused_ms =
     clear_deficit (c\<lparr>om_delivery := age_ms (om_delivery c) paused_ms (om_policy c), om_buffer := buffer_default\<rparr>)"

definition fallback_target :: "original_controller \<Rightarrow> rung option" where
  "fallback_target c =
     rung_of (or_else (best_for_budget (om_catalog c) (conservative_kbps (om_delivery c)))
       (first_feasible (om_catalog c)))"

definition exit_inputs :: "original_controller \<Rightarrow> int \<Rightarrow> mode_inputs" where
  "exit_inputs c remaining_ms =
     \<lparr>in_current = Original, in_source_kbps = om_source_kbps c, in_source_raster = source_raster (om_catalog c),
      in_source_delivery = om_delivery c, in_hls_delivery = om_delivery c, in_production = production_default,
      in_buffer = om_buffer c, in_remaining_ms = remaining_ms, in_history = om_history c,
      original_feasible = True, source_dv = sf_dv (om_features c), source_atmos = sf_atmos (om_features c),
      unsafe_deficit_ms = om_deficit_ms c\<rparr>"

definition confirmation_remaining_ms :: "original_controller \<Rightarrow> int" where
  "confirmation_remaining_ms c =
     max (sat_i64 (sustained_unsafe_deficit_ms (om_policy c) - om_deficit_ms c)) 0"

definition is_imminent :: "original_controller \<Rightarrow> bool" where
  "is_imminent c =
     (let observed_horizon = observed_starvation_secs (om_buffer c);
          observed_imminent = (case observed_horizon of None \<Rightarrow> False
            | Some secs \<Rightarrow> secs \<le> int (starvation_fallback_secs (om_policy c)));
          confirmation_due = (confirmation_remaining_ms c = 0);
          cannot_afford_confirmation = (case observed_horizon of None \<Rightarrow> False
            | Some secs \<Rightarrow> sat_i64 (secs * 1000)
                \<le> sat_i64 (confirmation_remaining_ms c + max (emergency_buffer_ms (om_policy c)) 0))
      in observed_imminent \<and> (confirmation_due \<or> cannot_afford_confirmation))"

definition original_verdict :: "original_controller \<Rightarrow> int \<Rightarrow> int \<Rightarrow> rung option \<Rightarrow> original_exit option" where
  "original_verdict c buffered_ms remaining_ms target =
     (case target of None \<Rightarrow> None | Some rung \<Rightarrow>
        if remaining_ms > 0 \<and> buffered_ms \<ge> remaining_ms then None
        else if buffered_ms \<le> emergency_buffer_ms (om_policy c) \<and> be_last_delta (om_buffer c) < 0 \<and>
                \<not> be_filling (om_buffer c) then Some EmergencyLowBuffer
        else if is_imminent c then Some ImminentStarvation
        else if om_deficit_ms c < sustained_unsafe_deficit_ms (om_policy c) then None
        else
          let cand = candidate (om_catalog c) rung;
              mode = fst (choose_mode (exit_inputs c remaining_ms) cand cand (om_policy c))
          in if mode = ModeHls then Some SustainedDeficit else None)"

text \<open>The delivery estimate after a window of \<open>byte_delta\<close> bytes in \<open>active_delta\<close> microseconds.\<close>

definition window_kbps :: "nat \<Rightarrow> nat \<Rightarrow> nat" where
  "window_kbps byte_delta active_delta = min (kbps_from byte_delta active_delta) u32_max"

definition learn_delivery :: "capacity_estimate \<Rightarrow> nat \<Rightarrow> nat \<Rightarrow> capacity_estimate" where
  "learn_delivery delivery byte_delta active_delta =
     (let ob = \<lparr>co_kbps = window_kbps byte_delta active_delta, co_bytes = byte_delta,
                co_active_us = active_delta, co_completed = True\<rparr>;
          d = (if is_collapse ob delivery then collapse delivery (co_kbps ob) else delivery)
      in ce_update d ob)"

definition tally_deficit :: "original_controller \<Rightarrow> bool \<Rightarrow> int \<Rightarrow> original_controller" where
  "tally_deficit c unsafe_now wall_delta =
     (if unsafe_now
      then c\<lparr>om_deficit_ms := (if om_deficit_active c then sat_i64 (om_deficit_ms c + wall_delta) else 0),
             om_deficit_active := True\<rparr>
      else clear_deficit c)"

definition original_measure ::
  "original_controller \<Rightarrow> nat \<Rightarrow> nat \<Rightarrow> int \<Rightarrow> int \<Rightarrow> int \<Rightarrow> original_controller \<times> original_observation" where
  "original_measure c0 byte_delta active_delta wall_delta buffered_ms remaining_ms =
     (let cold_start = (be_samples (om_buffer c0) = 0);
          measured_kbps = window_kbps byte_delta active_delta;
          c = c0\<lparr>om_delivery := learn_delivery (om_delivery c0) byte_delta active_delta,
                 om_buffer := be_update (om_buffer c0) (Some buffered_ms) (max wall_delta 1)\<rparr>;
          requirement = source_requirement_kbps (om_source_kbps c) (om_policy c);
          immediate = min (ce_fast (om_delivery c)) measured_kbps;
          horizon = starvation_horizon buffered_ms requirement immediate;
          unsafe_horizon = (case horizon of None \<Rightarrow> False
            | Some secs \<Rightarrow> secs < starvation_safe_secs (om_policy c));
          unsafe_now = (unsafe_horizon \<and> \<not> cold_start \<and> be_draining (om_buffer c));
          c = tally_deficit c unsafe_now wall_delta;
          target = fallback_target c
      in (c, \<lparr>ob_measured_kbps = measured_kbps, ob_conservative_kbps = conservative_kbps (om_delivery c),
              ob_requirement_kbps = requirement, ob_buffered_ms = buffered_ms,
              ob_slope_ms_per_s = be_slope (om_buffer c), ob_horizon_secs = horizon,
              ob_unsafe_deficit_ms = om_deficit_ms c,
              ob_fallback = original_verdict c buffered_ms remaining_ms target, ob_target = target\<rparr>))"

definition original_observe ::
  "original_controller \<Rightarrow> nat \<Rightarrow> nat \<Rightarrow> int option \<Rightarrow> int \<Rightarrow> nat
    \<Rightarrow> original_controller \<times> original_observation option" where
  "original_observe c bytes active_us buffered remaining_ms now_ms =
     (if bytes < om_last_bytes c \<or> active_us < om_last_active_us c
      then ((original_on_seek c bytes active_us)\<lparr>om_last_now_ms := now_ms\<rparr>, None)
      else
        let active_delta = active_us - om_last_active_us c in
        if active_delta < ORIGINAL_WINDOW_US then (c, None)
        else
          let wall_delta = unwrap_or (i64_of_nat (now_ms - om_last_now_ms c)) 0;
              byte_delta = bytes - om_last_bytes c;
              c = c\<lparr>om_last_now_ms := now_ms, om_last_bytes := bytes, om_last_active_us := active_us\<rparr>
          in case buffered of
               None \<Rightarrow> (clear_deficit c, None)
             | Some buffered_ms \<Rightarrow>
                 if byte_delta = 0 then (clear_deficit c, None)
                 else let (c', ob) = original_measure c byte_delta active_delta wall_delta buffered_ms remaining_ms
                      in (c', Some ob))"

end
