(* ===== verification/Original_Correct.thy ===== *)
theory Original_Correct
  imports Original
begin

text \<open>
  What the way between the original and HLS guarantees: an experiment is only made when the reserve
  pays for it and it could change the decision, a refused experiment waits for evidence, what is
  reconsidered after an HLS commit is a completed measurement, and the original is only left on a
  measured shortage with somewhere to go.
\<close>

section \<open>The starting rung\<close>

lemma feasible_rung_Some: "feasible_rung cat r = Some c \<longleftrightarrow> c \<in> set (feasible cat) \<and> hc_rung c = r \<and> feasible_rung cat r = Some c"
  using find_SomeD [of "\<lambda>c. hc_rung c = r" "feasible cat" c] by (auto simp: feasible_rung_def)

lemma best_for_budget_member: "best_for_budget cat b = Some c \<Longrightarrow> c \<in> set (feasible cat) \<and> expected_wire_kbps c \<le> b"
  using max_by_key_SomeD(1) by (fastforce simp: best_for_budget_def)

lemma best_or_first:
  assumes "or_else (best_for_budget cat b) (first_feasible cat) = Some c"
  shows "c \<in> set (feasible cat)"
  using assms best_for_budget_member first_of_SomeD
  by (cases "best_for_budget cat b") (auto simp: first_feasible_def)

lemma best_or_first_None:
  "or_else (best_for_budget cat b) (first_feasible cat) = None \<longleftrightarrow> feasible cat = []"
  by (cases "best_for_budget cat b") (auto simp: first_feasible_def dest: best_for_budget_member)

lemma option_list_set [simp]: "set (option_list a) = set_option a"
  by (cases a) (simp_all add: option_list_def)

lemma option_list_Nil [simp]: "option_list a = [] \<longleftrightarrow> a = None"
  by (cases a) (simp_all add: option_list_def)

lemma rung_of_simps [simp]: "rung_of None = None" "rung_of (Some c) = Some (hc_rung c)"
  by (simp_all add: rung_of_def)

lemma hls_reentry_rung_choice:
  assumes "feasible cat \<noteq> []"
  shows "\<exists>c \<in> set (feasible cat). hls_reentry_rung current prior cat policy = hc_rung c \<and>
    (\<forall>r x. current = Some r \<longrightarrow> feasible_rung cat r = Some x \<longrightarrow> expected_wire_kbps x \<le> expected_wire_kbps c) \<and>
    (\<forall>e x. prior = Some e \<longrightarrow> x \<in> set (feasible cat) \<longrightarrow> expected_wire_kbps x \<le> conservative_kbps e \<longrightarrow>
       expected_wire_kbps x \<le> expected_wire_kbps c)"
proof -
  define fallback where "fallback = or_else (best_for_budget cat (policy_startup_floor_kbps policy)) (first_feasible cat)"
  define kept where "kept = (case current of None \<Rightarrow> None | Some r \<Rightarrow> feasible_rung cat r)"
  define posterior where "posterior = (case prior of None \<Rightarrow> None | Some e \<Rightarrow> best_for_budget cat (conservative_kbps e))"
  let ?xs = "option_list fallback @ option_list kept @ option_list posterior"
  have "fallback \<noteq> None" using best_or_first_None [of cat] assms by (simp add: fallback_def)
  then obtain c where c: "max_by_key expected_wire_kbps ?xs = Some c"
    by (cases "max_by_key expected_wire_kbps ?xs") auto
  have "c \<in> set ?xs" using max_by_key_SomeD(1) [OF c] .
  moreover have "x \<in> set (feasible cat)" if "fallback = Some x" for x
    using best_or_first that by (simp add: fallback_def)
  moreover have "x \<in> set (feasible cat)" if "kept = Some x" for x
    using that feasible_rung_Some by (auto simp: kept_def split: option.splits)
  moreover have "x \<in> set (feasible cat)" if "posterior = Some x" for x
    using that best_for_budget_member by (auto simp: posterior_def split: option.splits)
  ultimately have "c \<in> set (feasible cat)" by auto
  moreover have "hls_reentry_rung current prior cat policy = hc_rung c"
    using c by (simp add: hls_reentry_rung_def fallback_def kept_def posterior_def Let_def)
  moreover have "expected_wire_kbps x \<le> expected_wire_kbps c" if "current = Some r" "feasible_rung cat r = Some x" for r x
    using max_by_key_SomeD(2) [OF c, of x] that by (simp add: kept_def)
  moreover have "expected_wire_kbps x \<le> expected_wire_kbps c"
    if "prior = Some e" "x \<in> set (feasible cat)" "expected_wire_kbps x \<le> conservative_kbps e" for e x
  proof -
    from that obtain y where y: "best_for_budget cat (conservative_kbps e) = Some y" "expected_wire_kbps x \<le> expected_wire_kbps y"
      using max_by_key_exists [of x "filter (\<lambda>c. expected_wire_kbps c \<le> conservative_kbps e) (feasible cat)" expected_wire_kbps]
      by (auto simp: best_for_budget_def)
    then have "expected_wire_kbps y \<le> expected_wire_kbps c"
      using max_by_key_SomeD(2) [OF c, of y] that(1) by (simp add: posterior_def)
    with y(2) show ?thesis by simp
  qed
  ultimately show ?thesis by blast
qed

section \<open>The experiment's price\<close>

lemma source_probe_plan_Some:
  assumes "source_probe_plan s b = Some plan" and "s \<le> u32_max"
  shows "0 < s \<and> SOURCE_PROBE_MIN_BYTES \<le> target_bytes plan \<and> target_bytes plan \<le> SOURCE_PROBE_MAX_BYTES \<and>
    1 \<le> budget_ms plan \<and> budget_ms plan \<le> b \<and>
    (budget_ms plan = b \<or> target_bytes plan * 8 \<le> s * budget_ms plan)"
proof -
  define t where "t = min SOURCE_PROBE_MAX_BYTES (max SOURCE_PROBE_MIN_BYTES
      (sat_mul_u32 (unwrap_or (checked_nat u32_max s) u32_max) 125))"
  from assms(1) have s: "0 < s" "0 < b" and plan: "target_bytes plan = t"
    "budget_ms plan = min (max (sat_add_u64 (sat_mul_u64 t 8) (s - 1) div s) 1) b"
    by (auto simp: source_probe_plan_def t_def Let_def split: if_splits)
  have t: "SOURCE_PROBE_MIN_BYTES \<le> t" "t \<le> SOURCE_PROBE_MAX_BYTES"
    by (simp_all add: t_def SOURCE_PROBE_MIN_BYTES_def SOURCE_PROBE_MAX_BYTES_def)
  then have sat: "sat_add_u64 (sat_mul_u64 t 8) (s - 1) = t * 8 + (s - 1)"
    using assms(2) by (simp add: sat_add_def sat_mul_def range_defs SOURCE_PROBE_MAX_BYTES_def)
  have "t * 8 \<le> s * ((t * 8 + (s - 1)) div s)"
  proof -
    have "t * 8 + (s - 1) < s * ((t * 8 + (s - 1)) div s) + s"
      using mult_div_mod_eq [of s "t * 8 + (s - 1)"] mod_less_divisor [OF s(1), of "t * 8 + (s - 1)"] by linarith
    then show ?thesis by linarith
  qed
  then have "t * 8 \<le> s * max ((t * 8 + (s - 1)) div s) 1"
    by (meson le_trans max.cobounded1 mult_le_mono2)
  moreover have "budget_ms plan = min (max ((t * 8 + (s - 1)) div s) 1) b" unfolding plan(2) sat ..
  ultimately show ?thesis using s t plan(1) by (cases "max ((t * 8 + (s - 1)) div s) 1 \<le> b") simp_all
qed

lemma probe_funding_Some:
  assumes "probe_funding r runway rollback buffered = Some (plan, required, buf)"
  obtains run rb where "source_probe_plan (or_source_kbps r) (probe_budget_ms (or_policy r)) = Some plan"
    "runway = Some run" "rollback = Some rb" "buffered = Some buf"
    "required = sat_i64 (sat_i64 (unwrap_or (i64_of_nat (budget_ms plan)) i64_max * 2) + max (max run 0) (int rb))"
  using assms by (auto simp: probe_funding_def Let_def split: option.splits)

lemma probe_due_permit:
  assumes "probe_due_with_rollback r cur frontier production sample rollback runway buffer h remaining = Inr plan"
  shows "frontier \<and> \<not> be_draining buffer \<and> link_evidence (or_state r) h \<and>
    worth_probing r cur production buffer h remaining \<and>
    (\<exists>required buf. probe_funding r runway rollback (snapshot_buffered_ms (ss_buffer sample)) = Some (plan, required, buf) \<and>
       required \<le> buf)"
  using assms by (auto simp: probe_due_with_rollback_def Let_def split: option.splits if_splits)

lemma funded_exactly:
  assumes "probe_funding r runway rollback buffered = Some (plan, required, buf)" and "required \<le> buf"
    and "buf < i64_max" and "runway = Some run" and "rollback = Some rb" and "budget_ms plan \<le> PROBE_BUDGET_MS"
  shows "2 * int (budget_ms plan) + max (max run 0) (int rb) \<le> buf"
proof (rule probe_funding_Some [OF assms(1)])
  fix run' rb'
  assume "runway = Some run'" "rollback = Some rb'"
    and req: "required = sat_i64 (sat_i64 (unwrap_or (i64_of_nat (budget_ms plan)) i64_max * 2) + max (max run' 0) (int rb'))"
  then have same: "run' = run" "rb' = rb" using assms(4,5) by simp_all
  have "i64_of_nat (budget_ms plan) = Some (int (budget_ms plan))"
    using assms(6) by (simp add: i64_of_nat_def checked_i64_def range_defs PROBE_BUDGET_MS_def)
  moreover have "sat_i64 (int (budget_ms plan) * 2) = int (budget_ms plan) * 2"
    using assms(6) by (simp add: sat_i64_def range_defs PROBE_BUDGET_MS_def)
  ultimately have "required = sat_i64 (int (budget_ms plan) * 2 + max (max run 0) (int rb))"
    using req same by simp
  then show ?thesis using assms(2,3) by (simp add: sat_i64_def split: if_splits) linarith
qed

section \<open>The experiment's state machine\<close>

text \<open>
  The machine carries the experiments run so far, latest first: the observation of a response, or
  None for one that failed before any response body, each with the HLS estimate of its time.
\<close>

type_synonym experiments = "(capacity_observation option \<times> capacity_estimate) list"

inductive recovery_step :: "experiments \<times> original_recovery \<Rightarrow> experiments \<times> original_recovery \<Rightarrow> bool" where
  clock: "recovery_step (es, r) (es, advance_to r ms)"
| hls_commit: "recovery_step (es, r) (es, on_hls_commit r dir)"
| reconsider: "reconsider_after_hls_commit r cur production buffer h remaining = (r', d) \<Longrightarrow>
    recovery_step (es, r) (es, r')"
| probed: "observe_probe r ob cur production buffer h remaining = (r', v) \<Longrightarrow>
    recovery_step (es, r) ((Some ob, h) # es, r')"
| probe_failed: "observe_probe_failed r h = (r', v) \<Longrightarrow> recovery_step (es, r) ((None, h) # es, r')"

text \<open>What the last experiment says, for each state of the machine.\<close>

definition last_measured :: "experiments \<Rightarrow> nat \<Rightarrow> capacity_estimate \<Rightarrow> bool" where
  "last_measured es needed probe =
     (\<exists>ob h before. es = (Some ob, h) # before \<and> co_completed ob \<and> needed \<le> co_kbps ob \<and>
        probe = exact_estimate (co_kbps ob))"

definition last_fell_short :: "experiments \<Rightarrow> nat \<Rightarrow> nat \<Rightarrow> bool" where
  "last_fell_short es needed bar =
     (\<exists>tried h before. es = (tried, h) # before \<and>
        (case tried of
           None \<Rightarrow> bar = ce_fast h
         | Some ob \<Rightarrow> if co_completed ob then co_kbps ob < needed \<and> bar = max (co_kbps ob) (ce_fast h)
                      else bar = ce_fast h))"

definition recovery_inv :: "nat \<Rightarrow> abr_policy \<Rightarrow> experiments \<times> original_recovery \<Rightarrow> bool" where
  "recovery_inv s policy m =
     (case m of (es, r) \<Rightarrow>
        0 < s \<and> or_source_kbps r = s \<and> or_policy r = policy \<and> or_probes r = min (length es) 255 \<and>
        (or_last_comparison r \<noteq> None \<longleftrightarrow> or_state r = Terminal) \<and>
        (case or_state r of
           Fresh \<Rightarrow> or_probe r = capacity_default
         | AwaitHlsAbove bar \<Rightarrow> last_fell_short es s bar
         | Terminal \<Rightarrow> last_measured es s (or_probe r)
         | ReconsiderAfterHlsCommit \<Rightarrow> last_measured es s (or_probe r)))"

lemmas recovery_simps = recovery_inv_def begin_probe_attempt_def await_stronger_hls_def source_requirement_kbps_def

lemma decide_effect:
  assumes "decide_from_completed_probe r cur production buffer h remaining = (r', v)"
  shows "or_state r' = Terminal \<and> or_last_comparison r' \<noteq> None \<and> or_probe r' = or_probe r \<and>
    or_source_kbps r' = or_source_kbps r \<and> or_policy r' = or_policy r \<and> or_probes r' = or_probes r \<and>
    (v = Recover \<longleftrightarrow> fst (recovery_choice r (or_probe r) cur production buffer h remaining) = Original) \<and>
    (v = Recover \<or> v = NotWorthIt)"
  using assms by (auto simp: decide_from_completed_probe_def Let_def split: prod.splits if_splits)

lemma observe_probe_cases:
  assumes "observe_probe r ob cur production buffer h remaining = (r', v)"
  obtains "\<not> co_completed ob" "v = Insufficient" "r' = await_stronger_hls (begin_probe_attempt r) 0 h"
  | "co_completed ob" "co_kbps ob < source_requirement_kbps (or_source_kbps r) (or_policy r)" "v = Insufficient"
    "r' = await_stronger_hls ((begin_probe_attempt r)\<lparr>or_probe := exact_estimate (co_kbps ob)\<rparr>) (co_kbps ob) h"
  | "co_completed ob" "source_requirement_kbps (or_source_kbps r) (or_policy r) \<le> co_kbps ob"
    "decide_from_completed_probe ((begin_probe_attempt r)\<lparr>or_probe := exact_estimate (co_kbps ob)\<rparr>)
       cur production buffer h remaining = (r', v)"
  using assms by (auto simp: observe_probe_def Let_def begin_probe_attempt_def split: if_splits)

lemma recovery_step_inv: "recovery_step m m' \<Longrightarrow> recovery_inv s policy m \<Longrightarrow> recovery_inv s policy m'"
proof (induction rule: recovery_step.induct)
  case (clock es r ms)
  then show ?case by (cases "or_state r") (simp_all add: recovery_inv_def advance_to_def)
next
  case (hls_commit es r dir)
  then show ?case by (cases dir; cases "or_state r") (simp_all add: recovery_inv_def on_hls_commit_def)
next
  case (reconsider r cur production buffer h remaining r' d es)
  show ?case
  proof (cases "or_state r = ReconsiderAfterHlsCommit")
    case True
    then obtain v where "decide_from_completed_probe r cur production buffer h remaining = (r', v)"
      using reconsider.hyps by (auto simp: reconsider_after_hls_commit_def Let_def split: prod.splits)
    from decide_effect [OF this] reconsider.prems True show ?thesis by (simp add: recovery_inv_def)
  next
    case False
    then show ?thesis using reconsider by (simp add: reconsider_after_hls_commit_def)
  qed
next
  case (probed r ob cur production buffer h remaining r' v es)
  from probed.hyps show ?case
  proof (cases rule: observe_probe_cases)
    case 3
    from decide_effect [OF 3(3)] 3(1,2) probed.prems show ?thesis
      by (simp add: recovery_simps last_measured_def sat_add_def u8_max_def)
  qed (use probed.prems in \<open>simp_all add: recovery_simps last_fell_short_def sat_add_def u8_max_def\<close>)
next
  case (probe_failed r h r' v es)
  then show ?case by (auto simp: recovery_simps observe_probe_failed_def last_fell_short_def sat_add_def u8_max_def)
qed

interpretation recovery: state_machine
  "\<lambda>m. \<exists>r features history cat. m = ([], r) \<and> recovery_new s policy features history cat = Some r"
  recovery_step "recovery_inv s policy" for s policy
proof unfold_locales
  show "recovery_inv s policy m"
    if "\<exists>r features history cat. m = ([], r) \<and> recovery_new s policy features history cat = Some r" for m
    using that by (auto simp: recovery_new_def recovery_inv_def split: if_splits)
qed (rule recovery_step_inv)

section \<open>The original's session\<close>

definition original_inv :: "original_controller \<Rightarrow> bool" where
  "original_inv c =
     (0 < om_source_kbps c \<and> om_policy c = policy_measured \<and> 0 \<le> om_deficit_ms c \<and> om_deficit_ms c \<le> i64_max \<and>
      (\<not> om_deficit_active c \<longrightarrow> om_deficit_ms c = 0) \<and>
      (be_samples (om_buffer c) = 0 \<longrightarrow> om_buffer c = buffer_default \<and> \<not> om_deficit_active c))"

inductive original_step :: "original_controller \<Rightarrow> original_controller \<Rightarrow> bool" where
  observed: "original_observe c bytes active_us buffered remaining now = (c', ob) \<Longrightarrow> original_step c c'"
| sought: "original_step c (original_on_seek c bytes active_us)"
| resumed: "original_step c (original_on_resume c paused_ms)"

lemma clear_deficit_fields [simp]:
  "om_source_kbps (clear_deficit c) = om_source_kbps c" "om_policy (clear_deficit c) = om_policy c"
  "om_buffer (clear_deficit c) = om_buffer c" "om_deficit_ms (clear_deficit c) = 0"
  "\<not> om_deficit_active (clear_deficit c)" "om_catalog (clear_deficit c) = om_catalog c"
  "om_delivery (clear_deficit c) = om_delivery c"
  by (simp_all add: clear_deficit_def)

lemma be_update_positive:
  "0 < wall \<Longrightarrow> be_samples (be_update e (Some b) wall) = sat_add_u32 (be_samples e) 1"
  by (simp add: be_update_def Let_def)

lemma be_update_first:
  "be_update buffer_default (Some b) wall = \<lparr>be_buffered = b, be_slope = 0, be_last_delta = 0, be_samples = 1,
     be_draining_samples = 0\<rparr>"
  by (simp add: be_update_def buffer_default_def be_draining_def DRAIN_EPS_MS_PER_S_def sat_add_def range_defs)

definition measured_state :: "original_controller \<Rightarrow> nat \<Rightarrow> nat \<Rightarrow> int \<Rightarrow> int \<Rightarrow> original_controller" where
  "measured_state c byte_delta active_delta wall_delta buffered_ms =
     c\<lparr>om_delivery := learn_delivery (om_delivery c) byte_delta active_delta,
       om_buffer := be_update (om_buffer c) (Some buffered_ms) (max wall_delta 1)\<rparr>"

lemma original_measure_Value:
  assumes "original_measure c0 byte_delta active_delta wall_delta buffered_ms remaining_ms = (c', ob)"
  obtains unsafe_now where "c' = tally_deficit (measured_state c0 byte_delta active_delta wall_delta buffered_ms) unsafe_now wall_delta"
    "unsafe_now \<Longrightarrow> be_samples (om_buffer c0) \<noteq> 0 \<and> be_draining (om_buffer c')"
    "ob_fallback ob = original_verdict c' buffered_ms remaining_ms (fallback_target c')"
    "ob_target ob = fallback_target c'" "ob_buffered_ms ob = buffered_ms" "ob_unsafe_deficit_ms ob = om_deficit_ms c'"
proof -
  let ?c = "measured_state c0 byte_delta active_delta wall_delta buffered_ms"
  define unsafe_now where "unsafe_now =
    ((case starvation_horizon buffered_ms (source_requirement_kbps (om_source_kbps ?c) (om_policy ?c))
        (min (ce_fast (om_delivery ?c)) (window_kbps byte_delta active_delta)) of None \<Rightarrow> False
       | Some secs \<Rightarrow> secs < starvation_safe_secs (om_policy ?c)) \<and>
     \<not> be_samples (om_buffer c0) = 0 \<and> be_draining (om_buffer ?c))"
  have c': "c' = tally_deficit ?c unsafe_now wall_delta"
    using assms unfolding original_measure_def measured_state_def unsafe_now_def Let_def
    by (simp only: prod.inject)
  have ob: "ob_fallback ob = original_verdict c' buffered_ms remaining_ms (fallback_target c')"
    "ob_target ob = fallback_target c'" "ob_buffered_ms ob = buffered_ms" "ob_unsafe_deficit_ms ob = om_deficit_ms c'"
    using assms by (auto simp: original_measure_def Let_def)
  have "om_buffer c' = om_buffer ?c" by (simp add: c' tally_deficit_def)
  then have "unsafe_now \<Longrightarrow> be_samples (om_buffer c0) \<noteq> 0 \<and> be_draining (om_buffer c')"
    by (simp add: unsafe_now_def)
  from that [OF c' this ob] show ?thesis by blast
qed

lemma tally_deficit_effect:
  "om_source_kbps (tally_deficit c u w) = om_source_kbps c \<and> om_policy (tally_deficit c u w) = om_policy c \<and>
   om_buffer (tally_deficit c u w) = om_buffer c \<and> om_catalog (tally_deficit c u w) = om_catalog c \<and>
   om_deficit_active (tally_deficit c u w) = u \<and>
   om_deficit_ms (tally_deficit c u w) = (if u \<and> om_deficit_active c then sat_i64 (om_deficit_ms c + w) else 0)"
  by (simp add: tally_deficit_def)

text \<open>What an observation can do: restart the window, clear the deficit, or measure.\<close>

lemma original_observe_cases:
  assumes "original_observe c bytes active_us buffered remaining now = (c', ob)"
  obtains "ob = None" "c' = (original_on_seek c bytes active_us)\<lparr>om_last_now_ms := now\<rparr>"
  | "ob = None" "c' = c"
  | "ob = None" "c' = clear_deficit (c\<lparr>om_last_now_ms := now, om_last_bytes := bytes, om_last_active_us := active_us\<rparr>)"
  | buffered_ms byte_delta active_delta wall_delta o' where "ob = Some o'" "0 \<le> wall_delta" "0 < byte_delta"
      "original_measure (c\<lparr>om_last_now_ms := now, om_last_bytes := bytes, om_last_active_us := active_us\<rparr>)
         byte_delta active_delta wall_delta buffered_ms remaining = (c', o')"
proof -
  let ?c = "c\<lparr>om_last_now_ms := now, om_last_bytes := bytes, om_last_active_us := active_us\<rparr>"
  let ?w = "unwrap_or (i64_of_nat (now - om_last_now_ms c)) 0"
  have w: "0 \<le> ?w" by (simp add: i64_of_nat_def checked_i64_def)
  consider "bytes < om_last_bytes c \<or> active_us < om_last_active_us c"
    | "\<not> (bytes < om_last_bytes c \<or> active_us < om_last_active_us c)" "active_us - om_last_active_us c < ORIGINAL_WINDOW_US"
    | "\<not> (bytes < om_last_bytes c \<or> active_us < om_last_active_us c)" "\<not> active_us - om_last_active_us c < ORIGINAL_WINDOW_US"
      "buffered = None \<or> bytes - om_last_bytes c = 0"
    | b where "\<not> (bytes < om_last_bytes c \<or> active_us < om_last_active_us c)" "\<not> active_us - om_last_active_us c < ORIGINAL_WINDOW_US"
      "buffered = Some b" "bytes - om_last_bytes c \<noteq> 0"
    by (cases buffered) blast+
  then show ?thesis
  proof cases
    case 4
    obtain c1 o1 where m: "original_measure ?c (bytes - om_last_bytes c) (active_us - om_last_active_us c) ?w b remaining = (c1, o1)"
      by fastforce
    have eq: "c' = c1" "ob = Some o1" using assms 4 m by (simp_all add: original_observe_def Let_def)
    have "0 < bytes - om_last_bytes c" using 4(4) by simp
    then show ?thesis by (rule that(4) [OF eq(2) w _ m [folded eq(1)]])
  qed (use assms that in \<open>auto simp: original_observe_def Let_def split: option.splits\<close>)
qed

lemma original_step_inv: "original_step c c' \<Longrightarrow> original_inv c \<Longrightarrow> original_inv c'"
proof (induction rule: original_step.induct)
  case (observed c bytes active_us buffered remaining now c' ob)
  from observed.hyps show ?case
  proof (cases rule: original_observe_cases)
    case (4 buffered_ms byte_delta active_delta wall_delta o')
    from 4(4) show ?thesis
    proof (rule original_measure_Value)
      fix u
      let ?c = "c\<lparr>om_last_now_ms := now, om_last_bytes := bytes, om_last_active_us := active_us\<rparr>"
      assume c': "c' = tally_deficit (measured_state ?c byte_delta active_delta wall_delta buffered_ms) u wall_delta"
      have "be_samples (be_update (om_buffer c) (Some buffered_ms) (max wall_delta 1)) \<noteq> 0"
        by (subst be_update_positive) (simp_all add: sat_add_def range_defs)
      then show ?thesis
        using observed.prems 4(2)
        by (simp add: c' original_inv_def tally_deficit_effect measured_state_def sat_i64_def range_defs)
    qed
  qed (use observed.prems in \<open>auto simp: original_inv_def original_on_seek_def\<close>)
qed (auto simp: original_inv_def original_on_seek_def original_on_resume_def)

interpretation original: state_machine
  "\<lambda>c. \<exists>s cat history features. original_new s policy_measured cat history features = Some c" original_step original_inv
proof unfold_locales
  show "original_inv c" if "\<exists>s cat history features. original_new s policy_measured cat history features = Some c" for c
    using that by (auto simp: original_new_def original_inv_def range_defs split: if_splits)
qed (rule original_step_inv)

lemma original_verdict_Some:
  assumes "original_verdict c buffered remaining target = Some e"
  shows "target \<noteq> None \<and> \<not> (0 < remaining \<and> remaining \<le> buffered) \<and>
    (case e of
       EmergencyLowBuffer \<Rightarrow> buffered \<le> emergency_buffer_ms (om_policy c) \<and> be_last_delta (om_buffer c) < 0 \<and>
         \<not> be_filling (om_buffer c)
     | ImminentStarvation \<Rightarrow> is_imminent c
     | SustainedDeficit \<Rightarrow> sustained_unsafe_deficit_ms (om_policy c) \<le> om_deficit_ms c \<and>
         (\<exists>r. target = Some r \<and>
            fst (choose_mode (exit_inputs c remaining) (candidate (om_catalog c) r) (candidate (om_catalog c) r) (om_policy c)) = ModeHls))"
  using assms by (auto simp: original_verdict_def Let_def split: option.splits if_splits)

lemma is_imminent_D:
  assumes "is_imminent c" and "original_inv c"
  shows "be_draining (om_buffer c) \<and> (\<exists>secs. observed_starvation_secs (om_buffer c) = Some secs \<and> secs \<le> 20 \<and>
    (4500 \<le> om_deficit_ms c \<or> sat_i64 (secs * 1000) \<le> 4500 - om_deficit_ms c + 2000))"
proof -
  from assms(1) obtain secs where s: "observed_starvation_secs (om_buffer c) = Some secs"
    "secs \<le> int (starvation_fallback_secs (om_policy c))"
    "confirmation_remaining_ms c = 0 \<or>
      sat_i64 (secs * 1000) \<le> sat_i64 (confirmation_remaining_ms c + max (emergency_buffer_ms (om_policy c)) 0)"
    by (auto simp: is_imminent_def Let_def split: option.splits)
  have p: "om_policy c = policy_measured" "0 \<le> om_deficit_ms c" "om_deficit_ms c \<le> i64_max"
    using assms(2) by (simp_all add: original_inv_def)
  have conf: "confirmation_remaining_ms c = max (4500 - om_deficit_ms c) 0"
    using p by (simp add: confirmation_remaining_ms_def policy_measured_def sat_i64_def range_defs)
  have "sat_i64 (confirmation_remaining_ms c + 2000) = confirmation_remaining_ms c + 2000"
    using p by (simp add: conf sat_i64_def range_defs)
  then have "4500 \<le> om_deficit_ms c \<or> sat_i64 (secs * 1000) \<le> 4500 - om_deficit_ms c + 2000"
    using s(3) by (auto simp: conf p(1) policy_measured_def)
  moreover have "be_draining (om_buffer c)" using s(1) by (simp add: observed_starvation_secs_def split: if_splits)
  ultimately show ?thesis using s(1,2) by (auto simp: p(1) policy_measured_def)
qed

lemma fallback_target_feasible:
  "fallback_target c = Some r \<Longrightarrow> \<exists>x \<in> set (feasible (om_catalog c)). hc_rung x = r"
  using best_or_first by (auto simp: fallback_target_def rung_of_def)

section \<open>Properties\<close>

text \<open>
  C34. A source experiment is only permitted when the reserve pays for it: the playable reserve covers
  both serial phases of the plan and, after them, the runway the current stream needs and the media of
  the next HLS acquisition. It is also only permitted on a reserve that is not draining, with no
  useful HLS step left, and when a source that carried exactly its requirement would be chosen. The
  gate is open only to a fresh machine, or when the conservative HLS estimate is above the bar the last
  experiment left; it compares values, so an estimate that has not changed since may pass it, and a
  decided machine is closed. The plan's size and time are within their limits and its time fits its size at the
  source's rate.
\<close>

theorem probe_permit_is_funded:
  assumes "probe_due_with_rollback r cur frontier production sample (Some rb) (Some run) buffer h remaining = Inr plan"
    and "snapshot_buffered_ms (ss_buffer sample) = Some buf" and "buf < i64_max"
    and "or_policy r = policy_measured" and "or_source_kbps r \<le> u32_max"
  shows "2 * int (budget_ms plan) + max (max run 0) (int rb) \<le> buf \<and>
    frontier \<and> \<not> be_draining buffer \<and>
    (or_state r = Fresh \<or> (\<exists>bar. or_state r = AwaitHlsAbove bar \<and> bar < conservative_kbps h)) \<and>
    fst (recovery_choice r (exact_estimate (or_source_kbps r)) cur production buffer h remaining) = Original \<and>
    1 \<le> budget_ms plan \<and> budget_ms plan \<le> PROBE_BUDGET_MS \<and>
    SOURCE_PROBE_MIN_BYTES \<le> target_bytes plan \<and> target_bytes plan \<le> SOURCE_PROBE_MAX_BYTES \<and>
    (budget_ms plan = PROBE_BUDGET_MS \<or> target_bytes plan * 8 \<le> or_source_kbps r * budget_ms plan)"
proof -
  note permit = probe_due_permit [OF assms(1)]
  from permit obtain required where fund:
    "probe_funding r (Some run) (Some rb) (Some buf) = Some (plan, required, buf)" "required \<le> buf"
    using assms(2) by (auto elim: probe_funding_Some)
  have "probe_budget_ms (or_policy r) = PROBE_BUDGET_MS" by (simp add: assms(4) policy_measured_def)
  with fund(1) have "source_probe_plan (or_source_kbps r) PROBE_BUDGET_MS = Some plan"
    by (metis probe_funding_Some)
  from source_probe_plan_Some [OF this assms(5)] have plan: "1 \<le> budget_ms plan" "budget_ms plan \<le> PROBE_BUDGET_MS"
    "SOURCE_PROBE_MIN_BYTES \<le> target_bytes plan" "target_bytes plan \<le> SOURCE_PROBE_MAX_BYTES"
    "budget_ms plan = PROBE_BUDGET_MS \<or> target_bytes plan * 8 \<le> or_source_kbps r * budget_ms plan"
    by blast+
  have "fst (recovery_choice r (exact_estimate (or_source_kbps r)) cur production buffer h remaining) = Original"
    using permit by (simp add: worth_probing_def source_requirement_kbps_def)
  moreover have "or_state r = Fresh \<or> (\<exists>bar. or_state r = AwaitHlsAbove bar \<and> bar < conservative_kbps h)"
    using permit by (cases "or_state r") (simp_all add: link_evidence_def)
  ultimately show ?thesis using funded_exactly [OF fund assms(3) refl refl plan(2)] permit plan by blast
qed

text \<open>
  An experiment that was cut short, failed, or measured less than the source needs reports no
  recovery and closes the gate: the next one is only permitted once the conservative HLS estimate
  exceeds HLS's own recent estimate of that time and what the source delivered. A decided experiment
  closes the gate until an HLS commit.
\<close>

theorem gate_waits_for_stronger_link:
  assumes "observe_probe r ob cur production buffer h remaining = (r', v)"
    and "probe_due_with_rollback r' cur' frontier production' sample rollback runway buffer' h' remaining' = Inr plan"
  shows "v = Insufficient \<and> ce_fast h < conservative_kbps h' \<and>
    (co_completed ob \<longrightarrow> co_kbps ob < or_source_kbps r \<and> co_kbps ob < conservative_kbps h')"
proof -
  have open_gate: "link_evidence (or_state r') h'" using probe_due_permit [OF assms(2)] by blast
  from assms(1) show ?thesis
  proof (cases rule: observe_probe_cases)
    case 3
    then show ?thesis using decide_effect [OF 3(3)] open_gate by (simp add: link_evidence_def)
  qed (use open_gate in \<open>auto simp: link_evidence_def await_stronger_hls_def source_requirement_kbps_def\<close>)
qed

text \<open>
  C35. In every state the experiment's machine reaches, what it decided or waits for is what its last
  experiment measured. A decision, standing or waiting to be reconsidered after an HLS commit, rests on
  the last experiment, which completed, at a rate of at least what the source needs, and the retained
  estimate is that rate exactly. The gate's bar stands after a last experiment that failed, was cut
  short or completed below the source's need, and is its completed rate or HLS's own recent estimate of
  that time, whichever is greater. A fresh machine retains no measurement. Every experiment is counted,
  up to the counter's limit, and a comparison is published exactly while its decision stands.
\<close>

theorem decisions_rest_on_measurements:
  assumes "recovery_new s policy features history cat = Some r0" and "recovery_step\<^sup>*\<^sup>* ([], r0) (es, r)"
  shows "0 < s \<and> or_source_kbps r = s \<and> or_probes r = min (length es) 255 \<and>
    (or_last_comparison r \<noteq> None \<longleftrightarrow> or_state r = Terminal) \<and>
    (case or_state r of
       Fresh \<Rightarrow> or_probe r = capacity_default
     | AwaitHlsAbove bar \<Rightarrow>
         (\<exists>h before. es = (None, h) # before \<and> bar = ce_fast h) \<or>
         (\<exists>ob h before. es = (Some ob, h) # before \<and> \<not> co_completed ob \<and> bar = ce_fast h) \<or>
         (\<exists>ob h before. es = (Some ob, h) # before \<and> co_completed ob \<and> co_kbps ob < s \<and>
            bar = max (co_kbps ob) (ce_fast h))
     | _ \<Rightarrow>
         (\<exists>ob h before. es = (Some ob, h) # before \<and> co_completed ob \<and> s \<le> co_kbps ob \<and>
            or_probe r = \<lparr>ce_fast = co_kbps ob, ce_slow = co_kbps ob, ce_uncertainty = 0, ce_samples = 1\<rparr>))"
proof -
  have inv: "recovery_inv s policy (es, r)" using recovery.steps_inv [OF assms(2)] recovery.inv_start assms(1) by blast
  show ?thesis
  proof (cases "or_state r")
    case (AwaitHlsAbove bar)
    then obtain tried h before where e: "es = (tried, h) # before" "last_fell_short ((tried, h) # before) s bar"
      using inv by (auto simp: recovery_inv_def last_fell_short_def)
    then show ?thesis using inv AwaitHlsAbove
      by (cases tried) (auto simp: recovery_inv_def last_fell_short_def split: if_splits)
  qed (use inv in \<open>auto simp: recovery_inv_def last_measured_def exact_estimate_def\<close>)
qed

text \<open>
  C36. The original is only left on measured evidence and towards a feasible rung, never when the
  reserve outlasts the content. An emergency needs a low reserve that fell since the last window and is
  not refilling; imminent starvation needs a draining reserve whose own countdown is at most twenty
  seconds and that is confirmed or cannot afford its confirmation; a sustained deficit needs a draining
  reserve, four and a half seconds of it, and a mode comparison in favour of HLS. The first window
  after a start, a seek or a resume never leaves.
\<close>

theorem original_exit_is_measured:
  assumes "original_new s policy_measured cat history features = Some c0" and "original_step\<^sup>*\<^sup>* c0 c"
    and "original_observe c bytes active_us buffered remaining now = (c', Some ob)" and "ob_fallback ob = Some e"
  shows "be_samples (om_buffer c) \<noteq> 0 \<and> \<not> (0 < remaining \<and> remaining \<le> ob_buffered_ms ob) \<and>
    (\<exists>x \<in> set (feasible (om_catalog c')). ob_target ob = Some (hc_rung x)) \<and>
    (case e of
       EmergencyLowBuffer \<Rightarrow> ob_buffered_ms ob \<le> 2000 \<and> be_last_delta (om_buffer c') < 0 \<and> \<not> be_filling (om_buffer c')
     | ImminentStarvation \<Rightarrow> be_draining (om_buffer c') \<and>
         (\<exists>secs. observed_starvation_secs (om_buffer c') = Some secs \<and> secs \<le> 20 \<and>
            (4500 \<le> om_deficit_ms c' \<or> sat_i64 (secs * 1000) \<le> 4500 - om_deficit_ms c' + 2000))
     | SustainedDeficit \<Rightarrow> be_draining (om_buffer c') \<and> 4500 \<le> om_deficit_ms c' \<and> om_deficit_active c \<and>
         (\<exists>r. ob_target ob = Some r \<and> fst (choose_mode (exit_inputs c' remaining) (candidate (om_catalog c') r)
            (candidate (om_catalog c') r) policy_measured) = ModeHls))"
proof -
  have inv: "original_inv c" using original.steps_inv [OF assms(2)] original.inv_start assms(1) by blast
  have inv': "original_inv c'" by (rule original_step_inv [OF observed [OF assms(3)] inv])
  have pol: "om_policy c' = policy_measured" using inv' by (simp add: original_inv_def)
  from assms(3) show ?thesis
  proof (cases rule: original_observe_cases)
    case (4 buffered_ms byte_delta active_delta wall_delta o')
    let ?c = "c\<lparr>om_last_now_ms := now, om_last_bytes := bytes, om_last_active_us := active_us\<rparr>"
    from 4(4) show ?thesis
    proof (rule original_measure_Value)
      fix u
      assume c': "c' = tally_deficit (measured_state ?c byte_delta active_delta wall_delta buffered_ms) u wall_delta"
        and u: "u \<Longrightarrow> be_samples (om_buffer ?c) \<noteq> 0 \<and> be_draining (om_buffer c')"
        and fb: "ob_fallback o' = original_verdict c' buffered_ms remaining (fallback_target c')"
        and rest: "ob_target o' = fallback_target c'" "ob_buffered_ms o' = buffered_ms"
      have o': "o' = ob" using 4(1) by simp
      have verdict: "original_verdict c' buffered_ms remaining (fallback_target c') = Some e"
        using fb assms(4) by (simp add: o')
      note v = original_verdict_Some [OF verdict]
      have active: "u \<and> om_deficit_active c" if "0 < om_deficit_ms c'"
        using that by (auto simp: c' tally_deficit_effect measured_state_def split: if_splits)
      have warm: "be_samples (om_buffer c) \<noteq> 0"
      proof
        assume cold: "be_samples (om_buffer c) = 0"
        then have buf: "om_buffer c = buffer_default" using inv by (simp add: original_inv_def)
        have fresh: "be_slope (om_buffer c') = 0" "be_last_delta (om_buffer c') = 0"
          by (simp_all add: c' tally_deficit_effect measured_state_def buf be_update_first)
        have "om_deficit_ms c' = 0" using active cold u inv' by (fastforce simp: original_inv_def)
        with v fresh is_imminent_D [of c'] inv' show False
          by (cases e) (auto simp: be_draining_def DRAIN_EPS_MS_PER_S_def pol policy_measured_def)
      qed
      from v obtain r where r: "fallback_target c' = Some r" by blast
      have target: "\<exists>x \<in> set (feasible (om_catalog c')). ob_target ob = Some (hc_rung x)"
        using fallback_target_feasible [OF r] rest(1) r by (auto simp: o')
      show ?thesis
      proof (cases e)
        case ImminentStarvation
        then show ?thesis using v warm target is_imminent_D [of c'] inv' rest by (simp add: o')
      next
        case SustainedDeficit
        then have "4500 \<le> om_deficit_ms c'" using v by (simp add: pol policy_measured_def)
        then show ?thesis using v warm target active u rest SustainedDeficit by (simp add: o' pol)
      next
        case EmergencyLowBuffer
        then show ?thesis using v warm target rest by (simp add: o' pol policy_measured_def)
      qed
    qed
  qed simp_all
qed

text \<open>
  Handing a playback back to Auto starts HLS on a feasible rung: at least as wide as the feasible
  rung that is playing, and as wide as any feasible rung the carried estimate supports. Opening an
  original that has to fall back starts on the bootstrap rung when it is feasible, and on a feasible
  rung in any case.
\<close>

theorem hls_starts_on_supported_rung:
  assumes "feasible cat \<noteq> []"
  shows "(\<exists>c \<in> set (feasible cat). hls_reentry_rung current prior cat policy = hc_rung c \<and>
      (\<forall>r x. current = Some r \<longrightarrow> feasible_rung cat r = Some x \<longrightarrow> expected_wire_kbps x \<le> expected_wire_kbps c) \<and>
      (\<forall>e x. prior = Some e \<longrightarrow> x \<in> set (feasible cat) \<longrightarrow> expected_wire_kbps x \<le> conservative_kbps e \<longrightarrow>
         expected_wire_kbps x \<le> expected_wire_kbps c)) \<and>
    original_open_fallback_rung boot cat policy \<in> hc_rung ` set (feasible cat) \<and>
    (\<forall>r. boot = Some r \<longrightarrow> feasible_rung cat r \<noteq> None \<longrightarrow> original_open_fallback_rung boot cat policy = r) \<and>
    original_fallback_rung measured cat policy \<in> hc_rung ` set (feasible cat)"
proof -
  have some: "\<exists>c. or_else (best_for_budget cat b) (first_feasible cat) = Some c \<and> c \<in> set (feasible cat)" for b
    using best_or_first_None [of cat b] best_or_first [of cat b] assms
    by (cases "or_else (best_for_budget cat b) (first_feasible cat)") auto
  have boot: "rung_of (feasible_rung cat r) = (if feasible_rung cat r \<noteq> None then Some r else None) \<and>
      (feasible_rung cat r \<noteq> None \<longrightarrow> r \<in> hc_rung ` set (feasible cat))" for r
    using feasible_rung_Some [of cat r] by (cases "feasible_rung cat r") force+
  have opened: "original_open_fallback_rung boot cat policy \<in> hc_rung ` set (feasible cat) \<and>
    (\<forall>r. boot = Some r \<longrightarrow> feasible_rung cat r \<noteq> None \<longrightarrow> original_open_fallback_rung boot cat policy = r)"
    using some [of "policy_startup_floor_kbps policy"] boot
    by (auto simp: original_open_fallback_rung_def Let_def split: option.splits)
  have "original_fallback_rung measured cat policy \<in> hc_rung ` set (feasible cat)"
    using some [of measured] by (auto simp: original_fallback_rung_def)
  from conjI [OF hls_reentry_rung_choice [OF assms] conjI [OF conjunct1 [OF opened] conjI [OF conjunct2 [OF opened] this]]]
  show ?thesis .
qed

section \<open>A gate that reopens on the same evidence\<close>

text \<open>
  The recent estimate can lie below the conservative bound: five observations of the estimate's own
  update give one. A failed experiment then leaves the gate open for the very estimate it was made
  with, although the gate means to wait for a stronger bound.
\<close>

definition window_observation :: "nat \<Rightarrow> capacity_observation" where
  "window_observation kbps = \<lparr>co_kbps = kbps, co_bytes = 500000, co_active_us = 500000, co_completed = True\<rparr>"

definition recovered_estimate :: capacity_estimate where
  "recovered_estimate =
     foldl (\<lambda>e k. ce_update e (window_observation k)) capacity_default [10600, 2700, 2700, 2700, 5900]"

lemma recovered_estimate_eq:
  "recovered_estimate = \<lparr>ce_fast = 4793, ce_slow = 5999, ce_uncertainty = 200, ce_samples = 5\<rparr>"
  by (simp add: recovered_estimate_def window_observation_def ce_update_def capacity_default_def
      is_regime_change_def sat_mul_def sat_add_def obs_weight_def quality_def estimate_consts weighted_mean_def
      sample_uncertainty_def abs_diff_def range_defs Let_def)

lemma failed_probe_reopens_gate:
  "link_evidence (or_state (fst (observe_probe_failed r recovered_estimate))) recovered_estimate"
  by (simp add: observe_probe_failed_def await_stronger_hls_def link_evidence_def recovered_estimate_eq
      conservative_kbps_def range_defs)

section \<open>Concrete states\<close>

definition sample_recovery :: original_recovery where
  "sample_recovery = \<lparr>or_source_kbps = 8000, or_policy = policy_measured, or_probe = capacity_default,
     or_features = \<lparr>sf_dv = False, sf_atmos = False\<rparr>, or_history = history_default, or_elapsed_ms = 0,
     or_probes = 0, or_state = Fresh, or_last_comparison = None,
     or_catalog = \<lparr>cat_candidates = [point P480 2000 300], raster_limit = (u16_max, u16_max), cat_source = (0, 0)\<rparr>\<rparr>"

definition sample_link :: capacity_estimate where
  "sample_link = exact_estimate 1000"

definition full_sample :: segment_sample where
  "full_sample = \<lparr>ss_bytes = 1000000, ss_active_fetch_us = 800000, ss_total_fetch_us = 900000,
     ss_media_duration_ms = 2000, ss_media_obligation_ms = 2000,
     ss_buffer = \<lparr>playback = 0, video_tail = 20000, audio_tail = Some 20000, audio_expected = True\<rparr>,
     ss_completed = True\<rparr>"

lemma sample_recovery_new:
  "recovery_new 8000 policy_measured \<lparr>sf_dv = False, sf_atmos = False\<rparr> history_default
     \<lparr>cat_candidates = [point P480 2000 300], raster_limit = (u16_max, u16_max), cat_source = (0, 0)\<rparr> = Some sample_recovery"
  by (simp add: recovery_new_def sample_recovery_def)

lemma sample_worth_probing:
  "worth_probing (sample_recovery\<lparr>or_probes := n, or_state := st\<rparr>) (point P480 2000 300) production_default
     buffer_default sample_link 600000"
proof -
  let ?r = "sample_recovery\<lparr>or_probes := n, or_state := st\<rparr>" and ?c = "point P480 2000 300"
  define i where "i = recovery_inputs ?r (exact_estimate 8000) production_default buffer_default sample_link 600000"
  have pol: "server_cost_weight policy_measured = 4" "risk_weight policy_measured = 2"
    "emergency_buffer_ms policy_measured = 2000" "starvation_safe_secs policy_measured = 60"
    "starvation_fallback_secs policy_measured = 20" "original_quality_bonus policy_measured = 40"
    "generation_loss_bonus policy_measured = 8"
    by (simp_all add: policy_measured_def)
  have scale: "benefit_scale_pm 600000 policy_measured = 1000"
    by (simp add: benefit_scale_pm_def policy_measured_def trunc_div_nonneg wrap_i64_def)
  have id: "scaled v 1000 = v" if "is_i64 (v * 1000)" for v
    using that by (simp add: scaled_def wrap_i64_id trunc_div_def abs_mult Let_def)
  have score: "0 \<le> source_quality_score i" "source_quality_score i \<le> 76"
    using quality_score_at_range by (simp_all add: source_quality_score_def Let_def)
  have "original_utility i policy_measured \<noteq> None" by (simp add: original_utility_def i_def recovery_inputs_def Let_def)
  then obtain u where u: "original_utility i policy_measured = Some u" by blast
  have risk: "original_risk_score i policy_measured = 0"
    by (simp add: original_risk_score_def i_def recovery_inputs_def sample_recovery_def starvation_horizon_def
      conservative_kbps_def exact_estimate_def source_requirement_kbps_def policy_measured_def range_defs
      trunc_div_def sat_i64_def nat_of_i64_def Let_def)
  have "transition_cost (in_current i) Original (in_history i) policy_measured = 15"
    by (simp add: transition_cost_def i_def recovery_inputs_def sample_recovery_def penalty_def history_default_def
      advanced_by_def policy_measured_def wrap_i64_def)
  then have "0 < mu_total u"
    using u risk score scale
    by (auto simp: original_utility_def Let_def i_def recovery_inputs_def policy_measured_def id is_i64_def range_defs wrap_i64_def sample_recovery_def)
  moreover have "mu_total (hls_utility ?c ?c i policy_measured) < 0"
    by (simp add: hls_utility_def i_def recovery_inputs_def sample_recovery_def scale id is_i64_def range_defs
      candidate_risk_def risk_score_def starvation_horizon_def sample_link_def exact_estimate_def conservative_kbps_def
      buffer_default_def pol point_def hls_scoring_kbps_def quality_score_at_kbps_def transition_cost_def
      trunc_div_def wrap_i64_def nat_of_i64_def RISK_NET_def RISK_BUFFER_def be_starving_def)
  moreover have "best_hls ?r ?c buffer_default sample_link = ?c"
    by (simp add: best_hls_def best_sustainable_def feasible_def sample_recovery_def modeled_sustainable_def
      point_def hls_safe_budget_def conservative_kbps_def sample_link_def exact_estimate_def range_defs)
  moreover have "or_source_kbps ?r = 8000" "or_policy ?r = policy_measured" by (simp_all add: sample_recovery_def)
  ultimately show ?thesis using u
    by (simp add: worth_probing_def recovery_choice_def choose_mode_def i_def [symmetric] source_requirement_kbps_def Let_def)
qed

lemma sample_permit:
  assumes "link_evidence st sample_link"
  shows "probe_due_with_rollback (sample_recovery\<lparr>or_probes := n, or_state := st\<rparr>) (point P480 2000 300) True
     production_default full_sample (Some 2000) (Some 6000) buffer_default sample_link 600000 =
   Inr \<lparr>target_bytes = 1000000, budget_ms = 1000\<rparr>"
proof -
  have plan: "source_probe_plan 8000 PROBE_BUDGET_MS = Some \<lparr>target_bytes = 1000000, budget_ms = 1000\<rparr>"
    by (simp add: source_probe_plan_def sat_mul_def sat_add_def checked_nat_def range_defs PROBE_BUDGET_MS_def
        SOURCE_PROBE_MIN_BYTES_def SOURCE_PROBE_MAX_BYTES_def)
  have "snapshot_buffered_ms (ss_buffer full_sample) = Some 20000"
    by (simp add: full_sample_def snapshot_buffered_ms_def saturating_since_def sat_i64_def range_defs)
  then have "probe_funding (sample_recovery\<lparr>or_probes := n, or_state := st\<rparr>) (Some 6000) (Some 2000)
      (snapshot_buffered_ms (ss_buffer full_sample)) = Some (\<lparr>target_bytes = 1000000, budget_ms = 1000\<rparr>, 8000, 20000)"
    using plan by (simp add: probe_funding_def sample_recovery_def policy_measured_def i64_of_nat_def checked_i64_def
        sat_i64_def range_defs)
  moreover have "\<not> be_draining buffer_default" by (simp add: be_draining_def buffer_default_def DRAIN_EPS_MS_PER_S_def)
  ultimately show ?thesis using assms sample_worth_probing by (simp add: probe_due_with_rollback_def)
qed

definition first_window :: original_controller where
  "first_window = \<lparr>om_source_kbps = 8000, om_policy = policy_measured, om_catalog = or_catalog sample_recovery,
     om_delivery = capacity_default, om_buffer = buffer_default, om_history = history_default,
     om_features = \<lparr>sf_dv = False, sf_atmos = False\<rparr>, om_last_bytes = 0, om_last_active_us = 0,
     om_deficit_ms = 0, om_deficit_active = False, om_last_now_ms = 0\<rparr>"

definition second_window :: original_controller where
  "second_window = fst (original_observe first_window 750000 750000 (Some 3000) 600000 750)"

lemma second_window_eq:
  "second_window = first_window\<lparr>om_delivery := \<lparr>ce_fast = 8000, ce_slow = 8000, ce_uncertainty = 500, ce_samples = 1\<rparr>,
     om_buffer := \<lparr>be_buffered = 3000, be_slope = 0, be_last_delta = 0, be_samples = 1, be_draining_samples = 0\<rparr>,
     om_last_bytes := 750000, om_last_active_us := 750000, om_last_now_ms := 750\<rparr>"
proof -
  have kbps: "window_kbps 750000 750000 = 8000"
    by (simp add: window_kbps_def kbps_from_def sat_mul_def range_defs)
  have learn: "learn_delivery capacity_default 750000 750000 = \<lparr>ce_fast = 8000, ce_slow = 8000, ce_uncertainty = 500, ce_samples = 1\<rparr>"
    by (simp add: learn_delivery_def kbps is_collapse_def capacity_default_def ce_update_def sat_add_def
      MAX_UNCERTAINTY_PM_def range_defs)
  have measure: "fst (original_measure (first_window\<lparr>om_last_now_ms := 750, om_last_bytes := 750000, om_last_active_us := 750000\<rparr>)
      750000 750000 750 3000 600000) = first_window\<lparr>om_delivery := \<lparr>ce_fast = 8000, ce_slow = 8000, ce_uncertainty = 500, ce_samples = 1\<rparr>,
     om_buffer := \<lparr>be_buffered = 3000, be_slope = 0, be_last_delta = 0, be_samples = 1, be_draining_samples = 0\<rparr>,
     om_last_bytes := 750000, om_last_active_us := 750000, om_last_now_ms := 750\<rparr>"
    by (simp add: original_measure_def first_window_def learn be_update_first tally_deficit_def clear_deficit_def
      buffer_default_def [THEN arg_cong [where f = be_samples]] Let_def)
  show ?thesis unfolding measure [symmetric]
    by (simp add: second_window_def original_observe_def first_window_def ORIGINAL_WINDOW_US_def i64_of_nat_def
      checked_i64_def range_defs split: prod.splits)
qed

lemma last_window_exit:
  "\<exists>c' ob. original_observe second_window 1500000 1500000 (Some 1000) 600000 1500 = (c', Some ob) \<and>
     ob_fallback ob = Some EmergencyLowBuffer"
proof -
  have pol: "emergency_buffer_ms policy_measured = 2000" by (simp add: policy_measured_def)
  obtain c' ob where m: "original_observe second_window 1500000 1500000 (Some 1000) 600000 1500 = (c', Some ob)"
    by (simp add: second_window_eq first_window_def original_observe_def original_measure_def ORIGINAL_WINDOW_US_def Let_def)
  then have "om_policy c' = policy_measured \<and> be_last_delta (om_buffer c') = - 2000 \<and> be_slope (om_buffer c') = - 2666 \<and>
      om_catalog c' = or_catalog sample_recovery \<and>
      ob_fallback ob = original_verdict c' 1000 600000 (fallback_target c')"
    by (auto simp: second_window_eq first_window_def original_observe_def original_measure_def ORIGINAL_WINDOW_US_def
      be_update_def tally_deficit_def clear_deficit_def wrap_i64_def trunc_div_def i64_of_nat_def checked_i64_def range_defs
      Let_def)
  moreover have "first_feasible (or_catalog sample_recovery) \<noteq> None"
    by (simp add: first_feasible_def feasible_def sample_recovery_def catalog_admits_def decodable_def covers_source_def
      point_def range_defs)
  then have "fallback_target c' \<noteq> None" if "om_catalog c' = or_catalog sample_recovery"
    using that by (auto simp: fallback_target_def or_else_def rung_of_def split: option.splits)
  ultimately show ?thesis using m pol by (auto simp: original_verdict_def be_filling_def DRAIN_EPS_MS_PER_S_def)
qed

lemma probe_permit_is_funded_witness:
  "2 * int 1000 + max (max 6000 0) (int 2000) \<le> (20000 :: int)"
proof -
  have "link_evidence Fresh sample_link" by (simp add: link_evidence_def)
  moreover have "snapshot_buffered_ms (ss_buffer full_sample) = Some 20000"
    by (simp add: full_sample_def snapshot_buffered_ms_def saturating_since_def sat_i64_def range_defs)
  ultimately show ?thesis
    using probe_permit_is_funded [OF sample_permit [of Fresh 0], of 20000]
    by (simp add: sample_recovery_def range_defs)
qed

lemma gate_waits_for_stronger_link_witness:
  "ce_fast (exact_estimate 500) < conservative_kbps sample_link"
proof -
  let ?r = "sample_recovery\<lparr>or_probes := 1, or_state := AwaitHlsAbove 500\<rparr>"
  have "observe_probe sample_recovery ((window_observation 900)\<lparr>co_completed := False\<rparr>) (point P480 2000 300)
      production_default buffer_default (exact_estimate 500) 600000 = (?r, Insufficient)"
    by (simp add: observe_probe_def begin_probe_attempt_def await_stronger_hls_def window_observation_def
        sample_recovery_def exact_estimate_def sat_add_def range_defs)
  moreover have "link_evidence (AwaitHlsAbove 500) sample_link"
    by (simp add: link_evidence_def sample_link_def exact_estimate_def conservative_kbps_def range_defs)
  ultimately show ?thesis
    using gate_waits_for_stronger_link [OF _ sample_permit] by blast
qed

lemma decisions_rest_on_measurements_witness:
  "or_probe (fst (observe_probe sample_recovery (window_observation 9000) (point P480 2000 300)
     production_default buffer_default sample_link 600000)) =
   \<lparr>ce_fast = 9000, ce_slow = 9000, ce_uncertainty = 0, ce_samples = 1\<rparr>"
proof -
  let ?o = "observe_probe sample_recovery (window_observation 9000) (point P480 2000 300) production_default
    buffer_default sample_link 600000"
  have "recovery_step\<^sup>*\<^sup>* ([], sample_recovery) ([(Some (window_observation 9000), sample_link)], fst ?o)"
    by (rule r_into_rtranclp, rule probed [of _ _ _ _ _ _ _ _ "snd ?o"]) simp
  moreover have "or_state (fst ?o) = Terminal"
  proof -
    have "?o = (fst ?o, snd ?o)" by simp
    then show ?thesis
    proof (cases rule: observe_probe_cases)
      case 3
      then show ?thesis using decide_effect [OF 3(3)] by simp
    qed (simp_all add: window_observation_def sample_recovery_def source_requirement_kbps_def)
  qed
  ultimately show ?thesis
    using decisions_rest_on_measurements [OF sample_recovery_new, of "[(Some (window_observation 9000), sample_link)]" "fst ?o"]
    by (simp add: window_observation_def)
qed

lemma original_exit_is_measured_witness: "be_samples (om_buffer second_window) \<noteq> 0"
proof -
  have "original_new 8000 policy_measured (or_catalog sample_recovery) history_default \<lparr>sf_dv = False, sf_atmos = False\<rparr>
      = Some first_window" by (simp add: original_new_def first_window_def)
  moreover have "original_step\<^sup>*\<^sup>* first_window second_window"
    unfolding second_window_def
    by (rule r_into_rtranclp, rule observed [of _ _ _ _ _ _ _ "snd (original_observe first_window 750000 750000 (Some 3000) 600000 750)"]) simp
  ultimately show ?thesis using original_exit_is_measured last_window_exit by blast
qed

lemma hls_starts_on_supported_rung_witness:
  "original_fallback_rung 5000 (or_catalog sample_recovery) policy_measured = P480"
proof -
  have f: "feasible (or_catalog sample_recovery) = [point P480 2000 300]"
    by (simp add: feasible_def sample_recovery_def catalog_admits_def decodable_def covers_source_def point_def range_defs)
  then have "feasible (or_catalog sample_recovery) \<noteq> []" by simp
  from hls_starts_on_supported_rung [OF this, of _ _ policy_measured _ 5000] show ?thesis
    unfolding f by (simp add: point_def)
qed

end
