(* ===== verification/Sha256.thy ===== *)
theory Sha256
  imports Prelude "HOL-Library.Word" "HOL-Library.While_Combinator"
begin

text \<open>
  \<open>sha256.rs\<close>: the incremental SHA-256 state with \<open>update\<close> and \<open>finish\<close>, the keyed states of HMAC,
  PBKDF2 and the constant-time comparison; and the second, one-shot SHA-256 of \<open>storage/state.rs\<close>.
  Fixed-size arrays are lists of that length, \<open>u8\<close>, \<open>u32\<close> and \<open>u64\<close> are words of their width, so
  additions wrap. The padding loop of \<open>finish\<close> is \<open>while_option\<close>: a loop that never ended would be
  \<open>None\<close>. The one of the second implementation ends on every input, which its termination proof shows.
\<close>

unbundle bit_operations_syntax

type_synonym u8 = "8 word"
type_synonym u32 = "32 word"
type_synonym u64 = "64 word"

section \<open>Constants\<close>

definition SHA_K :: "u32 list" where
  "SHA_K = concat
     [[0x428a2f98, 0x71374491, 0xb5c0fbcf, 0xe9b5dba5, 0x3956c25b, 0x59f111f1, 0x923f82a4, 0xab1c5ed5],
      [0xd807aa98, 0x12835b01, 0x243185be, 0x550c7dc3, 0x72be5d74, 0x80deb1fe, 0x9bdc06a7, 0xc19bf174],
      [0xe49b69c1, 0xefbe4786, 0x0fc19dc6, 0x240ca1cc, 0x2de92c6f, 0x4a7484aa, 0x5cb0a9dc, 0x76f988da],
      [0x983e5152, 0xa831c66d, 0xb00327c8, 0xbf597fc7, 0xc6e00bf3, 0xd5a79147, 0x06ca6351, 0x14292967],
      [0x27b70a85, 0x2e1b2138, 0x4d2c6dfc, 0x53380d13, 0x650a7354, 0x766a0abb, 0x81c2c92e, 0x92722c85],
      [0xa2bfe8a1, 0xa81a664b, 0xc24b8b70, 0xc76c51a3, 0xd192e819, 0xd6990624, 0xf40e3585, 0x106aa070],
      [0x19a4c116, 0x1e376c08, 0x2748774c, 0x34b0bcb5, 0x391c0cb3, 0x4ed8aa4a, 0x5b9cca4f, 0x682e6ff3],
      [0x748f82ee, 0x78a5636f, 0x84c87814, 0x8cc70208, 0x90befffa, 0xa4506ceb, 0xbef9a3f7, 0xc67178f2]]"

definition SHA_H0 :: "u32 list" where
  "SHA_H0 = [0x6a09e667, 0xbb67ae85, 0x3c6ef372, 0xa54ff53a] @
     [0x510e527f, 0x9b05688c, 0x1f83d9ab, 0x5be0cd19]"

section \<open>The compression function\<close>

definition u32_from_be :: "u8 list \<Rightarrow> u32" where
  "u32_from_be bytes = foldl (\<lambda>w b. push_bit 8 w OR ucast b) 0 bytes"

definition u32_to_be :: "u32 \<Rightarrow> u8 list" where
  "u32_to_be w = map (\<lambda>n. ucast (drop_bit n w)) [24, 16, 8, 0]"

definition u64_to_be :: "u64 \<Rightarrow> u8 list" where
  "u64_to_be w = map (\<lambda>n. ucast (drop_bit n w)) [56, 48, 40, 32, 24, 16, 8, 0]"

definition load_word :: "u8 list \<Rightarrow> u32 list \<Rightarrow> nat \<Rightarrow> u32 list" where
  "load_word block w i =
     w[i := u32_from_be [block ! (i * 4), block ! (i * 4 + 1), block ! (i * 4 + 2), block ! (i * 4 + 3)]]"

definition extend_schedule :: "u32 list \<Rightarrow> nat \<Rightarrow> u32 list" where
  "extend_schedule w i =
     (let s0 = word_rotr 7 (w ! (i - 15)) XOR word_rotr 18 (w ! (i - 15)) XOR drop_bit 3 (w ! (i - 15));
          s1 = word_rotr 17 (w ! (i - 2)) XOR word_rotr 19 (w ! (i - 2)) XOR drop_bit 10 (w ! (i - 2))
      in w[i := w ! (i - 16) + s0 + w ! (i - 7) + s1])"

definition message_schedule :: "u8 list \<Rightarrow> u32 list" where
  "message_schedule block = foldl extend_schedule (foldl (load_word block) (replicate 64 0) [0..<16]) [16..<64]"

type_synonym working = "u32 \<times> u32 \<times> u32 \<times> u32 \<times> u32 \<times> u32 \<times> u32 \<times> u32"

fun compress_round :: "u32 list \<Rightarrow> working \<Rightarrow> nat \<Rightarrow> working" where
  "compress_round w (a, b, c, d, e, f, g, h) i =
     (let s1 = word_rotr 6 e XOR word_rotr 11 e XOR word_rotr 25 e;
          ch = (e AND f) XOR (NOT e AND g);
          t1 = h + s1 + ch + SHA_K ! i + w ! i;
          s0 = word_rotr 2 a XOR word_rotr 13 a XOR word_rotr 22 a;
          maj = (a AND b) XOR (a AND c) XOR (b AND c);
          t2 = s0 + maj
      in (t1 + t2, a, b, c, d + t1, e, f, g))"

fun working_of :: "u32 list \<Rightarrow> working" where
  "working_of [a, b, c, d, e, f, g, h] = (a, b, c, d, e, f, g, h)"
| "working_of _ = (0, 0, 0, 0, 0, 0, 0, 0)"

fun words_of :: "working \<Rightarrow> u32 list" where
  "words_of (a, b, c, d, e, f, g, h) = [a, b, c, d, e, f, g, h]"

definition compress :: "u32 list \<Rightarrow> u8 list \<Rightarrow> u32 list" where
  "compress h block =
     (let w = message_schedule block
      in map2 (+) h (words_of (foldl (compress_round w) (working_of h) [0..<64])))"

section \<open>The incremental state\<close>

record sha_state =
  sha_h :: "u32 list"
  sha_block :: "u8 list"
  sha_filled :: nat
  sha_len :: u64

definition sha_new :: sha_state where
  "sha_new = \<lparr>sha_h = SHA_H0, sha_block = replicate 64 0, sha_filled = 0, sha_len = 0\<rparr>"

text \<open>The loop of \<open>update\<close> over whole blocks; it returns the chaining value and the rest.\<close>

function full_blocks :: "u32 list \<Rightarrow> u8 list \<Rightarrow> u32 list \<times> u8 list" where
  "full_blocks h data =
     (if length data \<ge> 64 then full_blocks (compress h (take 64 data)) (drop 64 data) else (h, data))"
  by auto
termination by (relation "measure (length \<circ> snd)") auto

declare full_blocks.simps [simp del]

text \<open>The first part of \<open>update\<close>: top up a partly filled block, and compress it when it is full.\<close>

definition top_up :: "sha_state \<Rightarrow> u8 list \<Rightarrow> sha_state \<times> u8 list" where
  "top_up s data =
     (if sha_filled s > 0 then
        let n = min (64 - sha_filled s) (length data);
            s = s\<lparr>sha_block := take (sha_filled s) (sha_block s) @ take n data
                                @ drop (sha_filled s + n) (sha_block s),
                  sha_filled := sha_filled s + n\<rparr>;
            data = drop n data
        in if sha_filled s = 64
           then (s\<lparr>sha_h := compress (sha_h s) (sha_block s), sha_filled := 0\<rparr>, data)
           else (s, data)
      else (s, data))"

definition sha_update :: "sha_state \<Rightarrow> u8 list \<Rightarrow> sha_state" where
  "sha_update s data =
     (let (s, data) = top_up (s\<lparr>sha_len := sha_len s + of_nat (length data)\<rparr>) data;
          (h, data) = full_blocks (sha_h s) data;
          s = s\<lparr>sha_h := h\<rparr>
      in if data \<noteq> []
         then s\<lparr>sha_block := data @ drop (length data) (sha_block s), sha_filled := length data\<rparr>
         else s)"

definition sha_finish :: "sha_state \<Rightarrow> u8 list option" where
  "sha_finish s =
     (let bits = sha_len s * 8 in
      case while_option (\<lambda>s. sha_filled s \<noteq> 56) (\<lambda>s. sha_update s [0]) (sha_update s [0x80]) of
        None \<Rightarrow> None
      | Some s \<Rightarrow> Some (concat (map u32_to_be (sha_h (sha_update s (u64_to_be bits))))))"

definition sha256 :: "u8 list \<Rightarrow> u8 list option" where
  "sha256 data = sha_finish (sha_update sha_new data)"

section \<open>HMAC and PBKDF2\<close>

record hmac_key =
  hk_inner :: sha_state
  hk_outer :: sha_state

definition hmac_new :: "u8 list \<Rightarrow> hmac_key option" where
  "hmac_new key =
     map_option (\<lambda>k. \<lparr>hk_inner = sha_update sha_new (map (\<lambda>b. b XOR 0x36) k),
                      hk_outer = sha_update sha_new (map (\<lambda>b. b XOR 0x5c) k)\<rparr>)
       (if length key > 64 then map_option (\<lambda>d. d @ drop (length d) (replicate 64 0)) (sha256 key)
        else Some (key @ drop (length key) (replicate 64 0)))"

definition hmac_mac :: "hmac_key \<Rightarrow> u8 list \<Rightarrow> u8 list option" where
  "hmac_mac k msg =
     Option.bind (sha_finish (sha_update (hk_inner k) msg)) (\<lambda>ih.
     sha_finish (sha_update (hk_outer k) ih))"

definition pbkdf2_step :: "hmac_key \<Rightarrow> (u8 list \<times> u8 list) option \<Rightarrow> nat \<Rightarrow> (u8 list \<times> u8 list) option" where
  "pbkdf2_step key st i =
     Option.bind st (\<lambda>(u, out). map_option (\<lambda>u. (u, map2 (XOR) out u)) (hmac_mac key u))"

definition pbkdf2_hmac_sha256 :: "u8 list \<Rightarrow> u8 list \<Rightarrow> nat \<Rightarrow> u8 list option" where
  "pbkdf2_hmac_sha256 password salt iters =
     Option.bind (hmac_new password) (\<lambda>key.
     Option.bind (hmac_mac key (salt @ u32_to_be 1)) (\<lambda>u.
     map_option snd (foldl (pbkdf2_step key) (Some (u, u)) [1..<max iters 1])))"

definition ct_eq :: "u8 list \<Rightarrow> u8 list \<Rightarrow> bool" where
  "ct_eq a b =
     (if length a \<noteq> length b then False
      else foldl (\<lambda>diff (x, y). diff OR (x XOR y)) 0 (zip a b) = 0)"

section \<open>The one-shot hash of the state store\<close>

definition STATE_K :: "u32 list" where
  "STATE_K = concat
     [[0x428a2f98, 0x71374491, 0xb5c0fbcf, 0xe9b5dba5, 0x3956c25b, 0x59f111f1, 0x923f82a4],
      [0xab1c5ed5, 0xd807aa98, 0x12835b01, 0x243185be, 0x550c7dc3, 0x72be5d74, 0x80deb1fe],
      [0x9bdc06a7, 0xc19bf174, 0xe49b69c1, 0xefbe4786, 0x0fc19dc6, 0x240ca1cc, 0x2de92c6f],
      [0x4a7484aa, 0x5cb0a9dc, 0x76f988da, 0x983e5152, 0xa831c66d, 0xb00327c8, 0xbf597fc7],
      [0xc6e00bf3, 0xd5a79147, 0x06ca6351, 0x14292967, 0x27b70a85, 0x2e1b2138, 0x4d2c6dfc],
      [0x53380d13, 0x650a7354, 0x766a0abb, 0x81c2c92e, 0x92722c85, 0xa2bfe8a1, 0xa81a664b],
      [0xc24b8b70, 0xc76c51a3, 0xd192e819, 0xd6990624, 0xf40e3585, 0x106aa070, 0x19a4c116],
      [0x1e376c08, 0x2748774c, 0x34b0bcb5, 0x391c0cb3, 0x4ed8aa4a, 0x5b9cca4f, 0x682e6ff3],
      [0x748f82ee, 0x78a5636f, 0x84c87814, 0x8cc70208, 0x90befffa, 0xa4506ceb, 0xbef9a3f7],
      [0xc67178f2]]"

definition STATE_H0 :: "u32 list" where
  "STATE_H0 = [0x6a09e667, 0xbb67ae85, 0x3c6ef372, 0xa54ff53a] @
     [0x510e527f, 0x9b05688c, 0x1f83d9ab, 0x5be0cd19]"

fun chunks_exact :: "nat \<Rightarrow> 'a list \<Rightarrow> 'a list list" where
  "chunks_exact n xs = (if n = 0 \<or> length xs < n then [] else take n xs # chunks_exact n (drop n xs))"

declare chunks_exact.simps [simp del]

definition state_schedule :: "u8 list \<Rightarrow> u32 list" where
  "state_schedule block =
     foldl extend_schedule (map u32_from_be (chunks_exact 4 block) @ drop (length (chunks_exact 4 block)) (replicate 64 0))
       [16..<64]"

fun state_round :: "u32 list \<Rightarrow> working \<Rightarrow> nat \<Rightarrow> working" where
  "state_round w (a, b, c, d, e, f, g, hh) i =
     (let s1 = word_rotr 6 e XOR word_rotr 11 e XOR word_rotr 25 e;
          choice = (e AND f) XOR (NOT e AND g);
          t1 = hh + s1 + choice + STATE_K ! i + w ! i;
          s0 = word_rotr 2 a XOR word_rotr 13 a XOR word_rotr 22 a;
          majority = (a AND b) XOR (a AND c) XOR (b AND c);
          t2 = s0 + majority
      in (t1 + t2, a, b, c, d + t1, e, f, g))"

definition state_block :: "u32 list \<Rightarrow> u8 list \<Rightarrow> u32 list" where
  "state_block h block =
     map2 (+) h (words_of (foldl (state_round (state_schedule block)) (working_of h) [0..<64]))"

lemma fill_decreases:
  assumes "r < 64" and "r \<noteq> 56"
  shows "(120 - (if Suc r = 64 then 0 else Suc r)) mod 64 < (120 - r) mod (64 :: nat)"
proof (cases "r < 56")
  case True
  then have "(120 - Suc r) mod 64 = 55 - r" "(120 - r) mod 64 = 56 - r" by (simp_all add: le_mod_geq)
  then show ?thesis using True by simp
next
  case False
  then show ?thesis using assms by (simp, arith)
qed

text \<open>The loop that fills the message up to 56 bytes in its last block; it ends on every input.\<close>

function zero_fill :: "u8 list \<Rightarrow> u8 list" where
  "zero_fill padded = (if length padded mod 64 \<noteq> 56 then zero_fill (padded @ [0]) else padded)"
  by auto
termination
proof (relation "measure (\<lambda>p. (120 - length p mod 64) mod 64)")
  fix p :: "u8 list"
  assume "length p mod 64 \<noteq> 56"
  then have "(120 - length (p @ [0]) mod 64) mod 64 < (120 - length p mod 64) mod 64"
    using fill_decreases [of "length p mod 64"] by (simp add: mod_Suc)
  then show "(p @ [0], p) \<in> measure (\<lambda>p. (120 - length p mod 64) mod 64)" by simp
qed simp

declare zero_fill.simps [simp del]

definition state_sha256 :: "u8 list \<Rightarrow> u8 list" where
  "state_sha256 input =
     concat (map u32_to_be
       (foldl state_block STATE_H0
         (chunks_exact 64 (zero_fill (input @ [0x80]) @ u64_to_be (of_nat (length input) * 8)))))"

end
