(* ===== verification/State.thy ===== *)
theory State
  imports Sha256 Strings
begin

text \<open>
  \<open>storage/state.rs\<close>: the canonical state of the encrypted store and its transitions. A mutation is
  an operation with an identity, a digest and the tenure it expects; applying it validates the state,
  answers a replay from the ledger, refuses a stale or forbidden one, and otherwise produces the whole
  next candidate, which the transport writes with a compare-and-swap.

  The serialiser of \<open>serde_json\<close> (\<open>to_vec\<close>) and the install identities the build generates are
  parameters, the fields of \<open>state_env\<close>. A \<open>Value\<close> is \<open>json\<close>, an object its members in key order (the
  crate keeps them in a \<open>BTreeMap\<close>), a number the text it prints as. What the derived \<open>Serialize\<close> of the
  source's types produces is \<open>state_json\<close> and its helpers, with the attributes of the source.
\<close>

unbundle bit_operations_syntax

section \<open>JSON values\<close>

datatype json =
    JNull
  | JBool bool
  | JNumber string
  | JString string
  | JArray "json list"
  | JObject "(string \<times> json) list"

datatype state_error =
    StInvalid | UnsupportedFormat | UnsupportedSchema | FlavorMismatch | IdCollision
  | LogicalTooLarge | EncodedTooLarge | StConflict | Exhausted | RandomUnavailable

text \<open>The \<open>?\<close> of a function that returns a \<open>Result\<close>.\<close>

fun try_then :: "'e + 'a \<Rightarrow> ('a \<Rightarrow> 'e + 'b) \<Rightarrow> 'e + 'b" where
  "try_then (Inl e) f = Inl e"
| "try_then (Inr x) f = f x"

lemma try_cong [fundef_cong]:
  "\<lbrakk>r = r'; \<And>x. r' = Inr x \<Longrightarrow> f x = g x\<rbrakk> \<Longrightarrow> try_then r f = try_then r' g"
  by (cases r') simp_all

lemma try_Inr: "try_then r f = Inr y \<longleftrightarrow> (\<exists>x. r = Inr x \<and> f x = Inr y)"
  by (cases r) simp_all

lemma try_Inl: "try_then r f = Inl e \<longleftrightarrow> r = Inl e \<or> (\<exists>x. r = Inr x \<and> f x = Inl e)"
  by (cases r) simp_all

definition guard :: "bool \<Rightarrow> 'e \<Rightarrow> 'e + unit" where
  "guard ok e = (if ok then Inr () else Inl e)"

lemma guard_simps [simp]: "guard True e = Inr ()" "guard False e = Inl e"
  by (simp_all add: guard_def)

lemma guard_Inr [simp]: "guard ok e = Inr u \<longleftrightarrow> ok"
  by (simp add: guard_def)

lemma guard_Inl [simp]: "guard ok e = Inl e' \<longleftrightarrow> \<not> ok \<and> e' = e"
  by (auto simp: guard_def)

section \<open>Limits and digests\<close>

definition STATE_FORMAT :: string where "STATE_FORMAT = ''btcstate''"
definition STATE_SCHEMA :: nat where "STATE_SCHEMA = 1"
definition MAX_LOGICAL_BYTES :: nat where "MAX_LOGICAL_BYTES = 256 * 1024"
definition MAX_ENCODED_BYTES :: nat where "MAX_ENCODED_BYTES = 512 * 1024"
definition LEDGER_CAPACITY :: nat where "LEDGER_CAPACITY = 16"

definition valid_digest :: "string \<Rightarrow> bool" where
  "valid_digest digest \<longleftrightarrow> length digest = 64 \<and>
     list_all (\<lambda>c. is_digit c \<or> (97 \<le> byte_of c \<and> byte_of c \<le> 102)) digest"

definition consume :: "nat \<Rightarrow> nat \<Rightarrow> state_error + nat" where
  "consume left n = (if n \<le> left then Inr (left - n) else Inl LogicalTooLarge)"

fun count_json :: "json \<Rightarrow> nat \<Rightarrow> state_error + nat"
  and count_items :: "json list \<Rightarrow> nat \<Rightarrow> state_error + nat"
  and count_members :: "(string \<times> json) list \<Rightarrow> nat \<Rightarrow> state_error + nat" where
  "count_json JNull left = consume left 4"
| "count_json (JBool b) left = consume left (if b then 4 else 5)"
| "count_json (JNumber n) left = consume left (length n)"
| "count_json (JString s) left = try_then (consume left 2) (\<lambda>left. consume left (length s))"
| "count_json (JArray vs) left = try_then (consume left (2 + (length vs - 1))) (count_items vs)"
| "count_json (JObject ms) left = try_then (consume left (2 + (length ms - 1))) (count_members ms)"
| "count_items [] left = Inr left"
| "count_items (v # vs) left = try_then (count_json v left) (count_items vs)"
| "count_members [] left = Inr left"
| "count_members ((key, v) # ms) left =
     try_then (consume left 3) (\<lambda>left. try_then (consume left (length key)) (\<lambda>left.
     try_then (count_json v left) (count_members ms)))"

definition check_logical_size :: "json \<Rightarrow> state_error + unit" where
  "check_logical_size v = try_then (count_json v MAX_LOGICAL_BYTES) (\<lambda>_. Inr ())"

text \<open>The order of Rust's strings is the one of their bytes.\<close>

fun str_less :: "string \<Rightarrow> string \<Rightarrow> bool" where
  "str_less _ [] = False"
| "str_less [] (_ # _) = True"
| "str_less (a # as) (b # bs) = (byte_of a < byte_of b \<or> (a = b \<and> str_less as bs))"

text \<open>Insertion into a \<open>BTreeMap\<close>: a later value of a key replaces the earlier one.\<close>

fun btree_insert :: "string \<Rightarrow> 'v \<Rightarrow> (string \<times> 'v) list \<Rightarrow> (string \<times> 'v) list" where
  "btree_insert k v [] = [(k, v)]"
| "btree_insert k v ((k', v') # ms) =
     (if k = k' then (k, v) # ms
      else if str_less k k' then (k, v) # (k', v') # ms
      else (k', v') # btree_insert k v ms)"

fun sorted_json :: "json \<Rightarrow> json" where
  "sorted_json (JObject ms) =
     JObject (foldl (\<lambda>acc (k, v). btree_insert k v acc) [] (map (\<lambda>(k, v). (k, sorted_json v)) ms))"
| "sorted_json (JArray vs) = JArray (map sorted_json vs)"
| "sorted_json v = v"

definition hex_digit :: "nat \<Rightarrow> char" where
  "hex_digit n = ''0123456789abcdef'' ! n"

definition hex_byte :: "u8 \<Rightarrow> string" where
  "hex_byte b = [hex_digit (unat b div 16), hex_digit (unat b mod 16)]"

definition digest_bytes :: "u8 list \<Rightarrow> string" where
  "digest_bytes input = concat (map hex_byte (state_sha256 input))"
section \<open>The data\<close>

text \<open>A generation is an array of sixteen random bytes.\<close>

type_synonym generation = "u8 list"

record expected_tenure =
  ex_epoch :: nat
  ex_auth_generation :: generation

datatype tenure_status = StatusActive | StatusCleared

record public_payload =
  pp_preferences :: json
  pp_client_id :: "string option"
  pp_profile :: json
  pp_pins :: json
  pp_recents :: json
  pp_consent :: json
  pp_scopes :: json
  pp_ids :: json
  pp_account_extensions :: json

definition public_default :: public_payload where
  "public_default =
     \<lparr>pp_preferences = JNull, pp_client_id = None, pp_profile = JNull, pp_pins = JNull, pp_recents = JNull,
      pp_consent = JNull, pp_scopes = JNull, pp_ids = JNull, pp_account_extensions = JNull\<rparr>"

datatype migration_domain = SessionDomain | ConsentDomain

datatype migration_progress = MigrationPending | MigrationComplete

record domain_migration =
  dm_progress :: migration_progress
  dm_pending_import :: "string option"

definition migration_default :: domain_migration where
  "migration_default = \<lparr>dm_progress = MigrationPending, dm_pending_import = None\<rparr>"

definition migration_done :: domain_migration where
  "migration_done = \<lparr>dm_progress = MigrationComplete, dm_pending_import = None\<rparr>"

record migrations =
  mg_session :: domain_migration
  mg_consent :: domain_migration

record consent_payload =
  cp_consent :: json
  cp_scopes :: json
  cp_ids :: json

record protected_auth =
  pa_auth_generation :: generation
  pa_envelope :: string

datatype migration_advance =
    SessionPending string
  | SessionComplete public_payload protected_auth
  | ConsentComplete consent_payload
  | CompleteEmpty migration_domain

datatype mutation =
    UpdatePreferences public_payload
  | UpdateConsent json json json
  | ReplaceAuth generation string public_payload
  | AdvanceMigration migration_domain migration_advance
  | ClearTenure generation

record operation =
  op_id :: generation
  op_digest :: string
  op_expected :: expected_tenure
  op_mutation :: mutation

record applied =
  ap_revision :: nat
  ap_epoch :: nat
  ap_auth_generation :: generation

datatype receipt_verification = ReceiptPublic | ReceiptAuth "string option"

record ledger_entry =
  le_id :: generation
  le_digest :: string
  le_result :: applied
  le_verification :: "receipt_verification option"

datatype operation_status = OpApplied applied | OpUnknown

record pending_auth =
  pd_operation :: operation
  pd_plaintext_digest :: string

record 'f canonical_state =
  cs_format :: string
  cs_schema :: nat
  cs_flavor :: 'f
  cs_id :: string
  cs_revision :: nat
  cs_epoch :: nat
  cs_auth_generation :: generation
  cs_status :: tenure_status
  cs_public :: public_payload
  cs_auth_envelope :: "string option"
  cs_migrations :: migrations
  cs_operations :: "ledger_entry list"
  cs_pending_auth :: "pending_auth option"

record 'f auth_context =
  ac_format :: string
  ac_schema :: nat
  ac_flavor :: 'f
  ac_epoch :: nat
  ac_auth_generation :: generation

text \<open>What the state code gets from outside: the generated install identities and \<open>serde_json\<close>.\<close>

record 'f state_env =
  env_object_id :: "'f \<Rightarrow> string"
  env_flavor_json :: "'f \<Rightarrow> json"
  env_to_vec :: "json \<Rightarrow> u8 list"
  env_from_slice :: "u8 list \<Rightarrow> 'f canonical_state option"

section \<open>The derived serialisation\<close>

definition json_object :: "(string \<times> json) list \<Rightarrow> json" where
  "json_object ms = JObject (foldl (\<lambda>acc (k, v). btree_insert k v acc) [] ms)"

definition json_nat :: "nat \<Rightarrow> json" where "json_nat n = JNumber (show_nat n)"

definition json_option :: "string option \<Rightarrow> json" where
  "json_option s = (case s of None \<Rightarrow> JNull | Some s \<Rightarrow> JString s)"

definition generation_json :: "generation \<Rightarrow> json" where
  "generation_json g = JArray (map (\<lambda>b. json_nat (unat b)) g)"

definition expected_json :: "expected_tenure \<Rightarrow> json" where
  "expected_json e = json_object
     [(''epoch'', json_nat (ex_epoch e)), (''auth_generation'', generation_json (ex_auth_generation e))]"

definition status_json :: "tenure_status \<Rightarrow> json" where
  "status_json s = JString (case s of StatusActive \<Rightarrow> ''Active'' | StatusCleared \<Rightarrow> ''Cleared'')"

definition public_json :: "public_payload \<Rightarrow> json" where
  "public_json p = json_object
     [(''preferences'', pp_preferences p), (''client_id'', json_option (pp_client_id p)),
      (''profile'', pp_profile p), (''pins'', pp_pins p), (''recents'', pp_recents p),
      (''consent'', pp_consent p), (''scopes'', pp_scopes p), (''ids'', pp_ids p),
      (''account_extensions'', pp_account_extensions p)]"

definition domain_json :: "migration_domain \<Rightarrow> json" where
  "domain_json d = JString (case d of SessionDomain \<Rightarrow> ''Session'' | ConsentDomain \<Rightarrow> ''Consent'')"

definition migration_json :: "domain_migration \<Rightarrow> json" where
  "migration_json m = json_object
     [(''progress'', JString (case dm_progress m of MigrationPending \<Rightarrow> ''Pending'' | MigrationComplete \<Rightarrow> ''Complete'')),
      (''pending_import'', json_option (dm_pending_import m))]"

definition migrations_json :: "migrations \<Rightarrow> json" where
  "migrations_json m = json_object
     [(''session'', migration_json (mg_session m)), (''consent'', migration_json (mg_consent m))]"

definition consent_json :: "consent_payload \<Rightarrow> json" where
  "consent_json c = json_object [(''consent'', cp_consent c), (''scopes'', cp_scopes c), (''ids'', cp_ids c)]"

definition protected_json :: "protected_auth \<Rightarrow> json" where
  "protected_json p = json_object
     [(''auth_generation'', generation_json (pa_auth_generation p)), (''envelope'', JString (pa_envelope p))]"

definition advance_json :: "migration_advance \<Rightarrow> json" where
  "advance_json a = (case a of
     SessionPending e \<Rightarrow> json_object [(''type'', JString ''SessionPending''), (''opaque_envelope'', JString e)]
   | SessionComplete p auth \<Rightarrow> json_object
       [(''type'', JString ''SessionComplete''), (''public'', public_json p), (''auth'', protected_json auth)]
   | ConsentComplete c \<Rightarrow> json_object [(''type'', JString ''ConsentComplete''), (''consent'', consent_json c)]
   | CompleteEmpty d \<Rightarrow> json_object [(''type'', JString ''CompleteEmpty''), (''domain'', domain_json d)])"

definition mutation_json :: "mutation \<Rightarrow> json" where
  "mutation_json m = (case m of
     UpdatePreferences p \<Rightarrow> json_object [(''type'', JString ''UpdatePreferences''), (''public'', public_json p)]
   | UpdateConsent c s i \<Rightarrow> json_object
       [(''type'', JString ''UpdateConsent''), (''consent'', c), (''scopes'', s), (''ids'', i)]
   | ReplaceAuth g e p \<Rightarrow> json_object
       [(''type'', JString ''ReplaceAuth''), (''auth_generation'', generation_json g),
        (''auth_envelope'', JString e), (''public'', public_json p)]
   | AdvanceMigration d a \<Rightarrow> json_object
       [(''type'', JString ''AdvanceMigration''), (''domain'', domain_json d), (''payload'', advance_json a)]
   | ClearTenure g \<Rightarrow> json_object
       [(''type'', JString ''ClearTenure''), (''auth_generation'', generation_json g)])"
definition applied_json :: "applied \<Rightarrow> json" where
  "applied_json a = json_object
     [(''revision'', json_nat (ap_revision a)), (''epoch'', json_nat (ap_epoch a)),
      (''auth_generation'', generation_json (ap_auth_generation a))]"

definition verification_json :: "receipt_verification \<Rightarrow> json" where
  "verification_json v = (case v of
     ReceiptPublic \<Rightarrow> json_object [(''type'', JString ''Public'')]
   | ReceiptAuth d \<Rightarrow> json_object [(''type'', JString ''Auth''), (''plaintext_digest'', json_option d)])"

definition entry_json :: "ledger_entry \<Rightarrow> json" where
  "entry_json e = json_object
     ([(''id'', generation_json (le_id e)), (''digest'', JString (le_digest e)), (''result'', applied_json (le_result e))]
      @ (case le_verification e of None \<Rightarrow> [] | Some v \<Rightarrow> [(''verification'', verification_json v)]))"

definition operation_json :: "operation \<Rightarrow> json" where
  "operation_json oper = json_object
     [(''id'', generation_json (op_id oper)), (''digest'', JString (op_digest oper)),
      (''expected'', expected_json (op_expected oper)), (''mutation'', mutation_json (op_mutation oper))]"

definition pending_json :: "pending_auth \<Rightarrow> json" where
  "pending_json p = json_object
     [(''operation'', operation_json (pd_operation p)), (''plaintext_digest'', JString (pd_plaintext_digest p))]"

definition state_json :: "'f state_env \<Rightarrow> 'f canonical_state \<Rightarrow> json" where
  "state_json env s = json_object
     ([(''format'', JString (cs_format s)), (''schema'', json_nat (cs_schema s)),
       (''flavor'', env_flavor_json env (cs_flavor s)), (''_id'', JString (cs_id s)),
       (''revision'', json_nat (cs_revision s)), (''epoch'', json_nat (cs_epoch s)),
       (''auth_generation'', generation_json (cs_auth_generation s)), (''status'', status_json (cs_status s)),
       (''public'', public_json (cs_public s)), (''auth_envelope'', json_option (cs_auth_envelope s)),
       (''migrations'', migrations_json (cs_migrations s)),
       (''operations'', JArray (map entry_json (cs_operations s)))]
      @ (case cs_pending_auth s of None \<Rightarrow> [] | Some p \<Rightarrow> [(''pending_auth'', pending_json p)]))"

section \<open>Key names\<close>

fun chunks_of :: "nat \<Rightarrow> 'a list \<Rightarrow> 'a list list" where
  "chunks_of n xs = (if n = 0 \<or> xs = [] then [] else take n xs # chunks_of n (drop n xs))"

declare chunks_of.simps [simp del]

definition KEY_ALPHABET :: string where
  "KEY_ALPHABET = ''ABCDEFGHIJKLMNOPQRSTUVWXYZabcdefghijklmnopqrstuvwxyz0123456789-_''"

definition byte_at :: "u8 list \<Rightarrow> nat \<Rightarrow> u32" where
  "byte_at chunk i = (if i < length chunk then ucast (chunk ! i) else 0)"

definition key_chunk :: "u8 list \<Rightarrow> string" where
  "key_chunk chunk =
     (let bits = push_bit 16 (byte_at chunk 0) OR push_bit 8 (byte_at chunk 1) OR byte_at chunk 2
      in map (\<lambda>shift. KEY_ALPHABET ! unat (drop_bit shift bits AND 63)) (take (length chunk + 1) [18, 12, 6, 0]))"

definition key_name :: "generation \<Rightarrow> string" where
  "key_name g = ''a.'' @ concat (map key_chunk (chunks_of 3 g))"

section \<open>Operations\<close>

definition computed_digest :: "'f state_env \<Rightarrow> operation \<Rightarrow> state_error + string" where
  "computed_digest env oper =
     (let v = JArray [JString STATE_FORMAT, json_nat STATE_SCHEMA, generation_json (op_id oper),
                      expected_json (op_expected oper), mutation_json (op_mutation oper)]
      in try_then (check_logical_size v) (\<lambda>_.
         let bytes = env_to_vec env (sorted_json v)
         in if length bytes > MAX_ENCODED_BYTES then Inl EncodedTooLarge else Inr (digest_bytes bytes)))"

definition operation_new ::
  "'f state_env \<Rightarrow> generation \<Rightarrow> expected_tenure \<Rightarrow> mutation \<Rightarrow> state_error + operation" where
  "operation_new env ident expected mut =
     (let oper = \<lparr>op_id = ident, op_digest = [], op_expected = expected, op_mutation = mut\<rparr>
      in try_then (computed_digest env oper) (\<lambda>d. Inr (oper\<lparr>op_digest := d\<rparr>)))"

section \<open>Reading the state\<close>

definition canonical_new :: "'f state_env \<Rightarrow> 'f \<Rightarrow> generation \<Rightarrow> 'f canonical_state" where
  "canonical_new env flavor auth_generation =
     \<lparr>cs_format = STATE_FORMAT, cs_schema = STATE_SCHEMA, cs_flavor = flavor, cs_id = env_object_id env flavor,
      cs_revision = 0, cs_epoch = 0, cs_auth_generation = auth_generation, cs_status = StatusActive,
      cs_public = public_default, cs_auth_envelope = None,
      cs_migrations = \<lparr>mg_session = migration_default, mg_consent = migration_default\<rparr>,
      cs_operations = [], cs_pending_auth = None\<rparr>"

definition cs_expected :: "'f canonical_state \<Rightarrow> expected_tenure" where
  "cs_expected s = \<lparr>ex_epoch = cs_epoch s, ex_auth_generation = cs_auth_generation s\<rparr>"

definition cs_auth_context :: "'f canonical_state \<Rightarrow> 'f auth_context" where
  "cs_auth_context s =
     \<lparr>ac_format = cs_format s, ac_schema = cs_schema s, ac_flavor = cs_flavor s, ac_epoch = cs_epoch s,
      ac_auth_generation = cs_auth_generation s\<rparr>"

definition is_replace_auth :: "mutation \<Rightarrow> bool" where
  "is_replace_auth m = (case m of ReplaceAuth _ _ _ \<Rightarrow> True | _ \<Rightarrow> False)"

definition entry_ok :: "'f canonical_state \<Rightarrow> nat \<Rightarrow> bool" where
  "entry_ok s i =
     (let entry = cs_operations s ! i in
      valid_digest (le_digest entry) \<and> ap_revision (le_result entry) \<noteq> 0 \<and>
      ap_revision (le_result entry) \<le> cs_revision s \<and> ap_epoch (le_result entry) \<le> cs_epoch s \<and>
      \<not> list_ex (\<lambda>older. le_id older = le_id entry) (take i (cs_operations s)) \<and>
      \<not> (i > 0 \<and> ap_revision (le_result (cs_operations s ! (i - 1))) \<ge> ap_revision (le_result entry)) \<and>
      (case le_verification entry of Some (ReceiptAuth (Some d)) \<Rightarrow> valid_digest d | _ \<Rightarrow> True))"

definition migration_ok :: "domain_migration \<Rightarrow> bool" where
  "migration_ok m \<longleftrightarrow> \<not> (dm_progress m = MigrationComplete \<and> dm_pending_import m \<noteq> None)"

definition cleared_ok :: "'f canonical_state \<Rightarrow> bool" where
  "cleared_ok s \<longleftrightarrow>
     cs_auth_envelope s = None \<and> pp_client_id (cs_public s) = None \<and> pp_profile (cs_public s) = JNull \<and>
     pp_pins (cs_public s) = JNull \<and> pp_recents (cs_public s) = JNull \<and> pp_consent (cs_public s) = JNull \<and>
     pp_scopes (cs_public s) = JNull \<and> pp_ids (cs_public s) = JNull \<and>
     pp_account_extensions (cs_public s) = JNull \<and>
     dm_progress (mg_session (cs_migrations s)) = MigrationComplete \<and>
     dm_progress (mg_consent (cs_migrations s)) = MigrationComplete"

definition entry_of :: "'f canonical_state \<Rightarrow> generation \<Rightarrow> ledger_entry option" where
  "entry_of s ident = List.find (\<lambda>entry. le_id entry = ident) (cs_operations s)"

text \<open>A generation is fresh when nothing the state remembers has used it.\<close>

definition check_fresh_generation :: "'f canonical_state \<Rightarrow> generation \<Rightarrow> state_error + unit" where
  "check_fresh_generation s g =
     guard (\<not> (g = cs_auth_generation s \<or>
       (case cs_pending_auth s of None \<Rightarrow> False
        | Some p \<Rightarrow> (case op_mutation (pd_operation p) of ReplaceAuth g' _ _ \<Rightarrow> g' = g | _ \<Rightarrow> False)) \<or>
       list_ex (\<lambda>entry. ap_auth_generation (le_result entry) = g) (cs_operations s))) StInvalid"
section \<open>The transition\<close>

definition json_remove :: "string \<Rightarrow> json \<Rightarrow> json option" where
  "json_remove key v =
     (case v of JObject ms \<Rightarrow>
        if list_ex (\<lambda>(k, _). k = key) ms then Some (JObject (filter (\<lambda>(k, _). k \<noteq> key) ms)) else None
      | _ \<Rightarrow> None)"

text \<open>The one write a cleared tenure accepts: the public state without its present language.\<close>

definition cleared_language_reset :: "'f canonical_state \<Rightarrow> mutation \<Rightarrow> bool" where
  "cleared_language_reset s m \<longleftrightarrow>
     cs_status s = StatusCleared \<and>
     (case m of UpdatePreferences public \<Rightarrow>
        (case json_remove ''language'' (pp_preferences (cs_public s)) of None \<Rightarrow> False
         | Some prefs \<Rightarrow> public = (cs_public s)\<lparr>pp_preferences := prefs\<rparr>)
      | _ \<Rightarrow> False)"

definition is_update_preferences :: "mutation \<Rightarrow> bool" where
  "is_update_preferences m = (case m of UpdatePreferences _ \<Rightarrow> True | _ \<Rightarrow> False)"

definition is_advance_migration :: "mutation \<Rightarrow> bool" where
  "is_advance_migration m = (case m of AdvanceMigration _ _ \<Rightarrow> True | _ \<Rightarrow> False)"

text \<open>Everything that refuses an operation before it is carried out.\<close>

definition admit :: "'f canonical_state \<Rightarrow> operation \<Rightarrow> state_error + unit" where
  "admit s oper =
     (let m = op_mutation oper in
      if op_expected oper \<noteq> cs_expected s then Inl StConflict
      else if (case cs_pending_auth s of None \<Rightarrow> False | Some p \<Rightarrow> op_id (pd_operation p) = op_id oper)
      then Inl StInvalid
      else if cs_pending_auth s \<noteq> None \<and> is_advance_migration m then Inl StConflict
      else if is_update_preferences m \<and> \<not> cleared_language_reset s m \<and>
              (dm_progress (mg_session (cs_migrations s)) \<noteq> MigrationComplete \<or> cs_auth_envelope s = None)
      then Inl StConflict
      else if cs_status s = StatusCleared \<and> \<not> cleared_language_reset s m \<and>
              \<not> (case m of ReplaceAuth _ _ _ \<Rightarrow> True | ClearTenure _ \<Rightarrow> True | _ \<Rightarrow> False)
      then Inl StConflict
      else Inr ())"

text \<open>Public data of a session: everything but the consent, which stays the state's own.\<close>

definition keep_consent :: "'f canonical_state \<Rightarrow> public_payload \<Rightarrow> public_payload" where
  "keep_consent s p =
     p\<lparr>pp_consent := pp_consent (cs_public s), pp_scopes := pp_scopes (cs_public s), pp_ids := pp_ids (cs_public s)\<rparr>"

definition advance_payload ::
  "'f canonical_state \<Rightarrow> migration_domain \<Rightarrow> migration_advance \<Rightarrow> state_error + ('f canonical_state \<times> bool)" where
  "advance_payload s d a =
     (let n = s\<lparr>cs_pending_auth := None\<rparr> in
      case (d, a) of
        (SessionDomain, SessionPending e) \<Rightarrow>
          try_then (guard (e \<noteq> []) StInvalid) (\<lambda>_.
          Inr (n\<lparr>cs_migrations := (cs_migrations n)\<lparr>mg_session :=
                 (mg_session (cs_migrations n))\<lparr>dm_pending_import := Some e\<rparr>\<rparr>\<rparr>, False))
      | (SessionDomain, SessionComplete p auth) \<Rightarrow>
          try_then (check_fresh_generation s (pa_auth_generation auth)) (\<lambda>_.
          try_then (guard (pa_envelope auth \<noteq> []) StInvalid) (\<lambda>_.
          Inr (n\<lparr>cs_public := keep_consent s p, cs_auth_generation := pa_auth_generation auth,
                 cs_auth_envelope := Some (pa_envelope auth), cs_status := StatusActive\<rparr>, True)))
      | (ConsentDomain, ConsentComplete c) \<Rightarrow>
          Inr (n\<lparr>cs_public := (cs_public n)\<lparr>pp_consent := cp_consent c, pp_scopes := cp_scopes c, pp_ids := cp_ids c\<rparr>\<rparr>, True)
      | (actual, CompleteEmpty d') \<Rightarrow> if actual = d' then Inr (n, True) else Inl StInvalid
      | _ \<Rightarrow> Inl StInvalid)"

definition complete_migration :: "migration_domain \<Rightarrow> 'f canonical_state \<Rightarrow> 'f canonical_state" where
  "complete_migration d s =
     s\<lparr>cs_migrations := (case d of
         SessionDomain \<Rightarrow> (cs_migrations s)\<lparr>mg_session := migration_done\<rparr>
       | ConsentDomain \<Rightarrow> (cs_migrations s)\<lparr>mg_consent := migration_done\<rparr>)\<rparr>"

definition mutate :: "'f canonical_state \<Rightarrow> mutation \<Rightarrow> state_error + 'f canonical_state" where
  "mutate s m =
     (let n = s\<lparr>cs_pending_auth := None\<rparr> in
      case m of
        UpdatePreferences p \<Rightarrow>
          Inr (n\<lparr>cs_public := (cs_public n)\<lparr>pp_preferences := pp_preferences p, pp_client_id := pp_client_id p,
                 pp_profile := pp_profile p, pp_pins := pp_pins p, pp_recents := pp_recents p,
                 pp_account_extensions := pp_account_extensions p\<rparr>\<rparr>)
      | UpdateConsent c sc i \<Rightarrow>
          Inr (n\<lparr>cs_public := (cs_public n)\<lparr>pp_consent := c, pp_scopes := sc, pp_ids := i\<rparr>,
                 cs_migrations := (cs_migrations n)\<lparr>mg_consent := migration_done\<rparr>\<rparr>)
      | ReplaceAuth g e p \<Rightarrow>
          try_then (check_fresh_generation s g) (\<lambda>_.
          try_then (guard (e \<noteq> []) StInvalid) (\<lambda>_.
          Inr (n\<lparr>cs_auth_generation := g, cs_auth_envelope := Some e, cs_public := keep_consent s p,
                 cs_status := StatusActive,
                 cs_migrations := (cs_migrations n)\<lparr>mg_session := migration_done\<rparr>\<rparr>)))
      | AdvanceMigration d a \<Rightarrow>
          let current = (case d of SessionDomain \<Rightarrow> mg_session (cs_migrations s)
                                 | ConsentDomain \<Rightarrow> mg_consent (cs_migrations s))
          in if dm_progress current = MigrationComplete then Inl StInvalid
             else try_then (advance_payload s d a) (\<lambda>(n, completed).
                  Inr (if completed then complete_migration d n else n))
      | ClearTenure g \<Rightarrow>
          try_then (check_fresh_generation s g) (\<lambda>_.
          if cs_epoch n + 1 > u64_max then Inl Exhausted
          else Inr (n\<lparr>cs_epoch := cs_epoch n + 1, cs_auth_generation := g, cs_status := StatusCleared,
                 cs_auth_envelope := None,
                 cs_public := public_default\<lparr>pp_preferences := pp_preferences (cs_public s)\<rparr>,
                 cs_migrations := \<lparr>mg_session = migration_done, mg_consent = migration_done\<rparr>\<rparr>)))"

definition receipt_kind :: "mutation \<Rightarrow> receipt_verification" where
  "receipt_kind m =
     (case m of
        ReplaceAuth _ _ _ \<Rightarrow> ReceiptAuth None
      | AdvanceMigration _ (SessionComplete _ _) \<Rightarrow> ReceiptAuth None
      | _ \<Rightarrow> ReceiptPublic)"

text \<open>The next revision and its receipt; the oldest receipt leaves a full ledger.\<close>

definition record_receipt ::
  "operation \<Rightarrow> 'f canonical_state \<Rightarrow> state_error + ('f canonical_state \<times> applied)" where
  "record_receipt oper n =
     (if cs_revision n + 1 > u64_max then Inl Exhausted
      else
        let n = n\<lparr>cs_revision := cs_revision n + 1\<rparr>;
            result = \<lparr>ap_revision = cs_revision n, ap_epoch = cs_epoch n, ap_auth_generation = cs_auth_generation n\<rparr>;
            ledger = cs_operations n @
              [\<lparr>le_id = op_id oper, le_digest = op_digest oper, le_result = result,
                le_verification = Some (receipt_kind (op_mutation oper))\<rparr>]
        in Inr (n\<lparr>cs_operations := (if length ledger > LEDGER_CAPACITY then tl ledger else ledger)\<rparr>, result))"

definition transition ::
  "'f canonical_state \<Rightarrow> operation \<Rightarrow> state_error + ('f canonical_state \<times> applied)" where
  "transition s oper =
     try_then (admit s oper) (\<lambda>_. try_then (mutate s (op_mutation oper)) (record_receipt oper))"

lemma advance_payload_pending: "advance_payload s d a = Inr (n, completed) \<Longrightarrow> cs_pending_auth n = None"
  by (auto simp: advance_payload_def Let_def try_Inr split: migration_domain.splits migration_advance.splits if_splits)

lemma mutate_pending: "mutate s m = Inr n \<Longrightarrow> cs_pending_auth n = None"
  by (auto simp: mutate_def Let_def try_Inr complete_migration_def dest: advance_payload_pending
      split: mutation.splits if_splits)

lemma transition_pending: "transition s oper = Inr (n, r) \<Longrightarrow> cs_pending_auth n = None"
  by (auto simp: transition_def try_Inr record_receipt_def Let_def dest!: mutate_pending split: if_splits)

section \<open>Validation and application\<close>

definition pending_level :: "'f canonical_state \<Rightarrow> nat" where
  "pending_level s = (if cs_pending_auth s = None then 0 else 6)"

text \<open>
  Validation reconstructs a pending candidate by applying it to the state without it, and applying
  validates what it starts from and what it produces. The recursion ends because the state it
  descends to has nothing pending.
\<close>

function (sequential) validate :: "'f state_env \<Rightarrow> 'f canonical_state \<Rightarrow> state_error + unit"
  and pending_candidate ::
    "'f state_env \<Rightarrow> 'f canonical_state \<Rightarrow> state_error + ('f canonical_state \<times> applied) option"
  and apply_verified_digest ::
    "'f state_env \<Rightarrow> 'f canonical_state \<Rightarrow> operation \<Rightarrow> state_error + ('f canonical_state \<times> applied)"
  and operation_status_of ::
    "'f state_env \<Rightarrow> 'f canonical_state \<Rightarrow> generation \<Rightarrow> string \<Rightarrow> state_error + operation_status"
  and encode :: "'f state_env \<Rightarrow> 'f canonical_state \<Rightarrow> state_error + u8 list" where
  "validate env s =
     (if cs_format s \<noteq> STATE_FORMAT then Inl UnsupportedFormat
      else if cs_schema s \<noteq> STATE_SCHEMA then Inl UnsupportedSchema
      else if cs_id s \<noteq> env_object_id env (cs_flavor s) then Inl IdCollision
      else if length (cs_operations s) > LEDGER_CAPACITY then Inl StInvalid
      else try_then
        (if cs_pending_auth s = None then Inr None
         else if cs_status s = StatusCleared then Inl StInvalid
         else pending_candidate env s) (\<lambda>_.
      try_then (guard (list_all (entry_ok s) [0..<length (cs_operations s)]) StInvalid) (\<lambda>_.
      try_then (guard (migration_ok (mg_session (cs_migrations s)) \<and> migration_ok (mg_consent (cs_migrations s)))
        StInvalid) (\<lambda>_.
      try_then (guard (\<not> (cs_status s = StatusCleared \<and> \<not> cleared_ok s)) StInvalid) (\<lambda>_.
      check_logical_size (state_json env s))))))"
| "pending_candidate env s =
     (case cs_pending_auth s of None \<Rightarrow> Inr None
      | Some pending \<Rightarrow>
        if \<not> valid_digest (pd_plaintext_digest pending)
           \<or> \<not> is_replace_auth (op_mutation (pd_operation pending))
           \<or> entry_of s (op_id (pd_operation pending)) \<noteq> None
        then Inl StInvalid
        else try_then (apply_verified_digest env (s\<lparr>cs_pending_auth := None\<rparr>) (pd_operation pending))
          (\<lambda>(cand, applied).
           if cs_operations cand = [] then Inl StInvalid
           else let entry = last (cs_operations cand) in
             Inr (Some (cand\<lparr>cs_operations := butlast (cs_operations cand) @
               [entry\<lparr>le_verification := Some (ReceiptAuth (Some (pd_plaintext_digest pending)))\<rparr>]\<rparr>, applied))))"
| "apply_verified_digest env s oper =
     try_then (validate env s) (\<lambda>_.
     try_then (guard (valid_digest (op_digest oper)) StInvalid) (\<lambda>_.
     try_then (operation_status_of env s (op_id oper) (op_digest oper)) (\<lambda>status.
     case status of
       OpApplied result \<Rightarrow> Inr (s, result)
     | OpUnknown \<Rightarrow>
         try_then (transition s oper) (\<lambda>(n, result).
         try_then (encode env n) (\<lambda>_. Inr (n, result))))))"
| "operation_status_of env s ident digest =
     try_then (validate env s) (\<lambda>_.
     try_then (guard (valid_digest digest) StInvalid) (\<lambda>_.
     case entry_of s ident of
       Some entry \<Rightarrow> if le_digest entry = digest then Inr (OpApplied (le_result entry)) else Inl StInvalid
     | None \<Rightarrow> Inr OpUnknown))"
| "encode env s =
     try_then (validate env s) (\<lambda>_.
     let bytes = env_to_vec env (state_json env s)
     in if length bytes > MAX_ENCODED_BYTES then Inl EncodedTooLarge else Inr bytes)"
  by pat_completeness auto
termination
  apply (relation "measure (case_sum
      (case_sum (\<lambda>(env, s). pending_level s + 1) (\<lambda>(env, s). pending_level s))
      (case_sum (\<lambda>(env, s, oper). pending_level s + 3)
        (case_sum (\<lambda>(env, s, ident, digest). pending_level s + 2) (\<lambda>(env, s). pending_level s + 2))))")
  apply (auto simp: pending_level_def dest: transition_pending)
  done
declare validate.simps [simp del] pending_candidate.simps [simp del] apply_verified_digest.simps [simp del]
  operation_status_of.simps [simp del] encode.simps [simp del]

definition apply_operation ::
  "'f state_env \<Rightarrow> 'f canonical_state \<Rightarrow> operation \<Rightarrow> state_error + ('f canonical_state \<times> applied)" where
  "apply_operation env s oper =
     try_then (computed_digest env oper) (\<lambda>digest.
     if digest \<noteq> op_digest oper then Inl StInvalid else apply_verified_digest env s oper)"

definition decode :: "'f state_env \<Rightarrow> u8 list \<Rightarrow> 'f \<Rightarrow> state_error + 'f canonical_state" where
  "decode env bytes flavor =
     (if length bytes > MAX_ENCODED_BYTES then Inl EncodedTooLarge
      else case env_from_slice env bytes of None \<Rightarrow> Inl StInvalid
        | Some s \<Rightarrow>
            if cs_flavor s \<noteq> flavor then Inl FlavorMismatch
            else try_then (validate env s) (\<lambda>_. Inr s))"

end
