(* ===== verification/Sha256_Correct.thy ===== *)
theory Sha256_Correct
  imports Sha256
begin

text \<open>
  What \<open>sha256.rs\<close> computes. The reference is the standard's own wording: the padded message, its
  blocks, the message schedule and the working variables as recursive sequences. The incremental
  state is related to the message it has absorbed, whatever pieces it came in; from that follow the
  hash, the agreement with the second implementation, HMAC with its precomputed key pads, and PBKDF2.
\<close>

unbundle bit_operations_syntax

section \<open>Loops and blocks\<close>

lemma while_option_iterate:
  "\<lbrakk>\<And>i. i < k \<Longrightarrow> b ((c ^^ i) s); \<not> b ((c ^^ k) s)\<rbrakk> \<Longrightarrow> while_option b c s = Some ((c ^^ k) s)"
proof (induction k arbitrary: s)
  case 0
  then show ?case by (simp add: while_option_unfold)
next
  case (Suc k)
  have "b ((c ^^ i) (c s))" if "i < k" for i
    using Suc.prems(1) [of "Suc i"] that by (simp add: funpow_swap1)
  moreover have "\<not> b ((c ^^ k) (c s))" using Suc.prems(2) by (simp add: funpow_swap1)
  ultimately have "while_option b c (c s) = Some ((c ^^ k) (c s))" by (rule Suc.IH)
  then show ?case using Suc.prems(1) [of 0] by (simp add: while_option_unfold [of b c s] funpow_swap1)
qed

lemma full_blocks_rest: "length (snd (full_blocks h data)) < 64"
  by (induction h data rule: full_blocks.induct) (subst full_blocks.simps, simp)

lemma full_blocks_short [simp]: "length data < 64 \<Longrightarrow> full_blocks h data = (h, data)"
  by (subst full_blocks.simps) simp

lemma full_blocks_append:
  "full_blocks h (a @ b) = (let (h', r) = full_blocks h a in full_blocks h' (r @ b))"
proof (induction h a rule: full_blocks.induct)
  case (1 h a)
  show ?case
  proof (cases "length a \<ge> 64")
    case True
    have "full_blocks h (a @ b) = full_blocks (compress h (take 64 a)) (drop 64 a @ b)"
      using True by (subst full_blocks.simps) simp
    also have "\<dots> = (let (h', r) = full_blocks (compress h (take 64 a)) (drop 64 a) in full_blocks h' (r @ b))"
      using 1 True by blast
    also have "full_blocks (compress h (take 64 a)) (drop 64 a) = full_blocks h a"
      using True by (subst (2) full_blocks.simps) simp
    finally show ?thesis .
  qed (simp add: Let_def)
qed

lemma full_blocks_chunks: "fst (full_blocks h m) = foldl compress h (chunks_exact 64 m)"
proof (induction h m rule: full_blocks.induct)
  case (1 h m)
  then show ?case by (subst full_blocks.simps, subst chunks_exact.simps) auto
qed

lemma full_blocks_rest_length: "length (snd (full_blocks h m)) = length m mod 64"
proof (induction h m rule: full_blocks.induct)
  case (1 h m)
  then show ?case by (subst full_blocks.simps) (auto simp: le_mod_geq)
qed

section \<open>The state and what it has absorbed\<close>

definition absorbed :: "sha_state \<Rightarrow> u8 list \<Rightarrow> bool" where
  "absorbed s m \<longleftrightarrow> length (sha_block s) = 64 \<and> sha_filled s < 64 \<and> sha_len s = of_nat (length m) \<and>
     full_blocks SHA_H0 m = (sha_h s, take (sha_filled s) (sha_block s))"

lemma absorbed_new: "absorbed sha_new []"
  by (simp add: absorbed_def sha_new_def)

lemma absorbed_filled: "absorbed s m \<Longrightarrow> sha_filled s = length m mod 64"
  using full_blocks_rest_length [of SHA_H0 m] by (simp add: absorbed_def)

text \<open>Topping up keeps the chaining value and the pending bytes a prefix of the message.\<close>

lemma top_up_spec:
  assumes "top_up s data = (s', rest)" and "length (sha_block s) = 64" and "sha_filled s < 64"
  shows "length (sha_block s') = 64 \<and> sha_filled s' < 64 \<and> sha_len s' = sha_len s \<and>
    (sha_filled s' = 0 \<or> rest = []) \<and>
    full_blocks (sha_h s) (take (sha_filled s) (sha_block s) @ data) =
      full_blocks (sha_h s') (take (sha_filled s') (sha_block s') @ rest)"
proof (cases "sha_filled s = 0")
  case True
  then show ?thesis using assms by (simp add: top_up_def)
next
  case False
  define f where "f = sha_filled s"
  define n where "n = min (64 - f) (length data)"
  define block where "block = take f (sha_block s) @ take n data @ drop (f + n) (sha_block s)"
  have f: "0 < f" "f < 64" using False assms(3) by (simp_all add: f_def)
  have n: "n \<le> length data" "f + n \<le> 64" using f by (simp_all add: n_def)
  have len: "length block = 64" using n assms(2) by (simp add: block_def)
  have out: "(s', rest) =
    (if f + n = 64 then (s\<lparr>sha_block := block, sha_filled := 0, sha_h := compress (sha_h s) block\<rparr>, drop n data)
     else (s\<lparr>sha_block := block, sha_filled := f + n\<rparr>, drop n data))"
    using assms(1) f unfolding top_up_def Let_def f_def [symmetric] n_def [symmetric] block_def [symmetric]
    by (auto split: if_splits)
  show ?thesis
  proof (cases "f + n = 64")
    case True
    then have block: "block = take f (sha_block s) @ take n data" using assms(2) by (simp add: block_def)
    have "take f (sha_block s) @ data = block @ drop n data" by (simp add: block)
    then have "full_blocks (sha_h s) (take f (sha_block s) @ data) = full_blocks (compress (sha_h s) block) (drop n data)"
      using len by (simp add: full_blocks.simps [of _ "block @ drop n data"])
    then show ?thesis using out True len assms(2) by (simp add: f_def)
  next
    case part: False
    then have "n = length data" using n f by (auto simp: n_def min_def split: if_splits)
    then have "take (f + n) block = take f (sha_block s) @ data" "drop n data = []"
      using f assms(2) by (simp_all add: block_def)
    then show ?thesis using out part len n(2) assms(2) by (simp add: f_def)
  qed
qed

lemma absorbed_update:
  assumes "absorbed s m"
  shows "absorbed (sha_update s data) (m @ data)"
proof -
  let ?s0 = "s\<lparr>sha_len := sha_len s + of_nat (length data)\<rparr>"
  obtain s1 rest where t: "top_up ?s0 data = (s1, rest)" by fastforce
  have s: "length (sha_block s) = 64" "sha_filled s < 64" "sha_len s = of_nat (length m)"
    "full_blocks SHA_H0 m = (sha_h s, take (sha_filled s) (sha_block s))"
    using assms by (simp_all add: absorbed_def)
  have s1: "length (sha_block s1) = 64" "sha_filled s1 < 64" "sha_len s1 = of_nat (length (m @ data))"
    "sha_filled s1 = 0 \<or> rest = []"
    "full_blocks (sha_h s) (take (sha_filled s) (sha_block s) @ data) =
      full_blocks (sha_h s1) (take (sha_filled s1) (sha_block s1) @ rest)"
    using top_up_spec [OF t] s by auto
  have all: "full_blocks SHA_H0 (m @ data) = full_blocks (sha_h s1) (take (sha_filled s1) (sha_block s1) @ rest)"
    by (simp only: full_blocks_append [of SHA_H0 m data] s(4) Let_def prod.case s1(5))
  obtain h' r where fb: "full_blocks (sha_h s1) rest = (h', r)" by fastforce
  have r: "length r < 64" using full_blocks_rest [of "sha_h s1" rest] fb by simp
  have u: "sha_update s data =
    (if r \<noteq> [] then s1\<lparr>sha_h := h', sha_block := r @ drop (length r) (sha_block s1), sha_filled := length r\<rparr>
     else s1\<lparr>sha_h := h'\<rparr>)"
    by (simp add: sha_update_def t fb)
  show ?thesis
  proof (cases "rest = []")
    case True
    then have "h' = sha_h s1" "r = []" using fb by auto
    then show ?thesis using u s1 all True by (simp add: absorbed_def)
  next
    case False
    then have "sha_filled s1 = 0" using s1(4) by blast
    then have "full_blocks SHA_H0 (m @ data) = (h', r)" using all fb by simp
    then show ?thesis using u r s1 \<open>sha_filled s1 = 0\<close> by (auto simp: absorbed_def)
  qed
qed

lemma absorbed_updates: "absorbed s m \<Longrightarrow> absorbed (foldl sha_update s pieces) (m @ concat pieces)"
proof (induction pieces arbitrary: s m)
  case (Cons p ps)
  show ?case using Cons.IH [OF absorbed_update [OF Cons.prems]] by simp
qed simp
section \<open>The standard's message padding, schedule and compression\<close>

definition fips_zeros :: "nat \<Rightarrow> nat" where
  "fips_zeros n = (119 - n mod 64) mod 64"

definition fips_pad :: "u8 list \<Rightarrow> u8 list" where
  "fips_pad m = m @ [0x80] @ replicate (fips_zeros (length m)) 0 @ u64_to_be (of_nat (8 * length m))"

definition small_sigma :: "nat \<Rightarrow> nat \<Rightarrow> nat \<Rightarrow> u32 \<Rightarrow> u32" where
  "small_sigma i j k x = word_rotr i x XOR word_rotr j x XOR drop_bit k x"

definition big_sigma :: "nat \<Rightarrow> nat \<Rightarrow> nat \<Rightarrow> u32 \<Rightarrow> u32" where
  "big_sigma i j k x = word_rotr i x XOR word_rotr j x XOR word_rotr k x"

fun fips_W :: "u8 list \<Rightarrow> nat \<Rightarrow> u32" where
  "fips_W M t =
     (if t < 16 then u32_from_be (take 4 (drop (4 * t) M))
      else small_sigma 17 19 10 (fips_W M (t - 2)) + fips_W M (t - 7)
           + small_sigma 7 18 3 (fips_W M (t - 15)) + fips_W M (t - 16))"

declare fips_W.simps [simp del]

text \<open>
  The working variables as two sequences. Before round \<open>t\<close> the variables \<open>a, b, c, d\<close> are
  \<open>A (t + 3), A (t + 2), A (t + 1), A t\<close>, and \<open>e, f, g, h\<close> the same of \<open>E\<close>.
\<close>

fun fips_A :: "u32 list \<Rightarrow> u8 list \<Rightarrow> nat \<Rightarrow> u32" and fips_E :: "u32 list \<Rightarrow> u8 list \<Rightarrow> nat \<Rightarrow> u32" where
  "fips_A H M t =
     (if t < 4 then H ! (3 - t)
      else fips_E H M (t - 4) + big_sigma 6 11 25 (fips_E H M (t - 1))
           + ((fips_E H M (t - 1) AND fips_E H M (t - 2)) XOR (NOT (fips_E H M (t - 1)) AND fips_E H M (t - 3)))
           + SHA_K ! (t - 4) + fips_W M (t - 4)
           + (big_sigma 2 13 22 (fips_A H M (t - 1))
              + ((fips_A H M (t - 1) AND fips_A H M (t - 2)) XOR (fips_A H M (t - 1) AND fips_A H M (t - 3))
                 XOR (fips_A H M (t - 2) AND fips_A H M (t - 3)))))"
| "fips_E H M t =
     (if t < 4 then H ! (7 - t)
      else fips_A H M (t - 4)
           + (fips_E H M (t - 4) + big_sigma 6 11 25 (fips_E H M (t - 1))
              + ((fips_E H M (t - 1) AND fips_E H M (t - 2)) XOR (NOT (fips_E H M (t - 1)) AND fips_E H M (t - 3)))
              + SHA_K ! (t - 4) + fips_W M (t - 4)))"

declare fips_A.simps [simp del] fips_E.simps [simp del]

definition fips_working :: "u32 list \<Rightarrow> u8 list \<Rightarrow> nat \<Rightarrow> working" where
  "fips_working H M t =
     (fips_A H M (t + 3), fips_A H M (t + 2), fips_A H M (t + 1), fips_A H M t,
      fips_E H M (t + 3), fips_E H M (t + 2), fips_E H M (t + 1), fips_E H M t)"

definition fips_compress :: "u32 list \<Rightarrow> u8 list \<Rightarrow> u32 list" where
  "fips_compress H M = map2 (+) H (words_of (fips_working H M 64))"

definition fips_sha256 :: "u8 list \<Rightarrow> u8 list" where
  "fips_sha256 m = concat (map u32_to_be (foldl fips_compress SHA_H0 (chunks_exact 64 (fips_pad m))))"

section \<open>The code's compression is the standard's\<close>

lemma take_drop_4:
  "i + 4 \<le> length xs \<Longrightarrow> take 4 (drop i xs) = [xs ! i, xs ! (i + 1), xs ! (i + 2), xs ! (i + 3)]"
  by (rule nth_equalityI) (auto simp: less_Suc_eq numeral_eq_Suc nth_Cons')

lemma load_word_foldl:
  assumes "length M = 64" and "n \<le> 16" and "length w = 64"
  shows "length (foldl (load_word M) w [0..<n]) = 64 \<and>
    (\<forall>t < n. foldl (load_word M) w [0..<n] ! t = fips_W M t)"
  using assms(2)
proof (induction n)
  case 0
  then show ?case by (simp add: assms(3))
next
  case (Suc n)
  let ?w = "foldl (load_word M) w [0..<n]"
  have "fips_W M n = u32_from_be [M ! (n * 4), M ! (n * 4 + 1), M ! (n * 4 + 2), M ! (n * 4 + 3)]"
    using Suc.prems assms(1) by (simp add: fips_W.simps take_drop_4 mult.commute)
  then have "foldl (load_word M) w [0..<Suc n] = ?w[n := fips_W M n]"
    by (simp add: load_word_def)
  then show ?case using Suc by (auto simp: nth_list_update less_Suc_eq)
qed

lemma extend_foldl:
  assumes "length w = 64" and "\<forall>t < 16. w ! t = fips_W M t" and "n \<le> 48"
  shows "length (foldl extend_schedule w [16..<16 + n]) = 64 \<and>
    (\<forall>t < 16 + n. foldl extend_schedule w [16..<16 + n] ! t = fips_W M t)"
  using assms(3)
proof (induction n)
  case 0
  then show ?case using assms by simp
next
  case (Suc n)
  let ?w = "foldl extend_schedule w [16..<16 + n]"
  have w: "length ?w = 64" "\<forall>t < 16 + n. ?w ! t = fips_W M t" using Suc by simp_all
  have "fips_W M (16 + n) = ?w ! n + small_sigma 7 18 3 (?w ! (16 + n - 15)) + ?w ! (16 + n - 7)
      + small_sigma 17 19 10 (?w ! (16 + n - 2))"
    using w(2) by (subst fips_W.simps) (simp add: ac_simps)
  moreover have "[16..<16 + Suc n] = [16..<16 + n] @ [16 + n]" by (metis add_Suc_right le_add1 upt_Suc_append)
  ultimately have "foldl extend_schedule w [16..<16 + Suc n] = ?w[16 + n := fips_W M (16 + n)]"
    by (simp add: extend_schedule_def small_sigma_def)
  then show ?case using w Suc.prems by (auto simp: nth_list_update less_Suc_eq)
qed

lemma message_schedule_fips:
  assumes "length M = 64"
  shows "length (message_schedule M) = 64 \<and> (\<forall>t < 64. message_schedule M ! t = fips_W M t)"
  using extend_foldl [of "foldl (load_word M) (replicate 64 0) [0..<16]" M 48] load_word_foldl [OF assms, of 16]
  by (simp add: message_schedule_def)

lemma compress_rounds_fips:
  assumes "\<forall>t < 64. w ! t = fips_W M t" and "n \<le> 64"
  shows "foldl (compress_round w) (fips_working H M 0) [0..<n] = fips_working H M n"
  using assms(2)
proof (induction n)
  case (Suc n)
  then have IH: "foldl (compress_round w) (fips_working H M 0) [0..<n] = fips_working H M n" by simp
  have idx: "Suc n + 3 = n + 4" "Suc n + 2 = n + 3" "Suc n + 1 = n + 2" "n + 1 = Suc n" by simp_all
  have back_idx: "(n + 4 < 4) = False" "n + 4 - 4 = n" "n + 4 - 3 = n + 1" "n + 4 - 2 = n + 2" "n + 4 - 1 = n + 3"
    by simp_all
  have "w ! n = fips_W M n" using assms(1) Suc.prems by simp
  moreover have "fips_A H M (n + 4) = fips_E H M n + big_sigma 6 11 25 (fips_E H M (n + 3))
       + ((fips_E H M (n + 3) AND fips_E H M (n + 2)) XOR (NOT (fips_E H M (n + 3)) AND fips_E H M (n + 1)))
       + SHA_K ! n + fips_W M n
       + (big_sigma 2 13 22 (fips_A H M (n + 3))
          + ((fips_A H M (n + 3) AND fips_A H M (n + 2)) XOR (fips_A H M (n + 3) AND fips_A H M (n + 1))
             XOR (fips_A H M (n + 2) AND fips_A H M (n + 1))))"
    by (subst fips_A.simps) (simp only: back_idx if_False)
  moreover have "fips_E H M (n + 4) = fips_A H M n + (fips_E H M n + big_sigma 6 11 25 (fips_E H M (n + 3))
       + ((fips_E H M (n + 3) AND fips_E H M (n + 2)) XOR (NOT (fips_E H M (n + 3)) AND fips_E H M (n + 1)))
       + SHA_K ! n + fips_W M n)"
    by (subst fips_E.simps) (simp only: back_idx if_False)
  ultimately have "compress_round w (fips_working H M n) n = fips_working H M (Suc n)"
    by (simp only: fips_working_def compress_round.simps Let_def big_sigma_def idx)
  then show ?case by (simp add: IH)
qed simp

lemma eight_words:
  assumes "length h = 8"
  shows "\<exists>a b c d e f g i. h = [a, b, c, d, e, f, g, i]"
  using assms by (auto simp: numeral_eq_Suc length_Suc_conv)

lemma working_of_fips: "length h = 8 \<Longrightarrow> working_of h = fips_working h M 0"
  using eight_words [of h] by (auto simp: fips_working_def fips_A.simps fips_E.simps numeral_eq_Suc)

lemma compress_fips:
  assumes "length h = 8" and "length M = 64"
  shows "compress h M = fips_compress h M"
  using compress_rounds_fips [of "message_schedule M" M 64 h] message_schedule_fips [OF assms(2)]
  by (simp add: compress_def fips_compress_def working_of_fips [OF assms(1), of M])

lemma length_words_of [simp]: "length (words_of x) = 8"
  by (cases x rule: words_of.cases) simp

lemma length_compress [simp]: "length h = 8 \<Longrightarrow> length (compress h block) = 8"
  by (simp add: compress_def Let_def)
section \<open>The hash of what was absorbed\<close>

lemma chunks_exact_lengths: "c \<in> set (chunks_exact n xs) \<Longrightarrow> length c = n"
proof (induction n xs rule: chunks_exact.induct)
  case (1 n xs)
  then show ?case by (subst (asm) (2) chunks_exact.simps) (auto split: if_splits)
qed

lemma foldl_compress_fips:
  "\<lbrakk>length h = 8; \<forall>b \<in> set bs. length b = 64\<rbrakk> \<Longrightarrow> foldl compress h bs = foldl fips_compress h bs"
proof (induction bs arbitrary: h)
  case (Cons b bs)
  have "compress h b = fips_compress h b" using Cons.prems by (simp add: compress_fips)
  moreover have "length (compress h b) = 8" using Cons.prems(1) by simp
  ultimately show ?case using Cons.IH [of "compress h b"] Cons.prems(2) by simp
qed simp

lemma fips_zeros_least:
  "(n + 1 + fips_zeros n) mod 64 = 56" "i < fips_zeros n \<Longrightarrow> (n + 1 + i) mod 64 \<noteq> 56"
proof -
  obtain q r where n: "n = 64 * q + r" and r: "r < 64" by (metis mod_less_divisor mult_div_mod_eq zero_less_numeral)
  have z: "fips_zeros n = (if r \<le> 55 then 55 - r else 119 - r)"
    using r by (auto simp: fips_zeros_def n le_mod_geq)
  have shift: "(n + 1 + k) mod 64 = (r + 1 + k) mod 64" for k
    by (simp add: n add.assoc)
  show "(n + 1 + fips_zeros n) mod 64 = 56" unfolding shift z using r by (auto simp: le_mod_geq)
  show "(n + 1 + i) mod 64 \<noteq> 56" if "i < fips_zeros n"
    unfolding shift using that r by (cases "r + 1 + i < 64") (auto simp: z le_mod_geq split: if_splits)
qed

lemma absorbed_zeros:
  "absorbed s m \<Longrightarrow> absorbed (((\<lambda>s. sha_update s [0]) ^^ k) s) (m @ replicate k 0)"
proof (induction k)
  case (Suc k)
  then have "absorbed (sha_update (((\<lambda>s. sha_update s [0]) ^^ k) s) [0]) ((m @ replicate k 0) @ [0])"
    by (intro absorbed_update) simp
  then show ?case by (simp add: replicate_append_same)
qed simp

lemma length_fips_pad: "length (fips_pad m) mod 64 = 0"
proof -
  have "length (fips_pad m) = (length m + 1 + fips_zeros (length m)) + 8"
    by (simp add: fips_pad_def u64_to_be_def)
  moreover have "(a + 8) mod 64 = 0" if "a mod 64 = 56" for a :: nat using that by presburger
  ultimately show ?thesis using fips_zeros_least(1) [of "length m"] by (simp only:)
qed

lemma absorbed_padded_hash:
  assumes "absorbed s (fips_pad m)"
  shows "concat (map u32_to_be (sha_h s)) = fips_sha256 m"
proof -
  have "sha_h s = fst (full_blocks SHA_H0 (fips_pad m))" using assms by (simp add: absorbed_def)
  then have "sha_h s = foldl fips_compress SHA_H0 (chunks_exact 64 (fips_pad m))"
    by (simp add: full_blocks_chunks foldl_compress_fips SHA_H0_def chunks_exact_lengths)
  then show ?thesis by (simp add: fips_sha256_def)
qed

lemma finish_absorbed:
  assumes "absorbed s m"
  shows "sha_finish s = Some (fips_sha256 m)"
proof -
  let ?step = "\<lambda>s. sha_update s [0]" and ?s1 = "sha_update s [0x80]" and ?z = "fips_zeros (length m)"
  have s1: "absorbed ?s1 (m @ [0x80])" by (rule absorbed_update [OF assms])
  have filled: "sha_filled ((?step ^^ k) ?s1) = (length m + 1 + k) mod 64" for k
    using absorbed_filled [OF absorbed_zeros [OF s1, of k]] by (simp add: ac_simps)
  have loop: "while_option (\<lambda>s. sha_filled s \<noteq> 56) ?step ?s1 = Some ((?step ^^ ?z) ?s1)"
    by (rule while_option_iterate)
      (simp_all only: filled fips_zeros_least(1), use fips_zeros_least(2) in blast)
  have bits: "sha_len s * 8 = of_nat (8 * length m)" using assms by (simp add: absorbed_def)
  have "absorbed (sha_update ((?step ^^ ?z) ?s1) (u64_to_be (sha_len s * 8))) (fips_pad m)"
    using absorbed_update [OF absorbed_zeros [OF s1, of ?z], of "u64_to_be (sha_len s * 8)"] bits
    by (simp add: fips_pad_def)
  then show ?thesis by (simp add: sha_finish_def loop absorbed_padded_hash)
qed

lemma sha256_fips: "sha256 data = Some (fips_sha256 data)"
  using finish_absorbed [OF absorbed_update [OF absorbed_new, of data]] by (simp add: sha256_def)

lemma length_sha256: "length (fips_sha256 m) = 32"
proof -
  have "length (foldl fips_compress h bs) = 8" if "length h = 8" for h bs
    using that by (induction bs arbitrary: h) (simp_all add: fips_compress_def)
  then have "length (foldl fips_compress SHA_H0 bs) = 8" for bs by (simp add: SHA_H0_def)
  moreover have "map (length \<circ> u32_to_be) ws = replicate (length ws) 4" for ws :: "u32 list"
    by (induction ws) (simp_all add: u32_to_be_def)
  ultimately show ?thesis by (simp add: fips_sha256_def length_concat sum_list_replicate)
qed
section \<open>Hashing in pieces\<close>

text \<open>
  What a client of an incremental hash relies on: the state stands for the bytes it has been given,
  and finishing it gives the hash of those bytes.
\<close>

locale incremental_hash =
  fixes start :: 's
    and put :: "'s \<Rightarrow> 'b list \<Rightarrow> 's"
    and finish :: "'s \<Rightarrow> 'd option"
    and hash :: "'b list \<Rightarrow> 'd"
    and holds :: "'s \<Rightarrow> 'b list \<Rightarrow> bool"
  assumes start_holds: "holds start []"
    and put_holds: "holds s m \<Longrightarrow> holds (put s data) (m @ data)"
    and finish_hash: "holds s m \<Longrightarrow> finish s = Some (hash m)"
begin

lemma pieces_hold: "holds s m \<Longrightarrow> holds (foldl put s pieces) (m @ concat pieces)"
proof (induction pieces arbitrary: s m)
  case (Cons p ps)
  show ?case using Cons.IH [OF put_holds [OF Cons.prems]] by simp
qed simp

lemma pieces_hash: "finish (foldl put start pieces) = Some (hash (concat pieces))"
  using finish_hash [OF pieces_hold [OF start_holds, of pieces]] by simp

lemma one_piece_holds: "holds (put start m) m"
  using put_holds [OF start_holds] by simp

lemma resume_hash: "finish (put (put start prefix) m) = Some (hash (prefix @ m))"
  by (rule finish_hash, rule put_holds, rule one_piece_holds)

end

interpretation sha: incremental_hash sha_new sha_update sha_finish fips_sha256 absorbed
  by unfold_locales (rule absorbed_new, erule absorbed_update, erule finish_absorbed)

section \<open>The one-shot hash\<close>

lemma STATE_K_eq [simp]: "STATE_K = SHA_K"
  by (simp add: STATE_K_def SHA_K_def)

lemma STATE_H0_eq [simp]: "STATE_H0 = SHA_H0"
  by (simp add: STATE_H0_def SHA_H0_def)

lemma state_round_eq: "state_round w x i = compress_round w x i"
  by (cases x rule: words_of.cases) simp

lemma chunks_exact_nth:
  "\<lbrakk>0 < n; i < length xs div n\<rbrakk> \<Longrightarrow>
     i < length (chunks_exact n xs) \<and> chunks_exact n xs ! i = take n (drop (i * n) xs)"
proof (induction n xs arbitrary: i rule: chunks_exact.induct)
  case (1 n xs)
  have len: "n \<le> length xs" using 1(2,3) by (metis div_less not_le less_nat_zero_code)
  show ?case
  proof (cases i)
    case 0
    then show ?thesis using len 1(2) by (subst (1 2) chunks_exact.simps) simp
  next
    case (Suc j)
    have "j < length (drop n xs) div n" using 1(2,3) Suc len by (simp add: le_div_geq)
    then show ?thesis using 1(1) [of j] len 1(2) Suc
      by (subst (1 2) chunks_exact.simps) (simp add: add.commute)
  qed
qed

lemma length_chunks_exact: "0 < n \<Longrightarrow> length (chunks_exact n xs) = length xs div n"
proof (induction n xs rule: chunks_exact.induct)
  case (1 n xs)
  then show ?case by (subst chunks_exact.simps) (simp add: le_div_geq)
qed

lemma state_schedule_eq:
  assumes "length M = 64"
  shows "state_schedule M = message_schedule M"
proof -
  let ?l = "foldl (load_word M) (replicate 64 0) [0..<16]" and ?s = "map u32_from_be (chunks_exact 4 M)"
  have s: "length ?s = 16" "\<forall>t < 16. ?s ! t = fips_W M t"
    using assms chunks_exact_nth [of 4 _ M]
    by (simp_all add: length_chunks_exact fips_W.simps mult.commute)
  have sch: "length (message_schedule M) = 64 \<and> (\<forall>t < 64. message_schedule M ! t = fips_W M t)"
    by (rule message_schedule_fips [OF assms])
  have "\<forall>t < 16. (?s @ drop 16 (replicate 64 0)) ! t = fips_W M t" using s by (simp add: nth_append)
  then have "length (state_schedule M) = 64 \<and> (\<forall>t < 64. state_schedule M ! t = fips_W M t)"
    using extend_foldl [of "?s @ drop 16 (replicate 64 0)" M 48] s(1)
    by (simp add: state_schedule_def length_chunks_exact assms)
  then show ?thesis using sch by (simp add: list_eq_iff_nth_eq)
qed

lemma state_block_eq: "length M = 64 \<Longrightarrow> state_block h M = compress h M"
  by (simp add: state_block_def compress_def state_schedule_eq Let_def
      state_round_eq [abs_def] cong: foldl_cong)

lemma state_blocks_eq: "\<forall>b \<in> set bs. length b = 64 \<Longrightarrow> foldl state_block h bs = foldl compress h bs"
  by (induction bs arbitrary: h) (simp_all add: state_block_eq)

lemma zero_fill_replicate:
  "\<lbrakk>\<And>i. i < k \<Longrightarrow> (length p + i) mod 64 \<noteq> 56; (length p + k) mod 64 = 56\<rbrakk> \<Longrightarrow> zero_fill p = p @ replicate k 0"
proof (induction k arbitrary: p)
  case 0
  then show ?case by (simp add: zero_fill.simps [of p])
next
  case (Suc k)
  have "(length (p @ [0]) + i) mod 64 \<noteq> 56" if "i < k" for i using Suc.prems(1) [of "Suc i"] that by simp
  moreover have "(length (p @ [0]) + k) mod 64 = 56" using Suc.prems(2) by simp
  ultimately have "zero_fill (p @ [0]) = (p @ [0]) @ replicate k 0" by (rule Suc.IH)
  then show ?case using Suc.prems(1) [of 0] by (simp add: zero_fill.simps [of p])
qed

lemma state_sha256_fips: "state_sha256 data = fips_sha256 data"
proof -
  let ?z = "fips_zeros (length data)"
  have "zero_fill (data @ [0x80]) = (data @ [0x80]) @ replicate ?z 0"
  proof (rule zero_fill_replicate)
    show "(length (data @ [0x80]) + i) mod 64 \<noteq> 56" if "i < ?z" for i using fips_zeros_least(2) [OF that] by simp
    show "(length (data @ [0x80]) + ?z) mod 64 = 56" using fips_zeros_least(1) [of "length data"] by simp
  qed
  then have "zero_fill (data @ [0x80]) @ u64_to_be (of_nat (length data) * 8) = fips_pad data"
    by (simp add: fips_pad_def mult.commute)
  then show ?thesis
    by (simp add: state_sha256_def fips_sha256_def state_blocks_eq foldl_compress_fips
        chunks_exact_lengths SHA_H0_def)
qed
section \<open>HMAC and PBKDF2\<close>

definition rfc_key :: "u8 list \<Rightarrow> u8 list" where
  "rfc_key key = (let k = if length key > 64 then fips_sha256 key else key in k @ replicate (64 - length k) 0)"

definition rfc_hmac :: "u8 list \<Rightarrow> u8 list \<Rightarrow> u8 list" where
  "rfc_hmac key m =
     fips_sha256 (map (\<lambda>b. b XOR 0x5c) (rfc_key key) @ fips_sha256 (map (\<lambda>b. b XOR 0x36) (rfc_key key) @ m))"

primrec rfc_u :: "u8 list \<Rightarrow> u8 list \<Rightarrow> nat \<Rightarrow> u8 list" where
  "rfc_u password salt 0 = rfc_hmac password (salt @ [0, 0, 0, 1])"
| "rfc_u password salt (Suc i) = rfc_hmac password (rfc_u password salt i)"

text \<open>Byte \<open>j\<close> of the derived key is the exclusive or of byte \<open>j\<close> of every \<open>U\<close>.\<close>

definition rfc_pbkdf2 :: "u8 list \<Rightarrow> u8 list \<Rightarrow> nat \<Rightarrow> u8 list" where
  "rfc_pbkdf2 password salt iters =
     map (\<lambda>j. foldl (XOR) 0 (map (\<lambda>i. rfc_u password salt i ! j) [0..<iters])) [0..<32]"

lemma hmac_new_ok:
  "\<exists>k. hmac_new key = Some k \<and> (\<forall>msg. hmac_mac k msg = Some (rfc_hmac key msg))"
proof -
  have k: "rfc_key key = (if length key > 64 then fips_sha256 key @ drop 32 (replicate 64 0)
      else key @ drop (length key) (replicate 64 0))"
    by (simp add: rfc_key_def length_sha256)
  show ?thesis
    by (cases "length key > 64")
      (auto simp: hmac_new_def hmac_mac_def sha256_fips k length_sha256 sha.resume_hash rfc_hmac_def)
qed

lemma length_rfc_u: "length (rfc_u password salt i) = 32"
  by (cases i) (simp_all add: rfc_hmac_def length_sha256)

lemma pbkdf2_rounds:
  assumes "\<forall>msg. hmac_mac k msg = Some (rfc_hmac password msg)" and "0 < n"
  shows "foldl (pbkdf2_step k) (Some (rfc_u password salt 0, rfc_u password salt 0)) [1..<n] =
    Some (rfc_u password salt (n - 1), rfc_pbkdf2 password salt n)"
  using assms(2)
proof (induction n)
  case (Suc n)
  show ?case
  proof (cases "n = 0")
    case True
    have "rfc_pbkdf2 password salt 1 = rfc_u password salt 0"
      by (rule nth_equalityI) (simp_all add: rfc_pbkdf2_def length_rfc_u del: rfc_u.simps)
    then show ?thesis using True by simp
  next
    case False
    then have upt: "[1..<Suc n] = [1..<n] @ [n]" by simp
    have u: "rfc_hmac password (rfc_u password salt (n - 1)) = rfc_u password salt n"
      using False by (cases n) simp_all
    have x: "map2 (XOR) (rfc_pbkdf2 password salt n) (rfc_u password salt n) = rfc_pbkdf2 password salt (Suc n)"
      by (rule nth_equalityI) (simp_all add: rfc_pbkdf2_def length_rfc_u del: rfc_u.simps)
    have "pbkdf2_step k (Some (v, out)) i = Some (rfc_hmac password v, map2 (XOR) out (rfc_hmac password v))" for v out i
      by (simp add: pbkdf2_step_def assms(1))
    then show ?thesis using Suc.IH False unfolding upt foldl_append by (simp add: u [simplified One_nat_def] x del: rfc_u.simps)
  qed
qed simp

lemma u32_one_be: "u32_to_be 1 = [0, 0, 0, 1]"
  by (simp add: u32_to_be_def)

section \<open>The constant-time comparison\<close>

lemma or_of_xors_zero:
  "foldl (\<lambda>diff (x, y). diff OR (x XOR y)) d zs = (0 :: u8) \<longleftrightarrow> d = 0 \<and> (\<forall>(x, y) \<in> set zs. x = y)"
proof (induction zs arbitrary: d)
  case (Cons z zs)
  have "x XOR y = 0 \<longleftrightarrow> x = y" "d OR e = 0 \<longleftrightarrow> d = 0 \<and> e = 0" for x y d e :: u8
    by (auto simp: bit_eq_iff bit_simps)
  then show ?case using Cons by (cases z) auto
qed simp

lemma ct_eq_is_equality: "ct_eq a b \<longleftrightarrow> a = b"
  by (auto simp: ct_eq_def or_of_xors_zero list_eq_iff_nth_eq set_zip)

section \<open>The claims\<close>

text \<open>
  C39. Both SHA-256 implementations of the repository compute the standard's hash of every input: the
  incremental one whatever pieces the message is given in, the one-shot one of the state store with
  its own loops and tables. Their padding loops end, and the digest has 32 bytes. The comparison of
  digests that looks at every byte is equality.
\<close>

theorem both_hashes_are_sha256:
  "sha_finish (foldl sha_update sha_new pieces) = Some (fips_sha256 (concat pieces)) \<and>
   sha256 data = Some (fips_sha256 data) \<and> state_sha256 data = fips_sha256 data \<and>
   length (fips_sha256 data) = 32 \<and> (ct_eq a b \<longleftrightarrow> a = b)"
  by (simp add: sha.pieces_hash sha256_fips state_sha256_fips length_sha256 ct_eq_is_equality)

text \<open>
  The derived key of a PIN is the standard's PBKDF2 with HMAC-SHA-256, although the two key pads
  are hashed once and reused for every iteration; a count of zero is one iteration, never none.
\<close>

theorem pbkdf2_is_standard:
  "pbkdf2_hmac_sha256 password salt iters = Some (rfc_pbkdf2 password salt (max iters 1))"
proof -
  obtain k where k: "hmac_new password = Some k" "\<forall>msg. hmac_mac k msg = Some (rfc_hmac password msg)"
    using hmac_new_ok by blast
  have "hmac_mac k (salt @ u32_to_be 1) = Some (rfc_u password salt 0)" by (simp add: k(2) u32_one_be)
  then show ?thesis
    using pbkdf2_rounds [OF k(2), of "max iters 1" salt] by (simp add: pbkdf2_hmac_sha256_def k(1) del: rfc_u.simps)
qed

end
