(* ===== verification/State_Correct.thy ===== *)
theory State_Correct
  imports State Sha256_Correct
begin

text \<open>
  Properties of the canonical state: what a successful application means, the ledger as the memory
  of the last sixteen transitions, the tenure that a logout ends for good, which domain may write what,
  the size bound, and the names of the keys.
\<close>

unbundle bit_operations_syntax

section \<open>Applying an operation\<close>

lemma operation_status_cases:
  "operation_status_of env s ident digest = Inr st \<longleftrightarrow>
     validate env s = Inr () \<and> valid_digest digest \<and>
     (case entry_of s ident of None \<Rightarrow> st = OpUnknown
      | Some e \<Rightarrow> le_digest e = digest \<and> st = OpApplied (le_result e))"
  by (auto simp: operation_status_of.simps try_Inr split: option.splits if_splits)

lemma encode_valid: "encode env s = Inr b \<Longrightarrow> validate env s = Inr ()"
  by (auto simp: encode.simps try_Inr)

text \<open>An application either answers a replay without a change, or carries out one transition.\<close>

lemma apply_cases:
  assumes "apply_verified_digest env s oper = Inr (s', r)"
  obtains (replay) e where "entry_of s (op_id oper) = Some e" "le_digest e = op_digest oper" "r = le_result e" "s' = s"
      "validate env s = Inr ()" "valid_digest (op_digest oper)"
  | (carried_out) b where "entry_of s (op_id oper) = None" "transition s oper = Inr (s', r)" "encode env s' = Inr b"
      "validate env s = Inr ()" "valid_digest (op_digest oper)"
proof -
  obtain st where v: "validate env s = Inr ()" "valid_digest (op_digest oper)"
      and st: "operation_status_of env s (op_id oper) (op_digest oper) = Inr st"
      and rest: "(case st of OpApplied result \<Rightarrow> Inr (s, result)
        | OpUnknown \<Rightarrow> try_then (transition s oper) (\<lambda>(n, result).
            try_then (encode env n) (\<lambda>_. Inr (n, result)))) = Inr (s', r)"
    using assms by (auto simp: apply_verified_digest.simps try_Inr)
  show ?thesis
  proof (cases "entry_of s (op_id oper)")
    case None
    then have "st = OpUnknown" using st by (simp add: operation_status_cases)
    then obtain b where "transition s oper = Inr (s', r)" "encode env s' = Inr b"
      using rest by (auto simp: try_Inr)
    then show ?thesis using carried_out None v by blast
  next
    case (Some e)
    then have "le_digest e = op_digest oper" "st = OpApplied (le_result e)"
      using st by (simp_all add: operation_status_cases)
    then show ?thesis using replay Some v rest by simp
  qed
qed

lemma apply_replay:
  assumes "validate env s = Inr ()" and "valid_digest (op_digest oper)"
    and "entry_of s (op_id oper) = Some e" and "le_digest e = op_digest oper"
  shows "apply_verified_digest env s oper = Inr (s, le_result e)"
  using assms operation_status_cases [of env s "op_id oper" "op_digest oper" "OpApplied (le_result e)"]
  by (simp add: apply_verified_digest.simps)

section \<open>One transition\<close>

definition is_clear :: "mutation \<Rightarrow> bool" where
  "is_clear m = (case m of ClearTenure _ \<Rightarrow> True | _ \<Rightarrow> False)"

lemma advance_payload_frame:
  "advance_payload s d a = Inr (n, completed) \<Longrightarrow>
     cs_revision n = cs_revision s \<and> cs_epoch n = cs_epoch s \<and> cs_operations n = cs_operations s"
  by (auto simp: advance_payload_def Let_def try_Inr split: migration_domain.splits migration_advance.splits if_splits)

lemma mutate_frame:
  "mutate s m = Inr n \<Longrightarrow>
     cs_revision n = cs_revision s \<and> cs_operations n = cs_operations s \<and>
     cs_epoch n = cs_epoch s + (if is_clear m then 1 else 0)"
  by (auto simp: mutate_def Let_def try_Inr is_clear_def complete_migration_def dest: advance_payload_frame
      split: mutation.splits if_splits)

definition trim :: "'a list \<Rightarrow> 'a list" where
  "trim xs = (if length xs > LEDGER_CAPACITY then tl xs else xs)"

text \<open>What the ledger remembers of its operations.\<close>

definition ledger_log :: "'f canonical_state \<Rightarrow> (generation \<times> string \<times> applied) list" where
  "ledger_log s = map (\<lambda>e. (le_id e, le_digest e, le_result e)) (cs_operations s)"

definition receipt_of :: "'f canonical_state \<Rightarrow> applied" where
  "receipt_of s = \<lparr>ap_revision = cs_revision s, ap_epoch = cs_epoch s, ap_auth_generation = cs_auth_generation s\<rparr>"

lemma map_trim: "map f (trim xs) = trim (map f xs)"
  by (simp add: trim_def map_tl)

lemma admit_expected: "admit s oper = Inr u \<Longrightarrow> op_expected oper = cs_expected s"
  by (auto simp: admit_def Let_def split: if_splits)

lemma transition_effect:
  assumes "transition s oper = Inr (n, r)"
  shows "op_expected oper = cs_expected s \<and> cs_revision n = cs_revision s + 1 \<and> r = receipt_of n \<and>
    cs_epoch n = cs_epoch s + (if is_clear (op_mutation oper) then 1 else 0) \<and>
    ledger_log n = trim (ledger_log s @ [(op_id oper, op_digest oper, r)]) \<and> cs_operations n \<noteq> []"
proof -
  obtain k where k: "mutate s (op_mutation oper) = Inr k" and rec: "record_receipt oper k = Inr (n, r)"
    and adm: "op_expected oper = cs_expected s"
    using assms by (auto simp: transition_def try_Inr dest: admit_expected)
  have ops: "cs_operations n = trim (cs_operations k @
      [\<lparr>le_id = op_id oper, le_digest = op_digest oper, le_result = r,
        le_verification = Some (receipt_kind (op_mutation oper))\<rparr>])"
    and "cs_revision n = cs_revision k + 1" "cs_epoch n = cs_epoch k" "r = receipt_of n"
    using rec by (auto simp: record_receipt_def Let_def trim_def receipt_of_def split: if_splits)
  moreover have "cs_operations n \<noteq> []"
    using ops by (cases "cs_operations k") (auto simp: trim_def LEDGER_CAPACITY_def)
  ultimately show ?thesis using mutate_frame [OF k] adm by (simp add: ledger_log_def map_trim)
qed

section \<open>The store's steps\<close>

text \<open>
  What the helper writes: the candidate of an application, with the digest of the plaintext it
  verified in the newest receipt; a prepared refresh that waits in the state; its promotion; and a
  repaired envelope of the current tenure. Each is encoded, and so validated, before it is written.
\<close>

definition verified_last :: "string \<Rightarrow> 'f canonical_state \<Rightarrow> 'f canonical_state" where
  "verified_last d s =
     s\<lparr>cs_operations := butlast (cs_operations s) @
        [(last (cs_operations s))\<lparr>le_verification := Some (ReceiptAuth (Some d))\<rparr>]\<rparr>"

inductive store_step :: "'f state_env \<Rightarrow> 'f canonical_state \<Rightarrow> 'f canonical_state \<Rightarrow> bool" for env where
  applied: "apply_verified_digest env s oper = Inr (s', r) \<Longrightarrow> store_step env s s'"
| verified: "\<lbrakk>apply_verified_digest env s oper = Inr (s', r); cs_operations s' \<noteq> [];
    encode env (verified_last d s') = Inr b\<rbrakk> \<Longrightarrow> store_step env s (verified_last d s')"
| staged: "encode env (s\<lparr>cs_pending_auth := Some p\<rparr>) = Inr b \<Longrightarrow> store_step env s (s\<lparr>cs_pending_auth := Some p\<rparr>)"
| promoted: "\<lbrakk>pending_candidate env s = Inr (Some (s', r)); encode env s' = Inr b\<rbrakk> \<Longrightarrow> store_step env s s'"
| repaired: "\<lbrakk>cs_auth_envelope s \<noteq> None; encode env (s\<lparr>cs_auth_envelope := Some e\<rparr>) = Inr b\<rbrakk> \<Longrightarrow>
    store_step env s (s\<lparr>cs_auth_envelope := Some e\<rparr>)"

inductive_cases store_stepE: "store_step env s s'"

lemma log_verified_last: "cs_operations s \<noteq> [] \<Longrightarrow> ledger_log (verified_last d s) = ledger_log s"
  by (cases "cs_operations s" rule: rev_cases) (simp_all add: ledger_log_def verified_last_def)

lemma verified_last_fields [simp]:
  "cs_revision (verified_last d s) = cs_revision s" "cs_epoch (verified_last d s) = cs_epoch s"
  "cs_auth_generation (verified_last d s) = cs_auth_generation s" "cs_public (verified_last d s) = cs_public s"
  "cs_auth_envelope (verified_last d s) = cs_auth_envelope s" "cs_pending_auth (verified_last d s) = cs_pending_auth s"
  "cs_status (verified_last d s) = cs_status s" "cs_migrations (verified_last d s) = cs_migrations s"
  by (simp_all add: verified_last_def)

lemma pending_candidate_SomeD:
  assumes "pending_candidate env s = Inr (Some (c, r))"
  shows "\<exists>p c'. cs_pending_auth s = Some p \<and> valid_digest (pd_plaintext_digest p) \<and>
    is_replace_auth (op_mutation (pd_operation p)) \<and> entry_of s (op_id (pd_operation p)) = None \<and>
    apply_verified_digest env (s\<lparr>cs_pending_auth := None\<rparr>) (pd_operation p) = Inr (c', r) \<and>
    cs_operations c' \<noteq> [] \<and> c = verified_last (pd_plaintext_digest p) c'"
  using assms
  by (auto simp: pending_candidate.simps try_Inr verified_last_def Let_def split: option.splits if_splits)
lemma pending_update_frame [simp]:
  "entry_of (s\<lparr>cs_pending_auth := p\<rparr>) ident = entry_of s ident"
  "cs_expected (s\<lparr>cs_pending_auth := p\<rparr>) = cs_expected s"
  "ledger_log (s\<lparr>cs_pending_auth := p\<rparr>) = ledger_log s"
  "ledger_log (s\<lparr>cs_auth_envelope := e\<rparr>) = ledger_log s"
  by (simp_all add: entry_of_def cs_expected_def ledger_log_def)

definition unchanged_tenure :: "'f canonical_state \<Rightarrow> 'f canonical_state \<Rightarrow> bool" where
  "unchanged_tenure s s' \<longleftrightarrow> cs_revision s' = cs_revision s \<and> cs_epoch s' = cs_epoch s \<and> ledger_log s' = ledger_log s"

definition advanced_by_op :: "'f canonical_state \<Rightarrow> 'f canonical_state \<Rightarrow> operation \<Rightarrow> bool" where
  "advanced_by_op s s' oper \<longleftrightarrow>
     op_expected oper = cs_expected s \<and> entry_of s (op_id oper) = None \<and> cs_revision s' = cs_revision s + 1 \<and>
     cs_epoch s' = cs_epoch s + (if is_clear (op_mutation oper) then 1 else 0) \<and>
     ledger_log s' = trim (ledger_log s @ [(op_id oper, op_digest oper, receipt_of s')])"

lemma apply_effect:
  assumes "apply_verified_digest env s oper = Inr (s', r)"
  shows "s' = s \<or> (advanced_by_op s s' oper \<and> r = receipt_of s' \<and> cs_operations s' \<noteq> [])"
  using assms by (cases rule: apply_cases) (auto simp: advanced_by_op_def dest: transition_effect)

lemma receipt_verified_last [simp]: "receipt_of (verified_last d s) = receipt_of s"
  by (simp add: receipt_of_def)

lemma advanced_verified_last:
  "cs_operations s' \<noteq> [] \<Longrightarrow> advanced_by_op s (verified_last d s') oper = advanced_by_op s s' oper"
  by (simp add: advanced_by_op_def log_verified_last)

lemma store_step_effect:
  assumes "store_step env s s'"
  shows "unchanged_tenure s s' \<or> (\<exists>oper. advanced_by_op s s' oper)"
  using assms
proof cases
  case (applied oper r)
  then show ?thesis using apply_effect [OF applied] by (auto simp: unchanged_tenure_def)
next
  case (verified oper n r d b)
  then show ?thesis using apply_effect [OF verified(2)]
    by (auto simp: unchanged_tenure_def log_verified_last advanced_verified_last)
next
  case (promoted r b)
  obtain p :: pending_auth and c' where c': "apply_verified_digest env (s\<lparr>cs_pending_auth := None\<rparr>) (pd_operation p) = Inr (c', r)"
      "cs_operations c' \<noteq> []" "s' = verified_last (pd_plaintext_digest p) c'"
    using pending_candidate_SomeD [OF promoted(1)] by blast
  show ?thesis
  proof (cases "c' = s\<lparr>cs_pending_auth := None\<rparr>")
    case True
    then show ?thesis using c'(2) by (simp add: c'(3) unchanged_tenure_def log_verified_last)
  next
    case False
    then have "advanced_by_op (s\<lparr>cs_pending_auth := None\<rparr>) c' (pd_operation p)"
      using apply_effect [OF c'(1)] by blast
    then have "advanced_by_op s s' (pd_operation p)"
      by (simp add: c'(2,3) advanced_verified_last) (simp add: advanced_by_op_def)
    then show ?thesis by blast
  qed
qed (simp_all add: unchanged_tenure_def)

lemma store_step_valid: "store_step env s s' \<Longrightarrow> validate env s = Inr () \<Longrightarrow> validate env s' = Inr ()"
  by (induction rule: store_step.induct) (auto elim!: apply_cases dest: encode_valid)

section \<open>The ledger\<close>

lemma validate_ledger:
  assumes "validate env s = Inr ()"
  shows "length (cs_operations s) \<le> LEDGER_CAPACITY \<and> (\<forall>i < length (cs_operations s). entry_ok s i)"
  using assms by (auto simp: validate.simps try_Inr list_all_iff split: if_splits)

definition log_revision :: "generation \<times> string \<times> applied \<Rightarrow> nat" where
  "log_revision x = ap_revision (snd (snd x))"

lemma ledger_ordered:
  assumes "validate env s = Inr ()"
  shows "sorted_wrt (\<lambda>x y. log_revision x < log_revision y) (ledger_log s) \<and> distinct (map fst (ledger_log s)) \<and>
    (\<forall>x \<in> set (ledger_log s). log_revision x \<le> cs_revision s) \<and> length (ledger_log s) \<le> LEDGER_CAPACITY"
proof -
  let ?ops = "cs_operations s"
  have ok: "entry_ok s i" if "i < length ?ops" for i using validate_ledger [OF assms] that by blast
  have "log_revision (ledger_log s ! i) < log_revision (ledger_log s ! Suc i)" if "Suc i < length ?ops" for i
    using ok [OF that] that by (simp add: entry_ok_def Let_def ledger_log_def log_revision_def)
  then have inc: "sorted_wrt (\<lambda>x y. log_revision x < log_revision y) (ledger_log s)"
    by (subst sorted_wrt_iff_nth_Suc_transp) (auto simp: transp_def ledger_log_def)
  have "le_id (?ops ! j) \<noteq> le_id (?ops ! i)" if "j < i" "i < length ?ops" for i j
  proof -
    have "?ops ! j \<in> set (take i ?ops)" using that by (auto simp: in_set_conv_nth intro!: exI [of _ j])
    then show ?thesis using ok [OF that(2)] by (auto simp: entry_ok_def Let_def list_ex_iff)
  qed
  then have "distinct (map fst (ledger_log s))"
    by (auto simp: distinct_conv_nth ledger_log_def) (metis nat_neq_iff)
  moreover have "\<forall>x \<in> set (ledger_log s). log_revision x \<le> cs_revision s"
    using ok by (fastforce simp: ledger_log_def log_revision_def in_set_conv_nth entry_ok_def Let_def)
  ultimately show ?thesis using inc validate_ledger [OF assms] by (simp add: ledger_log_def)
qed

lemma entry_of_log:
  assumes "validate env s = Inr ()" and "(ident, digest, r) \<in> set (ledger_log s)"
  shows "\<exists>e. entry_of s ident = Some e \<and> le_digest e = digest \<and> le_result e = r"
proof -
  obtain e0 where e0: "e0 \<in> set (cs_operations s)" "le_id e0 = ident" "le_digest e0 = digest" "le_result e0 = r"
    using assms(2) by (auto simp: ledger_log_def)
  then obtain e where e: "entry_of s ident = Some e"
    unfolding entry_of_def by (metis (mono_tags, lifting) find_None_iff option.exhaust)
  then have "e \<in> set (cs_operations s)" "le_id e = ident" by (auto simp: entry_of_def dest: find_SomeD)
  moreover have "inj_on le_id (set (cs_operations s))"
    using ledger_ordered [OF assms(1)] by (simp add: ledger_log_def distinct_map o_def)
  ultimately have "e = e0" using e0 by (auto dest: inj_onD)
  then show ?thesis using e e0 by blast
qed

lemma log_entry_of: "entry_of s ident = Some e \<Longrightarrow> (ident, le_digest e, le_result e) \<in> set (ledger_log s)"
  by (force simp: entry_of_def ledger_log_def dest: find_SomeD)

text \<open>The head that leaves a full ledger is at least sixteen revisions old.\<close>

lemma spread_of_increasing:
  assumes "sorted_wrt (\<lambda>x y. log_revision x < log_revision y) (x # xs)" and "\<forall>y \<in> set xs. log_revision y \<le> limit"
    and "xs \<noteq> []"
  shows "log_revision x + length xs \<le> limit"
  using assms
proof (induction xs arbitrary: x)
  case (Cons y ys)
  show ?case
  proof (cases "ys = []")
    case True
    then show ?thesis using Cons.prems by fastforce
  next
    case False
    then have "log_revision y + length ys \<le> limit" using Cons by simp
    then show ?thesis using Cons.prems(1) by simp
  qed
qed simp

lemma trim_keeps_recent:
  assumes "sorted_wrt (\<lambda>x y. log_revision x < log_revision y) xs" and "\<forall>y \<in> set xs. log_revision y \<le> limit"
    and "x \<in> set xs" and "limit < log_revision x + LEDGER_CAPACITY"
  shows "x \<in> set (trim xs)"
proof (cases xs)
  case (Cons y ys)
  show ?thesis
  proof (rule ccontr)
    assume "x \<notin> set (trim xs)"
    then have "x = y" "length ys \<ge> LEDGER_CAPACITY" "ys \<noteq> []"
      using assms(3) Cons by (auto simp: trim_def LEDGER_CAPACITY_def split: if_splits)
    then show False using spread_of_increasing [of y ys limit] assms(1,2,4) Cons by simp
  qed
qed (use assms(3) in simp)
lemma advanced_log_sorted:
  assumes "validate env s = Inr ()" and "advanced_by_op s s' oper"
  shows "sorted_wrt (\<lambda>x y. log_revision x < log_revision y) (ledger_log s @ [(op_id oper, op_digest oper, receipt_of s')]) \<and>
    (\<forall>y \<in> set (ledger_log s @ [(op_id oper, op_digest oper, receipt_of s')]). log_revision y \<le> cs_revision s')"
  using ledger_ordered [OF assms(1)] assms(2)
  by (auto simp: sorted_wrt_append advanced_by_op_def log_revision_def receipt_of_def less_Suc_eq_le le_SucI)

lemma step_retains:
  assumes "validate env s = Inr ()" and "store_step env s s'" and "x \<in> set (ledger_log s)"
    and "cs_revision s' < log_revision x + LEDGER_CAPACITY"
  shows "x \<in> set (ledger_log s')"
  using store_step_effect [OF assms(2)]
proof
  assume "unchanged_tenure s s'"
  then show ?thesis using assms(3) by (simp add: unchanged_tenure_def)
next
  assume "\<exists>oper. advanced_by_op s s' oper"
  then obtain oper where adv: "advanced_by_op s s' oper" by blast
  have "x \<in> set (trim (ledger_log s @ [(op_id oper, op_digest oper, receipt_of s')]))"
    by (rule trim_keeps_recent [OF conjunct1 conjunct2, OF advanced_log_sorted advanced_log_sorted,
          OF assms(1) adv assms(1) adv]) (simp_all add: assms(3,4))
  then show ?thesis using adv by (simp add: advanced_by_op_def)
qed

interpretation store: state_machine "\<lambda>s. validate env s = Inr ()" "store_step env" "\<lambda>s. validate env s = Inr ()" for env
  by unfold_locales (simp, erule (1) store_step_valid)

interpretation revisions: monotone_machine "store_step env" cs_revision for env
  by unfold_locales (auto dest!: store_step_effect simp: unchanged_tenure_def advanced_by_op_def)

interpretation epochs: monotone_machine "store_step env" cs_epoch for env
  by unfold_locales (auto dest!: store_step_effect simp: unchanged_tenure_def advanced_by_op_def)

lemma steps_retain:
  assumes "(store_step env)\<^sup>*\<^sup>* s t" and "validate env s = Inr ()" and "x \<in> set (ledger_log s)"
    and "cs_revision t < log_revision x + LEDGER_CAPACITY"
  shows "x \<in> set (ledger_log t)"
  using assms(1,4)
proof (induction rule: rtranclp_induct)
  case base
  then show ?case using assms(3) by simp
next
  case (step t u)
  have "cs_revision t \<le> cs_revision u" by (rule revisions.rank_step [OF step.hyps(2)])
  then have "x \<in> set (ledger_log t)" using step by simp
  then show ?case using step_retains [OF store.steps_inv [OF step.hyps(1) assms(2)] step.hyps(2)] step.prems by blast
qed

lemma apply_logged:
  assumes "apply_verified_digest env s oper = Inr (s', r)"
  shows "(op_id oper, op_digest oper, r) \<in> set (ledger_log s') \<and> validate env s' = Inr () \<and> valid_digest (op_digest oper)"
  using assms
proof (cases rule: apply_cases)
  case (replay e)
  then show ?thesis using log_entry_of [OF replay(1)] by simp
next
  case (carried_out b)
  have "(op_id oper, op_digest oper, r) \<in> set (trim (ledger_log s @ [(op_id oper, op_digest oper, r)]))"
    by (cases "ledger_log s") (auto simp: trim_def LEDGER_CAPACITY_def)
  then show ?thesis using transition_effect [OF carried_out(2)] carried_out encode_valid by simp
qed

section \<open>The size bound\<close>

fun logical_size :: "json \<Rightarrow> nat" where
  "logical_size JNull = 4"
| "logical_size (JBool b) = (if b then 4 else 5)"
| "logical_size (JNumber n) = length n"
| "logical_size (JString s) = 2 + length s"
| "logical_size (JArray vs) = 2 + (length vs - 1) + sum_list (map logical_size vs)"
| "logical_size (JObject ms) = 2 + (length ms - 1) + sum_list (map (\<lambda>(k, v). 3 + length k + logical_size v) ms)"

definition spend :: "nat \<Rightarrow> nat \<Rightarrow> state_error + nat" where
  "spend n left = (if n \<le> left then Inr (left - n) else Inl LogicalTooLarge)"

lemma try_spend: "try_then (spend n left) (spend m) = spend (n + m) left"
  by (auto simp: spend_def)

lemma consume_spend: "consume left n = spend n left"
  by (simp add: consume_def spend_def)

lemma count_spends:
  "count_json v left = spend (logical_size v) left"
  "count_items vs left = spend (sum_list (map logical_size vs)) left"
  "count_members ms left = spend (sum_list (map (\<lambda>(k, v). 3 + length k + logical_size v) ms)) left"
proof (induction v left and vs left and ms left rule: count_json_count_items_count_members.induct)
  case (5 vs left)
  then show ?case by (cases "2 + (length vs - 1) \<le> left") (auto simp: consume_def spend_def)
next
  case (6 ms left)
  then show ?case by (cases "2 + (length ms - 1) \<le> left") (auto simp: consume_def spend_def)
next
  case (8 v vs left)
  then show ?case by (cases "logical_size v \<le> left") (auto simp: spend_def)
next
  case (10 key v ms left)
  then show ?case
    by (cases "3 \<le> left"; cases "3 + length key \<le> left"; cases "3 + length key + logical_size v \<le> left")
      (auto simp: consume_def spend_def)
qed (auto simp: consume_def spend_def)

lemma check_logical_size_eq:
  "check_logical_size v = (if logical_size v \<le> MAX_LOGICAL_BYTES then Inr () else Inl LogicalTooLarge)"
  by (simp add: check_logical_size_def count_spends spend_def)
section \<open>Key names\<close>

lemma KEY_ALPHABET_distinct: "distinct KEY_ALPHABET" "length KEY_ALPHABET = 64"
  unfolding KEY_ALPHABET_def by simp_all

lemma sixty_three: "(63 :: u32) = mask 6"
  by (simp add: mask_eq_exp_minus_1)

lemma key_index_less: "unat (w AND (63 :: u32)) < 64"
proof -
  have "unat (take_bit 6 w) = take_bit 6 (unat w)" by (rule unsigned_take_bit_eq)
  also have "\<dots> < 2 ^ 6" by (rule take_bit_nat_less_exp)
  finally show ?thesis by (simp add: sixty_three take_bit_eq_mask)
qed

lemma group_bit:
  assumes "drop_bit k x AND 63 = drop_bit k y AND (63 :: u32)" and "k \<le> n" and "n < k + 6"
  shows "bit x n = bit y n"
proof -
  have "bit (drop_bit k x AND 63) (n - k) = bit (drop_bit k y AND 63) (n - k)" by (simp add: assms(1))
  moreover have "n - k < 6" "k + (n - k) = n" using assms(2,3) by simp_all
  ultimately show ?thesis by (simp add: bit_simps sixty_three)
qed

lemma alphabet_inj:
  "KEY_ALPHABET ! unat (x AND 63) = KEY_ALPHABET ! unat (y AND (63 :: u32)) \<longleftrightarrow> x AND 63 = y AND 63"
  using nth_eq_iff_index_eq [OF KEY_ALPHABET_distinct(1), of "unat (x AND 63)" "unat (y AND 63)"]
    key_index_less [of x] key_index_less [of y] KEY_ALPHABET_distinct(2) by (simp add: word_unat_eq_iff)

lemma byte_bits:
  assumes "\<And>n. lo \<le> n \<Longrightarrow> n < 24 \<Longrightarrow> bit (push_bit 16 (ucast a) OR push_bit 8 (ucast b) OR ucast c :: u32) n =
      bit (push_bit 16 (ucast a') OR push_bit 8 (ucast b') OR ucast c' :: u32) n"
  shows "lo \<le> 16 \<Longrightarrow> a = (a' :: u8)" "lo \<le> 8 \<Longrightarrow> b = (b' :: u8)" "lo = 0 \<Longrightarrow> c = (c' :: u8)"
proof -
  show "a = a'" if "lo \<le> 16"
  proof (rule bit_word_eqI)
    fix m assume "m < LENGTH(8)"
    then show "bit a m = bit a' m" using assms [of "16 + m"] that by (auto simp: bit_simps dest: bit_imp_le_length)
  qed
  show "b = b'" if "lo \<le> 8"
  proof (rule bit_word_eqI)
    fix m assume "m < LENGTH(8)"
    then show "bit b m = bit b' m" using assms [of "8 + m"] that by (auto simp: bit_simps dest: bit_imp_le_length)
  qed
  show "c = c'" if "lo = 0"
  proof (rule bit_word_eqI)
    fix m assume "m < LENGTH(8)"
    then show "bit c m = bit c' m" using assms [of m] that by (auto simp: bit_simps dest: bit_imp_le_length)
  qed
qed
definition key_bits :: "u8 \<Rightarrow> u8 \<Rightarrow> u8 \<Rightarrow> u32" where
  "key_bits a b c = push_bit 16 (ucast a) OR push_bit 8 (ucast b) OR ucast c"

lemma key_chunk_unfold:
  "key_chunk [a] = map (\<lambda>k. KEY_ALPHABET ! unat (drop_bit k (key_bits a 0 0) AND 63)) [18, 12]"
  "key_chunk [a, b] = map (\<lambda>k. KEY_ALPHABET ! unat (drop_bit k (key_bits a b 0) AND 63)) [18, 12, 6]"
  "key_chunk [a, b, c] = map (\<lambda>k. KEY_ALPHABET ! unat (drop_bit k (key_bits a b c) AND 63)) [18, 12, 6, 0]"
  by (simp_all add: key_chunk_def byte_at_def key_bits_def Let_def numeral_eq_Suc)

lemma groups_give_bytes:
  assumes "\<And>k. k \<in> set ks \<Longrightarrow> drop_bit k (key_bits a b c) AND 63 = drop_bit k (key_bits a' b' c') AND 63"
    and "\<And>n. lo \<le> n \<Longrightarrow> n < 24 \<Longrightarrow> \<exists>k \<in> set ks. k \<le> n \<and> n < k + 6"
  shows "lo \<le> 16 \<Longrightarrow> a = a'" "lo \<le> 8 \<Longrightarrow> b = b'" "lo = 0 \<Longrightarrow> c = c'"
proof -
  have "bit (key_bits a b c) n = bit (key_bits a' b' c') n" if "lo \<le> n" "n < 24" for n
    using assms(2) [OF that] group_bit assms(1) by blast
  then have "\<And>n. lo \<le> n \<Longrightarrow> n < 24 \<Longrightarrow> bit (push_bit 16 (ucast a) OR push_bit 8 (ucast b) OR ucast c :: u32) n =
      bit (push_bit 16 (ucast a') OR push_bit 8 (ucast b') OR ucast c' :: u32) n"
    by (simp add: key_bits_def)
  note bytes = byte_bits [of lo, OF this]
  show "a = a'" if "lo \<le> 16" using bytes(1) that by blast
  show "b = b'" if "lo \<le> 8" using bytes(2) that by blast
  show "c = c'" if "lo = 0" using bytes(3) that by blast
qed

lemma short_list_cases:
  assumes "0 < length xs" and "length xs \<le> 3"
  obtains a where "xs = [a]" | a b where "xs = [a, b]" | a b c where "xs = [a, b, c]"
proof (cases xs)
  case (Cons a ys)
  show ?thesis
  proof (cases ys)
    case (Cons b zs)
    then show ?thesis using \<open>xs = a # ys\<close> assms(2) that by (cases zs) auto
  qed (use \<open>xs = a # ys\<close> that in simp)
qed (use assms in simp)

lemma key_chunk_inj:
  assumes "length c = length c'" and "0 < length c" and "length c \<le> 3" and "key_chunk c = key_chunk c'"
  shows "c = c'"
proof (rule short_list_cases [OF assms(2,3)])
  fix x assume c: "c = [x]"
  then obtain x' where c': "c' = [x']" using assms(1) by (cases c') auto
  have "x = x'"
    by (rule groups_give_bytes(1) [of "[18, 12]" x 0 0 x' 0 0 12])
      (use assms(4) in \<open>auto simp: c c' key_chunk_unfold alphabet_inj\<close>)
  then show ?thesis by (simp add: c c')
next
  fix x y assume c: "c = [x, y]"
  then obtain x' y' where c': "c' = [x', y']" using assms(1) [symmetric] by (auto simp: length_Suc_conv numeral_eq_Suc)
  have eq: "drop_bit k (key_bits x y 0) AND 63 = drop_bit k (key_bits x' y' 0) AND 63" if "k \<in> set [18, 12, 6]" for k
    using assms(4) that by (auto simp: c c' key_chunk_unfold alphabet_inj)
  have cover: "\<exists>k \<in> set [18, 12, 6 :: nat]. k \<le> n \<and> n < k + 6" if "6 \<le> n" "n < 24" for n using that by auto
  show ?thesis using groups_give_bytes(1,2) [OF eq cover] by (simp add: c c')
next
  fix x y z assume c: "c = [x, y, z]"
  then obtain x' y' z' where c': "c' = [x', y', z']" using assms(1) [symmetric] by (auto simp: length_Suc_conv numeral_eq_Suc)
  have eq: "drop_bit k (key_bits x y z) AND 63 = drop_bit k (key_bits x' y' z') AND 63" if "k \<in> set [18, 12, 6, 0]" for k
    using assms(4) that by (auto simp: c c' key_chunk_unfold alphabet_inj)
  have cover: "\<exists>k \<in> set [18, 12, 6, 0 :: nat]. k \<le> n \<and> n < k + 6" if "0 \<le> n" "n < 24" for n using that by auto
  show ?thesis using groups_give_bytes [where lo = 0, OF eq cover] by (simp add: c c')
qed

lemma length_key_chunk: "0 < length c \<Longrightarrow> length c \<le> 3 \<Longrightarrow> length (key_chunk c) = length c + 1"
  by (simp add: key_chunk_def Let_def)

lemma key_chunks_inj:
  "length g = length g' \<Longrightarrow> concat (map key_chunk (chunks_of 3 g)) = concat (map key_chunk (chunks_of 3 g')) \<Longrightarrow> g = g'"
proof (induction "3 :: nat" g arbitrary: g' rule: chunks_of.induct)
  case (1 g)
  show ?case
  proof (cases "g = []")
    case False
    then have g': "g' \<noteq> []" using 1(2) by auto
    let ?a = "take 3 g" and ?b = "take 3 g'"
    have len: "length ?a = length ?b" "0 < length ?a" "length ?a \<le> 3" using 1(2) False by auto
    have "key_chunk ?a @ concat (map key_chunk (chunks_of 3 (drop 3 g))) =
        key_chunk ?b @ concat (map key_chunk (chunks_of 3 (drop 3 g')))"
      using 1(3) False g' by (simp add: chunks_of.simps [of 3 g] chunks_of.simps [of 3 g'])
    moreover have "length (key_chunk ?a) = length (key_chunk ?b)" using len length_key_chunk by metis
    ultimately have "key_chunk ?a = key_chunk ?b"
      and rest: "concat (map key_chunk (chunks_of 3 (drop 3 g))) = concat (map key_chunk (chunks_of 3 (drop 3 g')))"
      by simp_all
    then have "?a = ?b" using key_chunk_inj len by blast
    moreover have "drop 3 g = drop 3 g'" using 1(1) rest 1(2) False by simp
    ultimately show ?thesis by (metis append_take_drop_id)
  qed (use 1(2) in simp)
qed

lemma key_alphabet_nth: "KEY_ALPHABET ! unat (w AND (63 :: u32)) \<in> set KEY_ALPHABET"
  by (rule nth_mem) (simp add: KEY_ALPHABET_distinct(2) key_index_less)

lemma key_name_shape:
  "length (concat (map key_chunk (chunks_of 3 g))) = length g + (length g + 2) div 3 \<and>
   set (concat (map key_chunk (chunks_of 3 g))) \<subseteq> set KEY_ALPHABET"
proof (induction "3 :: nat" g rule: chunks_of.induct)
  case (1 g)
  have alpha: "set (key_chunk c) \<subseteq> set KEY_ALPHABET" for c
    by (auto simp: key_chunk_def Let_def intro: key_alphabet_nth dest: in_set_takeD)
  show ?case
  proof (cases "g = []")
    case False
    let ?rest = "concat (map key_chunk (chunks_of 3 (drop 3 g)))"
    have head: "length (key_chunk (take 3 g)) = min (length g) 3 + 1" using False by (subst length_key_chunk) auto
    have split: "concat (map key_chunk (chunks_of 3 g)) = key_chunk (take 3 g) @ ?rest"
      using False by (simp add: chunks_of.simps [of 3 g])
    have IH: "length ?rest = (length g - 3) + (length g - 3 + 2) div 3" "set ?rest \<subseteq> set KEY_ALPHABET"
      using 1 False by simp_all
    have arith: "min n 3 + 1 + ((n - 3) + (n - 3 + 2) div 3) = n + (n + 2) div 3" if "0 < n" for n :: nat
    proof (cases "n \<le> 3")
      case True
      then have "n = 1 \<or> n = 2 \<or> n = 3" using that by auto
      then show ?thesis by auto
    next
      case False
      then obtain m where "n = m + 3" by (metis add.commute le_add_diff_inverse nat_le_linear)
      moreover have "(m + 2 + 3) div 3 = (m + 2) div 3 + 1" for m :: nat by (rule div_add_self2) simp
      ultimately show ?thesis by (simp add: add.assoc add.commute)
    qed
    have "length (concat (map key_chunk (chunks_of 3 g))) = length g + (length g + 2) div 3"
      unfolding split length_append head IH(1) by (rule arith) (use False in simp)
    moreover have "set (concat (map key_chunk (chunks_of 3 g))) \<subseteq> set KEY_ALPHABET"
      unfolding split set_append using IH(2) alpha [of "take 3 g"] by (rule Un_least [rotated])
    ultimately show ?thesis by blast
  qed (simp add: chunks_of.simps)
qed
section \<open>The ledger as recent history\<close>

definition recent_revisions :: "nat \<Rightarrow> nat list" where
  "recent_revisions n = drop (n - LEDGER_CAPACITY) [1..<Suc n]"

lemma recent_revisions_Suc: "recent_revisions (Suc n) = trim (recent_revisions n @ [Suc n])"
proof (cases "n < LEDGER_CAPACITY")
  case True
  then show ?thesis by (simp add: recent_revisions_def trim_def)
next
  case False
  then have "Suc n - LEDGER_CAPACITY = Suc (n - LEDGER_CAPACITY)" "n - LEDGER_CAPACITY < n"
    by (simp_all add: LEDGER_CAPACITY_def)
  then show ?thesis using False
    by (simp add: recent_revisions_def trim_def drop_Suc tl_drop del: upt_Suc) (simp add: tl_append split: list.splits)
qed

definition history_inv :: "'f canonical_state \<Rightarrow> bool" where
  "history_inv s \<longleftrightarrow> map log_revision (ledger_log s) = recent_revisions (cs_revision s)"

lemma history_step: "store_step env s t \<Longrightarrow> history_inv s \<Longrightarrow> history_inv t"
  by (drule store_step_effect)
    (auto simp: history_inv_def unchanged_tenure_def advanced_by_op_def map_trim recent_revisions_Suc
      log_revision_def receipt_of_def)

interpretation history: state_machine "\<lambda>s. \<exists>flavor g. s = canonical_new env flavor g" "store_step env" history_inv for env
proof
  show "history_inv s" if "\<exists>flavor g. s = canonical_new env flavor g" for s :: "'a canonical_state"
    using that by (auto simp: history_inv_def canonical_new_def ledger_log_def recent_revisions_def)
qed (rule history_step)

section \<open>What a mutation may change\<close>

definition consent_of :: "public_payload \<Rightarrow> json \<times> json \<times> json" where
  "consent_of p = (pp_consent p, pp_scopes p, pp_ids p)"

definition session_of :: "public_payload \<Rightarrow> json \<times> string option \<times> json \<times> json \<times> json \<times> json" where
  "session_of p = (pp_preferences p, pp_client_id p, pp_profile p, pp_pins p, pp_recents p, pp_account_extensions p)"

definition writes_consent :: "mutation \<Rightarrow> bool" where
  "writes_consent m =
     (case m of UpdateConsent _ _ _ \<Rightarrow> True | AdvanceMigration _ (ConsentComplete _) \<Rightarrow> True
      | ClearTenure _ \<Rightarrow> True | _ \<Rightarrow> False)"

definition writes_auth :: "mutation \<Rightarrow> bool" where
  "writes_auth m =
     (case m of ReplaceAuth _ _ _ \<Rightarrow> True | AdvanceMigration _ (SessionComplete _ _) \<Rightarrow> True
      | ClearTenure _ \<Rightarrow> True | _ \<Rightarrow> False)"

lemma transition_mutate:
  assumes "transition s oper = Inr (n, r)"
  shows "\<exists>k. admit s oper = Inr () \<and> mutate s (op_mutation oper) = Inr k \<and> cs_public n = cs_public k \<and>
    cs_auth_envelope n = cs_auth_envelope k \<and> cs_auth_generation n = cs_auth_generation k \<and>
    cs_status n = cs_status k \<and> cs_migrations n = cs_migrations k \<and> cs_pending_auth n = None"
proof -
  obtain k where k: "admit s oper = Inr ()" "mutate s (op_mutation oper) = Inr k" "record_receipt oper k = Inr (n, r)"
    using assms by (auto simp: transition_def try_Inr)
  then show ?thesis using transition_pending [OF assms] by (auto simp: record_receipt_def Let_def split: if_splits)
qed

lemmas mutation_splits = mutation.splits migration_domain.splits migration_advance.splits if_splits

lemma mutate_consent: "mutate s m = Inr k \<Longrightarrow> consent_of (cs_public k) \<noteq> consent_of (cs_public s) \<Longrightarrow> writes_consent m"
  by (auto simp: mutate_def Let_def try_Inr advance_payload_def complete_migration_def consent_of_def writes_consent_def
      keep_consent_def split: mutation_splits)

lemma mutate_auth:
  "mutate s m = Inr k \<Longrightarrow> cs_auth_envelope k \<noteq> cs_auth_envelope s \<or> cs_auth_generation k \<noteq> cs_auth_generation s \<Longrightarrow>
     writes_auth m"
  by (auto simp: mutate_def Let_def try_Inr advance_payload_def complete_migration_def writes_auth_def
      split: mutation_splits)

lemma mutate_session:
  "mutate s m = Inr k \<Longrightarrow> session_of (cs_public k) \<noteq> session_of (cs_public s) \<Longrightarrow> writes_auth m \<or> is_update_preferences m"
  by (auto simp: mutate_def Let_def try_Inr advance_payload_def complete_migration_def writes_auth_def session_of_def
      is_update_preferences_def split: mutation_splits)

definition used_generations :: "'f canonical_state \<Rightarrow> generation list" where
  "used_generations s = cs_auth_generation s # map (\<lambda>e. ap_auth_generation (le_result e)) (cs_operations s)"

lemma fresh_generation: "check_fresh_generation s g = Inr u \<Longrightarrow> g \<notin> set (used_generations s)"
  by (auto simp: check_fresh_generation_def list_ex_iff used_generations_def)

lemma mutate_fresh:
  "mutate s m = Inr k \<Longrightarrow> writes_auth m \<Longrightarrow> cs_auth_generation k \<notin> set (used_generations s)"
  by (auto simp: mutate_def Let_def try_Inr advance_payload_def complete_migration_def writes_auth_def
      split: mutation_splits dest!: fresh_generation)

lemma mutate_clear:
  "mutate s (ClearTenure g) = Inr k \<Longrightarrow> cs_status k = StatusCleared \<and> cs_auth_envelope k = None \<and>
     cs_public k = public_default\<lparr>pp_preferences := pp_preferences (cs_public s)\<rparr>"
  by (auto simp: mutate_def Let_def try_Inr split: if_splits)

end
