(* ===== verification/State_Properties.thy ===== *)
theory State_Properties
  imports State_Correct
begin

text \<open>
  The claims about the canonical state, over the lemmas of \<open>State_Correct\<close>; before them upper bounds of
  the serialised sizes, by which a fresh installation and small states are valid.
\<close>

unbundle bit_operations_syntax

section \<open>Size bounds of the serialised state\<close>

definition object_bound :: "(string \<times> json) list \<Rightarrow> nat" where
  "object_bound ms = 2 + sum_list (map (\<lambda>(k, v). 4 + length k + logical_size v) ms)"

lemma btree_insert_bound:
  "sum_list (map (\<lambda>(k, v). 4 + length k + logical_size v) (btree_insert k v ms)) \<le>
     4 + length k + logical_size v + sum_list (map (\<lambda>(k, v). 4 + length k + logical_size v) ms)"
  by (induction k v ms rule: btree_insert.induct) auto

lemma btree_inserts_bound:
  "sum_list (map (\<lambda>(k, v). 4 + length k + logical_size v) (foldl (\<lambda>acc (k, v). btree_insert k v acc) acc ms)) \<le>
     sum_list (map (\<lambda>(k, v). 4 + length k + logical_size v) acc) +
     sum_list (map (\<lambda>(k, v). 4 + length k + logical_size v) ms)"
proof (induction ms arbitrary: acc)
  case (Cons m ms)
  obtain k v where "m = (k, v)" by fastforce
  then show ?case using Cons [of "btree_insert k v acc"] btree_insert_bound [of k v acc] by simp
qed simp

lemma members_bound:
  "2 + (length ms - 1) + sum_list (map (\<lambda>(k, v). 3 + length k + logical_size v) ms) \<le> object_bound ms"
  unfolding object_bound_def by (induction ms) (auto split: nat_diff_split)

lemma size_object: "logical_size (json_object ms) \<le> object_bound ms"
  using members_bound [of "foldl (\<lambda>acc (k, v). btree_insert k v acc) [] ms"] btree_inserts_bound [of "[]" ms]
  by (simp add: json_object_def object_bound_def)

lemma length_show_nat: "length (show_nat n) \<le> Suc n"
proof (induction n rule: show_nat.induct)
  case (1 n)
  then show ?case by (subst show_nat.simps) auto
qed

lemma size_nat: "logical_size (json_nat n) \<le> Suc n"
  using length_show_nat by (simp add: json_nat_def)

lemma size_generation: "logical_size (generation_json g) \<le> 2 + 258 * length g"
proof -
  have "length (show_nat (unat b)) \<le> 256" for b :: u8
    using length_show_nat [of "unat b"] unsigned_less [of b, where 'a = nat] by simp
  then have "sum_list (map (\<lambda>b. length (show_nat (unat b))) g) \<le> 256 * length g"
    by (induction g) (simp_all add: add_mono)
  then show ?thesis by (simp add: generation_json_def json_nat_def o_def)
qed

lemma size_option: "logical_size (json_option x) \<le> 4 + (case x of None \<Rightarrow> 0 | Some t \<Rightarrow> length t)"
  by (simp add: json_option_def split: option.splits)

lemma size_public:
  "logical_size (public_json p) \<le> 200 + logical_size (pp_preferences p) +
     (case pp_client_id p of None \<Rightarrow> 0 | Some t \<Rightarrow> length t) + logical_size (pp_profile p) + logical_size (pp_pins p) +
     logical_size (pp_recents p) + logical_size (pp_consent p) + logical_size (pp_scopes p) +
     logical_size (pp_ids p) + logical_size (pp_account_extensions p)"
  unfolding public_json_def using size_option [of "pp_client_id p"]
  by (intro order.trans [OF size_object]) (simp add: object_bound_def)

lemma size_migration:
  "logical_size (migration_json m) \<le> 50 + (case dm_pending_import m of None \<Rightarrow> 0 | Some t \<Rightarrow> length t)"
  unfolding migration_json_def using size_option [of "dm_pending_import m"]
  by (intro order.trans [OF size_object]) (simp add: object_bound_def split: migration_progress.splits)

lemma size_migrations:
  "logical_size (migrations_json m) \<le> 150 + (case dm_pending_import (mg_session m) of None \<Rightarrow> 0 | Some t \<Rightarrow> length t) +
     (case dm_pending_import (mg_consent m) of None \<Rightarrow> 0 | Some t \<Rightarrow> length t)"
  unfolding migrations_json_def using size_migration [of "mg_session m"] size_migration [of "mg_consent m"]
  by (intro order.trans [OF size_object]) (simp add: object_bound_def)

lemma size_entry:
  "logical_size (entry_json e) \<le> 300 + 258 * length (le_id e) + length (le_digest e) + ap_revision (le_result e) +
     ap_epoch (le_result e) + 258 * length (ap_auth_generation (le_result e)) +
     (case le_verification e of Some (ReceiptAuth (Some d)) \<Rightarrow> length d | _ \<Rightarrow> 0)"
proof -
  have "logical_size (applied_json (le_result e)) \<le> 80 + ap_revision (le_result e) + ap_epoch (le_result e) +
      258 * length (ap_auth_generation (le_result e))"
    unfolding applied_json_def
    using size_nat [of "ap_revision (le_result e)"] size_nat [of "ap_epoch (le_result e)"]
      size_generation [of "ap_auth_generation (le_result e)"]
    by (intro order.trans [OF size_object]) (simp add: object_bound_def)
  moreover have "logical_size (verification_json v) \<le> 60 + (case v of ReceiptAuth (Some d) \<Rightarrow> length d | _ \<Rightarrow> 0)" for v
    unfolding verification_json_def
    by (cases v) (auto intro!: order.trans [OF size_object] simp: object_bound_def json_option_def split: option.splits)
  note v = this [of "the (le_verification e)"]
  ultimately show ?thesis
    unfolding entry_json_def using size_generation [of "le_id e"]
    by (intro order.trans [OF size_object]) (use v in \<open>auto simp: object_bound_def split: option.splits\<close>)
qed

lemma size_state:
  assumes "cs_pending_auth s = None"
  shows "logical_size (state_json env s) \<le> 500 + length (cs_format s) + cs_schema s + length (cs_id s) +
    logical_size (env_flavor_json env (cs_flavor s)) + cs_revision s + cs_epoch s +
    258 * length (cs_auth_generation s) + logical_size (public_json (cs_public s)) +
    (case cs_auth_envelope s of None \<Rightarrow> 0 | Some t \<Rightarrow> length t) + logical_size (migrations_json (cs_migrations s)) +
    length (cs_operations s) + sum_list (map (logical_size \<circ> entry_json) (cs_operations s))"
proof -
  have "logical_size (JArray (map entry_json (cs_operations s))) \<le>
      2 + length (cs_operations s) + sum_list (map (logical_size \<circ> entry_json) (cs_operations s))" by simp
  moreover have "logical_size (status_json (cs_status s)) \<le> 10" by (simp add: status_json_def split: tenure_status.splits)
  ultimately show ?thesis
    unfolding state_json_def using size_generation [of "cs_auth_generation s"] size_option [of "cs_auth_envelope s"]
      size_nat [of "cs_revision s"] size_nat [of "cs_epoch s"] size_nat [of "cs_schema s"]
    by (intro order.trans [OF size_object]) (simp add: object_bound_def assms del: logical_size.simps(5))
qed

lemma canonical_new_valid:
  assumes "length (env_object_id env flavor) \<le> 15" and "logical_size (env_flavor_json env flavor) \<le> 100" and "length g = 16"
  shows "validate env (canonical_new env flavor g) = Inr ()"
proof -
  let ?s = "canonical_new env flavor g"
  have "logical_size (public_json (cs_public ?s)) \<le> 300"
    using size_public [of "cs_public ?s"] by (simp add: canonical_new_def public_default_def)
  moreover have "logical_size (migrations_json (cs_migrations ?s)) \<le> 150"
    using size_migrations [of "cs_migrations ?s"] by (simp add: canonical_new_def migration_default_def)
  ultimately have "logical_size (state_json env ?s) \<le> MAX_LOGICAL_BYTES"
    using size_state [of ?s env] assms by (simp add: canonical_new_def STATE_FORMAT_def STATE_SCHEMA_def MAX_LOGICAL_BYTES_def)
  then show ?thesis
    by (simp add: validate.simps check_logical_size_eq)
      (simp add: canonical_new_def migration_ok_def migration_default_def)
qed

section \<open>Small states\<close>

definition ex_env :: "unit state_env" where
  "ex_env = \<lparr>env_object_id = \<lambda>_. ''btcstate.stable'', env_flavor_json = \<lambda>_. JString ''stable'',
     env_to_vec = \<lambda>_. [], env_from_slice = \<lambda>_. None\<rparr>"

definition ex_state :: "unit canonical_state" where
  "ex_state = canonical_new ex_env () (replicate 16 0)"

definition ex_digest :: string where
  "ex_digest = replicate 64 CHR ''0''"

definition ex_operation :: "u8 \<Rightarrow> expected_tenure \<Rightarrow> mutation \<Rightarrow> operation" where
  "ex_operation n expected m = \<lparr>op_id = replicate 16 n, op_digest = ex_digest, op_expected = expected, op_mutation = m\<rparr>"

lemma ex_digest_valid: "valid_digest ex_digest"
  by (simp add: valid_digest_def ex_digest_def is_digit_def byte_of_def list_all_iff)

lemma ex_state_valid: "validate ex_env ex_state = Inr ()"
  unfolding ex_state_def by (rule canonical_new_valid) (simp_all add: ex_env_def)

definition small_state :: "unit canonical_state \<Rightarrow> bool" where
  "small_state s \<longleftrightarrow> cs_format s = STATE_FORMAT \<and> cs_schema s = STATE_SCHEMA \<and> cs_id s = ''btcstate.stable'' \<and>
     cs_revision s \<le> 10 \<and> cs_epoch s \<le> 10 \<and> length (cs_auth_generation s) = 16 \<and>
     cs_public s = public_default \<and> length (case cs_auth_envelope s of None \<Rightarrow> [] | Some e \<Rightarrow> e) \<le> 100 \<and>
     dm_pending_import (mg_session (cs_migrations s)) = None \<and> dm_pending_import (mg_consent (cs_migrations s)) = None \<and>
     (cs_status s = StatusCleared \<longrightarrow> cleared_ok s) \<and> length (cs_operations s) \<le> 2 \<and>
     (\<forall>i < length (cs_operations s). entry_ok s i) \<and>
     (\<forall>e \<in> set (cs_operations s). length (le_id e) = 16 \<and> length (ap_auth_generation (le_result e)) = 16)"

lemma small_entries:
  assumes "small_state s"
  shows "sum_list (map (logical_size \<circ> entry_json) (cs_operations s)) \<le> 20000"
proof -
  have bound: "logical_size (entry_json e) \<le> 10000" if e: "e \<in> set (cs_operations s)" for e
  proof -
    obtain i where i: "i < length (cs_operations s)" "e = cs_operations s ! i" using e by (auto simp: in_set_conv_nth)
    then have ok: "entry_ok s i" using assms by (simp add: small_state_def)
    have d: "length (le_digest e) = 64" "ap_revision (le_result e) \<le> 10" "ap_epoch (le_result e) \<le> 10"
      using ok assms i(2) by (simp_all add: entry_ok_def Let_def valid_digest_def small_state_def)
    have "(case le_verification e of Some (ReceiptAuth (Some d)) \<Rightarrow> length d | _ \<Rightarrow> 0) \<le> 64"
      using ok i(2) by (auto simp: entry_ok_def Let_def valid_digest_def split: option.splits receipt_verification.splits)
    then show ?thesis using size_entry [of e] d assms e by (simp add: small_state_def)
  qed
  show ?thesis
  proof (cases "cs_operations s")
    case (Cons a as)
    then show ?thesis using bound [of a] bound [of "hd as"] assms by (cases as) (simp_all add: small_state_def)
  qed simp
qed

lemma small_state_encodes:
  assumes "small_state s" and "cs_pending_auth s = None"
  shows "encode ex_env s = Inr []"
proof -
  have "logical_size (public_json (cs_public s)) \<le> 300"
    using size_public [of "cs_public s"] assms(1) by (simp add: small_state_def public_default_def)
  moreover have "logical_size (migrations_json (cs_migrations s)) \<le> 150"
    using size_migrations [of "cs_migrations s"] assms(1) by (simp add: small_state_def)
  moreover have "(case cs_auth_envelope s of None \<Rightarrow> 0 | Some e \<Rightarrow> length e) \<le> 100"
    using assms(1) by (simp add: small_state_def split: option.splits)
  ultimately have "logical_size (state_json ex_env s) \<le> MAX_LOGICAL_BYTES"
    using size_state [OF assms(2), of ex_env] small_entries [OF assms(1)] assms(1)
    by (simp add: small_state_def STATE_FORMAT_def STATE_SCHEMA_def ex_env_def MAX_LOGICAL_BYTES_def)
  then have "validate ex_env s = Inr ()"
    using assms
    by (simp add: validate.simps check_logical_size_eq small_state_def ex_env_def LEDGER_CAPACITY_def migration_ok_def
        list_all_iff guard_def)
  then show ?thesis by (simp add: encode.simps) (simp add: ex_env_def)
qed
section \<open>Two runs on a fresh installation\<close>

definition ex_logout :: operation where
  "ex_logout = ex_operation 1 (cs_expected ex_state) (ClearTenure (replicate 16 2))"

definition ex_receipt :: applied where
  "ex_receipt = \<lparr>ap_revision = 1, ap_epoch = 1, ap_auth_generation = replicate 16 2\<rparr>"

definition ex_cleared :: "unit canonical_state" where
  "ex_cleared = ex_state\<lparr>cs_revision := 1, cs_epoch := 1, cs_auth_generation := replicate 16 2,
     cs_status := StatusCleared, cs_migrations := \<lparr>mg_session = migration_done, mg_consent = migration_done\<rparr>,
     cs_operations := [\<lparr>le_id = replicate 16 1, le_digest = ex_digest, le_result = ex_receipt,
       le_verification = Some ReceiptPublic\<rparr>]\<rparr>"

definition ex_sign_in :: operation where
  "ex_sign_in = ex_operation 3 (cs_expected ex_state) (ReplaceAuth (replicate 16 4) ''e'' public_default)"

definition ex_signed_receipt :: applied where
  "ex_signed_receipt = \<lparr>ap_revision = 1, ap_epoch = 0, ap_auth_generation = replicate 16 4\<rparr>"

definition ex_signed :: "unit canonical_state" where
  "ex_signed = ex_state\<lparr>cs_revision := 1, cs_auth_generation := replicate 16 4, cs_auth_envelope := Some ''e'',
     cs_migrations := \<lparr>mg_session = migration_done, mg_consent = migration_default\<rparr>,
     cs_operations := [\<lparr>le_id = replicate 16 3, le_digest = ex_digest, le_result = ex_signed_receipt,
       le_verification = Some (ReceiptAuth None)\<rparr>]\<rparr>"

definition ex_waiting :: "unit canonical_state" where
  "ex_waiting = ex_state\<lparr>cs_pending_auth := Some \<lparr>pd_operation = ex_sign_in, pd_plaintext_digest = ex_digest\<rparr>\<rparr>"

lemmas ex_defs = ex_env_def ex_state_def canonical_new_def cs_expected_def ex_operation_def public_default_def
  migration_default_def migration_done_def

lemmas transition_eval = transition_def admit_def Let_def is_advance_migration_def is_update_preferences_def mutate_def
  check_fresh_generation_def keep_consent_def record_receipt_def LEDGER_CAPACITY_def u64_max_def receipt_kind_def

lemma ex_logout_transition: "transition ex_state ex_logout = Inr (ex_cleared, ex_receipt)"
  by (simp add: transition_eval ex_logout_def ex_cleared_def ex_receipt_def ex_defs)

lemma ex_sign_in_transition: "transition ex_state ex_sign_in = Inr (ex_signed, ex_signed_receipt)"
  by (simp add: transition_eval ex_sign_in_def ex_signed_def ex_signed_receipt_def ex_defs)

lemma ex_encodes: "encode ex_env ex_cleared = Inr []" "encode ex_env ex_signed = Inr []"
  by (rule small_state_encodes;
      simp add: small_state_def ex_cleared_def ex_signed_def ex_receipt_def ex_signed_receipt_def ex_defs cleared_ok_def
        entry_ok_def ex_digest_valid)+

lemma apply_carries_out:
  assumes "validate env s = Inr ()" and "valid_digest (op_digest oper)" and "entry_of s (op_id oper) = None"
    and "transition s oper = Inr (n, r)" and "encode env n = Inr b"
  shows "apply_verified_digest env s oper = Inr (n, r)"
  using assms operation_status_cases [of env s "op_id oper" "op_digest oper" OpUnknown]
  by (simp add: apply_verified_digest.simps)

lemma ex_no_entry: "entry_of ex_state ident = None"
  by (simp add: entry_of_def ex_defs)

lemma ex_logout_applies: "apply_verified_digest ex_env ex_state ex_logout = Inr (ex_cleared, ex_receipt)"
  by (rule apply_carries_out [OF ex_state_valid _ ex_no_entry ex_logout_transition ex_encodes(1)])
    (simp add: ex_logout_def ex_operation_def ex_digest_valid)

lemma ex_sign_in_applies: "apply_verified_digest ex_env ex_state ex_sign_in = Inr (ex_signed, ex_signed_receipt)"
  by (rule apply_carries_out [OF ex_state_valid _ ex_no_entry ex_sign_in_transition ex_encodes(2)])
    (simp add: ex_sign_in_def ex_operation_def ex_digest_valid)

lemma ex_waiting_candidate:
  "pending_candidate ex_env ex_waiting = Inr (Some (verified_last ex_digest ex_signed, ex_signed_receipt))"
proof -
  have "ex_waiting\<lparr>cs_pending_auth := None\<rparr> = ex_state" by (simp add: ex_waiting_def ex_defs)
  moreover have "cs_operations ex_signed \<noteq> []" by (simp add: ex_signed_def)
  ultimately show ?thesis
    using ex_sign_in_applies ex_digest_valid
    by (simp add: pending_candidate.simps verified_last_def Let_def)
      (simp add: ex_waiting_def ex_sign_in_def ex_operation_def is_replace_auth_def ex_no_entry)
qed
lemma apply_new:
  assumes "apply_verified_digest env s oper = Inr (s', r)" and "entry_of s (op_id oper) = None"
  shows "transition s oper = Inr (s', r)"
  using assms(1) by (cases rule: apply_cases) (simp_all add: assms(2))

section \<open>Digests\<close>

lemma hex_digit_class: "n < 16 \<Longrightarrow> is_digit (hex_digit n) \<or> (97 \<le> byte_of (hex_digit n) \<and> byte_of (hex_digit n) \<le> 102)"
proof -
  assume "n < 16"
  then have "hex_digit n \<in> set ''0123456789abcdef''" unfolding hex_digit_def by (intro nth_mem) simp
  moreover have "\<forall>c \<in> set ''0123456789abcdef''. is_digit c \<or> (97 \<le> byte_of c \<and> byte_of c \<le> 102)"
    by (simp add: is_digit_def byte_of_def)
  ultimately show ?thesis by blast
qed

lemma length_hex_byte [simp]: "length (hex_byte b) = 2"
  by (simp add: hex_byte_def)

lemma hex_byte_inj: "hex_byte a = hex_byte b \<longleftrightarrow> a = b"
proof -
  have inj: "hex_digit i = hex_digit j \<longleftrightarrow> i = j" if "i < 16" "j < 16" for i j
    using that nth_eq_iff_index_eq [of "''0123456789abcdef''" i j] by (simp add: hex_digit_def)
  have "unat x < 256" for x :: u8 using unsigned_less [of x, where 'a = nat] by simp
  then have "unat x div 16 < 16" "unat x mod 16 < 16" for x :: u8 by (simp_all add: less_mult_imp_div_less)
  then have "hex_byte a = hex_byte b \<longleftrightarrow> unat a div 16 = unat b div 16 \<and> unat a mod 16 = unat b mod 16"
    by (simp add: hex_byte_def inj)
  also have "\<dots> \<longleftrightarrow> unat a = unat b" by (metis mult_div_mod_eq)
  finally show ?thesis by (simp add: word_unat_eq_iff)
qed

lemma hex_bytes_inj: "concat (map hex_byte xs) = concat (map hex_byte ys) \<Longrightarrow> xs = ys"
proof (induction xs arbitrary: ys)
  case Nil
  then show ?case by (cases ys) (simp_all add: hex_byte_def)
next
  case (Cons x xs)
  then obtain y zs where ys: "ys = y # zs" by (cases ys) (simp_all add: hex_byte_def)
  have "hex_byte x = hex_byte y" "concat (map hex_byte xs) = concat (map hex_byte zs)"
    using Cons.prems by (simp_all add: ys)
  then show ?case using Cons.IH hex_byte_inj ys by blast
qed

lemma digest_bytes_eq: "digest_bytes a = digest_bytes b \<longleftrightarrow> fips_sha256 a = fips_sha256 b"
  using hex_bytes_inj by (auto simp: digest_bytes_def state_sha256_fips)

lemma digest_bytes_valid: "valid_digest (digest_bytes a)"
proof -
  have "unat x < 256" for x :: u8 using unsigned_less [of x, where 'a = nat] by simp
  then have "unat x div 16 < 16" "unat x mod 16 < 16" for x :: u8 by (simp_all add: less_mult_imp_div_less)
  then have "\<forall>c \<in> set (concat (map hex_byte xs)). is_digit c \<or> (97 \<le> byte_of c \<and> byte_of c \<le> 102)" for xs
    using hex_digit_class by (auto simp: hex_byte_def)
  moreover have "length (concat (map hex_byte xs)) = 2 * length xs" for xs by (induction xs) (simp_all add: hex_byte_def)
  ultimately show ?thesis
    by (simp add: valid_digest_def digest_bytes_def state_sha256_fips length_sha256 list_all_iff)
qed

section \<open>The claims\<close>

text \<open>
  C26. Retrying a mutation is safe: whatever the store has written since, as long as fewer than sixteen
  revisions passed since the operation was carried out, submitting it again returns its original
  receipt and changes nothing, and its status reads as applied with that receipt.
\<close>

theorem retry_returns_original_receipt:
  assumes "apply_verified_digest env s oper = Inr (s', r)" and "(store_step env)\<^sup>*\<^sup>* s' t"
    and "cs_revision t < ap_revision r + LEDGER_CAPACITY"
  shows "apply_verified_digest env t oper = Inr (t, r) \<and>
    operation_status_of env t (op_id oper) (op_digest oper) = Inr (OpApplied r)"
proof -
  have applied: "(op_id oper, op_digest oper, r) \<in> set (ledger_log s')" "validate env s' = Inr ()"
    "valid_digest (op_digest oper)" using apply_logged [OF assms(1)] by simp_all
  have t: "validate env t = Inr ()" by (rule store.steps_inv [OF assms(2) applied(2)])
  have "(op_id oper, op_digest oper, r) \<in> set (ledger_log t)"
    using steps_retain [OF assms(2) applied(2,1)] assms(3) by (simp add: log_revision_def)
  then obtain e where e: "entry_of t (op_id oper) = Some e" "le_digest e = op_digest oper" "le_result e = r"
    using entry_of_log [OF t] by blast
  then show ?thesis using apply_replay [OF t applied(3) e(1,2)] t applied(3) by (simp add: operation_status_cases)
qed

theorem retry_returns_original_receipt_witness:
  "apply_verified_digest ex_env ex_cleared ex_logout = Inr (ex_cleared, ex_receipt)"
proof -
  have "cs_revision ex_cleared < ap_revision ex_receipt + LEDGER_CAPACITY"
    by (simp add: ex_cleared_def ex_receipt_def LEDGER_CAPACITY_def)
  then show ?thesis
    using retry_returns_original_receipt [OF ex_logout_applies rtranclp.rtrancl_refl] by blast
qed

text \<open>
  C27. A logout is final. Once a tenure was cleared, no operation prepared against it or an earlier one
  ever changes a later state again, no refresh prepared against it can be promoted, and the cleared
  state holds no credential and nothing of the account but the preferences.
\<close>

theorem logout_is_final:
  assumes "apply_verified_digest env s oper = Inr (s1, r)" and "entry_of s (op_id oper) = None"
    and "op_mutation oper = ClearTenure g" and "(store_step env)\<^sup>*\<^sup>* s1 t"
    and "ex_epoch (op_expected late) \<le> cs_epoch s"
  shows "(\<forall>t' r'. apply_verified_digest env t late = Inr (t', r') \<longrightarrow> t' = t) \<and>
    (\<forall>p c. cs_pending_auth t = Some p \<longrightarrow> pd_operation p = late \<longrightarrow> pending_candidate env t \<noteq> Inr (Some c)) \<and>
    cs_status s1 = StatusCleared \<and> cs_auth_envelope s1 = None \<and> cs_pending_auth s1 = None \<and>
    cs_public s1 = public_default\<lparr>pp_preferences := pp_preferences (cs_public s)\<rparr>"
proof -
  have tr: "transition s oper = Inr (s1, r)" by (rule apply_new [OF assms(1,2)])
  have epoch: "cs_epoch s1 = cs_epoch s + 1" using transition_effect [OF tr] assms(3) by (simp add: is_clear_def)
  have later: "cs_epoch s < cs_epoch t" using epochs.rank_steps [OF assms(4)] epoch by simp
  have stale: "u' = u" if "apply_verified_digest env u late = Inr (u', r')" "cs_epoch u = cs_epoch t" for u u' r'
  proof (rule ccontr)
    assume "u' \<noteq> u"
    then have "op_expected late = cs_expected u" using apply_effect [OF that(1)] by (simp add: advanced_by_op_def)
    then show False using assms(5) later that(2) by (simp add: cs_expected_def)
  qed
  have "pending_candidate env t \<noteq> Inr (Some c)" if p: "cs_pending_auth t = Some p" "pd_operation p = late" for p c
  proof
    assume cand: "pending_candidate env t = Inr (Some c)"
    obtain c0 r0 where c: "c = (c0, r0)" by fastforce
    obtain c' where c': "entry_of t (op_id late) = None"
        "apply_verified_digest env (t\<lparr>cs_pending_auth := None\<rparr>) late = Inr (c', r0)"
      using pending_candidate_SomeD [OF cand [unfolded c]] p by auto
    then have "c' = t\<lparr>cs_pending_auth := None\<rparr>" using stale [OF c'(2)] by simp
    moreover have "ledger_log c' \<noteq> ledger_log t"
      using c' apply_logged [OF c'(2)] log_entry_of entry_of_log
      by (metis option.distinct(1) pending_update_frame(1) calculation)
    ultimately show False by simp
  qed
  then show ?thesis
    using stale transition_mutate [OF tr] mutate_clear assms(3) by fastforce
qed
theorem logout_is_final_witness:
  "(\<exists>t' r'. apply_verified_digest ex_env ex_cleared ex_sign_in = Inr (t', r') \<and> t' \<noteq> ex_cleared) = False \<and>
   cs_auth_envelope ex_cleared = None"
proof -
  have "op_mutation ex_logout = ClearTenure (replicate 16 2)" by (simp add: ex_logout_def ex_operation_def)
  moreover have "ex_epoch (op_expected ex_sign_in) \<le> cs_epoch ex_state" by (simp add: ex_sign_in_def ex_defs)
  ultimately show ?thesis
    using logout_is_final [OF ex_logout_applies ex_no_entry _ rtranclp.rtrancl_refl, of "replicate 16 2" ex_sign_in] by blast
qed

text \<open>
  Every part of the state is written by its own mutations only: consent by a consent decision, its
  migration or a logout; the credential and its generation by a sign-in, a session migration or a
  logout; session data by those or a preference update. A new credential generation is one the ledger
  does not remember, and every change supersedes a refresh that was waiting.
\<close>

theorem domains_write_their_own_data:
  assumes "apply_verified_digest env s oper = Inr (s', r)" and "entry_of s (op_id oper) = None"
  shows "(consent_of (cs_public s') \<noteq> consent_of (cs_public s) \<longrightarrow> writes_consent (op_mutation oper)) \<and>
    (cs_auth_envelope s' \<noteq> cs_auth_envelope s \<or> cs_auth_generation s' \<noteq> cs_auth_generation s \<longrightarrow>
       writes_auth (op_mutation oper)) \<and>
    (session_of (cs_public s') \<noteq> session_of (cs_public s) \<longrightarrow>
       writes_auth (op_mutation oper) \<or> is_update_preferences (op_mutation oper)) \<and>
    (writes_auth (op_mutation oper) \<longrightarrow> cs_auth_generation s' \<notin> set (used_generations s)) \<and>
    cs_pending_auth s' = None \<and> op_expected oper = cs_expected s"
proof -
  have tr: "transition s oper = Inr (s', r)" by (rule apply_new [OF assms])
  obtain k where k: "mutate s (op_mutation oper) = Inr k" "cs_public s' = cs_public k"
      "cs_auth_envelope s' = cs_auth_envelope k" "cs_auth_generation s' = cs_auth_generation k" "cs_pending_auth s' = None"
    using transition_mutate [OF tr] by blast
  show ?thesis
    using mutate_consent [OF k(1)] mutate_auth [OF k(1)] mutate_session [OF k(1)] mutate_fresh [OF k(1)]
      transition_effect [OF tr] k(2-5) by auto
qed

theorem domains_write_their_own_data_witness:
  "cs_auth_generation ex_signed \<notin> set (used_generations ex_state) \<and> consent_of (cs_public ex_signed) = consent_of (cs_public ex_state)"
proof -
  have m: "op_mutation ex_sign_in = ReplaceAuth (replicate 16 4) ''e'' public_default" by (simp add: ex_sign_in_def ex_operation_def)
  show ?thesis
    using domains_write_their_own_data [OF ex_sign_in_applies ex_no_entry] by (simp add: m writes_auth_def writes_consent_def)
qed

text \<open>
  C38. From a fresh installation on, whatever is applied, staged, promoted or repaired, the state is
  valid, the epoch never exceeds the revision, and the ledger holds exactly the last sixteen revisions
  in order, each under an identity of its own.
\<close>

theorem ledger_is_recent_history:
  assumes "validate env (canonical_new env flavor g) = Inr ()"
    and "(store_step env)\<^sup>*\<^sup>* (canonical_new env flavor g) t"
  shows "map log_revision (ledger_log t) = recent_revisions (cs_revision t) \<and>
    distinct (map fst (ledger_log t)) \<and> validate env t = Inr () \<and> cs_epoch t \<le> cs_revision t"
proof -
  have "history_inv t" by (rule history.steps_inv [OF assms(2)]) (simp add: history_inv_def canonical_new_def ledger_log_def recent_revisions_def)
  moreover have v: "validate env t = Inr ()" by (rule store.steps_inv [OF assms(2,1)])
  moreover have "cs_epoch t \<le> cs_revision t"
    using assms(2)
  proof (induction rule: rtranclp_induct)
    case base
    show ?case by (simp add: canonical_new_def)
  next
    case (step t u)
    then show ?case
      using store_step_effect [OF step.hyps(2)] by (auto simp: unchanged_tenure_def advanced_by_op_def split: if_splits)
  qed
  ultimately show ?thesis using ledger_ordered [OF v] by (simp add: history_inv_def)
qed

theorem ledger_is_recent_history_witness:
  "map log_revision (ledger_log ex_cleared) = recent_revisions 1 \<and> validate ex_env ex_cleared = Inr ()"
proof -
  have "store_step ex_env ex_state ex_cleared" by (rule store_step.applied [OF ex_logout_applies])
  then have "(store_step ex_env)\<^sup>*\<^sup>* (canonical_new ex_env () (replicate 16 0)) ex_cleared"
    unfolding ex_state_def by (rule r_into_rtranclp)
  then show ?thesis
    using ledger_is_recent_history [OF ex_state_valid [unfolded ex_state_def]] by (simp add: ex_cleared_def)
qed

text \<open>
  C37. A prepared refresh means exactly what it will do: the candidate is the result of applying its
  operation to the state without it, with the verified digest in the new receipt. Nothing else can use
  its identity while it waits, and any other change cancels it.
\<close>

theorem pending_refresh_is_its_application:
  assumes "pending_candidate env s = Inr (Some (c, r))" and "cs_pending_auth s = Some p"
  shows "(\<exists>c'. apply_verified_digest env (s\<lparr>cs_pending_auth := None\<rparr>) (pd_operation p) = Inr (c', r) \<and>
      c = verified_last (pd_plaintext_digest p) c') \<and>
    cs_revision c = cs_revision s + 1 \<and> cs_epoch c = cs_epoch s \<and> cs_pending_auth c = None \<and>
    r = receipt_of c \<and> consent_of (cs_public c) = consent_of (cs_public s) \<and>
    (\<forall>oper n q. apply_verified_digest env s oper = Inr (n, q) \<longrightarrow> n \<noteq> s \<longrightarrow>
       op_id oper \<noteq> op_id (pd_operation p) \<and> cs_pending_auth n = None)"
proof -
  obtain c' where c': "is_replace_auth (op_mutation (pd_operation p))" "entry_of s (op_id (pd_operation p)) = None"
      "apply_verified_digest env (s\<lparr>cs_pending_auth := None\<rparr>) (pd_operation p) = Inr (c', r)"
      "cs_operations c' \<noteq> []" "c = verified_last (pd_plaintext_digest p) c'"
    using pending_candidate_SomeD [OF assms(1)] assms(2) by auto
  let ?s = "s\<lparr>cs_pending_auth := None\<rparr>"
  have none: "entry_of ?s (op_id (pd_operation p)) = None" using c'(2) by simp
  have tr: "transition ?s (pd_operation p) = Inr (c', r)" by (rule apply_new [OF c'(3) none])
  have "\<not> is_clear (op_mutation (pd_operation p))" "\<not> writes_consent (op_mutation (pd_operation p))"
    using c'(1) by (auto simp: is_replace_auth_def is_clear_def writes_consent_def split: mutation.splits)
  moreover have "op_id oper \<noteq> op_id (pd_operation p) \<and> cs_pending_auth n = None"
    if n: "apply_verified_digest env s oper = Inr (n, q)" "n \<noteq> s" for oper n q
    using n(1)
  proof (cases rule: apply_cases)
    case (replay e)
    then show ?thesis using n(2) by simp
  next
    case (carried_out b)
    then have "admit s oper = Inr ()" "cs_pending_auth n = None" using transition_mutate by blast+
    then show ?thesis using assms(2) by (auto simp: admit_def Let_def split: if_splits)
  qed
  moreover have "consent_of (cs_public c) = consent_of (cs_public s)"
    using calculation(2) transition_mutate [OF tr] mutate_consent c'(5) by fastforce
  moreover have "cs_pending_auth c = None" using transition_pending [OF tr] c'(5) by simp
  ultimately show ?thesis using transition_effect [OF tr] c'(3,5) by (auto simp: is_clear_def)
qed

theorem pending_refresh_is_its_application_witness:
  "cs_revision (verified_last ex_digest ex_signed) = cs_revision ex_waiting + 1 \<and>
   consent_of (cs_public (verified_last ex_digest ex_signed)) = consent_of (cs_public ex_waiting)"
proof -
  have "cs_pending_auth ex_waiting = Some \<lparr>pd_operation = ex_sign_in, pd_plaintext_digest = ex_digest\<rparr>"
    by (simp add: ex_waiting_def)
  then show ?thesis using pending_refresh_is_its_application [OF ex_waiting_candidate] by blast
qed

text \<open>
  The size check is exact: counting down the budget, value by value, with an early return refuses
  exactly the values whose structural size exceeds the bound, and leaves the rest of the budget otherwise.
\<close>

theorem size_check_is_exact:
  "check_logical_size v = (if logical_size v \<le> MAX_LOGICAL_BYTES then Inr () else Inl LogicalTooLarge) \<and>
   count_json v left = (if logical_size v \<le> left then Inr (left - logical_size v) else Inl LogicalTooLarge)"
  by (simp add: check_logical_size_eq count_spends(1) spend_def)

text \<open>
  The name of a key identifies its generation: different generations never share a name, and a name
  is the prefix and twenty-two letters of the URL-safe alphabet.
\<close>

theorem key_names_identify_generations:
  assumes "length g = 16" and "length g' = 16"
  shows "(key_name g = key_name g' \<longleftrightarrow> g = g') \<and> length (key_name g) = 24 \<and>
    take 2 (key_name g) = ''a.'' \<and> set (drop 2 (key_name g)) \<subseteq> set KEY_ALPHABET"
  using key_chunks_inj [of g g'] key_name_shape [of g] assms by (auto simp: key_name_def)

theorem key_names_identify_generations_witness:
  "key_name (replicate 16 0) \<noteq> key_name (replicate 16 1) \<and> length (key_name (replicate 16 0)) = 24"
  using key_names_identify_generations [of "replicate 16 0" "replicate 16 1"] by (simp add: numeral_eq_Suc)

text \<open>
  A digest is sixty-four lowercase hexadecimal digits and spells the hash without loss, so two
  requests have the same digest only if their canonical bytes have the same SHA-256; an operation made
  by the constructor always passes the digest check of \<open>apply\<close>, and one whose content was changed so
  that its digest differs is refused.
\<close>

theorem digests_are_valid_and_faithful:
  assumes "operation_new env ident expected m = Inr oper"
  shows "valid_digest (op_digest oper) \<and> (digest_bytes a = digest_bytes b \<longleftrightarrow> fips_sha256 a = fips_sha256 b) \<and>
    apply_operation env s oper = apply_verified_digest env s oper \<and>
    (computed_digest env (oper\<lparr>op_mutation := m'\<rparr>) \<noteq> Inr (op_digest oper) \<longrightarrow>
       (\<exists>e. apply_operation env s (oper\<lparr>op_mutation := m'\<rparr>) = Inl e))"
proof -
  obtain d where d: "computed_digest env \<lparr>op_id = ident, op_digest = [], op_expected = expected, op_mutation = m\<rparr> = Inr d"
      and oper: "oper = \<lparr>op_id = ident, op_digest = d, op_expected = expected, op_mutation = m\<rparr>"
    using assms by (auto simp: operation_new_def Let_def try_Inr)
  have same: "computed_digest env oper = Inr d" using d by (simp add: computed_digest_def oper)
  have "valid_digest d" using d by (auto simp: computed_digest_def Let_def try_Inr digest_bytes_valid split: if_splits)
  moreover have "\<exists>e. apply_operation env s (oper\<lparr>op_mutation := m'\<rparr>) = Inl e"
    if "computed_digest env (oper\<lparr>op_mutation := m'\<rparr>) \<noteq> Inr (op_digest oper)"
    using that by (cases "computed_digest env (oper\<lparr>op_mutation := m'\<rparr>)") (auto simp: apply_operation_def)
  ultimately show ?thesis using same digest_bytes_eq by (simp add: apply_operation_def oper)
qed

theorem digests_are_valid_and_faithful_witness:
  "\<exists>oper. operation_new ex_env (replicate 16 0) (cs_expected ex_state) (ClearTenure (replicate 16 1)) = Inr oper \<and>
     valid_digest (op_digest oper)"
proof -
  let ?m = "ClearTenure (replicate 16 1)"
  let ?v = "JArray [JString STATE_FORMAT, json_nat STATE_SCHEMA, generation_json (replicate 16 0),
      expected_json (cs_expected ex_state), mutation_json ?m]"
  have "logical_size (expected_json (cs_expected ex_state)) \<le> 6000"
    unfolding expected_json_def using size_generation [of "replicate 16 0"] size_nat [of 0]
    by (intro order.trans [OF size_object]) (simp add: object_bound_def ex_defs)
  moreover have "logical_size (mutation_json ?m) \<le> 6000"
    unfolding mutation_json_def using size_generation [of "replicate 16 1"]
    by (simp, intro order.trans [OF size_object]) (simp add: object_bound_def)
  ultimately have "logical_size ?v \<le> MAX_LOGICAL_BYTES"
    using size_generation [of "replicate 16 0"] size_nat [of STATE_SCHEMA]
    by (simp add: STATE_FORMAT_def STATE_SCHEMA_def MAX_LOGICAL_BYTES_def)
  then obtain oper where oper: "operation_new ex_env (replicate 16 0) (cs_expected ex_state) ?m = Inr oper"
    by (simp add: operation_new_def computed_digest_def check_logical_size_eq Let_def)
      (simp add: ex_env_def)
  then show ?thesis using digests_are_valid_and_faithful [OF oper] by blast
qed

end
