(* ===== verification/Grant.thy ===== *)
theory Grant
  imports Origin Sha256
begin

text \<open>
  The plaintext credential authority (\<open>grant.rs\<close>): the table of consented plaintext origins with the
  generations that revoke it, the offers that may be asked about, the answer every request asks for,
  and the account key of a recorded consent (\<open>server/session.rs\<close>) with the migration of keys written
  by older builds. The statics of the module are one record; each operation is one critical section.
\<close>

section \<open>The table\<close>

record grant_scope =
  gs_identity :: u64
  gs_network :: u64

record plaintext_grant =
  pg_scope :: grant_scope
  pg_machine_id :: string
  pg_origin :: origin

datatype plaintext_eligibility = Eligible | HttpsRequired | NotLocal | NotSameNetwork | NotPrivateAddress
  | IdentityUnverified | HttpsUnsettled | HttpsAnswered

definition eligibility_code :: "plaintext_eligibility \<Rightarrow> string" where
  "eligibility_code e =
     (case e of Eligible \<Rightarrow> ''eligible'' | HttpsRequired \<Rightarrow> ''https_required'' | NotLocal \<Rightarrow> ''not_local''
      | NotSameNetwork \<Rightarrow> ''not_same_network'' | NotPrivateAddress \<Rightarrow> ''not_private_address''
      | IdentityUnverified \<Rightarrow> ''identity_unverified'' | HttpsUnsettled \<Rightarrow> ''https_unsettled''
      | HttpsAnswered \<Rightarrow> ''https_answered'')"

datatype plaintext_choice = Undecided | Allowed | Declined | Revoked

record plaintext_verdict =
  pv_machine_id :: string
  pv_name :: string
  pv_shared_by :: string
  pv_eligibility :: plaintext_eligibility
  pv_choice :: plaintext_choice

definition verdict_offers :: "plaintext_verdict \<Rightarrow> bool" where
  "verdict_offers v = (pv_eligibility v = Eligible)"

definition verdict_prefer :: "('e \<times> plaintext_verdict) option \<Rightarrow> 'e \<times> plaintext_verdict \<Rightarrow> ('e \<times> plaintext_verdict) option" where
  "verdict_prefer held next_one =
     (case held of
        Some h \<Rightarrow> if verdict_offers (snd h) \<or> \<not> verdict_offers (snd next_one) then Some h else Some next_one
      | None \<Rightarrow> Some next_one)"

record grant_table =
  gt_grants :: "plaintext_grant list"
  gt_count :: nat
  gt_identity :: u64
  gt_network :: u64
  gt_offers :: "(grant_scope \<times> plaintext_verdict) list"
  gt_revision :: u64

definition grant_table_init :: grant_table where
  "grant_table_init =
     \<lparr>gt_grants = [], gt_count = 0, gt_identity = 1, gt_network = 1, gt_offers = [], gt_revision = 1\<rparr>"

definition moved :: "grant_table \<Rightarrow> grant_table" where
  "moved t = t\<lparr>gt_revision := gt_revision t + 1\<rparr>"

definition grant_revision :: "grant_table \<Rightarrow> u64" where
  "grant_revision t = gt_revision t"

definition scope_now :: "grant_table \<Rightarrow> grant_scope" where
  "scope_now t = \<lparr>gs_identity = gt_identity t, gs_network = gt_network t\<rparr>"

section \<open>May a credential go there\<close>

definition grant_admits :: "plaintext_grant list \<Rightarrow> grant_scope \<Rightarrow> string option \<Rightarrow> origin \<Rightarrow> bool" where
  "grant_admits grants now machine_id orig =
     list_ex (\<lambda>g. pg_scope g = now \<and> pg_origin g = orig \<and>
                  (case machine_id of None \<Rightarrow> True | Some m \<Rightarrow> pg_machine_id g = m)) grants"

definition granted :: "grant_table \<Rightarrow> string option \<Rightarrow> origin \<Rightarrow> bool" where
  "granted t machine_id orig =
     (if gt_count t = 0 then False else grant_admits (gt_grants t) (scope_now t) machine_id orig)"

definition granted_now :: "grant_table \<Rightarrow> string \<Rightarrow> origin \<Rightarrow> bool" where
  "granted_now t machine_id orig =
     (machine_id \<noteq> [] \<and> \<not> origin_is_tls orig \<and> granted t (Some machine_id) orig)"

definition allowed_under :: "grant_table \<Rightarrow> credential_policy \<Rightarrow> origin \<Rightarrow> bool" where
  "allowed_under t policy orig =
     (may_carry_credential policy orig \<or> \<not> origin_is_tls orig \<and> granted t None orig)"

definition allowed_for :: "grant_table \<Rightarrow> credential_policy \<Rightarrow> string \<Rightarrow> origin \<Rightarrow> bool" where
  "allowed_for t policy machine_id orig =
     (may_carry_credential policy orig \<or> granted_now t machine_id orig)"

definition remembered_allowed :: "credential_policy \<Rightarrow> origin \<Rightarrow> bool" where
  "remembered_allowed policy orig = may_carry_credential policy orig"

definition rests_on_grant :: "grant_table \<Rightarrow> credential_policy \<Rightarrow> string \<Rightarrow> origin \<Rightarrow> bool" where
  "rests_on_grant t policy machine_id orig =
     (\<not> may_carry_credential policy orig \<and> granted_now t machine_id orig)"

definition granted_origin :: "grant_table \<Rightarrow> string \<Rightarrow> origin option" where
  "granted_origin t machine_id =
     (if gt_count t = 0 then None
      else map_option pg_origin
             (find (\<lambda>g. pg_scope g = scope_now t \<and> pg_machine_id g = machine_id) (gt_grants t)))"

section \<open>What changes the table\<close>

definition retain_grants :: "(plaintext_grant \<Rightarrow> bool) \<Rightarrow> grant_table \<Rightarrow> grant_table \<times> bool" where
  "retain_grants keep t =
     (let before = length (gt_grants t);
          grants = filter keep (gt_grants t);
          removed = (length grants \<noteq> before);
          t = t\<lparr>gt_grants := grants, gt_count := length grants\<rparr>
      in (if removed then moved t else t, removed))"

definition revoke_grant :: "string \<Rightarrow> grant_table \<Rightarrow> grant_table \<times> bool" where
  "revoke_grant machine_id t = retain_grants (\<lambda>g. pg_machine_id g \<noteq> machine_id) t"

definition clear_offers :: "grant_table \<Rightarrow> grant_table" where
  "clear_offers t = t\<lparr>gt_offers := []\<rparr>"

definition identity_changed :: "grant_table \<Rightarrow> grant_table" where
  "identity_changed t =
     moved (fst (retain_grants (\<lambda>_. False) (clear_offers (t\<lparr>gt_identity := gt_identity t + 1\<rparr>))))"

definition network_changed :: "grant_table \<Rightarrow> grant_table" where
  "network_changed t =
     moved (fst (retain_grants (\<lambda>_. False) (clear_offers (t\<lparr>gt_network := gt_network t + 1\<rparr>))))"

definition offered :: "grant_scope \<Rightarrow> plaintext_verdict \<Rightarrow> grant_table \<Rightarrow> grant_table" where
  "offered sc verdict t =
     (let offers = filter (\<lambda>(_, v). pv_machine_id v \<noteq> pv_machine_id verdict) (gt_offers t);
          offers = (if verdict_offers verdict \<and> sc = scope_now t then offers @ [(sc, verdict)] else offers)
      in moved (t\<lparr>gt_offers := offers\<rparr>))"

definition withdraw_offer :: "string \<Rightarrow> grant_table \<Rightarrow> grant_table" where
  "withdraw_offer machine_id t =
     (let n = length (gt_offers t);
          offers = filter (\<lambda>(_, v). pv_machine_id v \<noteq> machine_id) (gt_offers t);
          t = t\<lparr>gt_offers := offers\<rparr>
      in if length offers \<noteq> n then moved t else t)"

definition live_offers :: "grant_table \<Rightarrow> plaintext_verdict list" where
  "live_offers t = map snd (filter (\<lambda>(sc, _). sc = scope_now t) (gt_offers t))"

definition live_offer :: "grant_table \<Rightarrow> string \<Rightarrow> plaintext_verdict option" where
  "live_offer t machine_id = find (\<lambda>v. pv_machine_id v = machine_id) (live_offers t)"

section \<open>Whose consent it is\<close>

text \<open>The fields of \<open>Session\<close> a consent is kept and found by.\<close>

record home_user =
  hu_id :: int
  hu_admin :: bool

record plaintext_consent =
  pc_machine_id :: string
  pc_account :: string
  pc_choice :: plaintext_choice

record consent_session =
  cs_account_token :: string
  cs_home_users :: "home_user list"
  cs_plaintext_consent :: "plaintext_consent list"

definition owner_identity :: "consent_session \<Rightarrow> int option" where
  "owner_identity s = map_option hu_id (find (\<lambda>u. hu_admin u \<and> hu_id u \<noteq> 0) (cs_home_users s))"

definition string_bytes :: "string \<Rightarrow> u8 list" where
  "string_bytes s = map (\<lambda>c. of_nat (byte_of c)) s"

definition hex_digit_lower :: "nat \<Rightarrow> char" where
  "hex_digit_lower d = (if d < 10 then digit_char d else char_of (87 + d))"

definition hex_octet :: "u8 \<Rightarrow> string" where
  "hex_octet b = [hex_digit_lower (unat b div 16), hex_digit_lower (unat b mod 16)]"

definition legacy_account_key :: "string \<Rightarrow> string option" where
  "legacy_account_key account_token =
     (if account_token = [] then Some []
      else map_option (\<lambda>d. concat (map hex_octet (take 8 d)))
             (sha256 (string_bytes ''butaca-consent:'' @ string_bytes account_token)))"

definition account_key_for :: "int option \<Rightarrow> string \<Rightarrow> string option" where
  "account_key_for own account_token =
     (if account_token = [] then Some []
      else (case own of None \<Rightarrow> legacy_account_key account_token | Some i \<Rightarrow> Some (''plex-tv:'' @ show_int i)))"

definition account_key :: "consent_session \<Rightarrow> string option" where
  "account_key s = account_key_for (owner_identity s) (cs_account_token s)"

text \<open>The update that the worker applies to the stored session, and the test that queues it.\<close>

definition adopt_rows :: "string \<Rightarrow> string \<Rightarrow> plaintext_consent list \<Rightarrow> plaintext_consent list" where
  "adopt_rows account legacy current =
     concat (map (\<lambda>c. if pc_account c = legacy
                      then if list_ex (\<lambda>k. pc_account k = account \<and> pc_machine_id k = pc_machine_id c) current
                           then [] else [c\<lparr>pc_account := account\<rparr>]
                      else [c]) current)"

definition adopt_update :: "string \<Rightarrow> string \<Rightarrow> consent_session \<Rightarrow> consent_session option" where
  "adopt_update account legacy current =
     (if account_key current \<noteq> Some account \<or> legacy_account_key (cs_account_token current) \<noteq> Some legacy then None
      else if list_ex (\<lambda>c. pc_account c = legacy) (cs_plaintext_consent current)
      then Some (current\<lparr>cs_plaintext_consent := adopt_rows account legacy (cs_plaintext_consent current)\<rparr>)
      else None)"

definition adopt_queued :: "consent_session \<Rightarrow> (consent_session \<Rightarrow> consent_session option) option" where
  "adopt_queued s =
     (case (account_key s, legacy_account_key (cs_account_token s)) of
        (Some account, Some legacy) \<Rightarrow>
          if account = [] \<or> account = legacy \<or>
             \<not> list_ex (\<lambda>c. pc_account c = legacy) (cs_plaintext_consent s) then None
          else Some (adopt_update account legacy)
      | _ \<Rightarrow> None)"

end
