(* ===== verification/Transport.thy ===== *)
theory Transport
  imports Hls Grant
begin

text \<open>
  The credential boundary of the transports (\<open>http.rs\<close>): which credential a request carries, which
  hosts cannot leave the local network, when a credential may cross in plaintext, and the once-only
  report of such a crossing; with the two anchors of the Jellyfin rule (\<open>jellyfin/mod.rs\<close>), the
  installed client and the sign-in that is creating one. The reading of IP literals is that of
  \<open>std::net\<close>.
\<close>

section \<open>Trimming and header lines\<close>

definition strip_white :: "string \<Rightarrow> string option" where
  "strip_white s = map_option (\<lambda>w. drop (length w) s) (find (\<lambda>w. starts_with (map char_of w) s) whitespace_codes)"

lemma strip_white_shorter: "strip_white s = Some r \<Longrightarrow> length r < length s"
proof -
  assume "strip_white s = Some r"
  then obtain w where w: "find (\<lambda>w. starts_with (map char_of w) s) whitespace_codes = Some w" "r = drop (length w) s"
    by (auto simp: strip_white_def)
  then have "w \<in> set whitespace_codes" "starts_with (map char_of w) s"
    by (auto simp: find_Some_iff)
  then have "0 < length w" "length w \<le> length s"
    using whitespace_ends by (auto simp: starts_with_iff)
  then show ?thesis using w(2) by (cases w) (auto simp: Suc_le_eq)
qed

function trim_start :: "string \<Rightarrow> string" where
  "trim_start s = (case strip_white s of None \<Rightarrow> s | Some r \<Rightarrow> trim_start r)"
  by auto
termination by (relation "measure length") (auto dest: strip_white_shorter)

declare trim_start.simps [simp del]

definition strip_white_end :: "string \<Rightarrow> string option" where
  "strip_white_end s =
     map_option (\<lambda>w. take (length s - length w) s) (find (\<lambda>w. ends_with (map char_of w) s) whitespace_codes)"

lemma strip_white_end_shorter: "strip_white_end s = Some r \<Longrightarrow> length r < length s"
proof -
  assume "strip_white_end s = Some r"
  then obtain w where w: "find (\<lambda>w. ends_with (map char_of w) s) whitespace_codes = Some w"
      "r = take (length s - length w) s"
    by (auto simp: strip_white_end_def)
  then have "w \<in> set whitespace_codes" "ends_with (map char_of w) s"
    by (auto simp: find_Some_iff)
  then have "0 < length w" "length w \<le> length s"
    using whitespace_ends by (auto simp: ends_with_iff)
  then show ?thesis using w(2) by (cases w) (auto simp: Suc_le_eq)
qed

function trim_end :: "string \<Rightarrow> string" where
  "trim_end s = (case strip_white_end s of None \<Rightarrow> s | Some r \<Rightarrow> trim_end r)"
  by auto
termination by (relation "measure length") (auto dest: strip_white_end_shorter)

declare trim_end.simps [simp del]

definition trim_str :: "string \<Rightarrow> string" where
  "trim_str s = trim_end (trim_start s)"

definition contains_str :: "string \<Rightarrow> string \<Rightarrow> bool" where
  "contains_str pat s = (split_once_str pat s \<noteq> None)"

definition CRLF :: string where "CRLF = [CHR 0x0D, CHR 0x0A]"

section \<open>IP literals\<close>

text \<open>The reader of \<open>std::net\<close>: every part returns what it read and the rest of the text.\<close>

definition is_radix_digit :: "nat \<Rightarrow> char \<Rightarrow> bool" where
  "is_radix_digit radix c = (if radix = 16 then is_hexdigit c else is_digit c)"

definition radix_value :: "char \<Rightarrow> nat" where
  "radix_value c =
     (if is_digit c then byte_of c - 48 else if is_upper c then byte_of c - 55 else byte_of c - 87)"

definition read_number :: "nat \<Rightarrow> nat \<Rightarrow> nat \<Rightarrow> bool \<Rightarrow> string \<Rightarrow> (nat \<times> string) option" where
  "read_number radix max_digits limit allow_zero_prefix s =
     (let ds = takeWhile (is_radix_digit radix) s;
          n = foldl (\<lambda>a c. a * radix + radix_value c) 0 ds
      in if max_digits < length ds \<or> ds = [] \<or>
            \<not> allow_zero_prefix \<and> hd ds = CHR ''0'' \<and> 1 < length ds \<or> limit < n
         then None else Some (n, drop (length ds) s))"

definition read_separator :: "char \<Rightarrow> nat \<Rightarrow> (string \<Rightarrow> ('a \<times> string) option) \<Rightarrow> string \<Rightarrow> ('a \<times> string) option" where
  "read_separator sep index inner s =
     (if 0 < index then (case s of [] \<Rightarrow> None | c # cs \<Rightarrow> if c = sep then inner cs else None) else inner s)"

fun read_octets :: "nat \<Rightarrow> nat \<Rightarrow> string \<Rightarrow> (nat list \<times> string) option" where
  "read_octets 0 i s = Some ([], s)"
| "read_octets (Suc left) i s =
     (case read_separator CHR ''.'' i (read_number 10 3 255 False) s of
        None \<Rightarrow> None
      | Some (n, r) \<Rightarrow> map_option (\<lambda>(ns, r'). (n # ns, r')) (read_octets left (Suc i) r))"

definition read_ipv4 :: "string \<Rightarrow> (nat list \<times> string) option" where
  "read_ipv4 s = read_octets 4 0 s"

fun read_groups :: "nat \<Rightarrow> nat \<Rightarrow> string \<Rightarrow> nat list \<times> bool \<times> string" where
  "read_groups 0 i s = ([], False, s)"
| "read_groups (Suc left) i s =
     (case (if 0 < left then read_separator CHR '':'' i read_ipv4 s else None) of
        Some (v4, r) \<Rightarrow> ([v4 ! 0 * 256 + v4 ! 1, v4 ! 2 * 256 + v4 ! 3], True, r)
      | None \<Rightarrow>
          (case read_separator CHR '':'' i (read_number 16 4 65535 True) s of
             None \<Rightarrow> ([], False, s)
           | Some (g, r) \<Rightarrow> (let (gs, flag, r') = read_groups left (Suc i) r in (g # gs, flag, r'))))"

definition read_ipv6 :: "string \<Rightarrow> (nat list \<times> string) option" where
  "read_ipv6 s =
     (let (head, head_ipv4, r) = read_groups 8 0 s
      in if length head = 8 then Some (head, r)
         else if head_ipv4 then None
         else (case strip_prefix ''::'' r of
                 None \<Rightarrow> None
               | Some r \<Rightarrow>
                   (let (last_groups, _, r') = read_groups (8 - (length head + 1)) 0 r
                    in Some (head @ replicate (8 - length head - length last_groups) 0 @ last_groups, r'))))"

datatype ip_addr = V4 "nat list" | V6 "nat list"

definition parse_ip :: "string \<Rightarrow> ip_addr option" where
  "parse_ip s =
     (case (case read_ipv4 s of
              Some (o4, r) \<Rightarrow> Some (V4 o4, r)
            | None \<Rightarrow> map_option (\<lambda>(g, r). (V6 g, r)) (read_ipv6 s)) of
        Some (a, r) \<Rightarrow> if r = [] then Some a else None
      | None \<Rightarrow> None)"

unbundle bit_operations_syntax

definition is_lan_host :: "string \<Rightarrow> bool" where
  "is_lan_host host =
     (case parse_ip host of
        Some (V4 a) \<Rightarrow>
          a ! 0 = 10 \<or> a ! 0 = 172 \<and> 16 \<le> a ! 1 \<and> a ! 1 \<le> 31 \<or> a ! 0 = 192 \<and> a ! 1 = 168 \<or>
          a ! 0 = 127 \<or> a ! 0 = 169 \<and> a ! 1 = 254 \<or> a = [0, 0, 0, 0]
      | Some (V6 g) \<Rightarrow>
          g = [0, 0, 0, 0, 0, 0, 0, 1] \<or> g = [0, 0, 0, 0, 0, 0, 0, 0] \<or>
          g ! 0 AND 0xfe00 = 0xfc00 \<or> g ! 0 AND 0xffc0 = 0xfe80
      | None \<Rightarrow> False)"

section \<open>Which credential\<close>

datatype credential = NoCredential | Legacy | Jellyfin

fun header_credential :: "credential \<Rightarrow> string list \<Rightarrow> credential" where
  "header_credential saw [] = saw"
| "header_credential saw (header # hs) =
     (case split_once CHR '':'' header of
        None \<Rightarrow> header_credential saw hs
      | Some (name, val) \<Rightarrow>
          (let name = trim_str name in
           if eq_ignore_case name ''x-plex-token'' \<or> eq_ignore_case name ''authorization''
           then if eq_ignore_case name ''authorization'' \<and> starts_with ''MediaBrowser'' (trim_start val)
                then Jellyfin else Legacy
           else header_credential
                  (if eq_ignore_case name ''x-emby-token'' \<or> eq_ignore_case name ''x-emby-authorization''
                   then Jellyfin else saw) hs))"

definition credential_carried :: "string \<Rightarrow> string list \<Rightarrow> credential" where
  "credential_carried path headers =
     (let lower = to_lower path in
      if contains_str ''x-plex-token='' lower then Legacy
      else if contains_str ''api_key='' lower then Jellyfin
      else header_credential NoCredential headers)"

definition carries_credential :: "string \<Rightarrow> string list \<Rightarrow> bool" where
  "carries_credential path headers = (credential_carried path headers \<noteq> NoCredential)"

section \<open>The gate\<close>

text \<open>
  What the gate reads: the grant table, the installed client's origin, the host a sign-in on this
  thread is creating an anchor for, and the policy of the build.
\<close>

record transport_env =
  te_policy :: credential_policy
  te_grants :: grant_table
  te_client :: "origin option"
  te_anchor :: "string option"

definition client_install :: "origin \<Rightarrow> transport_env \<Rightarrow> transport_env" where
  "client_install orig env = env\<lparr>te_client := Some orig\<rparr>"

definition client_uninstall :: "transport_env \<Rightarrow> transport_env" where
  "client_uninstall env = env\<lparr>te_client := None\<rparr>"

definition anchor_enter :: "origin \<Rightarrow> transport_env \<Rightarrow> transport_env \<times> string option" where
  "anchor_enter orig env = (env\<lparr>te_anchor := Some (o_host orig)\<rparr>, te_anchor env)"

definition anchor_drop :: "string option \<Rightarrow> transport_env \<Rightarrow> transport_env" where
  "anchor_drop prev env = env\<lparr>te_anchor := prev\<rparr>"

definition signin_anchor_matches :: "transport_env \<Rightarrow> origin \<Rightarrow> bool" where
  "signin_anchor_matches env orig =
     (case te_anchor env of None \<Rightarrow> False | Some host \<Rightarrow> host = o_host orig \<and> is_lan_host host)"

definition plaintext_host_allowed :: "transport_env \<Rightarrow> origin \<Rightarrow> bool" where
  "plaintext_host_allowed env orig =
     ((case te_client env of
         None \<Rightarrow> False
       | Some installed \<Rightarrow> o_host orig = o_host installed \<and> is_lan_host (o_host installed)) \<or>
      signin_anchor_matches env orig)"

definition transport_allowed_by_policy :: "transport_env \<Rightarrow> credential_policy \<Rightarrow> origin \<Rightarrow> string \<Rightarrow> string list \<Rightarrow> bool" where
  "transport_allowed_by_policy env policy orig path headers =
     (case credential_carried path headers of
        NoCredential \<Rightarrow> True
      | Legacy \<Rightarrow> allowed_under (te_grants env) policy orig
      | Jellyfin \<Rightarrow> allowed_under (te_grants env) policy orig \<or> plaintext_host_allowed env orig)"

definition signin_allowed_by_policy :: "transport_env \<Rightarrow> credential_policy \<Rightarrow> origin \<Rightarrow> string \<Rightarrow> string list \<Rightarrow> bool" where
  "signin_allowed_by_policy env policy orig path headers =
     (transport_allowed_by_policy env policy orig path headers \<or>
      credential_carried path headers = Jellyfin \<and> is_lan_host (o_host orig))"

definition credential_transport_allowed :: "transport_env \<Rightarrow> origin \<Rightarrow> string \<Rightarrow> string list \<Rightarrow> bool" where
  "credential_transport_allowed env orig path headers =
     transport_allowed_by_policy env (te_policy env) orig path headers"

definition signin_transport_allowed :: "transport_env \<Rightarrow> origin \<Rightarrow> string \<Rightarrow> string list \<Rightarrow> bool" where
  "signin_transport_allowed env orig path headers =
     signin_allowed_by_policy env (te_policy env) orig path headers"

section \<open>The report\<close>

datatype report_line = DeveloperBuild | SentUnderGrant | RefusedPlaintext

text \<open>The seen outcomes are one bit each of an \<open>AtomicU8\<close>.\<close>

definition report_bit :: "credential_policy \<Rightarrow> bool \<Rightarrow> u8 \<times> report_line" where
  "report_bit policy allowed =
     (if policy = AllowPlaintext then (1, DeveloperBuild)
      else if allowed then (2, SentUnderGrant) else (4, RefusedPlaintext))"

definition plaintext_credential_report :: "u8 \<Rightarrow> credential_policy \<Rightarrow> bool \<Rightarrow> u8 \<times> report_line option" where
  "plaintext_credential_report seen policy allowed =
     (let (bit_mask, line) = report_bit policy allowed
      in (seen OR bit_mask, if seen AND bit_mask = 0 then Some line else None))"

definition report_plaintext :: "u8 \<Rightarrow> transport_env \<Rightarrow> origin \<Rightarrow> string \<Rightarrow> string list \<Rightarrow> bool \<Rightarrow> u8 \<times> report_line option" where
  "report_plaintext seen env orig path headers allowed =
     (if origin_is_tls orig \<or> \<not> carries_credential path headers then (seen, None)
      else plaintext_credential_report seen (te_policy env) allowed)"

section \<open>The request\<close>

datatype 'r request_outcome = TransportFailure | Answered 'r

text \<open>
  The socket (\<open>dial\<close>) and libcurl (\<open>tls\<close>) are parameters: they are handed what the request puts on
  the wire. A text with a NUL byte cannot be handed to the socket.
\<close>

definition plaintext_extra :: "string list \<Rightarrow> string" where
  "plaintext_extra headers =
     (let has_connection = list_ex (\<lambda>h. case split_once CHR '':'' h of None \<Rightarrow> False
                                          | Some (name, _) \<Rightarrow> eq_ignore_case name ''connection'') headers;
          s = (if has_connection then [] else ''Connection: close'' @ CRLF)
      in foldl (\<lambda>s h. s @ h @ CRLF) s headers)"

definition plaintext_arm ::
    "(origin \<Rightarrow> string \<Rightarrow> string option \<Rightarrow> 'm \<Rightarrow> u8 list \<Rightarrow> 'r request_outcome) \<Rightarrow>
     origin \<Rightarrow> string \<Rightarrow> 'm \<Rightarrow> string list \<Rightarrow> u8 list \<Rightarrow> 'r request_outcome" where
  "plaintext_arm dial orig path meth headers body =
     (if CHR 0x00 \<in> set (o_host orig) then TransportFailure
      else if CHR 0x00 \<in> set path then TransportFailure
      else
        let extra = plaintext_extra headers
        in dial orig path (if CHR 0x00 \<in> set extra then None else Some extra) meth body)"

definition request_with ::
    "(origin \<Rightarrow> string \<Rightarrow> string option \<Rightarrow> 'm \<Rightarrow> u8 list \<Rightarrow> 'r request_outcome) \<Rightarrow>
     (origin \<Rightarrow> string \<Rightarrow> 'm \<Rightarrow> string list \<Rightarrow> u8 list \<Rightarrow> 'r request_outcome) \<Rightarrow>
     transport_env \<Rightarrow> origin \<Rightarrow> string \<Rightarrow> 'm \<Rightarrow> string list \<Rightarrow> u8 list \<Rightarrow> 'r request_outcome" where
  "request_with dial tls env orig path meth headers body =
     (if \<not> credential_transport_allowed env orig path headers then TransportFailure
      else case o_scheme orig of
             Http \<Rightarrow> plaintext_arm dial orig path meth headers body
           | Https \<Rightarrow> tls orig path meth headers body)"

end
