(* ===== verification/Redirect.thy ===== *)
theory Redirect
  imports Transport
begin

text \<open>
  Redirects on the plaintext media path (\<open>stream_redirect.rs\<close>): the resolution of a \<open>Location\<close>, the
  access-token pair that a hop may carry, and the loop that opens a request and follows it. The socket
  client is a parameter: a function of everything sent so far to the result of the last request and the
  \<open>Location\<close> it left on the stream. The requests put on the wire are returned with the result.
\<close>

section \<open>Targets and requests\<close>

definition MAX_HOPS :: nat where "MAX_HOPS = 5"

definition is_redirect :: "int \<Rightarrow> bool" where
  "is_redirect status = (status \<in> {301, 302, 303, 307, 308})"

record target =
  t_origin :: origin
  t_path :: string

definition target_url :: "target \<Rightarrow> string" where
  "target_url t = origin_base (t_origin t) @ t_path t"

datatype open_error = Deadline | Status int | Aborted | Stopped | Transport

datatype opened = Socket target | Tls target

datatype follow_error = OpenFailed open_error | TooManyHops | LeftOrigin | Refused | BadLocation int

record media_request =
  mr_origin :: origin
  mr_path :: string
  mr_credentials :: "string option"
  mr_range_from :: "int option"
  mr_same_origin_only :: bool

text \<open>One request on the wire: where it went, and its header block (none when it is empty).\<close>

record sent =
  s_target :: target
  s_extra :: string

record reply =
  rp_result :: "open_error option"
  rp_location :: "string option"

section \<open>Credentials of a request\<close>

fun split_crlf :: "string \<Rightarrow> string list" where
  "split_crlf [] = [[]]"
| "split_crlf [c] = [[c]]"
| "split_crlf (c # d # cs) =
     (if [c, d] = CRLF then [] # split_crlf cs
      else case split_crlf (d # cs) of [] \<Rightarrow> [[c]] | w # ws \<Rightarrow> (c # w) # ws)"

definition header_lines :: "string \<Rightarrow> string list" where
  "header_lines block = filter (\<lambda>line. line \<noteq> []) (split_crlf block)"

definition same_origin :: "origin \<Rightarrow> origin \<Rightarrow> bool" where
  "same_origin a b =
     (o_scheme a = o_scheme b \<and> o_port a = o_port b \<and> eq_ignore_case (o_host a) (o_host b))"

definition token_pair :: "string \<Rightarrow> string option" where
  "token_pair path =
     (case split_once CHR ''?'' path of
        None \<Rightarrow> None
      | Some (_, query) \<Rightarrow>
          find (\<lambda>p. case split_once CHR ''='' p of
                      None \<Rightarrow> False
                    | Some (name, val) \<Rightarrow> val \<noteq> [] \<and> is_token_name name)
            (split_on CHR ''&'' query))"

definition with_query_pair :: "string \<Rightarrow> string \<Rightarrow> string" where
  "with_query_pair path pair =
     (let name = hd (split_on CHR ''='' pair);
          present = (case split_once CHR ''?'' path of
                       None \<Rightarrow> False
                     | Some (_, q) \<Rightarrow>
                         list_ex (\<lambda>p. eq_ignore_case (hd (split_on CHR ''='' p)) name) (split_on CHR ''&'' q))
      in if present then path
         else if CHR ''?'' \<in> set path then path @ ''&'' @ pair
         else path @ ''?'' @ pair)"

section \<open>Resolving a Location\<close>

definition is_blank :: "char \<Rightarrow> bool" where
  "is_blank c = (c = CHR '' '' \<or> c = CHR 0x09)"

definition trim_blanks :: "string \<Rightarrow> string" where
  "trim_blanks s = rev (dropWhile is_blank (rev (dropWhile is_blank s)))"

definition not_requestable :: "char \<Rightarrow> bool" where
  "not_requestable c = (byte_of c \<le> 32 \<or> byte_of c = 127)"

definition no_path_mark :: "char \<Rightarrow> bool" where
  "no_path_mark c = (c \<noteq> CHR ''/'' \<and> c \<noteq> CHR ''?'')"

definition redirect_authority :: "scheme \<Rightarrow> string \<Rightarrow> origin option" where
  "redirect_authority sch auth =
     (if CHR ''@'' \<in> set auth then None
      else
        case (case strip_prefix ''['' auth of
                Some rest \<Rightarrow>
                  (case split_once CHR '']'' rest of
                     None \<Rightarrow> None
                   | Some (h, after) \<Rightarrow>
                       (case strip_prefix '':'' after of
                          Some p \<Rightarrow> Some (h, Some p)
                        | None \<Rightarrow> if after = [] then Some (h, None) else None))
              | None \<Rightarrow>
                  (case split_once CHR '':'' auth of
                     Some (h, p) \<Rightarrow> Some (h, Some p)
                   | None \<Rightarrow> Some (auth, None))) of
          None \<Rightarrow> None
        | Some (host, port) \<Rightarrow>
            if host = [] then None
            else
              map_option (\<lambda>n. origin_new sch host (int n))
                (case port of
                   None \<Rightarrow> Some (if scheme_is_tls sch then 443 else 80)
                 | Some p \<Rightarrow>
                     if p = [] then Some (if scheme_is_tls sch then 443 else 80)
                     else (case parse_unsigned u16_max p of
                             None \<Rightarrow> None
                           | Some n \<Rightarrow> if 0 < n then Some n else None)))"

fun norm_segments :: "string list \<Rightarrow> string list \<Rightarrow> string list" where
  "norm_segments out [] = out"
| "norm_segments out (s # segs) =
     (if s = ''.'' then norm_segments (if segs = [] then out @ [[]] else out) segs
      else if s = ''..''
      then norm_segments (if segs = [] then butlast out @ [[]] else butlast out) segs
      else norm_segments (out @ [s]) segs)"

definition normalize_path :: "string \<Rightarrow> string" where
  "normalize_path path_and_query =
     (let (path, query) = (case split_once CHR ''?'' path_and_query of
                             Some (p, q) \<Rightarrow> (p, Some q)
                           | None \<Rightarrow> (path_and_query, None));
          p = CHR ''/'' # join_with CHR ''/'' (norm_segments [] (tl (split_on CHR ''/'' path)))
      in case query of None \<Rightarrow> p | Some q \<Rightarrow> p @ CHR ''?'' # q)"

text \<open>The scheme a \<open>Location\<close> names, with the text after it; the first eight bytes decide.\<close>

definition location_scheme :: "scheme \<Rightarrow> string \<Rightarrow> scheme option \<times> string" where
  "location_scheme base_scheme loc =
     (let lower = to_lower (take 8 loc)
      in if starts_with ''https://'' lower then (Some Https, drop 8 loc)
         else if starts_with ''http://'' lower then (Some Http, drop 7 loc)
         else case strip_prefix ''//'' loc of
                Some rest \<Rightarrow> (Some base_scheme, rest)
              | None \<Rightarrow> (None, loc))"

definition relative_path :: "string \<Rightarrow> string \<Rightarrow> string" where
  "relative_path base_path loc =
     (if starts_with ''/'' loc then loc
      else if starts_with ''?'' loc then base_path @ loc
      else (if CHR ''/'' \<in> set base_path
            then rev (dropWhile (\<lambda>c. c \<noteq> CHR ''/'') (rev base_path)) else ''/'') @ loc)"

definition resolve_location :: "target \<Rightarrow> string \<Rightarrow> target option" where
  "resolve_location base location =
     (let loc = trim_blanks location in
      if loc = [] \<or> list_ex not_requestable loc then None
      else
        let loc = hd (split_on CHR ''#'' loc) in
        if loc = [] then None
        else
          case location_scheme (o_scheme (t_origin base)) loc of
            (Some sch, rest) \<Rightarrow>
              (case redirect_authority sch (takeWhile no_path_mark rest) of
                 None \<Rightarrow> None
               | Some orig \<Rightarrow>
                   let tail_text = dropWhile no_path_mark rest;
                       path = (if starts_with ''/'' tail_text then tail_text else CHR ''/'' # tail_text)
                   in Some \<lparr>t_origin = orig, t_path = normalize_path path\<rparr>)
          | (None, _) \<Rightarrow>
              if CHR '':'' \<in> set (takeWhile no_path_mark loc) then None
              else Some \<lparr>t_origin = t_origin base,
                         t_path = normalize_path (relative_path (hd (split_on CHR ''?'' (t_path base))) loc)\<rparr>)"

section \<open>Opening and following\<close>

definition hop_credentials :: "media_request \<Rightarrow> target \<Rightarrow> string" where
  "hop_credentials req cur =
     (if same_origin (t_origin cur) (mr_origin req)
      then (case mr_credentials req of None \<Rightarrow> [] | Some c \<Rightarrow> c) else [])"

definition hop_extra :: "media_request \<Rightarrow> target \<Rightarrow> string" where
  "hop_extra req cur =
     hop_credentials req cur @
     (case mr_range_from req of None \<Rightarrow> [] | Some at \<Rightarrow> ''Range: bytes='' @ show_int at @ ''-'' @ CRLF)"

text \<open>
  One turn of the loop: the result, or the next target. The gate reads the environment as it is when
  the hop starts, so it is a function of the hop.
\<close>

datatype turn = Finished "follow_error + opened" | Next target

definition hop_ready :: "(nat \<Rightarrow> transport_env) \<Rightarrow> media_request \<Rightarrow> nat \<Rightarrow> target \<Rightarrow> (follow_error + opened) option" where
  "hop_ready env req hop cur =
     (if origin_is_tls (t_origin cur) then Some (Inr (Tls cur))
      else if \<not> credential_transport_allowed (env hop) (t_origin cur) (t_path cur)
                  (header_lines (hop_credentials req cur)) then Some (Inl Refused)
      else if CHR 0x00 \<in> set (o_host (t_origin cur)) \<or> CHR 0x00 \<in> set (t_path cur) \<or>
              CHR 0x00 \<in> set (hop_extra req cur) then Some (Inl (OpenFailed Transport))
      else None)"

definition hop_answer :: "media_request \<Rightarrow> nat \<Rightarrow> target \<Rightarrow> reply \<Rightarrow> turn" where
  "hop_answer req hop cur rp =
     (case rp_result rp of
        None \<Rightarrow> Finished (Inr (Socket cur))
      | Some (Status status) \<Rightarrow>
          if \<not> is_redirect status then Finished (Inl (OpenFailed (Status status)))
          else
            (case (case rp_location rp of None \<Rightarrow> None | Some loc \<Rightarrow> resolve_location cur loc) of
               None \<Rightarrow> Finished (Inl (BadLocation status))
             | Some nxt \<Rightarrow>
                 if MAX_HOPS \<le> hop then Finished (Inl TooManyHops)
                 else
                   let same = same_origin (t_origin nxt) (mr_origin req) in
                   if \<not> same \<and> mr_same_origin_only req then Finished (Inl LeftOrigin)
                   else if same
                   then (case token_pair (mr_path req) of
                           Some pair \<Rightarrow> Next (nxt\<lparr>t_path := with_query_pair (t_path nxt) pair\<rparr>)
                         | None \<Rightarrow> Next nxt)
                   else Next nxt)
      | Some e \<Rightarrow> Finished (Inl (OpenFailed e)))"

lemma hop_answer_Next_bound: "hop_answer req hop cur rp = Next nxt \<Longrightarrow> hop < MAX_HOPS"
  by (auto simp: hop_answer_def Let_def split: option.splits open_error.splits if_splits)

function follow_from ::
    "(nat \<Rightarrow> transport_env) \<Rightarrow> (sent list \<Rightarrow> reply) \<Rightarrow> media_request \<Rightarrow> nat \<Rightarrow> target \<Rightarrow> sent list \<Rightarrow>
     (follow_error + opened) \<times> sent list" where
  "follow_from env net req hop cur trace =
     (case hop_ready env req hop cur of
        Some result \<Rightarrow> (result, trace)
      | None \<Rightarrow>
          let trace = trace @ [\<lparr>s_target = cur, s_extra = hop_extra req cur\<rparr>] in
          case hop_answer req hop cur (net trace) of
            Finished result \<Rightarrow> (result, trace)
          | Next nxt \<Rightarrow> follow_from env net req (Suc hop) nxt trace)"
  by pat_completeness auto
termination by (relation "measure (\<lambda>(_, _, _, hop, _, _). MAX_HOPS - hop)") (auto dest: hop_answer_Next_bound)

declare follow_from.simps [simp del]

definition open_following ::
    "(nat \<Rightarrow> transport_env) \<Rightarrow> (sent list \<Rightarrow> reply) \<Rightarrow> media_request \<Rightarrow> (follow_error + opened) \<times> sent list" where
  "open_following env net req = follow_from env net req 0 \<lparr>t_origin = mr_origin req, t_path = mr_path req\<rparr> []"

end
