(* ===== verification/Transport_Correct.thy ===== *)
theory Transport_Correct
  imports Transport
begin

text \<open>
  The credential authority is correct: the grant table as a state machine whose authority only ever
  shrinks, what an IP literal looks like, and the exact crossings the gate admits.
\<close>

section \<open>The grant table as a machine\<close>

definition grant_ok :: "grant_table \<Rightarrow> bool" where
  "grant_ok t =
     (gt_count t = length (gt_grants t) \<and> distinct (map (pv_machine_id \<circ> snd) (gt_offers t)) \<and>
      list_all (verdict_offers \<circ> snd) (gt_offers t))"

inductive grant_step :: "grant_table \<Rightarrow> grant_table \<Rightarrow> bool" where
  revoke: "grant_step t (fst (revoke_grant m t))"
| identity: "grant_step t (identity_changed t)"
| network: "grant_step t (network_changed t)"
| offer: "grant_step t (offered sc v t)"
| withdraw: "grant_step t (withdraw_offer m t)"

inductive_cases grant_stepE: "grant_step t t'"

lemma moved_fields [simp]:
  "gt_grants (moved t) = gt_grants t" "gt_count (moved t) = gt_count t" "gt_offers (moved t) = gt_offers t"
  "scope_now (moved t) = scope_now t"
  by (simp_all add: moved_def scope_now_def)

lemma retain_fields [simp]:
  "gt_grants (fst (retain_grants P t)) = filter P (gt_grants t)"
  "gt_count (fst (retain_grants P t)) = length (filter P (gt_grants t))"
  "gt_offers (fst (retain_grants P t)) = gt_offers t"
  "scope_now (fst (retain_grants P t)) = scope_now t"
  by (simp_all add: retain_grants_def Let_def moved_def scope_now_def)

lemma change_fields [simp]:
  "gt_grants (identity_changed t) = []" "gt_count (identity_changed t) = 0" "gt_offers (identity_changed t) = []"
  "gt_grants (network_changed t) = []" "gt_count (network_changed t) = 0" "gt_offers (network_changed t) = []"
  by (simp_all add: identity_changed_def network_changed_def clear_offers_def)

lemma offer_fields [simp]:
  "gt_grants (offered sc v t) = gt_grants t" "gt_count (offered sc v t) = gt_count t"
  "scope_now (offered sc v t) = scope_now t"
  "gt_grants (withdraw_offer m t) = gt_grants t" "gt_count (withdraw_offer m t) = gt_count t"
  "scope_now (withdraw_offer m t) = scope_now t"
  "gt_offers (withdraw_offer m t) = filter (\<lambda>(_, v). pv_machine_id v \<noteq> m) (gt_offers t)"
  by (simp_all add: offered_def withdraw_offer_def Let_def moved_def scope_now_def)

lemma distinct_offers_filter:
  "distinct (map (pv_machine_id \<circ> snd) xs) \<Longrightarrow> distinct (map (pv_machine_id \<circ> snd) (filter P xs))"
  by (induction xs) auto

lemma grant_step_ok: "grant_step t t' \<Longrightarrow> grant_ok t \<Longrightarrow> grant_ok t'"
  by (induction rule: grant_step.induct)
    (auto simp: grant_ok_def revoke_grant_def offered_def Let_def distinct_offers_filter list_all_iff)

lemma grant_init_ok: "grant_ok grant_table_init"
  by (simp add: grant_ok_def grant_table_init_def)

interpretation grants: state_machine "\<lambda>t. t = grant_table_init" grant_step
    "\<lambda>t. grant_ok t \<and> gt_grants t = []"
proof unfold_locales
  show "t = grant_table_init \<Longrightarrow> grant_ok t \<and> gt_grants t = []" for t
    using grant_init_ok by (simp add: grant_table_init_def)
next
  fix t t' assume step: "grant_step t t'" and inv: "grant_ok t \<and> gt_grants t = []"
  then have "gt_grants t' = []" by (auto elim!: grant_stepE simp: revoke_grant_def)
  with grant_step_ok [OF step] inv show "grant_ok t' \<and> gt_grants t' = []" by blast
qed

interpretation consistent: state_machine grant_ok grant_step grant_ok
  by unfold_locales (auto intro: grant_step_ok)

lemma granted_iff: "grant_ok t \<Longrightarrow> granted t m orig = grant_admits (gt_grants t) (scope_now t) m orig"
  by (auto simp: granted_def grant_ok_def grant_admits_def)

lemma grant_step_shrinks:
  assumes "grant_step t t'" and "grant_ok t" and "granted t' m orig"
  shows "granted t m orig"
proof -
  have ok: "grant_ok t'" by (rule grant_step_ok [OF assms(1,2)])
  from assms(1) show ?thesis
  proof cases
    case (revoke k)
    then show ?thesis using assms(3) granted_iff [OF ok] granted_iff [OF assms(2)]
      by (auto simp: grant_admits_def revoke_grant_def list_ex_iff)
  qed (use assms(3) in \<open>auto simp: granted_def split: if_splits\<close>)
qed

lemma grant_steps_shrink:
  assumes "grant_step\<^sup>*\<^sup>* t t'" and "grant_ok t" and "granted t' m orig"
  shows "granted t m orig"
  using assms
proof (induction rule: rtranclp_induct)
  case (step u v)
  then have "grant_ok u" using consistent.steps_inv [OF step.hyps(1)] by blast
  then show ?case using step grant_step_shrinks by blast
qed

lemma no_grants_allowed: "gt_grants t = [] \<Longrightarrow> grant_ok t \<Longrightarrow> \<not> granted t m orig"
  by (simp add: granted_iff grant_admits_def)

lemma generation_change_revokes:
  "t' = identity_changed t \<or> t' = network_changed t \<Longrightarrow> \<not> granted t' m orig \<and> live_offers t' = []"
  by (auto simp: granted_def live_offers_def)

text \<open>
  Revocation is immediate and final. Whatever the table holds, once the identity or the network
  changed no plaintext origin is granted to anybody and nothing is offered, and no later operation
  makes a grant live again: a store build then sends a credential over TLS only. Withdrawing one
  server's grant ends exactly that server's; every operation leaves the rest no wider than it was.
\<close>

theorem revocation_is_immediate:
  assumes "grant_ok t" and "changed = identity_changed t \<or> changed = network_changed t"
    and "grant_step\<^sup>*\<^sup>* changed after" and "grant_step\<^sup>*\<^sup>* t later"
  shows "allowed_under after HttpsOnly orig = origin_is_tls orig \<and> live_offers changed = [] \<and>
    granted_now (fst (revoke_grant m t)) k orig = (k \<noteq> m \<and> granted_now t k orig) \<and>
    (allowed_under later policy orig \<longrightarrow> allowed_under t policy orig) \<and>
    (allowed_for later policy k orig \<longrightarrow> allowed_for t policy k orig)"
proof -
  have ok: "grant_ok changed" using assms(1,2) grant_step_ok grant_step.identity grant_step.network by blast
  have "\<not> granted after x orig" for x
    using grant_steps_shrink [OF assms(3) ok] generation_change_revokes [OF assms(2)] by blast
  then have after: "allowed_under after HttpsOnly orig = origin_is_tls orig"
    by (simp add: allowed_under_def may_carry_credential_def)
  have revoked: "grant_ok (fst (revoke_grant m t))" using assms(1) grant_step_ok grant_step.revoke by blast
  have "granted (fst (revoke_grant m t)) (Some k) orig = (k \<noteq> m \<and> granted t (Some k) orig)"
    using granted_iff [OF revoked] granted_iff [OF assms(1)]
    by (auto simp: grant_admits_def revoke_grant_def list_ex_iff)
  then have "granted_now (fst (revoke_grant m t)) k orig = (k \<noteq> m \<and> granted_now t k orig)"
    by (auto simp: granted_now_def)
  then show ?thesis
    using after generation_change_revokes [OF assms(2)] grant_steps_shrink [OF assms(4,1)]
    by (auto simp: allowed_under_def allowed_for_def granted_now_def)
qed

theorem revocation_is_immediate_witness:
  "\<not> allowed_under (identity_changed
     \<lparr>gt_grants = [\<lparr>pg_scope = \<lparr>gs_identity = 1, gs_network = 1\<rparr>, pg_machine_id = ''m'',
                    pg_origin = origin_http ''10.0.0.2'' 80\<rparr>],
      gt_count = 1, gt_identity = 1, gt_network = 1, gt_offers = [], gt_revision = 1\<rparr>)
     HttpsOnly (origin_http ''10.0.0.2'' 80)"
proof -
  let ?t = "\<lparr>gt_grants = [\<lparr>pg_scope = \<lparr>gs_identity = 1, gs_network = 1\<rparr>, pg_machine_id = ''m'',
      pg_origin = origin_http ''10.0.0.2'' 80\<rparr>], gt_count = 1, gt_identity = 1, gt_network = 1,
      gt_offers = [], gt_revision = 1\<rparr>"
  have "grant_ok ?t" by (simp add: grant_ok_def)
  then show ?thesis
    using revocation_is_immediate [OF _ _ rtranclp.rtrancl_refl rtranclp.rtrancl_refl,
        of ?t "identity_changed ?t" "origin_http ''10.0.0.2'' 80"]
    by (simp add: origin_is_tls_def origin_http_def origin_new_def scheme_is_tls_def)
qed

section \<open>What an IP literal looks like\<close>

definition ip_char :: "char \<Rightarrow> bool" where
  "ip_char c = (is_hexdigit c \<or> c = CHR ''.'' \<or> c = CHR '':'')"

text \<open>A part of a literal consumes characters of literals only.\<close>

definition consumes :: "string \<Rightarrow> string \<Rightarrow> bool" where
  "consumes s r = (\<exists>p. s = p @ r \<and> list_all ip_char p)"

lemma consumes_refl: "consumes s s"
  by (simp add: consumes_def)

lemma consumes_trans: "consumes s r \<Longrightarrow> consumes r q \<Longrightarrow> consumes s q"
  by (fastforce simp: consumes_def)

lemma consumes_Cons: "ip_char c \<Longrightarrow> consumes s r \<Longrightarrow> consumes (c # s) r"
  by (metis consumes_def append_Cons list.pred_inject(2))

lemma radix_digit_ip: "is_radix_digit radix c \<Longrightarrow> ip_char c"
  by (auto simp: is_radix_digit_def ip_char_def is_hexdigit_def split: if_splits)

lemma read_number_consumes: "read_number radix d l z s = Some (n, r) \<Longrightarrow> consumes s r"
proof -
  assume "read_number radix d l z s = Some (n, r)"
  then have "r = dropWhile (is_radix_digit radix) s"
    by (auto simp: read_number_def Let_def dropWhile_eq_drop split: if_splits)
  moreover have "list_all ip_char (takeWhile (is_radix_digit radix) s)"
    using radix_digit_ip by (auto simp: list_all_iff dest: set_takeWhileD)
  ultimately show ?thesis unfolding consumes_def by (metis takeWhile_dropWhile_id)
qed

lemma read_separator_consumes:
  assumes "read_separator sep i inner s = Some (x, r)" and "ip_char sep"
    and "\<And>s x r. inner s = Some (x, r) \<Longrightarrow> consumes s r"
  shows "consumes s r"
  using assms by (auto simp: read_separator_def intro: consumes_Cons split: if_splits list.splits)

lemma separators_ip: "ip_char CHR ''.''" "ip_char CHR '':''"
  by (simp_all add: ip_char_def)

lemma read_octet_consumes:
  "read_separator CHR ''.'' i (read_number radix d l z) s = Some (n, r) \<Longrightarrow> consumes s r"
  by (rule read_separator_consumes) (auto simp: separators_ip intro: read_number_consumes)

lemma read_group_consumes:
  "read_separator CHR '':'' i (read_number radix d l z) s = Some (n, r) \<Longrightarrow> consumes s r"
  by (rule read_separator_consumes) (auto simp: separators_ip intro: read_number_consumes)

lemma read_octets_consumes: "read_octets k i s = Some (ns, r) \<Longrightarrow> consumes s r \<and> length ns = k"
proof (induction k arbitrary: i s ns r)
  case (Suc k)
  then obtain n q ns' where q: "read_separator CHR ''.'' i (read_number 10 3 255 False) s = Some (n, q)"
      "read_octets k (Suc i) q = Some (ns', r)" "ns = n # ns'"
    by (auto split: option.splits)
  then show ?case
    using consumes_trans [OF read_octet_consumes [OF q(1)]] Suc.IH [OF q(2)] by simp
qed (simp add: consumes_refl)

lemma read_ipv4_consumes: "read_ipv4 s = Some (ns, r) \<Longrightarrow> consumes s r"
  using read_octets_consumes by (auto simp: read_ipv4_def)

lemma read_embedded_consumes:
  "read_separator CHR '':'' i read_ipv4 s = Some (v4, r) \<Longrightarrow> consumes s r"
  by (rule read_separator_consumes) (auto simp: separators_ip intro: read_ipv4_consumes)

lemma read_groups_consumes: "read_groups k i s = (gs, flag, r) \<Longrightarrow> consumes s r"
proof (induction k arbitrary: i s gs flag r)
  case (Suc k)
  show ?case
  proof (cases "if 0 < k then read_separator CHR '':'' i read_ipv4 s else None")
    case (Some v)
    obtain v4 q where v: "v = (v4, q)" by fastforce
    have "r = q" using Suc.prems unfolding read_groups.simps(2) Some v by simp
    moreover have "read_separator CHR '':'' i read_ipv4 s = Some (v4, q)"
      using Some v by (cases "0 < k") simp_all
    ultimately show ?thesis by (simp add: read_embedded_consumes)
  next
    case none: None
    show ?thesis
    proof (cases "read_separator CHR '':'' i (read_number 16 4 65535 True) s")
      case None
      have "r = s" using Suc.prems by (simp only: read_groups.simps none None option.case prod.inject)
      then show ?thesis by (simp add: consumes_refl)
    next
      case (Some v)
      obtain g q where v: "v = (g, q)" by fastforce
      obtain gs' f' r' where rest: "read_groups k (Suc i) q = (gs', f', r')" by (metis prod_cases3)
      have "r = r'"
        using Suc.prems by (simp only: read_groups.simps none Some v rest option.case prod.case Let_def prod.inject)
      moreover have "consumes s q"
        using read_group_consumes Some v by simp
      ultimately show ?thesis using Suc.IH [OF rest] consumes_trans by simp
    qed
  qed
qed (simp add: consumes_refl)

lemma read_ipv6_consumes: "read_ipv6 s = Some (gs, r) \<Longrightarrow> consumes s r"
proof -
  assume read: "read_ipv6 s = Some (gs, r)"
  obtain h f q where h: "read_groups 8 0 s = (h, f, q)" by (metis prod_cases3)
  note sq = read_groups_consumes [OF h]
  show "consumes s r"
  proof (cases "length h = 8")
    case True
    then show ?thesis using read h sq by (simp add: read_ipv6_def)
  next
    case False
    then obtain q' where q': "strip_prefix ''::'' q = Some q'"
      using read h by (auto simp: read_ipv6_def split: if_splits option.splits)
    obtain l f' r' where l: "read_groups (8 - (length h + 1)) 0 q' = (l, f', r')" by (metis prod_cases3)
    have "r = r'" using read h q' l False by (auto simp: read_ipv6_def split: if_splits)
    moreover have "consumes q q'"
      using q' separators_ip(2) by (auto simp: strip_prefix_iff consumes_def)
    ultimately show ?thesis using sq consumes_trans read_groups_consumes [OF l] by blast
  qed
qed

lemma parse_ip_chars: "parse_ip s = Some a \<Longrightarrow> list_all ip_char s"
proof -
  assume "parse_ip s = Some a"
  then have "consumes s []"
    using read_ipv4_consumes read_ipv6_consumes
    by (fastforce simp: parse_ip_def split: option.splits if_splits)
  then show ?thesis by (simp add: consumes_def)
qed

lemma lan_host_chars: "is_lan_host host \<Longrightarrow> list_all ip_char host"
  using parse_ip_chars by (auto simp: is_lan_host_def split: option.splits)

lemma read_octets_numeral:
  "read_octets (numeral k) i s =
     (case read_separator CHR ''.'' i (read_number 10 3 255 False) s of
        None \<Rightarrow> None
      | Some (n, r) \<Rightarrow> map_option (\<lambda>(ns, r'). (n # ns, r')) (read_octets (pred_numeral k) (Suc i) r))"
  by (simp add: numeral_eq_Suc)

section \<open>Which addresses stay on the local network\<close>

text \<open>
  Networks as the standards write them: an address, read as one number, and the length of its prefix. The
  last entry of each family is the unspecified address, which is not a local one but is accepted too.
\<close>

definition number_of :: "nat \<Rightarrow> nat list \<Rightarrow> nat" where
  "number_of base ds = foldl (\<lambda>n d. n * base + d) 0 ds"

definition local_networks_v4 :: "(nat list \<times> nat) list" where
  "local_networks_v4 =
     [([10, 0, 0, 0], 8), ([172, 16, 0, 0], 12), ([192, 168, 0, 0], 16), ([127, 0, 0, 0], 8),
      ([169, 254, 0, 0], 16), ([0, 0, 0, 0], 32)]"

definition local_networks_v6 :: "(nat list \<times> nat) list" where
  "local_networks_v6 =
     [([0, 0, 0, 0, 0, 0, 0, 1], 128), ([0xfc00, 0, 0, 0, 0, 0, 0, 0], 7), ([0xfe80, 0, 0, 0, 0, 0, 0, 0], 10),
      ([0, 0, 0, 0, 0, 0, 0, 0], 128)]"

definition in_network :: "nat \<Rightarrow> nat \<Rightarrow> nat list \<Rightarrow> nat list \<times> nat \<Rightarrow> bool" where
  "in_network base bits a net =
     (number_of base a div 2 ^ (bits - snd net) = number_of base (fst net) div 2 ^ (bits - snd net))"

definition local_literal :: "string \<Rightarrow> bool" where
  "local_literal host =
     (case parse_ip host of
        None \<Rightarrow> False
      | Some (V4 a) \<Rightarrow> list_ex (in_network 256 32 a) local_networks_v4
      | Some (V6 g) \<Rightarrow> list_ex (in_network 65536 128 g) local_networks_v6)"

lemma read_number_bound: "read_number radix d limit z s = Some (n, r) \<Longrightarrow> n \<le> limit"
  by (auto simp: read_number_def Let_def split: if_splits)

lemma read_separator_bound:
  "read_separator sep i (read_number radix d limit z) s = Some (n, r) \<Longrightarrow> n \<le> limit"
  by (auto simp: read_separator_def dest: read_number_bound split: if_splits list.splits)

lemma read_octets_bound: "read_octets k i s = Some (ns, r) \<Longrightarrow> \<forall>n \<in> set ns. n < 256"
proof (induction k arbitrary: i s ns r)
  case (Suc k)
  then obtain n q ns' where q: "read_separator CHR ''.'' i (read_number 10 3 255 False) s = Some (n, q)"
      "read_octets k (Suc i) q = Some (ns', r)" "ns = n # ns'"
    by (auto split: option.splits)
  then show ?case using Suc.IH [OF q(2)] read_separator_bound [OF q(1)] by auto
qed simp

lemma four_digits: "length a = 4 \<Longrightarrow> \<exists>w x y z. a = [w, x, y, z]"
  by (auto simp: eval_nat_numeral length_Suc_conv)

lemma eight_digits: "length a = 8 \<Longrightarrow> \<exists>a0 a1 a2 a3 a4 a5 a6 a7. a = [a0, a1, a2, a3, a4, a5, a6, a7]"
  by (auto simp: eval_nat_numeral length_Suc_conv)

lemma embedded_octets:
  assumes "read_separator CHR '':'' i read_ipv4 s = Some (v4, r)"
  shows "v4 ! 0 * 256 + v4 ! 1 < 65536" "v4 ! 2 * 256 + v4 ! 3 < 65536"
proof -
  obtain q where q: "read_octets 4 0 q = Some (v4, r)"
    using assms by (auto simp: read_separator_def read_ipv4_def split: if_splits list.splits)
  then obtain w x y z where v4: "v4 = [w, x, y, z]" using read_octets_consumes four_digits by blast
  have "v4 ! 0 < 256" "v4 ! 1 < 256" "v4 ! 2 < 256" "v4 ! 3 < 256"
    using read_octets_bound [OF q] by (simp_all add: v4)
  then show "v4 ! 0 * 256 + v4 ! 1 < 65536" "v4 ! 2 * 256 + v4 ! 3 < 65536" by linarith+
qed

lemma read_groups_bound: "read_groups k i s = (gs, f, r) \<Longrightarrow> length gs \<le> k \<and> (\<forall>g \<in> set gs. g < 65536)"
proof (induction k arbitrary: i s gs f r)
  case (Suc k)
  show ?case
  proof (cases "if 0 < k then read_separator CHR '':'' i read_ipv4 s else None")
    case (Some v)
    obtain v4 q where v: "v = (v4, q)" by fastforce
    have gs: "gs = [v4 ! 0 * 256 + v4 ! 1, v4 ! 2 * 256 + v4 ! 3]"
      using Suc.prems unfolding read_groups.simps(2) Some v by simp
    have sep: "0 < k" "read_separator CHR '':'' i read_ipv4 s = Some (v4, q)"
      using Some v by (cases "0 < k"; simp)+
    then show ?thesis using embedded_octets [OF sep(2)] by (simp add: gs)
  next
    case none: None
    show ?thesis
    proof (cases "read_separator CHR '':'' i (read_number 16 4 65535 True) s")
      case None
      have "gs = []" using Suc.prems by (simp only: read_groups.simps none None option.case prod.inject)
      then show ?thesis by simp
    next
      case (Some v)
      obtain g q where v: "v = (g, q)" by fastforce
      obtain gs' f' r' where rest: "read_groups k (Suc i) q = (gs', f', r')" by (metis prod_cases3)
      have "gs = g # gs'"
        using Suc.prems by (simp only: read_groups.simps none Some v rest option.case prod.case Let_def prod.inject)
      then show ?thesis using Suc.IH [OF rest] read_separator_bound [OF Some [unfolded v]] by auto
    qed
  qed
qed simp

lemma read_ipv6_bound: "read_ipv6 s = Some (gs, r) \<Longrightarrow> length gs = 8 \<and> (\<forall>g \<in> set gs. g < 65536)"
proof -
  assume read: "read_ipv6 s = Some (gs, r)"
  obtain h f q where h: "read_groups 8 0 s = (h, f, q)" by (metis prod_cases3)
  note bh = read_groups_bound [OF h]
  show ?thesis
  proof (cases "length h = 8")
    case True
    then show ?thesis using read h bh by (simp add: read_ipv6_def)
  next
    case False
    then obtain q' where q': "strip_prefix ''::'' q = Some q'" and "\<not> f"
      using read h by (auto simp: read_ipv6_def split: if_splits option.splits)
    obtain l f' r' where l: "read_groups (8 - (length h + 1)) 0 q' = (l, f', r')" by (metis prod_cases3)
    have "gs = h @ replicate (8 - length h - length l) 0 @ l"
      using read h q' l False by (auto simp: read_ipv6_def split: if_splits)
    then show ?thesis using bh read_groups_bound [OF l] False by auto
  qed
qed

lemma parse_ip_bound:
  "parse_ip s = Some (V4 a) \<Longrightarrow> length a = 4 \<and> (\<forall>d \<in> set a. d < 256)"
  "parse_ip s = Some (V6 g) \<Longrightarrow> length g = 8 \<and> (\<forall>d \<in> set g. d < 65536)"
  using read_octets_consumes [of 4 0 s] read_octets_bound [of 4 0 s] read_ipv6_bound [of s]
  by (fastforce simp: parse_ip_def read_ipv4_def split: option.splits if_splits)+

lemma number_of_append:
  "number_of base (xs @ ys) = number_of base xs * base ^ length ys + number_of base ys"
proof (induction ys rule: rev_induct)
  case (snoc y ys)
  have "number_of base (xs @ ys @ [y]) = number_of base (xs @ ys) * base + y" by (simp add: number_of_def)
  moreover have "number_of base (ys @ [y]) = number_of base ys * base + y" by (simp add: number_of_def)
  ultimately show ?case using snoc by (simp add: algebra_simps)
qed (simp add: number_of_def)

lemma number_of_less: "\<forall>d \<in> set ds. d < base \<Longrightarrow> number_of base ds < base ^ length ds"
proof (induction ds rule: rev_induct)
  case (snoc d ds)
  then have "Suc (number_of base ds) * base \<le> base ^ length ds * base" by (intro mult_le_mono1) simp
  moreover have "number_of base (ds @ [d]) = number_of base ds * base + d" by (simp add: number_of_def)
  ultimately show ?case using snoc.prems by (simp add: mult.commute)
qed (simp add: number_of_def)

text \<open>A prefix of whole digits drops the others.\<close>

lemma number_of_prefix:
  "\<forall>d \<in> set ys. d < base \<Longrightarrow> number_of base (xs @ ys) div base ^ length ys = number_of base xs"
proof -
  assume "\<forall>d \<in> set ys. d < base"
  then have "number_of base ys < base ^ length ys" by (rule number_of_less)
  then show ?thesis by (simp only: number_of_append div_mult_self3 div_less)
qed

text \<open>Two digits of a base determine each other.\<close>

lemma two_digits:
  fixes w x p q b :: nat
  assumes "x < b" and "q < b"
  shows "w * b + x = p * b + q \<longleftrightarrow> w = p \<and> x = q"
proof
  assume e: "w * b + x = p * b + q"
  have "w = (w * b + x) div b" "p = (p * b + q) div b" using assms by simp_all
  then have "w = p" using e by simp
  then show "w = p \<and> x = q" using e by simp
qed simp

lemma local_v4:
  assumes "length a = 4" and "\<forall>d \<in> set a. d < 256"
  shows "list_ex (in_network 256 32 a) local_networks_v4 \<longleftrightarrow>
    a ! 0 = 10 \<or> a ! 0 = 172 \<and> 16 \<le> a ! 1 \<and> a ! 1 \<le> 31 \<or> a ! 0 = 192 \<and> a ! 1 = 168 \<or>
    a ! 0 = 127 \<or> a ! 0 = 169 \<and> a ! 1 = 254 \<or> a = [0, 0, 0, 0]"
proof -
  obtain w x y z where a: "a = [w, x, y, z]" using four_digits [OF assms(1)] by blast
  have lt: "w < 256" "x < 256" "y < 256" "z < 256" using assms(2) by (simp_all add: a)
  have n: "number_of 256 a = ((w * 256 + x) * 256 + y) * 256 + z" by (simp add: number_of_def a)
  have first: "number_of 256 a div 2 ^ 24 = w" unfolding n using lt by simp
  have two: "number_of 256 a div 2 ^ 16 = w * 256 + x" unfolding n using lt by simp
  have "number_of 256 a div 2 ^ 20 = number_of 256 a div 2 ^ 16 div 2 ^ 4" by (simp add: div_mult2_eq [symmetric])
  then have twelve: "number_of 256 a div 2 ^ 20 = (w * 256 + x) div 16" using two by simp
  have zero: "number_of 256 a = 0 \<longleftrightarrow> a = [0, 0, 0, 0]" by (simp add: n) (simp add: a)
  have "(w * 16 * 16 + x) div 16 = w * 16 + x div 16" by (rule div_mult_self3) simp
  moreover have "w * 256 + x = w * 16 * 16 + x" by simp
  ultimately have "(w * 256 + x) div 16 = w * 16 + x div 16" by (simp only:)
  moreover have "w * 16 + x div 16 = 172 * 16 + 1 \<longleftrightarrow> w = 172 \<and> x div 16 = 1"
    by (rule two_digits) (use lt in simp_all)
  moreover have "x div 16 = 1 \<longleftrightarrow> 16 \<le> x \<and> x \<le> 31" by presburger
  ultimately have mid: "(w * 256 + x) div 16 = 2753 \<longleftrightarrow> w = 172 \<and> 16 \<le> x \<and> x \<le> 31" by simp
  have pair: "w * 256 + x = 49320 \<longleftrightarrow> w = 192 \<and> x = 168" "w * 256 + x = 43518 \<longleftrightarrow> w = 169 \<and> x = 254"
    using two_digits [OF lt(2), of 168 w 192] two_digits [OF lt(2), of 254 w 169] by simp_all
  have nets: "list_ex (in_network 256 32 a) local_networks_v4 \<longleftrightarrow>
      number_of 256 a div 2 ^ 24 = 10 \<or> number_of 256 a div 2 ^ 20 = 2753 \<or> number_of 256 a div 2 ^ 16 = 49320 \<or>
      number_of 256 a div 2 ^ 24 = 127 \<or> number_of 256 a div 2 ^ 16 = 43518 \<or> number_of 256 a = 0"
    by (simp add: local_networks_v4_def in_network_def number_of_def [of 256 "_ # _"])
  show ?thesis
    unfolding nets first two twelve zero mid pair by (simp add: a)
qed

lemma and_high_mask:
  fixes x :: nat
  assumes "x < 2 ^ (k + l)"
  shows "x AND push_bit k (mask l) = push_bit k (drop_bit k x)"
proof (rule bit_eqI)
  fix n
  have "n < k + l" if "bit x n"
    using assms that by (metis bit_take_bit_iff take_bit_nat_eq_self)
  then show "bit (x AND push_bit k (mask l)) n \<longleftrightarrow> bit (push_bit k (drop_bit k x)) n"
    by (auto simp: bit_and_iff bit_push_bit_iff bit_mask_iff bit_drop_bit_eq)
qed

lemma unique_local_mask: "(x :: nat) < 65536 \<Longrightarrow> x AND 0xfe00 = 0xfc00 \<longleftrightarrow> x div 512 = 126"
  using and_high_mask [of x 9 7] by (simp add: push_bit_eq_mult drop_bit_eq_div mask_eq_exp_minus_1)

lemma link_local_mask: "(x :: nat) < 65536 \<Longrightarrow> x AND 0xffc0 = 0xfe80 \<longleftrightarrow> x div 64 = 1018"
  using and_high_mask [of x 6 10] by (simp add: push_bit_eq_mult drop_bit_eq_div mask_eq_exp_minus_1)

lemma local_v6:
  assumes "length g = 8" and "\<forall>d \<in> set g. d < 65536"
  shows "list_ex (in_network 65536 128 g) local_networks_v6 \<longleftrightarrow>
    g = [0, 0, 0, 0, 0, 0, 0, 1] \<or> g = [0, 0, 0, 0, 0, 0, 0, 0] \<or>
    g ! 0 AND 0xfe00 = 0xfc00 \<or> g ! 0 AND 0xffc0 = 0xfe80"
proof -
  obtain g0 gs where g: "g = g0 # gs" "length gs = 7" using assms(1) by (cases g) auto
  have lt: "g0 < 65536" "\<forall>d \<in> set gs. d < 65536" using assms(2) by (simp_all add: g)
  have "number_of 65536 ([g0] @ gs) div 65536 ^ 7 = number_of 65536 [g0]"
    using number_of_prefix [OF lt(2), of "[g0]"] g(2) by simp
  then have top: "number_of 65536 g div 2 ^ 112 = g0" by (simp add: g number_of_def)
  have "number_of 65536 g div 2 ^ 121 = number_of 65536 g div 2 ^ 112 div 2 ^ 9"
    "number_of 65536 g div 2 ^ 118 = number_of 65536 g div 2 ^ 112 div 2 ^ 6"
    by (simp_all add: div_mult2_eq [symmetric])
  then have seven: "number_of 65536 g div 2 ^ 121 = g0 div 512" and ten: "number_of 65536 g div 2 ^ 118 = g0 div 64"
    using top by simp_all
  obtain a b c d e f h where gs: "gs = [a, b, c, d, e, f, h]"
    using eight_digits [OF assms(1)] by (auto simp: g(1))
  have n: "number_of 65536 g =
      ((((((g0 * 65536 + a) * 65536 + b) * 65536 + c) * 65536 + d) * 65536 + e) * 65536 + f) * 65536 + h"
    by (simp add: number_of_def g(1) gs)
  have zero: "number_of 65536 g = 0 \<longleftrightarrow> g = [0, 0, 0, 0, 0, 0, 0, 0]" by (simp add: n) (auto simp: g(1) gs)
  have "x * 65536 + h = 1 \<longleftrightarrow> x = 0 \<and> h = 1" for x :: nat
    using two_digits [of h 65536 1 x 0] lt(2) by (simp add: gs)
  then have one: "number_of 65536 g = 1 \<longleftrightarrow> g = [0, 0, 0, 0, 0, 0, 0, 1]"
    by (simp only: n) (simp add: g(1) gs)
  have nets: "list_ex (in_network 65536 128 g) local_networks_v6 \<longleftrightarrow>
      number_of 65536 g = 1 \<or> number_of 65536 g div 2 ^ 121 = 126 \<or> number_of 65536 g div 2 ^ 118 = 1018 \<or>
      number_of 65536 g = 0"
    by (simp add: local_networks_v6_def in_network_def number_of_def [of 65536 "_ # _"])
  show ?thesis
    unfolding nets zero one seven ten using unique_local_mask [OF lt(1)] link_local_mask [OF lt(1)]
    by (auto simp: g(1))
qed

lemma lan_host_iff: "is_lan_host host \<longleftrightarrow> local_literal host"
  by (auto simp: is_lan_host_def local_literal_def local_v4 local_v6 parse_ip_bound split: option.splits ip_addr.splits)

section \<open>Which requests show a credential\<close>

text \<open>
  What makes a request one with a credential, stated on its text: a key in the path, in any case, or a
  header of one of four names. Of the headers the first decisive one tells whose the credential is.
\<close>

definition path_names :: "string \<Rightarrow> string \<Rightarrow> bool" where
  "path_names path key = (\<exists>pre post. to_lower path = pre @ key @ post)"

definition header_named :: "string \<Rightarrow> string \<Rightarrow> string \<Rightarrow> bool" where
  "header_named name val h = (\<exists>raw. h = raw @ CHR '':'' # val \<and> CHR '':'' \<notin> set raw \<and> to_lower (trim_str raw) = name)"

definition decisive :: "string \<Rightarrow> bool" where
  "decisive h = (\<exists>val. header_named ''x-plex-token'' val h \<or> header_named ''authorization'' val h)"

definition emby_header :: "string \<Rightarrow> bool" where
  "emby_header h = (\<exists>val. header_named ''x-emby-token'' val h \<or> header_named ''x-emby-authorization'' val h)"

definition mediabrowser :: "string \<Rightarrow> bool" where
  "mediabrowser h = (\<exists>val rest. header_named ''authorization'' val h \<and> trim_start val = ''MediaBrowser'' @ rest)"

definition shows_credential :: "string \<Rightarrow> string list \<Rightarrow> bool" where
  "shows_credential path headers =
     (path_names path ''x-plex-token='' \<or> path_names path ''api_key='' \<or>
      (\<exists>h \<in> set headers. decisive h \<or> emby_header h))"

definition shows_jellyfin :: "string \<Rightarrow> string list \<Rightarrow> bool" where
  "shows_jellyfin path headers =
     (\<not> path_names path ''x-plex-token='' \<and>
      (path_names path ''api_key='' \<or>
       (case find decisive headers of Some h \<Rightarrow> mediabrowser h | None \<Rightarrow> \<exists>h \<in> set headers. emby_header h)))"

lemma contains_str_iff: "contains_str pat s \<longleftrightarrow> (\<exists>pre post. s = pre @ pat @ post)"
proof
  show "contains_str pat s \<Longrightarrow> \<exists>pre post. s = pre @ pat @ post"
    using split_once_str_SomeD by (fastforce simp: contains_str_def)
next
  assume "\<exists>pre post. s = pre @ pat @ post"
  then obtain pre post where "s = pre @ pat @ post" by blast
  then show "contains_str pat s"
  proof (induction pre arbitrary: s)
    case Nil
    then have strip: "strip_prefix pat s = Some post" by (simp add: strip_prefix_iff)
    show ?case
    proof (cases s)
      case Nil
      then show ?thesis using \<open>s = [] @ pat @ post\<close> by (simp add: contains_str_def)
    next
      case (Cons c cs)
      then show ?thesis using strip by (simp add: contains_str_def)
    qed
  next
    case (Cons c pre)
    then show ?case by (auto simp: contains_str_def split: option.splits)
  qed
qed

lemma header_named_iff:
  "header_named name val h \<longleftrightarrow> (\<exists>raw. split_once CHR '':'' h = Some (raw, val) \<and> to_lower (trim_str raw) = name)"
  by (auto simp: header_named_def split_once_iff)

lemma lower_names:
  "to_lower ''x-plex-token'' = ''x-plex-token''" "to_lower ''authorization'' = ''authorization''"
  "to_lower ''x-emby-token'' = ''x-emby-token''" "to_lower ''x-emby-authorization'' = ''x-emby-authorization''"
  by (simp_all add: to_lower_def ascii_lower_def is_upper_def byte_of_def)

lemma header_named_ignore_case:
  assumes "to_lower name = name"
  shows "header_named name val h \<longleftrightarrow>
    (case split_once CHR '':'' h of None \<Rightarrow> False | Some (raw, v) \<Rightarrow> v = val \<and> eq_ignore_case (trim_str raw) name)"
  using assms by (auto simp: header_named_iff eq_ignore_case_def split: option.splits)

lemma header_classes:
  "decisive h \<longleftrightarrow> (case split_once CHR '':'' h of None \<Rightarrow> False | Some (raw, v) \<Rightarrow>
     eq_ignore_case (trim_str raw) ''x-plex-token'' \<or> eq_ignore_case (trim_str raw) ''authorization'')"
  "emby_header h \<longleftrightarrow> (case split_once CHR '':'' h of None \<Rightarrow> False | Some (raw, v) \<Rightarrow>
     eq_ignore_case (trim_str raw) ''x-emby-token'' \<or> eq_ignore_case (trim_str raw) ''x-emby-authorization'')"
  "mediabrowser h \<longleftrightarrow> (case split_once CHR '':'' h of None \<Rightarrow> False | Some (raw, v) \<Rightarrow>
     eq_ignore_case (trim_str raw) ''authorization'' \<and> starts_with ''MediaBrowser'' (trim_start v))"
  by (auto simp: decisive_def emby_header_def mediabrowser_def header_named_ignore_case lower_names
      starts_with_iff split: option.splits)

lemma header_credential_iff:
  "header_credential saw headers =
     (case find decisive headers of
        Some h \<Rightarrow> if mediabrowser h then Jellyfin else Legacy
      | None \<Rightarrow> if \<exists>h \<in> set headers. emby_header h then Jellyfin else saw)"
proof (induction headers arbitrary: saw)
  case (Cons h hs)
  show ?case
  proof (cases "split_once CHR '':'' h")
    case None
    then have "\<not> decisive h" "\<not> emby_header h" by (simp_all add: header_classes)
    then show ?thesis using None Cons [of saw] by auto
  next
    case (Some f)
    obtain raw v where f: "f = (raw, v)" by fastforce
    note c = header_classes [of h, unfolded Some f option.case prod.case]
    show ?thesis
    proof (cases "decisive h")
      case True
      then show ?thesis by (simp add: Some f c)
    next
      case False
      then have step: "header_credential saw (h # hs) = header_credential (if emby_header h then Jellyfin else saw) hs"
        by (simp add: Some f c)
      show ?thesis unfolding step Cons using False by (auto split: option.splits)
    qed
  qed
qed simp

lemma carried_iff:
  "carries_credential path headers \<longleftrightarrow> shows_credential path headers"
  "credential_carried path headers = Jellyfin \<longleftrightarrow> shows_jellyfin path headers"
proof -
  have names: "contains_str key (to_lower path) \<longleftrightarrow> path_names path key" for key
    by (simp only: contains_str_iff path_names_def)
  have "header_credential NoCredential headers \<noteq> NoCredential \<longleftrightarrow>
      (\<exists>h \<in> set headers. decisive h \<or> emby_header h)"
  proof (cases "find decisive headers")
    case None
    then have "\<forall>h \<in> set headers. \<not> decisive h" by (simp add: find_None_iff)
    then show ?thesis by (auto simp: header_credential_iff None)
  next
    case (Some h)
    then have "h \<in> set headers \<and> decisive h" by (auto simp: find_Some_iff)
    then show ?thesis by (auto simp: header_credential_iff Some)
  qed
  then show "carries_credential path headers \<longleftrightarrow> shows_credential path headers"
    by (simp only: carries_credential_def credential_carried_def shows_credential_def Let_def names) simp
  have "header_credential NoCredential headers = Jellyfin \<longleftrightarrow>
      (case find decisive headers of Some h \<Rightarrow> mediabrowser h | None \<Rightarrow> \<exists>h \<in> set headers. emby_header h)"
    by (simp add: header_credential_iff split: option.splits)
  then show "credential_carried path headers = Jellyfin \<longleftrightarrow> shows_jellyfin path headers"
    by (simp only: credential_carried_def shows_jellyfin_def Let_def names) simp
qed

section \<open>What the gate admits\<close>

lemma reachable_no_grants:
  "grants.reachable t \<Longrightarrow> allowed_under t HttpsOnly orig = origin_is_tls orig"
proof -
  assume "grants.reachable t"
  then have "grant_ok t" "gt_grants t = []" using grants.reachable_inv by blast+
  then show ?thesis by (simp add: allowed_under_def may_carry_credential_def no_grants_allowed)
qed

lemma plaintext_host_iff:
  "plaintext_host_allowed env orig =
     (is_lan_host (o_host orig) \<and>
      (map_option o_host (te_client env) = Some (o_host orig) \<or> te_anchor env = Some (o_host orig)))"
  by (auto simp: plaintext_host_allowed_def signin_anchor_matches_def split: option.splits)

lemma gate_iff:
  assumes "grants.reachable (te_grants env)" and "te_policy env = HttpsOnly"
  shows "credential_transport_allowed env orig path headers \<longleftrightarrow>
    \<not> carries_credential path headers \<or> origin_is_tls orig \<or>
    credential_carried path headers = Jellyfin \<and> is_lan_host (o_host orig) \<and>
      (map_option o_host (te_client env) = Some (o_host orig) \<or> te_anchor env = Some (o_host orig))"
  using reachable_no_grants [OF assms(1)]
  by (auto simp: credential_transport_allowed_def transport_allowed_by_policy_def carries_credential_def
      plaintext_host_iff assms(2) split: credential.splits)

text \<open>
  What the gate compares is the host: whatever scheme and port the installed client has, every origin of
  its host is admitted.
\<close>

lemma gate_compares_hosts:
  assumes "te_client env = Some installed" and "is_lan_host (o_host installed)"
    and "credential_carried path headers = Jellyfin"
  shows "credential_transport_allowed env
    \<lparr>o_scheme = Http, o_host = o_host installed, o_port = port\<rparr> path headers"
  using assms by (simp add: credential_transport_allowed_def transport_allowed_by_policy_def
      plaintext_host_allowed_def)



text \<open>
  The sign-in gate and the scope that carries its answer agree. While a sign-in against an origin
  holds its anchor, the gate of every request to that origin answers what the sign-in gate answered
  before it; the scope opens no other host; and leaving it restores the anchor that was there, so scopes
  nest. A sign-in never opens plaintext to a public address or a name.
\<close>

theorem signin_scope_is_exact:
  assumes "anchor_enter orig env = (within, prev)"
  shows "credential_transport_allowed within orig path headers = signin_transport_allowed env orig path headers \<and>
    (credential_transport_allowed within other path headers \<longrightarrow>
       o_host other = o_host orig \<or> credential_transport_allowed env other path headers) \<and>
    (\<not> is_lan_host (o_host orig) \<longrightarrow>
       signin_transport_allowed env orig path headers = credential_transport_allowed env orig path headers) \<and>
    anchor_drop prev within = env"
proof -
  have w: "within = env\<lparr>te_anchor := Some (o_host orig)\<rparr>" "prev = te_anchor env"
    using assms by (simp_all add: anchor_enter_def)
  show ?thesis
    unfolding w credential_transport_allowed_def signin_transport_allowed_def signin_allowed_by_policy_def
      transport_allowed_by_policy_def
    by (cases "credential_carried path headers") (auto simp: plaintext_host_iff anchor_drop_def)
qed

theorem signin_scope_is_exact_witness:
  "credential_transport_allowed
     (fst (anchor_enter (origin_http ''10.0.0.2'' 8096)
        \<lparr>te_policy = HttpsOnly, te_grants = grant_table_init, te_client = None, te_anchor = None\<rparr>))
     (origin_http ''10.0.0.2'' 8096) ''/socket?api_key=k'' []"
proof -
  let ?env = "\<lparr>te_policy = HttpsOnly, te_grants = grant_table_init, te_client = None, te_anchor = None\<rparr>"
  let ?o = "origin_http ''10.0.0.2'' 8096"
  have "is_lan_host (o_host ?o)"
    by (simp add: origin_http_def origin_new_def unbracket_def is_lan_host_def parse_ip_def read_ipv4_def
        read_octets_numeral read_number_def read_separator_def is_radix_digit_def radix_value_def is_digit_def
        byte_of_def Let_def)
  moreover have "credential_carried ''/socket?api_key=k'' [] = Jellyfin"
    by (simp add: credential_carried_def contains_str_def to_lower_def ascii_lower_def is_upper_def byte_of_def Let_def)
  ultimately have "signin_transport_allowed ?env ?o ''/socket?api_key=k'' []"
    by (simp add: signin_transport_allowed_def signin_allowed_by_policy_def)
  moreover obtain within prev where e: "anchor_enter ?o ?env = (within, prev)" by fastforce
  ultimately show ?thesis
    using signin_scope_is_exact [OF e, of "''/socket?api_key=k''" "[]" ?o] by simp
qed

section \<open>The report\<close>

fun report_run :: "u8 \<Rightarrow> (credential_policy \<times> bool) list \<Rightarrow> report_line list" where
  "report_run seen [] = []"
| "report_run seen ((policy, allowed) # es) =
     (let (seen', line) = plaintext_credential_report seen policy allowed
      in (case line of None \<Rightarrow> [] | Some l \<Rightarrow> [l]) @ report_run seen' es)"

definition line_bit :: "report_line \<Rightarrow> u8" where
  "line_bit l = (case l of DeveloperBuild \<Rightarrow> 1 | SentUnderGrant \<Rightarrow> 2 | RefusedPlaintext \<Rightarrow> 4)"

lemma report_bit_line: "report_bit policy allowed = (line_bit l, l) \<longleftrightarrow> snd (report_bit policy allowed) = l"
  by (auto simp: report_bit_def line_bit_def)

lemma line_bit_seen: "(seen OR line_bit l) AND line_bit m = 0 \<longleftrightarrow> seen AND line_bit m = 0 \<and> l \<noteq> m"
  by (cases l; cases m) (simp_all add: line_bit_def bit.conj_disj_distrib2 or_eq_0_iff)

lemma report_run_lines:
  "distinct (report_run seen es) \<and>
   set (report_run seen es) = {l \<in> (\<lambda>(p, a). snd (report_bit p a)) ` set es. seen AND line_bit l = 0}"
proof (induction es arbitrary: seen)
  case (Cons e es)
  obtain p a where e: "e = (p, a)" by fastforce
  define l where "l = snd (report_bit p a)"
  have b: "report_bit p a = (line_bit l, l)" using report_bit_line l_def by blast
  show ?case using Cons [of "seen OR line_bit l"]
    by (auto simp: e plaintext_credential_report_def b line_bit_seen)
qed simp

text \<open>
  The plaintext report is once per outcome: over any sequence of crossings each line is logged at
  most once, and the lines logged are exactly the outcomes met.
\<close>

theorem report_is_once_per_outcome:
  "distinct (report_run 0 crossings) \<and>
   set (report_run 0 crossings) = (\<lambda>(policy, allowed). snd (report_bit policy allowed)) ` set crossings"
  using report_run_lines [of 0 crossings] by auto

end
