(* ===== verification/Redirect_Correct.thy ===== *)
theory Redirect_Correct
  imports Redirect Transport_Correct
begin

text \<open>
  Following redirects is correct: what a resolved \<open>Location\<close> looks like, which requests a followed open
  puts on the wire, and how it ends. The loop is a step relation over (hop, target, requests sent), and
  its invariants are those of the \<open>state_machine\<close> of the prelude.
\<close>

section \<open>Paths and queries\<close>

definition path_part :: "string \<Rightarrow> string" where
  "path_part p = (case split_once CHR ''?'' p of Some (a, _) \<Rightarrow> a | None \<Rightarrow> p)"

definition query_part :: "string \<Rightarrow> string option" where
  "query_part p = map_option snd (split_once CHR ''?'' p)"

definition location_body :: "string \<Rightarrow> string" where
  "location_body loc = hd (split_on CHR ''#'' (trim_blanks loc))"

lemma split_once_skip: "x \<notin> set a \<Longrightarrow> split_once x (a @ b) = map_option (\<lambda>(p, q). (a @ p, q)) (split_once x b)"
  by (induction a; cases "split_once x b") auto

lemma query_skip: "CHR ''?'' \<notin> set a \<Longrightarrow> query_part (a @ b) = query_part b"
  by (simp add: query_part_def split_once_skip option.map_comp o_def case_prod_unfold)

lemma query_skip_Cons: "c \<noteq> CHR ''?'' \<Longrightarrow> query_part (c # b) = query_part b"
  using query_skip [of "[c]" b] by simp

lemma hd_split_on: "hd (split_on x s) = takeWhile (\<lambda>c. c \<noteq> x) s"
proof (induction s)
  case (Cons c cs)
  then show ?case by (cases "split_on x cs") auto
qed simp

lemma path_part_take: "path_part p = takeWhile (\<lambda>c. c \<noteq> CHR ''?'') p"
proof (cases "split_once CHR ''?'' p")
  case None
  then have "takeWhile (\<lambda>c. c \<noteq> CHR ''?'') p = p" by (auto simp: split_once_None_iff takeWhile_eq_all_conv)
  then show ?thesis unfolding path_part_def None option.case by (rule sym)
next
  case (Some v)
  obtain a b where v: "v = (a, b)" by fastforce
  with Some have "p = a @ CHR ''?'' # b" "CHR ''?'' \<notin> set a" by (simp_all add: split_once_iff)
  moreover from this have "takeWhile (\<lambda>c. c \<noteq> CHR ''?'') p = a" by (simp add: takeWhile_append)
  ultimately show ?thesis using Some v by (simp add: path_part_def)
qed

section \<open>Normalized paths\<close>

abbreviation dot_segment :: "string \<Rightarrow> bool" where
  "dot_segment w \<equiv> w = ''.'' \<or> w = ''..''"

lemma norm_segments_dots:
  "list_all (\<lambda>w. \<not> dot_segment w) out \<Longrightarrow> list_all (\<lambda>w. \<not> dot_segment w) (norm_segments out segs)"
proof (induction out segs rule: norm_segments.induct)
  case (2 out s segs)
  have "list_all (\<lambda>w. \<not> dot_segment w) (butlast out)"
    using 2(4) by (auto simp: list_all_iff dest: in_set_butlastD)
  then show ?case using 2 by simp
qed simp

lemma norm_segments_set: "w \<in> set (norm_segments out segs) \<Longrightarrow> w = [] \<or> w \<in> set out \<or> w \<in> set segs"
  by (induction out segs rule: norm_segments.induct) (auto dest: in_set_butlastD split: if_splits)

text \<open>The segments of a normalized path: none is a dot segment and none has a slash or a question mark.\<close>

lemma normalize_form:
  obtains ws where "normalize_path p =
      CHR ''/'' # join_with CHR ''/'' ws @ (case query_part p of None \<Rightarrow> [] | Some q \<Rightarrow> CHR ''?'' # q)"
    and "list_all (\<lambda>w. \<not> dot_segment w) ws"
    and "\<And>w. w \<in> set ws \<Longrightarrow> CHR ''/'' \<notin> set w \<and> set w \<subseteq> set (path_part p)"
proof
  let ?ws = "norm_segments [] (tl (split_on CHR ''/'' (path_part p)))"
  show "normalize_path p =
      CHR ''/'' # join_with CHR ''/'' ?ws @ (case query_part p of None \<Rightarrow> [] | Some q \<Rightarrow> CHR ''?'' # q)"
    by (auto simp: normalize_path_def path_part_def query_part_def Let_def split: option.splits)
  show "list_all (\<lambda>w. \<not> dot_segment w) ?ws" by (rule norm_segments_dots) simp
  fix w assume "w \<in> set ?ws"
  then have "w = [] \<or> w \<in> set (split_on CHR ''/'' (path_part p))"
    using norm_segments_set [of w "[]"] list.set_sel(2) [OF split_on_nonempty] by fastforce
  then show "CHR ''/'' \<notin> set w \<and> set w \<subseteq> set (path_part p)"
    using split_on_no_sep split_on_chars by fastforce
qed

lemma normalize_no_mark:
  "(\<And>w. w \<in> set ws \<Longrightarrow> set w \<subseteq> set (path_part p)) \<Longrightarrow> CHR ''?'' \<notin> set (CHR ''/'' # join_with CHR ''/'' ws)"
  using join_with_chars [of "CHR ''/''" ws] by (auto simp: path_part_take dest!: set_takeWhileD subsetD)

lemma query_normalize: "query_part (normalize_path p) = query_part p"
proof -
  obtain ws where ws: "normalize_path p =
      CHR ''/'' # join_with CHR ''/'' ws @ (case query_part p of None \<Rightarrow> [] | Some q \<Rightarrow> CHR ''?'' # q)"
    "\<And>w. w \<in> set ws \<Longrightarrow> set w \<subseteq> set (path_part p)" by (rule normalize_form) blast
  show ?thesis
    using query_skip [OF normalize_no_mark [OF ws(2)]] ws(1)
    by (simp add: query_part_def split: option.splits)
qed

lemma normalize_segments:
  assumes "w \<in> set (split_on CHR ''/'' (path_part (normalize_path p)))"
  shows "\<not> dot_segment w"
proof -
  obtain ws where ws: "normalize_path p =
      CHR ''/'' # join_with CHR ''/'' ws @ (case query_part p of None \<Rightarrow> [] | Some q \<Rightarrow> CHR ''?'' # q)"
    "list_all (\<lambda>w. \<not> dot_segment w) ws"
    "\<And>w. w \<in> set ws \<Longrightarrow> CHR ''/'' \<notin> set w \<and> set w \<subseteq> set (path_part p)" by (rule normalize_form) blast
  have mark: "CHR ''?'' \<notin> set (CHR ''/'' # join_with CHR ''/'' ws)"
    by (rule normalize_no_mark) (use ws(3) in blast)
  then have "path_part (normalize_path p) = CHR ''/'' # join_with CHR ''/'' ws"
    unfolding ws(1) path_part_take by (auto simp: takeWhile_append takeWhile_eq_all_conv split: option.splits)
  then have w: "w = [] \<or> w \<in> set (split_on CHR ''/'' (join_with CHR ''/'' ws))" using assms by auto
  show ?thesis
  proof (cases "ws = []")
    case False
    then have "split_on CHR ''/'' (join_with CHR ''/'' ws) = ws"
      using ws(3) by (intro split_join) (auto simp: list_all_iff)
    then show ?thesis using w ws(2) by (auto simp: list_all_iff)
  qed (use w in auto)
qed

lemma normalize_starts: "starts_with ''/'' (normalize_path p)"
  by (auto simp: normalize_path_def starts_with_def Let_def split: option.splits)

lemma normalize_chars: "set (normalize_path p) \<subseteq> insert CHR ''/'' (set p)"
proof -
  obtain ws where ws: "normalize_path p =
      CHR ''/'' # join_with CHR ''/'' ws @ (case query_part p of None \<Rightarrow> [] | Some q \<Rightarrow> CHR ''?'' # q)"
    "\<And>w. w \<in> set ws \<Longrightarrow> set w \<subseteq> set (path_part p)" by (rule normalize_form) blast
  have q: "set (case query_part p of None \<Rightarrow> [] | Some q \<Rightarrow> CHR ''?'' # q) \<subseteq> set p"
    by (cases "split_once CHR ''?'' p") (auto simp: query_part_def split_once_iff)
  have "set (path_part p) \<subseteq> set p" by (auto simp: path_part_take dest: set_takeWhileD)
  then have "set (join_with CHR ''/'' ws) \<subseteq> insert CHR ''/'' (set p)"
    using join_with_chars [of "CHR ''/''" ws] ws(2) by blast
  then show ?thesis using q unfolding ws(1) by auto
qed


section \<open>Resolved locations\<close>

text \<open>The scheme text a \<open>Location\<close> starts with contains neither a mark nor anything of the base.\<close>

lemma location_scheme_rest:
  assumes "location_scheme sch loc = (named, rest)"
  shows "query_part rest = query_part loc \<and> set rest \<subseteq> set loc \<and> (named = None \<longrightarrow> rest = loc)"
proof -
  have skip: "query_part (drop n loc) = query_part loc"
    if "starts_with t (to_lower (take 8 loc))" and "CHR ''?'' \<notin> set t" and "length t = n" and "n \<le> 8" for n t
  proof -
    have "take n (to_lower (take 8 loc)) = t"
      using that by (auto simp: starts_with_iff)
    then have "to_lower (take n loc) = t" using that(4) by (simp add: to_lower_def take_map min_def)
    then have "CHR ''?'' \<notin> set (take n loc)"
      using that(2) by (force simp: to_lower_def ascii_lower_def is_upper_def byte_of_def)
    then show ?thesis using query_skip [of "take n loc" "drop n loc"] by simp
  qed
  consider (https) "starts_with ''https://'' (to_lower (take 8 loc))" "named = Some Https" "rest = drop 8 loc"
    | (http) "starts_with ''http://'' (to_lower (take 8 loc))" "named = Some Http" "rest = drop 7 loc"
    | (relative) "strip_prefix ''//'' loc = Some rest" "named = Some sch"
    | (path) "named = None" "rest = loc"
    using assms by (auto simp: location_scheme_def Let_def split: if_splits option.splits)
  then show ?thesis
  proof cases
    case https
    then show ?thesis using skip [OF https(1), of 8] by (auto dest: in_set_dropD)
  next
    case http
    then show ?thesis using skip [OF http(1), of 7] by (auto dest: in_set_dropD)
  next
    case relative
    then show ?thesis by (auto simp: strip_prefix_iff query_skip_Cons)
  qed simp_all
qed

lemma authority_origin:
  assumes "redirect_authority sch auth = Some orig"
  shows "o_scheme orig = sch \<and> o_host orig \<noteq> [] \<and> set (o_host orig) \<subseteq> set auth \<and> CHR ''@'' \<notin> set (o_host orig) \<and>
    1 \<le> o_port orig \<and> o_port orig \<le> 65535"
proof -
  let ?split = "case strip_prefix ''['' auth of
      Some rest \<Rightarrow>
        (case split_once CHR '']'' rest of
           None \<Rightarrow> None
         | Some (h, after) \<Rightarrow>
             (case strip_prefix '':'' after of
                Some p \<Rightarrow> Some (h, Some p) | None \<Rightarrow> if after = [] then Some (h, None) else None))
    | None \<Rightarrow> (case split_once CHR '':'' auth of Some (h, p) \<Rightarrow> Some (h, Some p) | None \<Rightarrow> Some (auth, None))"
  have at: "CHR ''@'' \<notin> set auth" using assms by (auto simp: redirect_authority_def split: if_splits)
  obtain host port where sp: "?split = Some (host, port)" and host_ne: "host \<noteq> []"
    using assms at by (auto simp: redirect_authority_def split: option.splits if_splits)
  let ?default = "if scheme_is_tls sch then 443 else 80"
  let ?port = "case port of None \<Rightarrow> Some ?default
    | Some p \<Rightarrow> if p = [] then Some ?default
               else (case parse_unsigned u16_max p of None \<Rightarrow> None | Some n \<Rightarrow> if 0 < n then Some n else None)"
  have "map_option (\<lambda>n. origin_new sch host (int n)) ?port = Some orig"
    using assms at host_ne unfolding redirect_authority_def sp by simp
  then obtain n where n: "?port = Some n" "orig = origin_new sch host (int n)" unfolding map_option_eq_Some by blast
  then have range: "0 < n" "n \<le> u16_max"
    by (auto simp: parse_unsigned_def parse_digits_def checked_nat_def range_defs split: option.splits if_splits)
  have host: "set host \<subseteq> set auth \<and> (starts_with ''['' host \<longrightarrow> CHR '']'' \<notin> set host)"
  proof (cases "strip_prefix ''['' auth")
    case None
    then show ?thesis
      using sp by (auto simp: split_once_iff starts_with_iff split: option.splits)
  next
    case (Some rest)
    then obtain after where "split_once CHR '']'' rest = Some (host, after)"
      using sp by (auto split: option.splits if_splits)
    then show ?thesis
      using Some by (auto simp: split_once_iff strip_prefix_iff)
  qed
  have "unbracket host = host" using host by (auto simp: unbracket_cases starts_with_iff)
  then show ?thesis using n(2) range host_ne host at by (auto simp: origin_new_def u16_max_def)
qed

lemma body_chars: "list_all (\<lambda>c. \<not> not_requestable c) (trim_blanks loc) \<Longrightarrow>
    list_all (\<lambda>c. \<not> not_requestable c) (location_body loc)"
  by (auto simp: location_body_def hd_split_on list_all_iff dest: set_takeWhileD)

lemma dir_chars: "set (rev (dropWhile P (rev s))) \<subseteq> set s"
  by (auto dest: set_dropWhileD)

lemma relative_path_query:
  "CHR ''?'' \<notin> set bp \<Longrightarrow> query_part (relative_path bp loc) = query_part loc \<and>
     set (relative_path bp loc) \<subseteq> insert CHR ''/'' (set bp \<union> set loc)"
  using dir_chars [of "\<lambda>c. c \<noteq> CHR ''/''" bp] query_skip [of bp loc]
    query_skip [of "rev (dropWhile (\<lambda>c. c \<noteq> CHR ''/'') (rev bp))" loc] query_skip_Cons [of "CHR ''/''" loc]
  by (auto simp: relative_path_def)

text \<open>Every resolved location is a normalized path on the base's origin or on a named one.\<close>

lemma resolve_location_form:
  assumes "resolve_location base loc = Some t"
  obtains path where "t_path t = normalize_path path" and "query_part path = query_part (location_body loc)"
    and "set path \<subseteq> insert CHR ''/'' (set (t_path base) \<union> set (location_body loc))"
    and "list_all (\<lambda>c. \<not> not_requestable c) (location_body loc)"
    and "t_origin t = t_origin base \<or>
      o_host (t_origin t) \<noteq> [] \<and> CHR ''@'' \<notin> set (o_host (t_origin t)) \<and>
      set (o_host (t_origin t)) \<subseteq> set (location_body loc) \<and> 1 \<le> o_port (t_origin t) \<and> o_port (t_origin t) \<le> 65535"
proof -
  let ?body = "location_body loc"
  obtain named rest where sch: "location_scheme (o_scheme (t_origin base)) ?body = (named, rest)" by fastforce
  note rest = location_scheme_rest [OF sch]
  have ok: "list_all (\<lambda>c. \<not> not_requestable c) (trim_blanks loc)"
    using assms by (auto simp: resolve_location_def Let_def list_ex_iff list_all_iff split: if_splits)
  have unfolded: "(case (named, rest) of
      (Some sch, rest) \<Rightarrow>
        (case redirect_authority sch (takeWhile no_path_mark rest) of None \<Rightarrow> None
         | Some orig \<Rightarrow> Some \<lparr>t_origin = orig, t_path = normalize_path
             (if starts_with ''/'' (dropWhile no_path_mark rest) then dropWhile no_path_mark rest
              else CHR ''/'' # dropWhile no_path_mark rest)\<rparr>)
    | (None, _) \<Rightarrow>
        if CHR '':'' \<in> set (takeWhile no_path_mark ?body) then None
        else Some \<lparr>t_origin = t_origin base,
                   t_path = normalize_path (relative_path (hd (split_on CHR ''?'' (t_path base))) ?body)\<rparr>) = Some t"
    using assms sch unfolding resolve_location_def location_body_def Let_def by (auto split: if_splits)
  show thesis
  proof (cases named)
    case None
    have bp: "CHR ''?'' \<notin> set (hd (split_on CHR ''?'' (t_path base)))"
      "set (hd (split_on CHR ''?'' (t_path base))) \<subseteq> set (t_path base)"
      by (auto simp: hd_split_on dest: set_takeWhileD)
    show thesis
      by (rule that [of "relative_path (hd (split_on CHR ''?'' (t_path base))) ?body"])
        (use unfolded None relative_path_query [OF bp(1), of ?body] bp(2) body_chars [OF ok] in \<open>auto split: if_splits\<close>)
  next
    case (Some s)
    then obtain orig where orig: "redirect_authority s (takeWhile no_path_mark rest) = Some orig"
      using unfolded by (auto split: option.splits)
    let ?tail = "dropWhile no_path_mark rest"
    let ?path = "if starts_with ''/'' ?tail then ?tail else CHR ''/'' # ?tail"
    have t: "t = \<lparr>t_origin = orig, t_path = normalize_path ?path\<rparr>" using unfolded Some orig by simp
    have "CHR ''?'' \<notin> set (takeWhile no_path_mark rest)" by (auto simp: no_path_mark_def dest: set_takeWhileD)
    then have "query_part ?tail = query_part rest"
      using query_skip [of "takeWhile no_path_mark rest" ?tail] by simp
    moreover have "set ?tail \<subseteq> set ?body" "set (takeWhile no_path_mark rest) \<subseteq> set ?body"
      using rest by (auto dest: set_dropWhileD set_takeWhileD)
    ultimately show thesis
      by (intro that [of ?path])
        (use t rest authority_origin [OF orig] body_chars [OF ok] in \<open>auto simp: query_skip_Cons\<close>)
  qed
qed

lemma resolve_location_query:
  "resolve_location base loc = Some t \<Longrightarrow> query_part (t_path t) = query_part (location_body loc)"
  by (erule resolve_location_form) (simp add: query_normalize)

text \<open>
  A resolved \<open>Location\<close> can be requested as it is: its path starts at the root and has no dot segment,
  its query is the one the \<open>Location\<close> spells and never the base's, no byte of a requestable base path and
  of the \<open>Location\<close> becomes a space or a control byte in the request line, and its origin is the base's
  or one with a host (without user information, no space or control byte) and a port that can be dialled.
\<close>

theorem resolved_locations_are_requestable:
  assumes "resolve_location base loc = Some t"
  shows "starts_with ''/'' (t_path t) \<and>
    list_all (\<lambda>w. w \<noteq> ''.'' \<and> w \<noteq> ''..'') (split_on CHR ''/'' (path_part (t_path t))) \<and>
    query_part (t_path t) = query_part (location_body loc) \<and>
    (list_all (\<lambda>c. \<not> not_requestable c) (t_path base) \<longrightarrow> list_all (\<lambda>c. \<not> not_requestable c) (t_path t)) \<and>
    (t_origin t = t_origin base \<or>
     o_host (t_origin t) \<noteq> [] \<and> CHR ''@'' \<notin> set (o_host (t_origin t)) \<and>
     list_all (\<lambda>c. \<not> not_requestable c) (o_host (t_origin t)) \<and>
     1 \<le> o_port (t_origin t) \<and> o_port (t_origin t) \<le> 65535)"
  using assms
proof (rule resolve_location_form)
  fix path
  assume p: "t_path t = normalize_path path" "query_part path = query_part (location_body loc)"
    and chars: "set path \<subseteq> insert CHR ''/'' (set (t_path base) \<union> set (location_body loc))"
      "list_all (\<lambda>c. \<not> not_requestable c) (location_body loc)"
    and orig: "t_origin t = t_origin base \<or>
      o_host (t_origin t) \<noteq> [] \<and> CHR ''@'' \<notin> set (o_host (t_origin t)) \<and>
      set (o_host (t_origin t)) \<subseteq> set (location_body loc) \<and> 1 \<le> o_port (t_origin t) \<and> o_port (t_origin t) \<le> 65535"
  have slash: "\<not> not_requestable CHR ''/''" by (simp add: not_requestable_def byte_of_def)
  have "list_all (\<lambda>c. \<not> not_requestable c) (t_path base) \<longrightarrow> list_all (\<lambda>c. \<not> not_requestable c) (t_path t)"
    using chars normalize_chars [of path] slash unfolding p(1) list_all_iff by blast
  moreover have "list_all (\<lambda>w. w \<noteq> ''.'' \<and> w \<noteq> ''..'') (split_on CHR ''/'' (path_part (t_path t)))"
    using normalize_segments unfolding p(1) list_all_iff by blast
  moreover have "set (o_host (t_origin t)) \<subseteq> set (location_body loc) \<Longrightarrow>
      list_all (\<lambda>c. \<not> not_requestable c) (o_host (t_origin t))"
    using chars(2) by (auto simp: list_all_iff)
  ultimately show ?thesis using p query_normalize normalize_starts orig by auto
qed

section \<open>The loop as a step relation\<close>

type_synonym chain = "nat \<times> target \<times> sent list"

definition first_target :: "media_request \<Rightarrow> target" where
  "first_target req = \<lparr>t_origin = mr_origin req, t_path = mr_path req\<rparr>"

definition send_hop :: "media_request \<Rightarrow> target \<Rightarrow> sent list \<Rightarrow> sent list" where
  "send_hop req cur trace = trace @ [\<lparr>s_target = cur, s_extra = hop_extra req cur\<rparr>]"

inductive follow_step :: "(nat \<Rightarrow> transport_env) \<Rightarrow> (sent list \<Rightarrow> reply) \<Rightarrow> media_request \<Rightarrow> chain \<Rightarrow> chain \<Rightarrow> bool"
  for env net req where
  hop: "hop_ready env req hop cur = None \<Longrightarrow>
    hop_answer req hop cur (net (send_hop req cur trace)) = Next nxt \<Longrightarrow>
    follow_step env net req (hop, cur, trace) (Suc hop, nxt, send_hop req cur trace)"

inductive_cases follow_stepE: "follow_step env net req (hop, cur, trace) x"

text \<open>A run ends where a hop is not sent, or where its answer is final.\<close>

definition ends_at :: "(nat \<Rightarrow> transport_env) \<Rightarrow> (sent list \<Rightarrow> reply) \<Rightarrow> media_request \<Rightarrow> chain \<Rightarrow> follow_error + opened \<Rightarrow> sent list \<Rightarrow> bool" where
  "ends_at env net req x res out =
     (case x of (hop, cur, trace) \<Rightarrow>
        hop_ready env req hop cur = Some res \<and> out = trace \<or>
        hop_ready env req hop cur = None \<and> out = send_hop req cur trace \<and>
          hop_answer req hop cur (net out) = Finished res)"

lemma follow_from_run:
  "follow_from env net req hop cur trace = (res, out) \<Longrightarrow>
    \<exists>x. (follow_step env net req)\<^sup>*\<^sup>* (hop, cur, trace) x \<and> ends_at env net req x res out"
proof (induction env net req hop cur trace rule: follow_from.induct)
  case (1 env net req hop cur trace)
  show ?case
  proof (cases "hop_ready env req hop cur")
    case (Some r)
    then have "ends_at env net req (hop, cur, trace) res out"
      using 1(2) by (simp add: follow_from.simps [of _ _ _ hop] ends_at_def)
    then show ?thesis by blast
  next
    case None
    note out = 1(2) [unfolded follow_from.simps [of _ _ _ hop] None option.case Let_def, folded send_hop_def]
    show ?thesis
    proof (cases "hop_answer req hop cur (net (send_hop req cur trace))")
      case (Finished r)
      then have "ends_at env net req (hop, cur, trace) res out" using out None by (simp add: ends_at_def)
      then show ?thesis by blast
    next
      case (Next nxt)
      then have "follow_from env net req (Suc hop) nxt (send_hop req cur trace) = (res, out)" using out by simp
      then obtain x where x: "(follow_step env net req)\<^sup>*\<^sup>* (Suc hop, nxt, send_hop req cur trace) x"
          "ends_at env net req x res out"
        using 1(1) [OF None refl] Next by (auto simp: send_hop_def)
      then show ?thesis using follow_step.hop [where net = net, OF None Next]
        by (blast intro: converse_rtranclp_into_rtranclp)
    qed
  qed
qed

text \<open>What a request on the wire was checked for, and how two successive ones are linked.\<close>

definition sent_ok :: "(nat \<Rightarrow> transport_env) \<Rightarrow> media_request \<Rightarrow> nat \<Rightarrow> sent \<Rightarrow> bool" where
  "sent_ok env req i s =
     (\<not> origin_is_tls (t_origin (s_target s)) \<and> s_extra s = hop_extra req (s_target s) \<and>
      credential_transport_allowed (env i) (t_origin (s_target s)) (t_path (s_target s))
        (header_lines (hop_credentials req (s_target s))))"

definition follow_inv :: "(nat \<Rightarrow> transport_env) \<Rightarrow> (sent list \<Rightarrow> reply) \<Rightarrow> media_request \<Rightarrow> chain \<Rightarrow> bool" where
  "follow_inv env net req x =
     (case x of (hop, cur, trace) \<Rightarrow>
        hop = length trace \<and> hop \<le> MAX_HOPS \<and>
        (\<forall>i < hop. sent_ok env req i (trace ! i) \<and>
           hop_answer req i (s_target (trace ! i)) (net (take (Suc i) trace)) =
             Next (if Suc i = hop then cur else s_target (trace ! Suc i))) \<and>
        (if hop = 0 then cur else s_target (trace ! 0)) = first_target req)"

lemma hop_ready_None: "hop_ready env req hop cur = None \<Longrightarrow>
    sent_ok env req hop \<lparr>s_target = cur, s_extra = hop_extra req cur\<rparr>"
  by (auto simp: hop_ready_def sent_ok_def split: if_splits)

lemma follow_step_inv:
  assumes "follow_step env net req x y" and "follow_inv env net req x"
  shows "follow_inv env net req y"
  using assms(1)
proof cases
  case (hop h cur trace nxt)
  note inv = assms(2) [unfolded hop(1) follow_inv_def prod.case]
  have h: "h = length trace" "h < MAX_HOPS" using inv hop_answer_Next_bound [OF hop(4)] by auto
  let ?t = "send_hop req cur trace"
  have nth: "i < h \<Longrightarrow> ?t ! i = trace ! i" "?t ! h = \<lparr>s_target = cur, s_extra = hop_extra req cur\<rparr>"
    "i < h \<Longrightarrow> take (Suc i) ?t = take (Suc i) trace" "take (Suc h) ?t = ?t" for i
    by (simp_all add: send_hop_def nth_append h(1))
  have "sent_ok env req i (?t ! i) \<and> hop_answer req i (s_target (?t ! i)) (net (take (Suc i) ?t)) =
      Next (if Suc i = Suc h then nxt else s_target (?t ! Suc i))" if "i < Suc h" for i
  proof (cases "i = h")
    case True
    then show ?thesis using hop_ready_None [OF hop(3)] hop(4) nth by simp
  next
    case False
    then have i: "i < h" using that by simp
    then have "(if Suc i = h then cur else s_target (trace ! Suc i)) = s_target (?t ! Suc i)"
      using nth(1) [of "Suc i"] nth(2) by (cases "Suc i = h") auto
    then show ?thesis using i inv nth by simp
  qed
  moreover have "s_target (?t ! 0) = first_target req"
    using inv nth(1) [of 0] nth(2) by (cases "h = 0") auto
  ultimately show ?thesis using h by (simp add: hop(2) follow_inv_def send_hop_def)
qed

interpretation following: state_machine "\<lambda>x. x = (0, first_target req, [])" "follow_step env net req"
    "follow_inv env net req" for env net req
proof unfold_locales
  show "x = (0, first_target req, []) \<Longrightarrow> follow_inv env net req x" for x by (simp add: follow_inv_def)
qed (rule follow_step_inv)

lemma open_following_ends:
  assumes "open_following env net req = (res, out)"
  obtains x where "follow_inv env net req x" and "ends_at env net req x res out"
proof -
  obtain x where x: "(follow_step env net req)\<^sup>*\<^sup>* (0, first_target req, []) x" "ends_at env net req x res out"
    using follow_from_run assms unfolding open_following_def first_target_def by blast
  have "follow_inv env net req (0, first_target req, [])" by (simp add: follow_inv_def)
  then show thesis using that following.steps_inv [OF x(1)] x(2) by blast
qed

text \<open>Everything a finished run put on the wire satisfies the checks and the links.\<close>

lemma run_facts:
  assumes "follow_inv env net req x" and "ends_at env net req x res out"
  shows "length out \<le> Suc MAX_HOPS \<and> (\<forall>i < length out. sent_ok env req i (out ! i)) \<and>
    (\<forall>i. Suc i < length out \<longrightarrow>
       hop_answer req i (s_target (out ! i)) (net (take (Suc i) out)) = Next (s_target (out ! Suc i))) \<and>
    (out \<noteq> [] \<longrightarrow> s_target (out ! 0) = first_target req)"
proof -
  obtain hop cur trace where x: "x = (hop, cur, trace)" by (metis prod_cases3)
  note inv = assms(1) [unfolded x follow_inv_def prod.case]
  consider (unsent) "out = trace" | (sent) "hop_ready env req hop cur = None" "out = send_hop req cur trace"
    using assms(2) by (auto simp: x ends_at_def)
  then show ?thesis
  proof cases
    case unsent
    then show ?thesis using inv by auto
  next
    case sent
    have nth: "i < hop \<Longrightarrow> out ! i = trace ! i" "out ! hop = \<lparr>s_target = cur, s_extra = hop_extra req cur\<rparr>"
      "i < hop \<Longrightarrow> take (Suc i) out = take (Suc i) trace" "length out = Suc hop" for i
      using inv by (simp_all add: sent(2) send_hop_def nth_append)
    have "sent_ok env req i (out ! i)" if "i < length out" for i
      using that inv nth hop_ready_None [OF sent(1)] by (cases "i = hop") auto
    moreover have "hop_answer req i (s_target (out ! i)) (net (take (Suc i) out)) = Next (s_target (out ! Suc i))"
      if "Suc i < length out" for i
    proof -
      have "(if Suc i = hop then cur else s_target (trace ! Suc i)) = s_target (out ! Suc i)"
        using that nth(1) [of "Suc i"] nth(2,4) by (cases "Suc i = hop") auto
      then show ?thesis using that inv nth by simp
    qed
    moreover have "s_target (out ! 0) = first_target req"
      using inv nth(1) [of 0] nth(2) by (cases "hop = 0") auto
    ultimately show ?thesis using inv nth(4) by simp
  qed
qed


section \<open>Where a request may go next\<close>

text \<open>
  What a reply means, stated without the loop: the origin as scheme, host in any case and port; the place
  a redirect points at, resolved against the last request; and the target the next request goes to.
\<close>

definition home :: "media_request \<Rightarrow> target \<Rightarrow> bool" where
  "home req t =
     (o_scheme (t_origin t) = o_scheme (mr_origin req) \<and> o_port (t_origin t) = o_port (mr_origin req) \<and>
      to_lower (o_host (t_origin t)) = to_lower (o_host (mr_origin req)))"

definition redirected :: "(sent list \<Rightarrow> reply) \<Rightarrow> sent list \<Rightarrow> bool" where
  "redirected net out =
     (out \<noteq> [] \<and> (\<exists>status \<in> {301, 302, 303, 307, 308}. rp_result (net out) = Some (Status status)))"

definition pointed_at :: "(sent list \<Rightarrow> reply) \<Rightarrow> sent list \<Rightarrow> target option" where
  "pointed_at net out =
     (case rp_location (net out) of None \<Rightarrow> None | Some loc \<Rightarrow> resolve_location (s_target (last out)) loc)"

definition keeping_token :: "media_request \<Rightarrow> target \<Rightarrow> target" where
  "keeping_token req t =
     (case token_pair (mr_path req) of
        None \<Rightarrow> t | Some pair \<Rightarrow> if home req t then t\<lparr>t_path := with_query_pair (t_path t) pair\<rparr> else t)"

definition follows_on :: "media_request \<Rightarrow> (sent list \<Rightarrow> reply) \<Rightarrow> sent list \<Rightarrow> target \<Rightarrow> bool" where
  "follows_on req net out t =
     (if out = [] then t = first_target req
      else length out \<le> MAX_HOPS \<and> redirected net out \<and>
        (\<exists>u. pointed_at net out = Some u \<and> (mr_same_origin_only req \<longrightarrow> home req u) \<and> t = keeping_token req u))"

lemma home_iff: "same_origin (t_origin t) (mr_origin req) = home req t"
  by (simp add: same_origin_def home_def eq_ignore_case_def)

lemma home_origin: "t_origin t = t_origin u \<Longrightarrow> home req t = home req u"
  by (simp add: home_def)

lemma answer_follows_on:
  assumes "hop_answer req (length trace) cur (net out) = Next nxt" and "out = send_hop req cur trace"
  shows "follows_on req net out nxt"
proof -
  have out: "out \<noteq> []" "s_target (last out) = cur" "length out = Suc (length trace)"
    by (simp_all add: assms(2) send_hop_def)
  show ?thesis
    using assms(1) out hop_answer_Next_bound [OF assms(1)]
    by (auto simp: hop_answer_def follows_on_def redirected_def pointed_at_def keeping_token_def is_redirect_def
        home_iff Let_def split: option.splits open_error.splits if_splits)
qed

lemma run_follows_on:
  assumes "follow_inv env net req (hop, cur, trace)"
  shows "follows_on req net trace cur \<and> (\<forall>i < hop. follows_on req net (take i trace) (s_target (trace ! i)))"
proof -
  note inv = assms [unfolded follow_inv_def prod.case]
  have "follows_on req net (take i trace) (if i = hop then cur else s_target (trace ! i))" if "i \<le> hop" for i
  proof (cases i)
    case 0
    then show ?thesis using inv by (auto simp: follows_on_def)
  next
    case (Suc k)
    let ?nxt = "if Suc k = hop then cur else s_target (trace ! Suc k)"
    have k: "k < length trace" "length (take k trace) = k" using Suc that inv by auto
    then have "take (Suc k) trace = send_hop req (s_target (trace ! k)) (take k trace)"
      using inv by (auto simp: send_hop_def sent_ok_def take_Suc_conv_app_nth)
    moreover have "hop_answer req (length (take k trace)) (s_target (trace ! k)) (net (take (Suc k) trace)) = Next ?nxt"
      unfolding k(2) using inv k(1) by auto
    ultimately have "follows_on req net (take (Suc k) trace) ?nxt" by (intro answer_follows_on)
    then show ?thesis by (auto simp: Suc)
  qed
  from this [of hop] this [OF less_imp_le] show ?thesis using inv by (auto dest: less_imp_neq)
qed

section \<open>Claims\<close>

lemma answer_next:
  assumes "hop_answer req i cur rp = Next nxt"
  obtains status loc t where "rp_result rp = Some (Status status)" and "is_redirect status"
    and "rp_location rp = Some loc" and "resolve_location cur loc = Some t" and "t_origin nxt = t_origin t"
    and "mr_same_origin_only req \<longrightarrow> same_origin (t_origin nxt) (mr_origin req)"
    and "\<not> same_origin (t_origin nxt) (mr_origin req) \<longrightarrow> nxt = t"
  using assms unfolding hop_answer_def Let_def
  by (auto split: option.splits open_error.splits if_splits)

text \<open>Every way the last answer ends the run, over the requests sent.\<close>

lemma answer_finished:
  assumes "hop_answer req hop cur (net out) = Finished res" and "out \<noteq> []" and "s_target (last out) = cur"
  obtains (opened) "res = Inr (Socket cur)" "rp_result (net out) = None"
  | (failed) e where "res = Inl (OpenFailed e)" "rp_result (net out) = Some e" "\<not> redirected net out"
  | (misdirected) status where "res = Inl (BadLocation status)" "rp_result (net out) = Some (Status status)"
      "redirected net out" "pointed_at net out = None"
  | (exhausted) u where "res = Inl TooManyHops" "redirected net out" "pointed_at net out = Some u" "MAX_HOPS \<le> hop"
  | (leaving) u where "res = Inl LeftOrigin" "redirected net out" "pointed_at net out = Some u" "hop < MAX_HOPS"
      "mr_same_origin_only req" "\<not> home req u"
proof -
  consider (none) "rp_result (net out) = None"
    | (plain) e where "rp_result (net out) = Some e" "\<not> redirected net out"
    | (redirect) status where "rp_result (net out) = Some (Status status)" "is_redirect status" "redirected net out"
    using assms(2) by (auto simp: redirected_def is_redirect_def)
  then show thesis
  proof cases
    case none
    then show thesis using assms(1) opened by (simp add: hop_answer_def)
  next
    case (plain e)
    then have "\<not> is_redirect status" if "e = Status status" for status
      using that assms(2) by (auto simp: redirected_def is_redirect_def)
    then have "res = Inl (OpenFailed e)" using assms(1) plain(1) by (cases e) (auto simp: hop_answer_def)
    then show thesis using failed plain by blast
  next
    case (redirect status)
    have p: "(case rp_location (net out) of None \<Rightarrow> None | Some loc \<Rightarrow> resolve_location cur loc) = pointed_at net out"
      unfolding pointed_at_def assms(3) by (rule refl)
    show thesis
    proof (cases "pointed_at net out")
      case None
      then have "res = Inl (BadLocation status)" using assms(1) redirect by (simp add: hop_answer_def p)
      then show thesis using misdirected redirect None by blast
    next
      case (Some u)
      then show thesis using assms(1) redirect exhausted [OF _ redirect(3) Some] leaving [OF _ redirect(3) Some]
        by (auto simp: hop_answer_def p Some Let_def home_iff split: if_splits option.splits)
    qed
  qed
qed

lemma same_origin_refl: "same_origin orig orig"
  by (simp add: same_origin_def eq_ignore_case_def)

lemma run_home:
  assumes "follow_inv env net req x" and "ends_at env net req x res out" and "i < length out"
  shows "same_origin (t_origin (s_target (out ! i))) (mr_origin req) \<or>
    \<not> mr_same_origin_only req \<and> 0 < i \<and> (\<exists>loc. rp_location (net (take i out)) = Some loc \<and>
      query_part (t_path (s_target (out ! i))) = query_part (location_body loc))"
proof (cases i)
  case 0
  then have "s_target (out ! i) = first_target req" using run_facts [OF assms(1,2)] assms(3) by auto
  then show ?thesis by (simp add: first_target_def same_origin_refl)
next
  case (Suc k)
  then have "hop_answer req k (s_target (out ! k)) (net (take i out)) = Next (s_target (out ! i))"
    using run_facts [OF assms(1,2)] assms(3) by blast
  then show ?thesis by (rule answer_next) (use Suc resolve_location_query in auto)
qed

text \<open>
  C28. Credentials stay home. Every request a followed open puts on the wire went in plaintext to an origin
  for which the gate, asked when that request started, admitted what it carries; a request that may not
  leave its origin never does. A request to another origin carries no credential header (its header block
  is the range alone), is never the first one, and its query is exactly the one the server's \<open>Location\<close>
  spelled: the access token of the original request is not added to it. An origin is a scheme, a host in
  any case and a port.
\<close>

theorem redirect_credentials_stay_home:
  assumes "open_following env net req = (res, out)" and "i < length out" and "s = out ! i"
  shows "\<not> origin_is_tls (t_origin (s_target s)) \<and>
    credential_transport_allowed (env i) (t_origin (s_target s)) (t_path (s_target s))
      (header_lines (hop_credentials req (s_target s))) \<and>
    s_extra s = hop_extra req (s_target s) \<and>
    (mr_same_origin_only req \<longrightarrow> home req (s_target s)) \<and>
    (home req (s_target s) \<or>
     s_extra s = hop_extra (req\<lparr>mr_credentials := None\<rparr>) (s_target s) \<and> 0 < i \<and>
     (\<exists>loc. rp_location (net (take i out)) = Some loc \<and>
        query_part (t_path (s_target s)) = query_part (location_body loc)))"
proof -
  obtain x where x: "follow_inv env net req x" "ends_at env net req x res out"
    using open_following_ends [OF assms(1)] by blast
  note facts = run_facts [OF x]
  have ok: "sent_ok env req i s" using facts assms(2,3) by blast
  note home = run_home [OF x assms(2), folded assms(3), unfolded home_iff]
  have "hop_extra req (s_target s) = hop_extra (req\<lparr>mr_credentials := None\<rparr>) (s_target s)"
    if "\<not> home req (s_target s)"
    using that by (simp add: hop_extra_def hop_credentials_def home_iff)
  then show ?thesis using ok home by (auto simp: sent_ok_def)
qed

text \<open>
  C40. Following always ends, within six requests, and each ending means what it says. Every request but
  the first goes where the answer to the one before pointed, with the token of the original request
  on its origin and without it elsewhere. A socket holds the answer to the last request, which
  succeeded. A TLS target is the one the run would ask next, and was never dialled. Too many hops means
  that the sixth request was redirected again, to a place. A request bound to its origin ends as having
  left it exactly on a redirect whose resolved place is not on that origin, and sent nothing there. A
  refusal is of the target the run would ask next, by the gate as it is then. A bad location has none, or
  one that resolves to nothing. A failure is the last request's, or a zero byte in the next one.
\<close>

theorem redirects_end:
  assumes "open_following env net req = (res, out)"
  shows "length out \<le> Suc MAX_HOPS \<and>
    (\<forall>i. i < length out \<longrightarrow> follows_on req net (take i out) (s_target (out ! i))) \<and>
    (case res of
       Inr (Socket t) \<Rightarrow> out \<noteq> [] \<and> t = s_target (last out) \<and> rp_result (net out) = None
     | Inr (Tls t) \<Rightarrow> follows_on req net out t \<and> o_scheme (t_origin t) = Https \<and> t \<notin> s_target ` set out
     | Inl TooManyHops \<Rightarrow> length out = Suc MAX_HOPS \<and> redirected net out \<and> pointed_at net out \<noteq> None
     | Inl LeftOrigin \<Rightarrow> mr_same_origin_only req \<and> list_all (\<lambda>s. home req (s_target s)) out \<and>
         length out \<le> MAX_HOPS \<and> redirected net out \<and> (\<exists>u. pointed_at net out = Some u \<and> \<not> home req u)
     | Inl Refused \<Rightarrow> (\<exists>t. follows_on req net out t \<and> o_scheme (t_origin t) \<noteq> Https \<and>
         \<not> credential_transport_allowed (env (length out)) (t_origin t) (t_path t)
           (header_lines (hop_credentials req t)))
     | Inl (BadLocation status) \<Rightarrow> redirected net out \<and> rp_result (net out) = Some (Status status) \<and>
         pointed_at net out = None
     | Inl (OpenFailed e) \<Rightarrow>
         out \<noteq> [] \<and> rp_result (net out) = Some e \<and> \<not> redirected net out \<or>
         e = Transport \<and> (\<exists>t. follows_on req net out t \<and> o_scheme (t_origin t) \<noteq> Https \<and>
           credential_transport_allowed (env (length out)) (t_origin t) (t_path t)
             (header_lines (hop_credentials req t)) \<and>
           CHR 0x00 \<in> set (o_host (t_origin t) @ t_path t @ hop_extra req t)))"
proof -
  obtain x where x: "follow_inv env net req x" "ends_at env net req x res out"
    using open_following_ends [OF assms] by blast
  obtain hop cur trace where hop: "x = (hop, cur, trace)" by (metis prod_cases3)
  have len: "hop = length trace" using x(1) by (simp add: hop follow_inv_def)
  note facts = run_facts [OF x] and links = run_follows_on [OF x(1) [unfolded hop]]
  have tls: "origin_is_tls orig \<longleftrightarrow> o_scheme orig = Https" for orig
    by (simp add: origin_is_tls_def scheme_is_tls_def)
  have plain: "o_scheme (t_origin (s_target s)) \<noteq> Https" if "s \<in> set out" for s
    using that facts by (auto simp: in_set_conv_nth sent_ok_def tls)
  have home: "mr_same_origin_only req \<Longrightarrow> list_all (\<lambda>s. home req (s_target s)) out"
    using run_home [OF x] by (auto simp: list_all_length home_iff)
  consider (unsent) "hop_ready env req hop cur = Some res" "out = trace"
    | (sent) "out = send_hop req cur trace" "hop_answer req hop cur (net out) = Finished res"
    using x(2) by (auto simp: hop ends_at_def)
  then show ?thesis
  proof cases
    case unsent
    then show ?thesis using facts plain len links
      by (auto simp: hop_ready_def tls split: if_splits)
  next
    case sent
    then have out: "out \<noteq> []" "s_target (last out) = cur" "length out = Suc hop" using len by (simp_all add: send_hop_def)
    have "follows_on req net (take i out) (s_target (out ! i))" if "i < length out" for i
      using that links out(3) len by (cases "i = hop") (auto simp: sent(1) send_hop_def nth_append)
    moreover have "length out \<le> Suc MAX_HOPS" using facts by blast
    moreover from sent(2) out(1,2) have "case res of
       Inr (Socket t) \<Rightarrow> t = cur \<and> rp_result (net out) = None
     | Inr (Tls t) \<Rightarrow> False
     | Inl TooManyHops \<Rightarrow> MAX_HOPS \<le> hop \<and> redirected net out \<and> pointed_at net out \<noteq> None
     | Inl LeftOrigin \<Rightarrow> mr_same_origin_only req \<and> hop < MAX_HOPS \<and> redirected net out \<and>
         (\<exists>u. pointed_at net out = Some u \<and> \<not> home req u)
     | Inl Refused \<Rightarrow> False
     | Inl (BadLocation status) \<Rightarrow> redirected net out \<and> rp_result (net out) = Some (Status status) \<and>
         pointed_at net out = None
     | Inl (OpenFailed e) \<Rightarrow> rp_result (net out) = Some e \<and> \<not> redirected net out"
      by (rule answer_finished) auto
    ultimately show ?thesis using out home
      by (auto split: sum.splits opened.splits follow_error.splits)
  qed
qed

text \<open>
  Signing out stops a media stream at its next request. In a store build every request with a credential
  goes to a host that is an address of the local network and is, when that request starts, the host of the
  installed client or of a sign-in in progress; so from the hop at which neither is there, whatever the
  server answers, no request carries a credential any more.
\<close>

theorem media_credentials_follow_the_anchor:
  assumes "open_following env net req = (res, out)" and "i < length out" and "t = s_target (out ! i)"
    and "\<And>k. te_policy (env k) = HttpsOnly \<and> grants.reachable (te_grants (env k))"
    and "carries_credential (t_path t) (header_lines (hop_credentials req t))"
  shows "is_lan_host (o_host (t_origin t)) \<and>
    (map_option o_host (te_client (env i)) = Some (o_host (t_origin t)) \<or> te_anchor (env i) = Some (o_host (t_origin t))) \<and>
    credential_carried (t_path t) (header_lines (hop_credentials req t)) = Jellyfin"
proof -
  obtain x where x: "follow_inv env net req x" "ends_at env net req x res out"
    using open_following_ends [OF assms(1)] by blast
  have ok: "sent_ok env req i (out ! i)" using run_facts [OF x] assms(2) by blast
  then show ?thesis
    using gate_iff [of "env i" "t_origin t" "t_path t" "header_lines (hop_credentials req t)"] assms(3-5)
    by (auto simp: sent_ok_def)
qed

section \<open>Witnesses\<close>

text \<open>
  A file on the server redirects to another origin, which answers: the second request is sent without the
  credential header and without the token of the first.
\<close>

definition demo_request :: media_request where
  "demo_request = \<lparr>mr_origin = origin_http ''10.0.0.2'' 80, mr_path = ''/f?api_key=k'',
     mr_credentials = Some (''x-emby-token: k'' @ CRLF), mr_range_from = Some 7, mr_same_origin_only = False\<rparr>"

definition demo_env :: "nat \<Rightarrow> transport_env" where
  "demo_env k = \<lparr>te_policy = HttpsOnly, te_grants = grant_table_init,
     te_client = Some (origin_http ''10.0.0.2'' 80), te_anchor = None\<rparr>"

definition demo_net :: "sent list \<Rightarrow> reply" where
  "demo_net sent =
     (if length sent = 1 then \<lparr>rp_result = Some (Status 302), rp_location = Some ''http://cdn/a?sig=1''\<rparr>
      else \<lparr>rp_result = None, rp_location = None\<rparr>)"

lemma demo_run:
  "open_following demo_env demo_net demo_request =
     (Inr (Socket \<lparr>t_origin = origin_http ''cdn'' 80, t_path = ''/a?sig=1''\<rparr>),
      [\<lparr>s_target = \<lparr>t_origin = origin_http ''10.0.0.2'' 80, t_path = ''/f?api_key=k''\<rparr>,
        s_extra = ''x-emby-token: k'' @ CRLF @ ''Range: bytes=7-'' @ CRLF\<rparr>,
       \<lparr>s_target = \<lparr>t_origin = origin_http ''cdn'' 80, t_path = ''/a?sig=1''\<rparr>,
        s_extra = ''Range: bytes=7-'' @ CRLF\<rparr>])"
  by code_simp

theorem redirect_credentials_stay_home_witness:
  "s_extra (snd (open_following demo_env demo_net demo_request) ! 1) = ''Range: bytes=7-'' @ CRLF \<and>
   query_part ''/a?sig=1'' = query_part (location_body ''http://cdn/a?sig=1'')"
proof -
  let ?t = "\<lparr>t_origin = origin_http ''cdn'' 80, t_path = ''/a?sig=1''\<rparr>"
  have "\<not> home demo_request ?t" by code_simp
  moreover have "hop_extra (demo_request\<lparr>mr_credentials := None\<rparr>) ?t = ''Range: bytes=7-'' @ CRLF" by code_simp
  ultimately show ?thesis
    using redirect_credentials_stay_home [OF demo_run, of 1] by (simp add: demo_run demo_net_def)
qed

theorem redirects_end_witness:
  "follows_on demo_request demo_net (take 1 (snd (open_following demo_env demo_net demo_request)))
     \<lparr>t_origin = origin_http ''cdn'' 80, t_path = ''/a?sig=1''\<rparr> \<and>
   rp_result (demo_net (snd (open_following demo_env demo_net demo_request))) = None"
proof -
  note ends = redirects_end [OF demo_run]
  note follows = ends [THEN conjunct2, THEN conjunct1, THEN spec, of 1]
  show ?thesis using follows ends by (simp add: demo_run)
qed

theorem media_credentials_follow_the_anchor_witness: "is_lan_host ''10.0.0.2''"
proof -
  let ?t = "\<lparr>t_origin = origin_http ''10.0.0.2'' 80, t_path = ''/f?api_key=k''\<rparr>"
  have "carries_credential (t_path ?t) (header_lines (hop_credentials demo_request ?t))" by code_simp
  moreover have "te_policy (demo_env k) = HttpsOnly \<and> grants.reachable (te_grants (demo_env k))" for k
    by (simp add: demo_env_def grants.reachable.init)
  moreover have "o_host (t_origin ?t) = ''10.0.0.2''" by code_simp
  ultimately show ?thesis
    using media_credentials_follow_the_anchor [OF demo_run, of 0 ?t] by simp
qed

theorem resolved_locations_are_requestable_witness:
  "query_part ''/a/b?x'' = query_part (location_body ''../b?x'') \<and> starts_with ''/'' ''/a/b?x''"
proof -
  have "resolve_location \<lparr>t_origin = origin_http ''10.0.0.2'' 80, t_path = ''/a/c/d?k''\<rparr> ''../b?x'' =
      Some \<lparr>t_origin = origin_http ''10.0.0.2'' 80, t_path = ''/a/b?x''\<rparr>" by code_simp
  from resolved_locations_are_requestable [OF this] show ?thesis by simp
qed

end
