(* ===== verification/Dovi.thy ===== *)
theory Dovi
  imports Strings "HOL-Library.Word"
begin

text \<open>
  How a Dolby Vision stream is presented (\<open>metadata.rs\<close>): the record the server sent, the rule when its
  base layer is no picture on its own, and the one decision the direct-play gate and the Load payload
  both read. The capability is the television's answer (\<open>webos/caps.rs\<close>).
\<close>

section \<open>Definitions\<close>

record dovi =
  dv_present :: bool
  dv_profile :: int
  dv_bl_compat :: int
  dv_el_present :: bool
  dv_level :: int
  dv_version :: "int \<times> int"
  dv_bl_present :: bool
  dv_rpu_present :: bool

definition dovi_none :: dovi where
  "dovi_none = \<lparr>dv_present = False, dv_profile = 0, dv_bl_compat = 0, dv_el_present = False,
     dv_level = 0, dv_version = (0, 0), dv_bl_present = False, dv_rpu_present = False\<rparr>"

definition version_str :: "dovi \<Rightarrow> string option" where
  "version_str d = (if dv_version d \<noteq> (0, 0)
     then Some (show_int (fst (dv_version d)) @ ''.'' @ show_int (snd (dv_version d))) else None)"

definition base_layer_unusable :: "dovi \<Rightarrow> bool" where
  "base_layer_unusable d =
     (if \<not> dv_present d then False
      else dv_el_present d \<or> dv_profile d = 5 \<or> (0 < dv_profile d \<and> dv_bl_compat d = 0))"

record dolby_hdr_info =
  dh_profile_id :: int
  dh_track_type :: string
  dh_encryption_type :: string

datatype dv_presentation = NotDv | Declare dolby_hdr_info | Refuse string

datatype dv_capability = DvUnknown | DvSupported | DvUnsupported

record dv_decision =
  dd_capability :: dv_capability
  dd_presentation :: dv_presentation

definition dv_decision_none :: dv_decision where
  "dv_decision_none = \<lparr>dd_capability = DvUnknown, dd_presentation = NotDv\<rparr>"

definition presentation :: "dovi \<Rightarrow> bool \<Rightarrow> dv_capability \<Rightarrow> bool \<Rightarrow> dv_presentation" where
  "presentation d signal capability video_is_hevc =
     (if \<not> dv_present d then NotDv
      else if dv_el_present d then Refuse ''dual-layer''
      else
        let declares = (capability = DvSupported \<and> video_is_hevc \<and> (signal \<or> \<not> base_layer_unusable d))
        in if \<not> declares \<or> dv_profile d \<le> 0
           then (if base_layer_unusable d then Refuse ''no cross-compatible base layer'' else NotDv)
           else Declare \<lparr>dh_profile_id = dv_profile d,
                  dh_track_type = (if dv_el_present d then ''dual'' else ''single''),
                  dh_encryption_type = ''clear''\<rparr>)"

definition dv_refusal :: "dv_presentation \<Rightarrow> string option" where
  "dv_refusal p = (case p of Refuse why \<Rightarrow> Some why | _ \<Rightarrow> None)"

definition dv_declared :: "dv_presentation \<Rightarrow> dolby_hdr_info option" where
  "dv_declared p = (case p of Declare d \<Rightarrow> Some d | _ \<Rightarrow> None)"

definition dv_label :: "dv_presentation \<Rightarrow> string" where
  "dv_label p = (case p of NotDv \<Rightarrow> ''base-layer'' | Declare _ \<Rightarrow> ''declare'' | Refuse _ \<Rightarrow> ''refuse'')"

text \<open>
  The node spliced into the payload of the native load, for an HEVC payload only; \<open>suppressed\<close> is the
  diagnostic switch. Every occurrence of the anchor is extended, as \<open>str::replace\<close> does.
\<close>

definition hdr_node :: "dolby_hdr_info \<Rightarrow> string" where
  "hdr_node n =
     '',\"DolbyHdrInfo\":{\"trackType\":\"'' @ dh_track_type n @ ''\",\"encryptionType\":\"'' @
     dh_encryption_type n @ ''\",\"profileId\":'' @ show_int (dh_profile_id n) @ ''}''"

definition provider_anchor :: string where
  "provider_anchor = ''\"provider\":\"butaca\"''"

function replace_all :: "string \<Rightarrow> string \<Rightarrow> string \<Rightarrow> string" where
  "replace_all pat rep [] = []"
| "replace_all pat rep (c # cs) =
     (if pat \<noteq> [] \<and> take (length pat) (c # cs) = pat
      then rep @ replace_all pat rep (drop (length pat) (c # cs))
      else c # replace_all pat rep cs)"
  by pat_completeness auto
termination
  by (relation "measure (\<lambda>(pat, rep, s). length s)") auto

fun contains :: "string \<Rightarrow> string \<Rightarrow> bool" where
  "contains pat [] = (pat = [])"
| "contains pat (c # cs) = (take (length pat) (c # cs) = pat \<or> contains pat cs)"

definition with_dolby_hdr_info :: "bool \<Rightarrow> string \<Rightarrow> string \<Rightarrow> dv_presentation \<Rightarrow> string" where
  "with_dolby_hdr_info suppressed p video dv =
     (case dv_declared dv of
        None \<Rightarrow> p
      | Some n \<Rightarrow>
          if suppressed then p
          else if video \<noteq> ''H265'' then p
          else if \<not> contains provider_anchor p then p
          else replace_all provider_anchor (provider_anchor @ hdr_node n) p)"

section \<open>What the decision guarantees\<close>

lemma replace_all_absent: "\<not> contains pat s \<Longrightarrow> pat \<noteq> [] \<Longrightarrow> replace_all pat rep s = s"
  by (induction pat rep s rule: replace_all.induct) auto

text \<open>
  C20. No stream is shown in wrong colours: without Dolby Vision nothing is declared or refused; what is
  played undeclared has a base layer that is a picture on its own; a declaration only happens for a
  single-layer HEVC stream with a named profile on a television that said it supports it, and it is
  always single and clear; and a stream is only refused when its base layer cannot be shown.
\<close>

theorem presentation_never_wrong_picture:
  "(\<not> dv_present d \<longrightarrow> presentation d signal cap hevc = NotDv)
   \<and> (presentation d signal cap hevc = NotDv \<longrightarrow> \<not> base_layer_unusable d)
   \<and> (presentation d signal cap hevc = Declare n \<longrightarrow>
       dv_present d \<and> \<not> dv_el_present d \<and> cap = DvSupported \<and> hevc \<and> 0 < dv_profile d \<and>
       n = \<lparr>dh_profile_id = dv_profile d, dh_track_type = ''single'', dh_encryption_type = ''clear''\<rparr>)
   \<and> (dv_refusal (presentation d signal cap hevc) = Some why \<longrightarrow> base_layer_unusable d)
   \<and> (cap = DvSupported \<longrightarrow> hevc \<longrightarrow> signal \<longrightarrow> 0 < dv_profile d \<longrightarrow> dv_present d \<longrightarrow> \<not> dv_el_present d \<longrightarrow>
       dv_declared (presentation d signal cap hevc) \<noteq> None)"
  by (auto simp: presentation_def base_layer_unusable_def dv_refusal_def dv_declared_def Let_def
      split: if_splits)

theorem presentation_never_wrong_picture_witness:
  "\<not> base_layer_unusable (dovi_none\<lparr>dv_present := True, dv_profile := 8, dv_bl_compat := 1\<rparr>) \<and>
   dv_declared (presentation (dovi_none\<lparr>dv_present := True, dv_profile := 5\<rparr>) True DvSupported True) \<noteq> None"
proof
  show "\<not> base_layer_unusable (dovi_none\<lparr>dv_present := True, dv_profile := 8, dv_bl_compat := 1\<rparr>)"
    by (rule presentation_never_wrong_picture [where signal = True and cap = DvUnknown and hevc = True,
          THEN conjunct2, THEN conjunct1, THEN mp]) code_simp
  show "dv_declared (presentation (dovi_none\<lparr>dv_present := True, dv_profile := 5\<rparr>) True DvSupported True) \<noteq> None"
    using presentation_never_wrong_picture [of "dovi_none\<lparr>dv_present := True, dv_profile := 5\<rparr>" True DvSupported True]
    by (simp add: dovi_none_def)
qed

end
