(* ===== verification/Route.thy ===== *)
theory Route
  imports Mode Sha256 Dovi
begin

text \<open>
  The owner of the playing route (\<open>route/decision.rs\<close>, with the tickets and generations of
  \<open>route/plan.rs\<close>): one record behind one mutex that the main thread, the media workers and the native
  loader go through. Every function of the source that holds the lock is a function on that record; one
  that also changes the main-thread session returns it as well.
\<close>

section \<open>Tickets and generations\<close>

record route_lease =
  rl_epoch :: u64
  rl_encoder :: string

record worker_ticket =
  wt_route :: route_lease
  wt_engine_epoch :: u64
  wt_media_epoch :: u64
  wt_applied_revision :: u64

record route_start_attempt =
  ra_serial :: u64
  ra_attempt :: u64

definition next_route_epoch :: "u64 \<Rightarrow> u64" where
  "next_route_epoch epoch = (let n = epoch + 1 in if n = 0 then 1 else n)"

definition next_generation :: "u64 \<Rightarrow> u64" where
  "next_generation v = (let n = v + 1 in if n = 0 then 1 else n)"

text \<open>The process-global encoder counter: the new counter and the drawn number.\<close>

definition next_encoder_generation :: "u64 \<Rightarrow> u64 \<times> u64" where
  "next_encoder_generation counter = (counter + 1, counter + 1)"

text \<open>The name of the next encoder of a logical session, with the number in decimal.\<close>

definition next_encoder_session :: "string \<Rightarrow> u64 \<Rightarrow> u64 \<times> string" where
  "next_encoder_session logical_session counter =
     (let (counter, n) = next_encoder_generation counter
      in (counter, logical_session @ ''-abr-'' @ show_nat (unat n)))"

section \<open>The projected part of a session\<close>

datatype playback_quality = QAuto | QOriginal | P1080High | P1080 | P720 | P720Low | P480

record carried_audio =
  ca_sid :: int
  ca_ordinal :: int
  ca_codec :: string
  ca_channels :: int
  ca_can_normalize_loudness :: bool
  ca_immersive :: bool

text \<open>What the native load declares of the video; the frame rate is an \<open>f64\<close> by its bits, which the route only copies or zeroes.\<close>

record stream_video =
  sv_fps :: u64
  sv_dovi :: dovi
  sv_decision :: dv_decision

record auto_original_candidate =
  ac_url :: string
  ac_probe_part :: string
  ac_direct :: bool
  ac_vcodec :: string
  ac_video :: stream_video
  ac_audio :: "carried_audio option"
  ac_subtitle_ordinal :: "int option"

datatype transcode_delivery = ProgressiveMkv | FixedHls nat

record audio_enhancements =
  ae_boost_dialog :: bool
  ae_normalize_loudness :: bool

record encode_contract =
  ec_remux :: bool
  ec_delivery :: transcode_delivery
  ec_no_video_copy :: bool
  ec_ceiling :: "ceiling_rec option"
  ec_audio :: audio_enhancements

definition no_enhancements :: audio_enhancements where
  "no_enhancements = \<lparr>ae_boost_dialog = False, ae_normalize_loudness = False\<rparr>"

definition contract_original :: "bool \<Rightarrow> audio_enhancements \<Rightarrow> encode_contract" where
  "contract_original remux audio =
     \<lparr>ec_remux = remux, ec_delivery = ProgressiveMkv, ec_no_video_copy = False, ec_ceiling = None, ec_audio = audio\<rparr>"

datatype enhancement_outcome = EnhancementOff | EnhancementApplied | EnhancementRefused

record route_projection =
  rp_url :: string
  rp_tsession :: string
  rp_contract :: encode_contract
  rp_enhancement :: enhancement_outcome
  rp_auto_original_watched :: bool
  rp_auto_original :: "auto_original_candidate option"
  rp_audio :: "carried_audio option"
  rp_subtitle_sid :: int
  rp_stream_vcodec :: string
  rp_stream_acodec :: string
  rp_stream_video :: stream_video
  rp_stream_immersive :: bool

text \<open>
  The session is the projection and the fields around it that the route reads or writes; taking the
  projection forgets them, and installing one keeps them. \<open>ps_forced_direct\<close> says that the mode is
  Force Direct Play, \<open>ps_request_part\<close> is the part of the request being played.
\<close>

record playback_session = "route_projection" +
  ps_src_acodec :: string
  ps_auto_switches :: nat
  ps_auto_last_switch :: "nat option"
  ps_now_ms :: nat
  ps_rk :: string
  ps_sid :: nat
  ps_sess :: string
  ps_preview :: bool
  ps_resolved_as_preview :: bool
  ps_forced_direct :: bool
  ps_request_part :: "string option"
  ps_transport_kbps :: int
  ps_auto_fixture_base :: string
  ps_auto_prior_kbps :: nat
  ps_auto_bootstrap_rung :: "rung option"

definition idle_session :: playback_session where
  "idle_session =
     \<lparr>rp_url = [], rp_tsession = [], rp_contract = contract_original False no_enhancements,
      rp_enhancement = EnhancementOff, rp_auto_original_watched = False, rp_auto_original = None,
      rp_audio = None, rp_subtitle_sid = 0, rp_stream_vcodec = [], rp_stream_acodec = [],
      rp_stream_video = \<lparr>sv_fps = 0, sv_dovi = dovi_none, sv_decision = dv_decision_none\<rparr>,
      rp_stream_immersive = False, ps_src_acodec = [], ps_auto_switches = 0, ps_auto_last_switch = None,
      ps_now_ms = 0, ps_rk = [], ps_sid = 65535, ps_sess = [], ps_preview = False,
      ps_resolved_as_preview = False, ps_forced_direct = False, ps_request_part = None,
      ps_transport_kbps = 0, ps_auto_fixture_base = [], ps_auto_prior_kbps = 0, ps_auto_bootstrap_rung = None\<rparr>"

definition route_projection :: "playback_session \<Rightarrow> route_projection" where
  "route_projection ps = route_projection.truncate ps"

text \<open>The candidate follows a pick of the viewer, or says that it cannot carry it.\<close>

definition named_audio :: "int \<Rightarrow> int \<Rightarrow> carried_audio" where
  "named_audio sid ordinal =
     \<lparr>ca_sid = sid, ca_ordinal = ordinal, ca_codec = [], ca_channels = 0,
      ca_can_normalize_loudness = False, ca_immersive = False\<rparr>"

definition retarget_audio ::
    "carried_audio \<Rightarrow> bool \<Rightarrow> auto_original_candidate \<Rightarrow> auto_original_candidate \<times> bool" where
  "retarget_audio a direct_plays cand =
     (if ac_direct cand \<and> \<not> direct_plays then (cand, False)
      else (cand\<lparr>ac_audio := Some (a\<lparr>ca_immersive := ca_immersive a \<and> ac_direct cand\<rparr>)\<rparr>, True))"

definition retarget_subtitle ::
    "int option \<Rightarrow> bool \<Rightarrow> auto_original_candidate \<Rightarrow> auto_original_candidate \<times> bool" where
  "retarget_subtitle ordinal client_renderable cand =
     (if ordinal \<noteq> None \<and> \<not> client_renderable then (cand, False)
      else (cand\<lparr>ac_subtitle_ordinal :=
              (case ordinal of None \<Rightarrow> None | Some n \<Rightarrow> if 0 \<le> n then Some n else None)\<rparr>, True))"

definition install_route_projection :: "route_projection \<Rightarrow> playback_session \<Rightarrow> playback_session" where
  "install_route_projection p ps = route_projection.extend p (route_projection.more ps)"

definition note_visible_switch :: "nat \<Rightarrow> playback_session \<Rightarrow> playback_session" where
  "note_visible_switch now_ms ps =
     ps\<lparr>ps_auto_switches := sat_add_u32 (ps_auto_switches ps) 1, ps_auto_last_switch := Some now_ms\<rparr>"

section \<open>Intents, phases, transactions\<close>

datatype recovery_cause = Automatic | ManualOriginal | EnhancementReleased

definition needs_part_admission :: "recovery_cause \<Rightarrow> bool" where
  "needs_part_admission cause = (case cause of Automatic \<Rightarrow> False | ManualOriginal \<Rightarrow> True | EnhancementReleased \<Rightarrow> True)"

datatype user_route_intent = Retranscode | NativeAudioReload | AdaptiveReload | RecoverOriginal recovery_cause

datatype automatic_route_intent =
    OriginalToHls worker_ticket nat int
  | HlsToOriginal worker_ticket nat int

datatype automatic_result = Accepted | Busy | Stale

datatype route_intent = UserIntent user_route_intent | AutomaticIntent automatic_route_intent

record claimed_action =
  cl_serial :: u64
  cl_ticket :: worker_ticket
  cl_intent :: route_intent
  cl_displaced_pick :: bool

datatype start_result = Started | NoRoute | StartFailed

datatype apply_result = ApplyPrepared | Rejected | Cancelled

datatype trial_phase = TPrepared u64 | TStarting u64 u64 | TAwaitingFrame u64 | TFailed u64

datatype control_phase =
    Idle | Resolving | Stable | StagingUser u64 | Applying u64 | Preparing u64 | Prepared u64
  | Starting u64 u64 | Completing u64 | OriginalTrial trial_phase | Failed u64 | Stopping

datatype resolve_fallback = FallIdle | FallStable | FallFailed u64

record active_hls =
  ah_url :: string
  ah_rung :: rung
  ah_observed :: "(hls_variant \<times> nat) option"

record active_encoder =
  ae_epoch :: u64
  ae_id :: string
  ae_hls :: "active_hls option"

record timeline_projection =
  tp_sid :: nat
  tp_rating_key :: string
  tp_session :: string

record timeline_lease =
  tl_engine_epoch :: u64
  tl_required_stop :: nat

record deferred_effects =
  de_quality :: "playback_quality option"
  de_audio :: "carried_audio option"
  de_reconcile :: bool

record pending_original =
  po_previous_applied_revision :: u64
  po_previous_applied_quality :: playback_quality
  po_previous_applied_projection :: "route_projection option"
  po_candidate_projection :: "route_projection"
  po_encoder :: string
  po_replacement_encoder :: string
  po_offset_secs :: int
  po_previous :: "route_projection"
  po_adopted_by_user :: bool
  po_charge_visible_switch :: bool
  po_deferred_quality :: "playback_quality option"
  po_deferred_audio :: "carried_audio option"
  po_deferred_reconcile :: bool

record player_control =
  rc_active :: active_encoder
  rc_engine_epoch :: u64
  rc_media_epoch :: u64
  rc_desired_revision :: u64
  rc_desired_quality :: playback_quality
  rc_applied_revision :: u64
  rc_applied_quality :: playback_quality
  rc_applied_projection :: "route_projection option"
  rc_next_action :: u64
  rc_pending_user :: "user_route_intent option"
  rc_displaced_pick :: bool
  rc_pending_auto :: "automatic_route_intent option"
  rc_pending_seek_ns :: "int option"
  rc_phase :: control_phase
  rc_resolve_fallback :: "resolve_fallback option"
  rc_next_start_attempt :: u64
  rc_start_results :: "(route_start_attempt \<times> start_result) list"
  rc_last_start_result :: "(route_start_attempt \<times> start_result) option"
  rc_start_deferred :: "(u64 \<times> deferred_effects) option"
  rc_pending_original :: "pending_original option"
  rc_timeline :: "timeline_projection option"

definition player_control_init :: "player_control" where
  "player_control_init =
     \<lparr>rc_active = \<lparr>ae_epoch = 0, ae_id = [], ae_hls = None\<rparr>, rc_engine_epoch = 1, rc_media_epoch = 1,
      rc_desired_revision = 1, rc_desired_quality = QOriginal, rc_applied_revision = 1,
      rc_applied_quality = QOriginal, rc_applied_projection = None, rc_next_action = 0,
      rc_pending_user = None, rc_displaced_pick = False, rc_pending_auto = None, rc_pending_seek_ns = None,
      rc_phase = Stable, rc_resolve_fallback = None, rc_next_start_attempt = 0, rc_start_results = [],
      rc_last_start_result = None, rc_start_deferred = None, rc_pending_original = None, rc_timeline = None\<rparr>"

definition lease_of :: "active_encoder \<Rightarrow> route_lease" where
  "lease_of active = \<lparr>rl_epoch = ae_epoch active, rl_encoder = ae_id active\<rparr>"

definition worker_ticket_of :: "player_control \<Rightarrow> worker_ticket" where
  "worker_ticket_of c =
     \<lparr>wt_route = lease_of (rc_active c), wt_engine_epoch = rc_engine_epoch c,
      wt_media_epoch = rc_media_epoch c, wt_applied_revision = rc_applied_revision c\<rparr>"

definition ticket_is_current :: "player_control \<Rightarrow> worker_ticket \<Rightarrow> bool" where
  "ticket_is_current c ticket = (ticket = worker_ticket_of c)"

definition automatic_ticket :: "automatic_route_intent \<Rightarrow> worker_ticket" where
  "automatic_ticket intent = (case intent of OriginalToHls t _ _ \<Rightarrow> t | HlsToOriginal t _ _ \<Rightarrow> t)"

definition advance_route :: "active_encoder \<Rightarrow> active_encoder" where
  "advance_route active = active\<lparr>ae_epoch := next_route_epoch (ae_epoch active)\<rparr>"

definition retarget_automatic_intent :: "worker_ticket \<Rightarrow> int option \<Rightarrow> automatic_route_intent \<Rightarrow> automatic_route_intent" where
  "retarget_automatic_intent ticket target intent =
     (case intent of
        OriginalToHls _ kbps pos \<Rightarrow> OriginalToHls ticket kbps (case target of None \<Rightarrow> pos | Some p \<Rightarrow> max 0 p)
      | HlsToOriginal _ kbps pos \<Rightarrow> HlsToOriginal ticket kbps (case target of None \<Rightarrow> pos | Some p \<Rightarrow> max 0 p))"

section \<open>Edits of the user\<close>

definition advance_user_contract :: "player_control \<Rightarrow> player_control" where
  "advance_user_contract c = c\<lparr>rc_desired_revision := next_generation (rc_desired_revision c)\<rparr>"

definition begin_user_contract_boundary :: "player_control \<Rightarrow> player_control \<times> u64 option" where
  "begin_user_contract_boundary c =
     (let c = advance_user_contract c in
      if rc_phase c = Stable
      then let serial = next_generation (rc_next_action c)
           in (c\<lparr>rc_next_action := serial, rc_phase := StagingUser serial\<rparr>, Some serial)
      else (c, None))"

definition user_edit_drop :: "u64 option \<Rightarrow> player_control \<Rightarrow> player_control" where
  "user_edit_drop serial c =
     (case serial of
        None \<Rightarrow> c
      | Some s \<Rightarrow> if rc_phase c = StagingUser s then c\<lparr>rc_phase := Stable\<rparr> else c)"

definition begin_user_quality_boundary :: "playback_quality \<Rightarrow> player_control \<Rightarrow> player_control \<times> u64 option" where
  "begin_user_quality_boundary q c =
     (let (c, guard) = begin_user_contract_boundary c in (c\<lparr>rc_desired_quality := q\<rparr>, guard))"

fun merge_user_route_intent :: "user_route_intent option \<Rightarrow> user_route_intent \<Rightarrow> bool \<Rightarrow> user_route_intent" where
  "merge_user_route_intent pending (RecoverOriginal cause) preserve = RecoverOriginal cause"
| "merge_user_route_intent (Some (RecoverOriginal cause)) Retranscode preserve =
     (if preserve then RecoverOriginal cause else Retranscode)"
| "merge_user_route_intent (Some (RecoverOriginal cause)) newer preserve = newer"
| "merge_user_route_intent (Some Retranscode) NativeAudioReload preserve = Retranscode"
| "merge_user_route_intent (Some Retranscode) AdaptiveReload preserve = Retranscode"
| "merge_user_route_intent (Some NativeAudioReload) Retranscode preserve = Retranscode"
| "merge_user_route_intent (Some AdaptiveReload) Retranscode preserve = Retranscode"
| "merge_user_route_intent (Some NativeAudioReload) AdaptiveReload preserve = NativeAudioReload"
| "merge_user_route_intent (Some AdaptiveReload) NativeAudioReload preserve = NativeAudioReload"
| "merge_user_route_intent pending newer preserve = newer"

text \<open>The durable quality picker (\<open>quality()\<close>) is an argument of what reads it.\<close>

definition queue_user_route_intent ::
    "playback_quality \<Rightarrow> playback_session \<Rightarrow> user_route_intent \<Rightarrow> bool \<Rightarrow> player_control \<Rightarrow> player_control" where
  "queue_user_route_intent picker ps intent displaced c =
     (let c = advance_user_contract (c\<lparr>rc_displaced_pick := rc_displaced_pick c \<or> displaced\<rparr>);
          preserve = (picker = QOriginal \<and> rp_auto_original ps \<noteq> None)
      in c\<lparr>rc_pending_user := Some (merge_user_route_intent (rc_pending_user c) intent preserve)\<rparr>)"

definition request_user_route_intent ::
    "playback_quality \<Rightarrow> playback_session \<Rightarrow> user_route_intent \<Rightarrow> player_control \<Rightarrow> player_control" where
  "request_user_route_intent picker ps intent c = queue_user_route_intent picker ps intent False c"

definition cancel_user_route_intent :: "user_route_intent \<Rightarrow> player_control \<Rightarrow> player_control" where
  "cancel_user_route_intent intent c =
     (if rc_pending_user c = Some intent then c\<lparr>rc_pending_user := None, rc_displaced_pick := False\<rparr> else c)"

definition note_user_seek_intent :: "int \<Rightarrow> player_control \<Rightarrow> player_control" where
  "note_user_seek_intent target c =
     (let c = c\<lparr>rc_pending_seek_ns := Some (max 0 target)\<rparr>
      in c\<lparr>rc_pending_auto := map_option (retarget_automatic_intent (worker_ticket_of c) (Some target)) (rc_pending_auto c)\<rparr>)"

definition commit_user_seek :: "player_control \<Rightarrow> player_control \<times> bool" where
  "commit_user_seek c =
     (if rc_pending_seek_ns c = None then (c, False)
      else let c = c\<lparr>rc_pending_seek_ns := None, rc_media_epoch := next_generation (rc_media_epoch c)\<rparr>
           in (c\<lparr>rc_pending_auto := map_option (retarget_automatic_intent (worker_ticket_of c) None) (rc_pending_auto c)\<rparr>, True))"

definition reject_user_seek :: "player_control \<Rightarrow> player_control" where
  "reject_user_seek c = c\<lparr>rc_pending_seek_ns := None\<rparr>"

section \<open>Requests and landings\<close>

definition begin_playback_request :: "playback_quality \<Rightarrow> player_control \<Rightarrow> player_control \<times> bool" where
  "begin_playback_request picker c =
     (let fallback = (case rc_phase c of
            Resolving \<Rightarrow> Some None
          | Stable \<Rightarrow> Some (Some FallStable)
          | Failed serial \<Rightarrow> Some (Some (FallFailed serial))
          | Idle \<Rightarrow> Some (Some FallIdle)
          | Stopping \<Rightarrow> Some (Some FallIdle)
          | _ \<Rightarrow> None)
      in case fallback of
           None \<Rightarrow> (c, False)
         | Some f \<Rightarrow>
             (c\<lparr>rc_desired_revision := next_generation (rc_desired_revision c), rc_desired_quality := picker,
                rc_pending_user := None, rc_displaced_pick := False, rc_pending_auto := None,
                rc_pending_seek_ns := None,
                rc_resolve_fallback := (case f of None \<Rightarrow> rc_resolve_fallback c | Some x \<Rightarrow> Some x),
                rc_phase := Resolving\<rparr>, True))"

definition prepare_playback_landing ::
    "playback_quality \<Rightarrow> playback_session \<Rightarrow> bool \<Rightarrow> player_control \<Rightarrow> player_control \<times> u64 option" where
  "prepare_playback_landing picker ps playable c =
     (let c = (if rc_phase c \<noteq> Resolving then c\<lparr>rc_desired_quality := picker\<rparr> else c);
          c = c\<lparr>rc_engine_epoch := next_generation (rc_engine_epoch c),
                rc_media_epoch := next_generation (rc_media_epoch c)\<rparr>;
          c = (if playable
               then c\<lparr>rc_applied_revision := rc_desired_revision c, rc_applied_quality := rc_desired_quality c,
                      rc_applied_projection := Some (route_projection ps)\<rparr>
               else c);
          c = c\<lparr>rc_pending_auto := None\<rparr>;
          c = (if \<not> playable then c\<lparr>rc_timeline := None\<rparr> else c)
      in if playable
         then
           let (c, serial) = (case rc_phase c of
                  Preparing serial \<Rightarrow> (c, serial)
                | Prepared serial \<Rightarrow> (c, serial)
                | Starting serial _ \<Rightarrow> (c, serial)
                | _ \<Rightarrow> (c\<lparr>rc_next_action := next_generation (rc_next_action c)\<rparr>, next_generation (rc_next_action c)));
               c = (case rc_phase c of Starting _ _ \<Rightarrow> c | _ \<Rightarrow> c\<lparr>rc_phase := Prepared serial\<rparr>)
           in (c\<lparr>rc_resolve_fallback := None\<rparr>, Some serial)
         else (c\<lparr>rc_phase := Idle, rc_resolve_fallback := None\<rparr>, None))"

definition cancel_playback_request :: "playback_session \<Rightarrow> player_control \<Rightarrow> playback_session \<times> player_control" where
  "cancel_playback_request ps c =
     (if rc_phase c \<noteq> Resolving then (ps, c)
      else
        let fallback = (case rc_resolve_fallback c of None \<Rightarrow> FallIdle | Some f \<Rightarrow> f);
            restore = (case fallback of FallIdle \<Rightarrow> None | _ \<Rightarrow> rc_applied_projection c);
            ps = (case restore of None \<Rightarrow> ps | Some applied \<Rightarrow> install_route_projection applied ps)
        in (ps, c\<lparr>rc_pending_auto := None, rc_resolve_fallback := None,
                  rc_phase := (case fallback of FallIdle \<Rightarrow> Idle | FallStable \<Rightarrow> Stable | FallFailed serial \<Rightarrow> Failed serial)\<rparr>))"

section \<open>Route actions\<close>

definition publish_automatic_route_intent :: "automatic_route_intent \<Rightarrow> player_control \<Rightarrow> player_control \<times> automatic_result" where
  "publish_automatic_route_intent intent c =
     (if \<not> ticket_is_current c (automatic_ticket intent) then (c, Stale)
      else if rc_phase c \<noteq> Stable \<or> rc_pending_user c \<noteq> None \<or> rc_pending_auto c \<noteq> None \<or> rc_pending_seek_ns c \<noteq> None
      then (c, Busy)
      else (c\<lparr>rc_pending_auto := Some intent\<rparr>, Accepted))"

definition claim_route_action :: "player_control \<Rightarrow> player_control \<times> claimed_action option" where
  "claim_route_action c =
     (if rc_phase c \<noteq> Stable then (c, None)
      else
        let claimed = (case rc_pending_user c of
              Some user \<Rightarrow>
                (c\<lparr>rc_pending_user := None, rc_displaced_pick := False\<rparr>, Some (UserIntent user, rc_displaced_pick c))
            | None \<Rightarrow>
                (case rc_pending_auto c of
                   None \<Rightarrow> (c, None)
                 | Some auto \<Rightarrow>
                     let c = c\<lparr>rc_pending_auto := None\<rparr>
                     in if ticket_is_current c (automatic_ticket auto)
                        then (c, Some (AutomaticIntent auto, False)) else (c, None)))
        in case claimed of
             (c, None) \<Rightarrow> (c, None)
           | (c, Some (intent, displaced)) \<Rightarrow>
               let serial = next_generation (rc_next_action c);
                   c = c\<lparr>rc_next_action := serial, rc_phase := Applying serial\<rparr>
               in (c, Some \<lparr>cl_serial = serial, cl_ticket = worker_ticket_of c, cl_intent = intent,
                            cl_displaced_pick = displaced\<rparr>))"

definition finish_route_action ::
    "playback_session \<Rightarrow> claimed_action \<Rightarrow> apply_result \<Rightarrow> player_control \<Rightarrow> playback_session \<times> player_control" where
  "finish_route_action ps action result c =
     (if rc_phase c \<noteq> Applying (cl_serial action) then (ps, c)
      else if result = ApplyPrepared
      then
        let c = (case cl_intent action of
                   UserIntent _ \<Rightarrow> c\<lparr>rc_applied_revision := rc_desired_revision c, rc_applied_quality := rc_desired_quality c\<rparr>
                 | AutomaticIntent _ \<Rightarrow> c)
        in (ps, c\<lparr>rc_applied_projection := Some (route_projection ps), rc_phase := Prepared (cl_serial action)\<rparr>)
      else
        (case rc_applied_projection c of None \<Rightarrow> ps | Some applied \<Rightarrow> install_route_projection applied ps,
         c\<lparr>rc_phase := Stable\<rparr>))"

definition publish_applied_route_projection :: "playback_session \<Rightarrow> player_control \<Rightarrow> player_control" where
  "publish_applied_route_projection ps c = c\<lparr>rc_applied_projection := Some (route_projection ps)\<rparr>"

definition commit_in_place_route_projection :: "playback_session \<Rightarrow> bool \<Rightarrow> player_control \<Rightarrow> player_control" where
  "commit_in_place_route_projection ps quality_contract c =
     (let in_place =
            (let c = (if quality_contract
                      then c\<lparr>rc_applied_revision := rc_desired_revision c, rc_applied_quality := rc_desired_quality c\<rparr>
                      else c)
             in c\<lparr>rc_applied_projection := Some (route_projection ps)\<rparr>)
      in case rc_phase c of
           Stable \<Rightarrow> in_place
         | StagingUser _ \<Rightarrow> in_place
         | Completing _ \<Rightarrow> in_place
         | OriginalTrial _ \<Rightarrow>
             if quality_contract then c
             else c\<lparr>rc_pending_original := map_option (\<lambda>p. p\<lparr>po_candidate_projection := route_projection ps\<rparr>) (rc_pending_original c)\<rparr>
         | _ \<Rightarrow> c)"

section \<open>Starting a prepared route\<close>

definition pending_route_start :: "player_control \<Rightarrow> u64 option" where
  "pending_route_start c =
     (case rc_phase c of
        Preparing serial \<Rightarrow> Some serial
      | Prepared serial \<Rightarrow> Some serial
      | Starting serial _ \<Rightarrow> Some serial
      | OriginalTrial (TPrepared serial) \<Rightarrow> Some serial
      | OriginalTrial (TStarting serial _) \<Rightarrow> Some serial
      | _ \<Rightarrow> None)"

definition begin_route_start :: "player_control \<Rightarrow> player_control \<times> u64 option" where
  "begin_route_start c =
     (let serial = next_generation (rc_next_action c)
      in case rc_phase c of
           Preparing s \<Rightarrow> (c, Some s)
         | Prepared s \<Rightarrow> (c, Some s)
         | Starting s _ \<Rightarrow> (c, Some s)
         | OriginalTrial (TPrepared s) \<Rightarrow> (c, Some s)
         | OriginalTrial (TStarting s _) \<Rightarrow> (c, Some s)
         | Stable \<Rightarrow> (c\<lparr>rc_next_action := serial, rc_phase := Preparing serial\<rparr>, Some serial)
         | Failed _ \<Rightarrow> (c\<lparr>rc_next_action := serial, rc_phase := Prepared serial\<rparr>, Some serial)
         | Idle \<Rightarrow> (c\<lparr>rc_next_action := serial, rc_phase := Prepared serial\<rparr>, Some serial)
         | _ \<Rightarrow> (c, None))"

definition prepare_route_start :: "u64 \<Rightarrow> player_control \<Rightarrow> player_control \<times> bool" where
  "prepare_route_start ticket c =
     (case rc_phase c of
        Preparing serial \<Rightarrow> if serial = ticket then (c\<lparr>rc_phase := Prepared serial\<rparr>, True) else (c, False)
      | Prepared serial \<Rightarrow> (c, serial = ticket)
      | Starting serial _ \<Rightarrow> (c, serial = ticket)
      | OriginalTrial (TPrepared serial) \<Rightarrow> (c, serial = ticket)
      | OriginalTrial (TStarting serial _) \<Rightarrow> (c, serial = ticket)
      | _ \<Rightarrow> (c, False))"

text \<open>The attempt counter is checked: when it is exhausted the \<open>expect\<close> panics, which is \<open>None\<close>.\<close>

definition claim_route_start_attempt :: "u64 \<Rightarrow> player_control \<Rightarrow> (player_control \<times> route_start_attempt option) option" where
  "claim_route_start_attempt ticket c =
     (case (case rc_phase c of
              Prepared serial \<Rightarrow> if serial = ticket then Some False else None
            | OriginalTrial (TPrepared serial) \<Rightarrow> if serial = ticket then Some True else None
            | _ \<Rightarrow> None) of
        None \<Rightarrow> Some (c, None)
      | Some original \<Rightarrow>
          if rc_next_start_attempt c = - 1 then None
          else
            let attempt = rc_next_start_attempt c + 1
            in Some (c\<lparr>rc_next_start_attempt := attempt,
                       rc_phase := (if original then OriginalTrial (TStarting ticket attempt) else Starting ticket attempt)\<rparr>,
                     Some \<lparr>ra_serial = ticket, ra_attempt = attempt\<rparr>))"

definition drop_start_deferred :: "u64 \<Rightarrow> player_control \<Rightarrow> player_control" where
  "drop_start_deferred ticket c =
     c\<lparr>rc_start_deferred := (case rc_start_deferred c of
         None \<Rightarrow> None | Some (serial, e) \<Rightarrow> if serial \<noteq> ticket then Some (serial, e) else None)\<rparr>"

definition reject_route_start_preparation :: "u64 \<Rightarrow> player_control \<Rightarrow> player_control \<times> bool" where
  "reject_route_start_preparation ticket c =
     (case (case rc_phase c of
              Preparing serial \<Rightarrow> if serial = ticket then Some Stable else None
            | Prepared serial \<Rightarrow> if serial = ticket then Some (Failed serial) else None
            | OriginalTrial (TPrepared serial) \<Rightarrow> if serial = ticket then Some (OriginalTrial (TFailed serial)) else None
            | _ \<Rightarrow> None) of
        None \<Rightarrow> (c, False)
      | Some phase \<Rightarrow> (drop_start_deferred ticket (c\<lparr>rc_phase := phase\<rparr>), True))"

definition abort_route_start :: "u64 \<Rightarrow> start_result \<Rightarrow> player_control \<Rightarrow> player_control \<times> bool" where
  "abort_route_start ticket result c =
     (case (case rc_phase c of
              Preparing serial \<Rightarrow>
                if serial = ticket then Some (if result = NoRoute then Stable else Failed serial) else None
            | Prepared serial \<Rightarrow> if serial = ticket then Some (Failed serial) else None
            | Starting serial _ \<Rightarrow> if serial = ticket then Some (Failed serial) else None
            | OriginalTrial (TPrepared serial) \<Rightarrow> if serial = ticket then Some (OriginalTrial (TFailed serial)) else None
            | OriginalTrial (TStarting serial _) \<Rightarrow> if serial = ticket then Some (OriginalTrial (TFailed serial)) else None
            | _ \<Rightarrow> None) of
        None \<Rightarrow> (c, False)
      | Some phase \<Rightarrow> ((drop_start_deferred ticket c)\<lparr>rc_timeline := None, rc_phase := phase\<rparr>, True))"

text \<open>
  Settling an attempt hands out the deferred effects of its transaction; they run with the lock released,
  and then the phase is published. The whole is the composition around the effects.
\<close>

definition settle_begin ::
    "route_start_attempt \<Rightarrow> start_result \<Rightarrow> player_control \<Rightarrow> player_control \<times> bool \<times> deferred_effects option" where
  "settle_begin ticket result c =
     (let ordinary = (rc_phase c = Starting (ra_serial ticket) (ra_attempt ticket));
          original = (rc_phase c = OriginalTrial (TStarting (ra_serial ticket) (ra_attempt ticket)))
      in if \<not> ordinary \<and> \<not> original then (c, False, None)
         else
           let c = c\<lparr>rc_last_start_result := Some (ticket, result)\<rparr>
           in if ordinary then
                if result = Started then
                  let effects = (case rc_start_deferred c of
                        None \<Rightarrow> None | Some (serial, e) \<Rightarrow> if serial = ra_serial ticket then Some e else None)
                  in (c\<lparr>rc_start_deferred := None,
                        rc_phase := (if effects \<noteq> None then Completing (ra_serial ticket) else Stable)\<rparr>, True, effects)
                else ((drop_start_deferred (ra_serial ticket) c)\<lparr>rc_timeline := None,
                        rc_phase := Failed (ra_serial ticket)\<rparr>, True, None)
              else if result = Started
              then (c\<lparr>rc_phase := OriginalTrial (TAwaitingFrame (ra_serial ticket))\<rparr>, True, None)
              else (c\<lparr>rc_phase := OriginalTrial (TFailed (ra_serial ticket))\<rparr>, True, None))"

definition complete_finish :: "u64 \<Rightarrow> player_control \<Rightarrow> player_control" where
  "complete_finish serial c = (if rc_phase c = Completing serial then c\<lparr>rc_phase := Stable\<rparr> else c)"

definition settle_route_start ::
    "(deferred_effects \<Rightarrow> playback_session \<times> player_control \<Rightarrow> playback_session \<times> player_control) \<Rightarrow>
     route_start_attempt \<Rightarrow> start_result \<Rightarrow> playback_session \<times> player_control \<Rightarrow>
     (playback_session \<times> player_control) \<times> bool" where
  "settle_route_start apply_effects ticket result s =
     (let (c, settled, deferred) = settle_begin ticket result (snd s)
      in case deferred of
           None \<Rightarrow> ((fst s, c), settled)
         | Some e \<Rightarrow> let (ps, c) = apply_effects e (fst s, c) in ((ps, complete_finish (ra_serial ticket) c), settled))"

datatype start_status = StatusPending | StatusStarted | StatusFailed | Superseded route_start_attempt | StatusStale

datatype live_relation = CurrentAttempt | NoPendingRoute | Conflict u64

definition classify_live_engine_start :: "route_start_attempt \<Rightarrow> player_control \<Rightarrow> live_relation" where
  "classify_live_engine_start existing c =
     (case rc_phase c of
        Starting serial attempt \<Rightarrow>
          if serial = ra_serial existing \<and> attempt = ra_attempt existing then CurrentAttempt else Conflict serial
      | OriginalTrial (TStarting serial attempt) \<Rightarrow>
          if serial = ra_serial existing \<and> attempt = ra_attempt existing then CurrentAttempt else Conflict serial
      | Preparing serial \<Rightarrow> Conflict serial
      | Prepared serial \<Rightarrow> Conflict serial
      | OriginalTrial (TPrepared serial) \<Rightarrow> Conflict serial
      | _ \<Rightarrow> NoPendingRoute)"

definition in_flight :: "control_phase \<Rightarrow> route_start_attempt option" where
  "in_flight phase =
     (case phase of
        Starting serial attempt \<Rightarrow> Some \<lparr>ra_serial = serial, ra_attempt = attempt\<rparr>
      | OriginalTrial (TStarting serial attempt) \<Rightarrow> Some \<lparr>ra_serial = serial, ra_attempt = attempt\<rparr>
      | _ \<Rightarrow> None)"

definition route_start_status :: "route_start_attempt \<Rightarrow> player_control \<Rightarrow> start_status" where
  "route_start_status ticket c =
     (case in_flight (rc_phase c) of
        Some current \<Rightarrow>
          if current = ticket then StatusPending
          else if ra_attempt current > ra_attempt ticket then Superseded current else StatusStale
      | None \<Rightarrow>
          (case (case (rc_phase c, rc_last_start_result c) of
                   (Stable, Some (a, Started)) \<Rightarrow> Some (a, StatusStarted)
                 | (Completing _, Some (a, Started)) \<Rightarrow> Some (a, StatusStarted)
                 | (Failed serial, Some (a, r)) \<Rightarrow>
                     if r \<noteq> Started \<and> ra_serial a = serial then Some (a, StatusFailed) else None
                 | (OriginalTrial (TAwaitingFrame serial), Some (a, Started)) \<Rightarrow>
                     if ra_serial a = serial then Some (a, StatusStarted) else None
                 | (OriginalTrial (TFailed serial), Some (a, r)) \<Rightarrow>
                     if r \<noteq> Started \<and> ra_serial a = serial then Some (a, StatusFailed) else None
                 | _ \<Rightarrow> None) of
             Some (a, status) \<Rightarrow>
               if a = ticket then status
               else if ra_attempt a > ra_attempt ticket then Superseded a else StatusStale
           | None \<Rightarrow> StatusStale))"

definition publish_route_start_result :: "route_start_attempt \<Rightarrow> start_result \<Rightarrow> player_control \<Rightarrow> player_control" where
  "publish_route_start_result ticket result c = c\<lparr>rc_start_results := rc_start_results c @ [(ticket, result)]\<rparr>"

definition drain_route_start_results ::
    "(deferred_effects \<Rightarrow> playback_session \<times> player_control \<Rightarrow> playback_session \<times> player_control) \<Rightarrow>
     playback_session \<times> player_control \<Rightarrow> playback_session \<times> player_control" where
  "drain_route_start_results apply_effects s =
     (let results = rc_start_results (snd s);
          s = (fst s, (snd s)\<lparr>rc_start_results := []\<rparr>)
      in foldl (\<lambda>s (ticket, result). fst (settle_route_start apply_effects ticket result s)) s results)"

section \<open>Failure and teardown\<close>

definition fail_current_engine :: "player_control \<Rightarrow> player_control" where
  "fail_current_engine c =
     (let bumped = next_generation (rc_next_action c)
      in case (case rc_phase c of
                 Preparing serial \<Rightarrow> Some (serial, rc_next_action c)
               | Prepared serial \<Rightarrow> Some (serial, rc_next_action c)
               | Starting serial _ \<Rightarrow> Some (serial, rc_next_action c)
               | Stable \<Rightarrow> Some (bumped, bumped)
               | Completing _ \<Rightarrow> Some (bumped, bumped)
               | StagingUser serial \<Rightarrow> Some (serial, rc_next_action c)
               | OriginalTrial (TPrepared serial) \<Rightarrow> Some (serial, rc_next_action c)
               | OriginalTrial (TStarting serial _) \<Rightarrow> Some (serial, rc_next_action c)
               | OriginalTrial (TAwaitingFrame serial) \<Rightarrow> Some (serial, rc_next_action c)
               | OriginalTrial (TFailed serial) \<Rightarrow> Some (serial, rc_next_action c)
               | _ \<Rightarrow> None) of
           None \<Rightarrow> c
         | Some (serial, next_action) \<Rightarrow>
             c\<lparr>rc_next_action := next_action, rc_engine_epoch := next_generation (rc_engine_epoch c),
               rc_media_epoch := next_generation (rc_media_epoch c), rc_pending_auto := None,
               rc_start_deferred := None, rc_timeline := None, rc_phase := Failed serial\<rparr>)"

definition begin_engine_teardown :: "bool \<Rightarrow> player_control \<Rightarrow> player_control" where
  "begin_engine_teardown for_reload c =
     (let c = c\<lparr>rc_engine_epoch := next_generation (rc_engine_epoch c),
                rc_media_epoch := next_generation (rc_media_epoch c), rc_pending_auto := None\<rparr>
      in if \<not> for_reload
         then c\<lparr>rc_desired_revision := next_generation (rc_desired_revision c), rc_pending_user := None,
                rc_displaced_pick := False, rc_pending_seek_ns := None, rc_phase := Stopping, rc_timeline := None\<rparr>
         else c\<lparr>rc_phase := (case rc_phase c of
                  Starting serial _ \<Rightarrow> Prepared serial
                | OriginalTrial (TStarting serial _) \<Rightarrow> OriginalTrial (TPrepared serial)
                | OriginalTrial (TAwaitingFrame serial) \<Rightarrow> OriginalTrial (TPrepared serial)
                | phase \<Rightarrow> phase)\<rparr>)"

definition finish_engine_teardown :: "player_control \<Rightarrow> player_control" where
  "finish_engine_teardown c = (if rc_phase c = Stopping then c\<lparr>rc_phase := Idle\<rparr> else c)"

section \<open>The active encoder\<close>

definition install_active_encoder :: "string \<Rightarrow> player_control \<Rightarrow> player_control" where
  "install_active_encoder val c = c\<lparr>rc_active := (advance_route (rc_active c))\<lparr>ae_id := val, ae_hls := None\<rparr>\<rparr>"

definition install_active_hls :: "string \<Rightarrow> string \<Rightarrow> rung \<Rightarrow> player_control \<Rightarrow> player_control" where
  "install_active_hls val url rung c =
     c\<lparr>rc_active := (advance_route (rc_active c))\<lparr>ae_id := val,
         ae_hls := Some \<lparr>ah_url = url, ah_rung = rung, ah_observed = None\<rparr>\<rparr>\<rparr>"

definition take_active_encoder :: "player_control \<Rightarrow> player_control \<times> string" where
  "take_active_encoder c =
     (c\<lparr>rc_active := (advance_route (rc_active c))\<lparr>ae_hls := None, ae_id := []\<rparr>\<rparr>, ae_id (rc_active c))"

definition replace_active_encoder_for :: "worker_ticket \<Rightarrow> string \<Rightarrow> player_control \<Rightarrow> player_control \<times> worker_ticket option" where
  "replace_active_encoder_for expected replacement c =
     (if \<not> ticket_is_current c expected then (c, None)
      else let c = c\<lparr>rc_active := (advance_route (rc_active c))\<lparr>ae_id := replacement, ae_hls := None\<rparr>\<rparr>
           in (c, Some (worker_ticket_of c)))"

definition replace_active_hls_for ::
    "worker_ticket \<Rightarrow> string \<Rightarrow> active_hls \<Rightarrow> player_control \<Rightarrow> player_control \<times> worker_ticket option" where
  "replace_active_hls_for expected replacement hls c =
     (if \<not> ticket_is_current c expected then (c, None)
      else let c = c\<lparr>rc_active := (advance_route (rc_active c))\<lparr>ae_id := replacement, ae_hls := Some hls\<rparr>\<rparr>
           in (c, Some (worker_ticket_of c)))"

datatype commit_refusal = RouteMoved | TransitionRejected

text \<open>The worker's local transition is a parameter: its value, or a refusal that leaves the route alone.\<close>

definition replace_active_hls_with ::
    "worker_ticket \<Rightarrow> string \<Rightarrow> active_hls \<Rightarrow> 't option \<Rightarrow> player_control \<Rightarrow>
     player_control \<times> (commit_refusal + 't \<times> worker_ticket)" where
  "replace_active_hls_with expected replacement hls transition c =
     (if rc_phase c \<noteq> Stable \<or> \<not> ticket_is_current c expected then (c, Inl RouteMoved)
      else
        (case transition of
           None \<Rightarrow> (c, Inl TransitionRejected)
         | Some val \<Rightarrow>
             let c = c\<lparr>rc_active := (advance_route (rc_active c))\<lparr>ae_id := replacement, ae_hls := Some hls\<rparr>\<rparr>
             in (c, Inr (val, worker_ticket_of c))))"

definition observe_active_hls :: "worker_ticket \<Rightarrow> hls_variant \<Rightarrow> nat \<Rightarrow> player_control \<Rightarrow> player_control" where
  "observe_active_hls expected variant evidence_kbps c =
     (if \<not> ticket_is_current c expected then c
      else
        (case ae_hls (rc_active c) of
           None \<Rightarrow> c
         | Some hls \<Rightarrow>
             if map_option fst (ah_observed hls) \<noteq> Some variant
             then c\<lparr>rc_active := (rc_active c)\<lparr>ae_hls := Some (hls\<lparr>ah_observed := Some (variant, evidence_kbps)\<rparr>)\<rparr>\<rparr>
             else c))"

definition active_hls_route :: "player_control \<Rightarrow> (worker_ticket \<times> active_hls) option" where
  "active_hls_route c = map_option (\<lambda>hls. (worker_ticket_of c, hls)) (ae_hls (rc_active c))"

definition sync_active_hls_to_session ::
    "playback_session \<Rightarrow> player_control \<Rightarrow>
     (playback_session \<times> player_control) \<times> (worker_ticket \<times> active_hls) option" where
  "sync_active_hls_to_session ps c =
     (case ae_hls (rc_active c) of
        None \<Rightarrow> ((ps, c), None)
      | Some hls \<Rightarrow>
          let ticket = worker_ticket_of c;
              applied = (case rc_applied_projection c of None \<Rightarrow> route_projection ps | Some p \<Rightarrow> p);
              applied = applied\<lparr>rp_url := ah_url hls, rp_tsession := rl_encoder (wt_route ticket),
                rp_contract := (rp_contract applied)\<lparr>ec_ceiling := Some (rung_ceiling (ah_rung hls)), ec_remux := False\<rparr>\<rparr>;
              c = c\<lparr>rc_applied_projection := Some applied\<rparr>;
              ps = ps\<lparr>rp_url := ah_url hls, rp_tsession := rl_encoder (wt_route ticket),
                rp_contract := (rp_contract ps)\<lparr>ec_ceiling := Some (rung_ceiling (ah_rung hls)), ec_remux := False\<rparr>\<rparr>
          in ((ps, c), Some (ticket, hls)))"

section \<open>The trial of the original\<close>

definition snapshot_route :: "playback_session \<Rightarrow> string \<Rightarrow> int \<Rightarrow> pending_original" where
  "snapshot_route ps encoder offset_secs =
     \<lparr>po_previous_applied_revision = 0, po_previous_applied_quality = QOriginal,
      po_previous_applied_projection = None, po_candidate_projection = route_projection ps,
      po_encoder = encoder, po_replacement_encoder = [], po_offset_secs = offset_secs,
      po_previous = route_projection ps, po_adopted_by_user = False, po_charge_visible_switch = False,
      po_deferred_quality = None, po_deferred_audio = None, po_deferred_reconcile = False\<rparr>"

definition set_pending_original ::
    "playback_session \<Rightarrow> pending_original \<Rightarrow> bool \<Rightarrow> player_control \<Rightarrow> player_control" where
  "set_pending_original ps pending automatic c =
     (let pending = pending\<lparr>po_charge_visible_switch := automatic,
            po_previous_applied_revision := rc_applied_revision c,
            po_previous_applied_quality := rc_applied_quality c,
            po_previous_applied_projection := rc_applied_projection c,
            po_candidate_projection := route_projection ps\<rparr>;
          c = (if automatic then c
               else c\<lparr>rc_applied_revision := rc_desired_revision c, rc_applied_quality := rc_desired_quality c\<rparr>);
          (c, serial) = (case rc_phase c of
              Applying serial \<Rightarrow> (c, serial)
            | Prepared serial \<Rightarrow> (c, serial)
            | Starting serial _ \<Rightarrow> (c, serial)
            | _ \<Rightarrow> (c\<lparr>rc_next_action := next_generation (rc_next_action c)\<rparr>, next_generation (rc_next_action c)))
      in c\<lparr>rc_phase := OriginalTrial (TPrepared serial), rc_pending_original := Some pending\<rparr>)"

definition original_recovery_pending :: "player_control \<Rightarrow> bool" where
  "original_recovery_pending c = (rc_pending_original c \<noteq> None)"

text \<open>The edits a pending trial takes instead of the route.\<close>

definition adopt_trial :: "playback_session \<Rightarrow> player_control \<Rightarrow> playback_session \<times> player_control" where
  "adopt_trial ps c =
     (ps\<lparr>rp_auto_original_watched := False\<rparr>,
      c\<lparr>rc_pending_original := map_option
          (\<lambda>p. p\<lparr>po_adopted_by_user := True, po_deferred_quality := None,
                 po_candidate_projection := (po_candidate_projection p)\<lparr>rp_auto_original_watched := False\<rparr>\<rparr>)
          (rc_pending_original c)\<rparr>)"

definition defer_quality :: "playback_quality \<Rightarrow> player_control \<Rightarrow> player_control" where
  "defer_quality q c =
     c\<lparr>rc_pending_original := map_option (\<lambda>p. p\<lparr>po_deferred_quality := Some q\<rparr>) (rc_pending_original c)\<rparr>"

definition defer_audio :: "carried_audio \<Rightarrow> player_control \<Rightarrow> player_control" where
  "defer_audio a c =
     c\<lparr>rc_pending_original := map_option (\<lambda>p. p\<lparr>po_deferred_audio := Some a\<rparr>) (rc_pending_original c)\<rparr>"

definition defer_reconcile :: "player_control \<Rightarrow> player_control \<times> bool" where
  "defer_reconcile c =
     (case rc_pending_original c of
        None \<Rightarrow> (c, False)
      | Some p \<Rightarrow> (c\<lparr>rc_pending_original := Some (p\<lparr>po_deferred_reconcile := True\<rparr>)\<rparr>, True))"

definition effects_from_pending :: "pending_original \<Rightarrow> deferred_effects" where
  "effects_from_pending p =
     \<lparr>de_quality = po_deferred_quality p, de_audio = po_deferred_audio p, de_reconcile = po_deferred_reconcile p\<rparr>"

definition effects_empty :: "deferred_effects \<Rightarrow> bool" where
  "effects_empty e = (de_quality e = None \<and> de_audio e = None \<and> \<not> de_reconcile e)"

text \<open>
  Confirmation: the trial is taken and the phase left, the candidate becomes the applied contract, the
  switch is charged; then the deferred effects run and the phase is published.
\<close>

definition confirm_begin ::
    "playback_session \<Rightarrow> player_control \<Rightarrow>
     (playback_session \<times> player_control) \<times> (u64 \<times> deferred_effects) option" where
  "confirm_begin ps c =
     (case (rc_phase c, rc_pending_original c) of
        (OriginalTrial (TAwaitingFrame serial), Some pending) \<Rightarrow>
          let use_current = (rc_desired_revision c = rc_applied_revision c \<and> rc_pending_user c = None);
              committed = (if use_current then route_projection ps else po_candidate_projection pending);
              committed = (if po_adopted_by_user pending then committed\<lparr>rp_auto_original_watched := False\<rparr> else committed);
              c = c\<lparr>rc_phase := Completing serial, rc_pending_original := None\<rparr>;
              c = (if po_adopted_by_user pending
                   then c\<lparr>rc_applied_revision := rc_desired_revision c, rc_applied_quality := QOriginal\<rparr> else c);
              c = c\<lparr>rc_applied_projection := Some committed\<rparr>;
              ps = (if po_charge_visible_switch pending then note_visible_switch (ps_now_ms ps) ps else ps)
          in ((ps, c), Some (serial, effects_from_pending pending))
      | _ \<Rightarrow> ((ps, c), None))"

definition confirm_original_recovery ::
    "(deferred_effects \<Rightarrow> playback_session \<times> player_control \<Rightarrow> playback_session \<times> player_control) \<Rightarrow>
     playback_session \<times> player_control \<Rightarrow> playback_session \<times> player_control" where
  "confirm_original_recovery apply_effects s =
     (case confirm_begin (fst s) (snd s) of
        (s, None) \<Rightarrow> s
      | (s, Some (serial, e)) \<Rightarrow> let (ps, c) = apply_effects e s in (ps, complete_finish serial c))"

definition trial_serial :: "control_phase \<Rightarrow> u64 option" where
  "trial_serial phase =
     (case phase of
        OriginalTrial (TPrepared serial) \<Rightarrow> Some serial
      | OriginalTrial (TStarting serial _) \<Rightarrow> Some serial
      | OriginalTrial (TAwaitingFrame serial) \<Rightarrow> Some serial
      | OriginalTrial (TFailed serial) \<Rightarrow> Some serial
      | _ \<Rightarrow> None)"

definition wrap_i64_product :: "int \<Rightarrow> int \<Rightarrow> int" where
  "wrap_i64_product a b = wrap_i64 (a * b)"

definition rollback_original_recovery ::
    "playback_session \<Rightarrow> player_control \<Rightarrow> (playback_session \<times> player_control) \<times> int option" where
  "rollback_original_recovery ps c =
     (case (trial_serial (rc_phase c), rc_pending_original c) of
        (Some _, Some pending) \<Rightarrow>
          let deferred = effects_from_pending pending;
              restored_hls =
                (case (ec_delivery (rp_contract (po_previous pending)),
                       case ec_ceiling (rp_contract (po_previous pending)) of None \<Rightarrow> None | Some ceil \<Rightarrow> from_ceiling ceil) of
                   (FixedHls _, Some rung) \<Rightarrow> Some rung
                 | _ \<Rightarrow> None);
              kept_subtitle = rp_subtitle_sid ps;
              kept_original = rp_auto_original ps;
              ps = (install_route_projection (po_previous pending) ps)\<lparr>rp_subtitle_sid := kept_subtitle,
                     rp_auto_original := kept_original\<rparr>;
              c = c\<lparr>rc_pending_original := None\<rparr>;
              c = (case restored_hls of
                     Some rung \<Rightarrow> install_active_hls (po_encoder pending) (rp_url (po_previous pending)) rung c
                   | None \<Rightarrow> install_active_encoder (po_encoder pending) c);
              serial = next_generation (rc_next_action c);
              c = c\<lparr>rc_applied_revision := po_previous_applied_revision pending,
                    rc_applied_quality := po_previous_applied_quality pending,
                    rc_applied_projection := po_previous_applied_projection pending,
                    rc_next_action := serial, rc_phase := Prepared serial,
                    rc_start_deferred := (if effects_empty deferred then None else Some (serial, deferred))\<rparr>
          in ((ps, c), Some (wrap_i64_product (max 0 (po_offset_secs pending)) 1000000000))
      | _ \<Rightarrow> ((ps, c), None))"

definition drop_original_recovery :: "player_control \<Rightarrow> player_control" where
  "drop_original_recovery c = c\<lparr>rc_pending_original := None\<rparr>"

text \<open>The stop of a playback: the teardown without a reload, and the way back goes with it.\<close>

definition stop_playback :: "player_control \<Rightarrow> player_control" where
  "stop_playback c = drop_original_recovery (begin_engine_teardown False c)"

section \<open>Timeline reports\<close>

definition preview_request :: "playback_session \<Rightarrow> bool" where
  "preview_request ps = (ps_preview ps \<or> ps_resolved_as_preview ps)"

text \<open>\<open>unset\<close> is the reserved server slot; \<open>announced\<close> is the stop generation the lease must wait for.\<close>

definition server_unset :: nat where "server_unset = 65535"

definition begin_timeline_reporting ::
    "nat \<Rightarrow> playback_session \<Rightarrow> player_control \<Rightarrow> player_control \<times> timeline_lease option" where
  "begin_timeline_reporting announced ps c =
     (if preview_request ps then (c, None)
      else
        let transcode = rp_tsession ps;
            projection = \<lparr>tp_sid = ps_sid ps, tp_rating_key = ps_rk ps,
              tp_session = (if transcode = [] then ps_sess ps else transcode)\<rparr>
        in if tp_rating_key projection = [] \<or> tp_sid projection = server_unset then (c, None)
           else (c\<lparr>rc_timeline := Some projection\<rparr>,
                 Some \<lparr>tl_engine_epoch = rc_engine_epoch c, tl_required_stop = announced\<rparr>))"

definition timeline_snapshot :: "timeline_lease \<Rightarrow> player_control \<Rightarrow> timeline_projection option" where
  "timeline_snapshot lease c =
     (if rc_engine_epoch c \<noteq> tl_engine_epoch lease then None
      else case rc_phase c of
             Stable \<Rightarrow> rc_timeline c
           | OriginalTrial (TAwaitingFrame _) \<Rightarrow> rc_timeline c
           | _ \<Rightarrow> None)"

end
