(* ===== verification/Handoff.thy ===== *)
theory Handoff
  imports Route Original
begin

text \<open>
  The handoffs between routes that the main thread makes (\<open>route/decision.rs\<close>): the audio enhancement a
  route should carry, what a claimed rebuild does about it, the seek and the rebuild of a transcode, the
  fallback from the original to HLS and the recovery of the original. The server is an argument: the
  answer of its playback query as a function of the request. Retiring a server-side encoder is
  best-effort and changes nothing here.
\<close>

section \<open>The server\<close>

record playback_body =
  pb_ceiling :: "ceiling_rec option"
  pb_start_ticks :: int
  pb_media_source_id :: "string option"
  pb_audio_index :: "int option"
  pb_subtitle_index :: "int option"

record playback_answer =
  pa_error_code :: "string option"
  pa_transcoding_urls :: "string option list"
  pa_play_session_id :: "string option"

text \<open>The installed client: its playback query and the absolute form of a transcoding address.\<close>

record media_client =
  mc_playback_info :: "string \<Rightarrow> string \<Rightarrow> playback_body \<Rightarrow> playback_answer option"
  mc_transcode_url :: "string \<Rightarrow> string option"

definition playback_info_body :: "ceiling_rec option \<Rightarrow> int \<Rightarrow> playback_body" where
  "playback_info_body ceil start_ticks =
     \<lparr>pb_ceiling = ceil, pb_start_ticks = start_ticks, pb_media_source_id = None,
      pb_audio_index = None, pb_subtitle_index = None\<rparr>"

definition playback_info_body_for ::
    "ceiling_rec option \<Rightarrow> int \<Rightarrow> string \<Rightarrow> int option \<Rightarrow> int option \<Rightarrow> playback_body" where
  "playback_info_body_for ceil start_ticks media_source_id audio_index subtitle_index =
     (let body = playback_info_body ceil start_ticks;
          body = (if media_source_id \<noteq> [] then body\<lparr>pb_media_source_id := Some media_source_id\<rparr> else body);
          body = (case audio_index of Some i \<Rightarrow> body\<lparr>pb_audio_index := Some i\<rparr> | None \<Rightarrow> body)
      in case subtitle_index of Some i \<Rightarrow> body\<lparr>pb_subtitle_index := Some i\<rparr> | None \<Rightarrow> body)"

text \<open>The slot of the one Jellyfin server, and \<open>as i32\<close>.\<close>

definition jellyfin_server_id :: nat where "jellyfin_server_id = 0"

definition wrap_i32 :: "int \<Rightarrow> int" where
  "wrap_i32 n = (n + 2147483648) mod 4294967296 - 2147483648"

section \<open>Audio enhancements\<close>

datatype route_family = FamilyDirect | FamilyRemux | FamilyOther

definition is_transcoding :: "playback_session \<Rightarrow> bool" where
  "is_transcoding ps = (rp_tsession ps \<noteq> [])"

definition enhancements_any :: "audio_enhancements \<Rightarrow> bool" where
  "enhancements_any e = (ae_boost_dialog e \<or> ae_normalize_loudness e)"

definition live_family :: "playback_session \<Rightarrow> route_family" where
  "live_family ps =
     (if \<not> is_transcoding ps then FamilyDirect
      else if ec_remux (rp_contract ps) \<and> ec_delivery (rp_contract ps) = ProgressiveMkv then FamilyRemux
      else FamilyOther)"

record enhancement_facts =
  ef_pass :: bool
  ef_base :: "auto_original_candidate option"
  ef_carried :: "carried_audio option"
  ef_subtitle_shown :: bool
  ef_refused :: bool

text \<open>\<open>ef_pass\<close> says that the subscription of the server is a definite yes.\<close>

definition enhancements_offered :: "enhancement_facts \<Rightarrow> route_family \<Rightarrow> bool" where
  "enhancements_offered f target =
     (ef_pass f
      \<and> (case ef_base f of None \<Rightarrow> False
         | Some b \<Rightarrow> dv_declared (dd_presentation (sv_decision (ac_video b))) = None
                     \<and> \<not> base_layer_unusable (sv_dovi (ac_video b)))
      \<and> (case ef_carried f of None \<Rightarrow> False | Some a \<Rightarrow> ca_can_normalize_loudness a)
      \<and> \<not> ef_subtitle_shown f
      \<and> \<not> ef_refused f
      \<and> target \<noteq> FamilyOther)"

definition desired_audio :: "audio_enhancements \<Rightarrow> bool \<Rightarrow> audio_enhancements" where
  "desired_audio pref offered = (if offered then pref else no_enhancements)"

text \<open>
  What the viewer and the device contribute: the durable quality, the enhancement preference, whether
  the playing server's subscription is a definite yes, which audio tracks play directly, the clock's
  catalog of feasible rungs.
\<close>

record viewer =
  vw_quality :: playback_quality
  vw_preference :: audio_enhancements
  vw_subscribed :: bool
  vw_audio_direct_plays :: "string \<Rightarrow> int \<Rightarrow> bool"
  vw_catalog :: hls_catalog

definition facts_of :: "viewer \<Rightarrow> playback_session \<Rightarrow> enhancement_facts" where
  "facts_of v ps =
     \<lparr>ef_pass = vw_subscribed v, ef_base = rp_auto_original ps, ef_carried = rp_audio ps,
      ef_subtitle_shown = (rp_subtitle_sid ps \<noteq> 0), ef_refused = (rp_enhancement ps = EnhancementRefused)\<rparr>"

definition enhancement_quality :: "viewer \<Rightarrow> bool" where
  "enhancement_quality v = (vw_quality v = QAuto \<or> vw_quality v = QOriginal)"

definition audio_enhancements_offered_live :: "viewer \<Rightarrow> playback_session \<Rightarrow> bool" where
  "audio_enhancements_offered_live v ps = enhancements_offered (facts_of v ps) (live_family ps)"

definition want_live :: "viewer \<Rightarrow> playback_session \<Rightarrow> audio_enhancements" where
  "want_live v ps =
     (if \<not> enhancement_quality v then no_enhancements
      else desired_audio (vw_preference v) (audio_enhancements_offered_live v ps))"

definition enhanced_remux_contract :: "audio_enhancements \<Rightarrow> encode_contract" where
  "enhanced_remux_contract audio =
     \<lparr>ec_remux = True, ec_delivery = ProgressiveMkv, ec_no_video_copy = False, ec_ceiling = None, ec_audio = audio\<rparr>"

datatype enhancement_step_kind = NotInvolved | StepRemux encode_contract | StepReleaseToDirect

definition enhancement_step :: "viewer \<Rightarrow> playback_session \<Rightarrow> enhancement_step_kind" where
  "enhancement_step v ps =
     (if \<not> enhancement_quality v then NotInvolved
      else
        let want = want_live v ps; applied = ec_audio (rp_contract ps)
        in if enhancements_any want \<and> want \<noteq> applied then StepRemux (enhanced_remux_contract want)
           else if enhancements_any applied \<and> \<not> enhancements_any want
           then (case rp_auto_original ps of
                   Some cand \<Rightarrow> if ac_direct cand then StepReleaseToDirect
                                else StepRemux (enhanced_remux_contract no_enhancements)
                 | None \<Rightarrow> NotInvolved)
           else NotInvolved)"

definition reconcile_enhancement ::
    "viewer \<Rightarrow> playback_session \<Rightarrow> bool \<Rightarrow> player_control \<Rightarrow> player_control \<times> bool" where
  "reconcile_enhancement v ps legacy_reloads c =
     (case defer_reconcile c of
        (c, True) \<Rightarrow> (c, False)
      | (c, False) \<Rightarrow>
          if enhancement_step v ps = NotInvolved then (c, False)
          else (queue_user_route_intent (vw_quality v) ps Retranscode legacy_reloads c, True))"

section \<open>Rebuilding a transcode\<close>

text \<open>The address and the new session of an answer that does not refuse; both rebuilds read it this way.\<close>

definition transcode_answer :: "media_client \<Rightarrow> string \<Rightarrow> string \<Rightarrow> playback_body \<Rightarrow> (string \<times> string option) option" where
  "transcode_answer cl rk msid body =
     (case mc_playback_info cl rk msid body of
        None \<Rightarrow> None
      | Some info \<Rightarrow>
          if pa_error_code info \<noteq> None then None
          else
            (case pa_transcoding_urls info of
               Some relative # _ \<Rightarrow>
                 (case mc_transcode_url cl relative of
                    None \<Rightarrow> None
                  | Some url \<Rightarrow> Some (url, case pa_play_session_id info of
                        Some s \<Rightarrow> if s \<noteq> [] then Some s else None | None \<Rightarrow> None))
             | _ \<Rightarrow> None))"

definition media_source_of :: "playback_session \<Rightarrow> string" where
  "media_source_of ps =
     (let part = (case ps_request_part ps of None \<Rightarrow> [] | Some p \<Rightarrow> p)
      in if part = ps_rk ps then [] else part)"

text \<open>The start transaction the seek reserved is given back on every refusal.\<close>

definition reject_preparation :: "u64 option \<Rightarrow> player_control \<Rightarrow> player_control" where
  "reject_preparation route_start c =
     (case route_start of None \<Rightarrow> c | Some ticket \<Rightarrow> fst (reject_route_start_preparation ticket c))"

definition jellyfin_transcode_seek ::
    "media_client \<Rightarrow> int \<Rightarrow> string \<Rightarrow> playback_session \<times> player_control \<Rightarrow>
     (playback_session \<times> player_control) \<times> string option" where
  "jellyfin_transcode_seek cl offset_secs rk s =
     (let (c, route_start) = begin_route_start (snd s);
          ((ps, c), live_hls) = sync_active_hls_to_session (fst s) c;
          expected = (case live_hls of Some (ticket, _) \<Rightarrow> ticket | None \<Rightarrow> worker_ticket_of c);
          previous = rl_encoder (wt_route expected)
      in if previous = [] then ((ps, reject_preparation route_start c), None)
         else
           let body = playback_info_body (ec_ceiling (rp_contract ps)) (sat_i64 (offset_secs * 10000000))
           in case transcode_answer cl rk (media_source_of ps) body of
                None \<Rightarrow> ((ps, reject_preparation route_start c), None)
              | Some (url, session) \<Rightarrow>
                  let replacement = (case session of Some i \<Rightarrow> i | None \<Rightarrow> previous);
                      (c, published) =
                        (case live_hls of
                           Some (_, hls) \<Rightarrow> replace_active_hls_for expected replacement
                             \<lparr>ah_url = url, ah_rung = ah_rung hls, ah_observed = None\<rparr> c
                         | None \<Rightarrow> replace_active_encoder_for expected replacement c)
                  in if published = None then ((ps, reject_preparation route_start c), None)
                     else
                       let ps = ps\<lparr>rp_tsession := replacement, rp_url := url\<rparr>;
                           c = publish_applied_route_projection ps c
                       in case route_start of
                            None \<Rightarrow> ((ps, c), Some url)
                          | Some ticket \<Rightarrow>
                              let (c, prepared) = prepare_route_start ticket c
                              in ((ps, c), if prepared then Some url else None))"

definition transcode_seek ::
    "media_client option \<Rightarrow> int \<Rightarrow> playback_session \<times> player_control \<Rightarrow>
     (playback_session \<times> player_control) \<times> string option" where
  "transcode_seek client offset_secs s =
     (let ps = fst s in
      if ps_forced_direct ps then (s, None)
      else if rp_tsession ps = [] then (s, None)
      else if ps_rk ps = [] then (s, None)
      else if ps_sid ps \<noteq> jellyfin_server_id then (s, None)
      else case client of None \<Rightarrow> (s, None) | Some cl \<Rightarrow> jellyfin_transcode_seek cl offset_secs (ps_rk ps) s)"

text \<open>
  A rebuild draws a name from the process-wide encoder counter when the server names no session; the
  counter is the first component of the state.
\<close>

type_synonym handoff_state = "u64 \<times> playback_session \<times> player_control"

definition jellyfin_retranscode_as ::
    "media_client \<Rightarrow> worker_ticket \<Rightarrow> int \<Rightarrow> handoff_state \<Rightarrow> handoff_state \<times> string option" where
  "jellyfin_retranscode_as cl expected offset_secs s =
     (let (n, ps, c) = s; rk = ps_rk ps in
      if ps_forced_direct ps then (s, None)
      else if rk = [] then (s, None)
      else
        let msid = media_source_of ps;
            audio_index = wrap_i32 (case rp_audio ps of None \<Rightarrow> 0 | Some a \<Rightarrow> ca_sid a);
            body = playback_info_body_for (ec_ceiling (rp_contract ps)) (sat_i64 (max 0 offset_secs * 10000000))
              msid (Some audio_index) None
        in case transcode_answer cl rk msid body of
             None \<Rightarrow> (s, None)
           | Some (url, session) \<Rightarrow>
               let namespace = (if ps_sess ps = [] then ''butaca-'' @ rk else ps_sess ps);
                   (n, replacement) = (case session of Some i \<Rightarrow> (n, i) | None \<Rightarrow> next_encoder_session namespace n);
                   (c, published) = replace_active_encoder_for expected replacement c
               in if published = None then ((n, ps, c), None)
                  else ((n, ps\<lparr>rp_contract := (rp_contract ps)\<lparr>ec_remux := False\<rparr>, rp_tsession := replacement,
                           rp_url := url, rp_stream_vcodec := ''h264'', rp_stream_acodec := ''aac'',
                           rp_stream_video := (rp_stream_video ps)\<lparr>sv_fps := 0, sv_dovi := dovi_none\<rparr>,
                           rp_stream_immersive := False\<rparr>, c), Some url))"

definition retranscode_for ::
    "media_client option \<Rightarrow> worker_ticket \<Rightarrow> int \<Rightarrow> handoff_state \<Rightarrow> handoff_state \<times> string option" where
  "retranscode_for client expected offset_secs s =
     (let (n, ps, c) = s in
      if \<not> ticket_is_current c expected then (s, None)
      else if ps_sid ps \<noteq> jellyfin_server_id then (s, None)
      else case client of None \<Rightarrow> (s, None) | Some cl \<Rightarrow> jellyfin_retranscode_as cl expected offset_secs s)"

section \<open>From the original to HLS\<close>

definition clear_output_dv :: "playback_session \<Rightarrow> playback_session" where
  "clear_output_dv ps =
     ps\<lparr>rp_stream_video := (rp_stream_video ps)\<lparr>sv_dovi := dovi_none, sv_decision := dv_decision_none\<rparr>\<rparr>"

text \<open>What a failed handoff puts back; the session may have been changed by the rebuild.\<close>

definition restore_declaration :: "playback_session \<Rightarrow> playback_session \<Rightarrow> playback_session" where
  "restore_declaration previous ps =
     ps\<lparr>rp_url := rp_url previous, rp_tsession := rp_tsession previous,
        rp_auto_original_watched := rp_auto_original_watched previous,
        rp_contract := (rp_contract ps)\<lparr>ec_remux := ec_remux (rp_contract previous),
          ec_delivery := ec_delivery (rp_contract previous), ec_ceiling := ec_ceiling (rp_contract previous)\<rparr>,
        rp_stream_vcodec := rp_stream_vcodec previous, rp_stream_acodec := rp_stream_acodec previous,
        rp_stream_video := rp_stream_video previous, rp_stream_immersive := rp_stream_immersive previous\<rparr>"

definition declare_hls :: "rung \<Rightarrow> playback_session \<Rightarrow> playback_session" where
  "declare_hls rung ps =
     clear_output_dv (ps\<lparr>rp_auto_original_watched := False,
       rp_contract := (rp_contract ps)\<lparr>ec_remux := False, ec_delivery := FixedHls 2,
         ec_ceiling := Some (rung_ceiling rung)\<rparr>,
       rp_stream_vcodec := ''h264'', rp_stream_acodec := ''aac'',
       rp_stream_video := (rp_stream_video ps)\<lparr>sv_fps := 0\<rparr>, rp_stream_immersive := False\<rparr>)"

definition finish_auto_hls :: "bool \<Rightarrow> playback_session \<Rightarrow> playback_session" where
  "finish_auto_hls visible_switch ps = (if visible_switch then note_visible_switch (ps_now_ms ps) ps else ps)"

fun trim_end_slashes :: "string \<Rightarrow> string" where
  "trim_end_slashes s = rev (dropWhile (\<lambda>ch. ch = CHR ''/'') (rev s))"

definition install_auto_hls ::
    "media_client option \<Rightarrow> worker_ticket \<Rightarrow> rung \<Rightarrow> int \<Rightarrow> bool \<Rightarrow> handoff_state \<Rightarrow> handoff_state \<times> string option" where
  "install_auto_hls client expected rung offset_secs visible_switch s =
     (let (n, ps0, c) = s; ps = declare_hls rung ps0 in
      if ps_auto_fixture_base ps0 \<noteq> []
      then
        let encoder = ''auto-fixture-'' @ show_nat (rung_kbps rung);
            url = trim_end_slashes (ps_auto_fixture_base ps0) @ ''/'' @ show_nat (rung_kbps rung) @
              ''/master.m3u8?api_key=fixture-only'';
            (c, published) = replace_active_hls_for expected encoder
              \<lparr>ah_url = url, ah_rung = rung, ah_observed = None\<rparr> c
        in if published = None then ((n, restore_declaration ps0 ps, c), None)
           else ((n, finish_auto_hls visible_switch (ps\<lparr>rp_url := url, rp_tsession := encoder\<rparr>), c), Some url)
      else
        (case retranscode_for client expected offset_secs (n, ps, c) of
           ((n, ps, c), Some url) \<Rightarrow> ((n, finish_auto_hls visible_switch ps, c), Some url)
         | ((n, ps, c), None) \<Rightarrow> ((n, restore_declaration ps0 ps, c), None)))"

definition fallback_auto_to_hls_for ::
    "viewer \<Rightarrow> media_client option \<Rightarrow> worker_ticket \<Rightarrow> nat \<Rightarrow> int \<Rightarrow> handoff_state \<Rightarrow> handoff_state \<times> string option" where
  "fallback_auto_to_hls_for v client expected measured_kbps offset_secs s =
     (let (n, ps, c) = s in
      if ps_forced_direct ps then (s, None)
      else if \<not> ticket_is_current c expected then (s, None)
      else if rc_applied_quality c \<noteq> QAuto \<or> ps_rk ps = [] then (s, None)
      else
        let rung = original_fallback_rung measured_kbps (vw_catalog v) policy_measured
        in install_auto_hls client expected rung offset_secs True (n, ps\<lparr>ps_auto_prior_kbps := measured_kbps\<rparr>, c))"

definition auto_original_watched :: "playback_session \<Rightarrow> player_control \<Rightarrow> bool" where
  "auto_original_watched ps c =
     (\<not> ps_forced_direct ps \<and> rc_applied_quality c = QAuto \<and> rp_auto_original_watched ps
      \<and> ec_delivery (rp_contract ps) = ProgressiveMkv
      \<and> 0 < ps_transport_kbps ps \<and> ps_transport_kbps ps \<le> int u32_max)"

definition fallback_unopened_auto_to_hls ::
    "viewer \<Rightarrow> media_client option \<Rightarrow> int \<Rightarrow> handoff_state \<Rightarrow> handoff_state \<times> string option" where
  "fallback_unopened_auto_to_hls v client offset_secs s =
     (let (n, ps, c) = s; expected = worker_ticket_of c in
      if \<not> auto_original_watched ps c then (s, None)
      else if ps_rk ps = [] then (s, None)
      else
        let rung = original_open_fallback_rung (ps_auto_bootstrap_rung ps) (vw_catalog v) policy_measured
        in install_auto_hls client expected rung offset_secs False s)"

section \<open>Back to the original\<close>

datatype recovery_flavour = FlavourDirect | FlavourRemux audio_enhancements

definition recovery_want :: "viewer \<Rightarrow> playback_session \<Rightarrow> auto_original_candidate \<Rightarrow> audio_enhancements" where
  "recovery_want v ps cand =
     (let facts = (facts_of v ps)\<lparr>ef_base := Some cand, ef_carried := ac_audio cand\<rparr>;
          family = (if ac_direct cand then FamilyDirect else FamilyRemux)
      in desired_audio (vw_preference v) (enhancements_offered facts family))"

definition recovery_flavour :: "auto_original_candidate \<Rightarrow> audio_enhancements \<Rightarrow> recovery_flavour" where
  "recovery_flavour cand want =
     (if ac_direct cand \<and> \<not> enhancements_any want then FlavourDirect else FlavourRemux want)"

definition recover_original_direct ::
    "auto_original_candidate \<Rightarrow> worker_ticket \<Rightarrow> pending_original \<Rightarrow> bool \<Rightarrow> recovery_cause \<Rightarrow> enhancement_outcome \<Rightarrow>
     playback_session \<times> player_control \<Rightarrow> (playback_session \<times> player_control) \<times> bool" where
  "recover_original_direct cand expected rollback watched cause outcome s =
     (let (ps, c) = s; automatic = (cause = Automatic) in
      case replace_active_encoder_for expected (rl_encoder (wt_route expected)) c of
        (c, None) \<Rightarrow> ((ps, c), False)
      | (c, Some _) \<Rightarrow>
          let ps = ps\<lparr>rp_url := ac_url cand, rp_tsession := [],
                rp_contract := contract_original False no_enhancements, rp_enhancement := outcome,
                rp_auto_original_watched := watched, rp_audio := ac_audio cand,
                rp_stream_vcodec := ac_vcodec cand,
                rp_stream_acodec := (case ac_audio cand of None \<Rightarrow> ps_src_acodec ps | Some a \<Rightarrow> ca_codec a),
                rp_stream_video := ac_video cand,
                rp_stream_immersive := (case ac_audio cand of None \<Rightarrow> False | Some a \<Rightarrow> ca_immersive a)\<rparr>
          in ((ps, set_pending_original ps rollback automatic c), True))"

definition contract_allows :: "recovery_cause \<Rightarrow> player_control \<Rightarrow> bool" where
  "contract_allows cause c =
     (case cause of
        Automatic \<Rightarrow> rc_applied_quality c = QAuto
      | ManualOriginal \<Rightarrow> rc_desired_quality c = QOriginal
      | EnhancementReleased \<Rightarrow> rc_applied_quality c = QAuto \<or> rc_applied_quality c = QOriginal)"

text \<open>
  The admission of the part always answers yes (\<open>admit_original_part\<close>), so a direct candidate stays
  direct, and a remux recovery cannot be built any more and leaves the held route.
\<close>

definition recover_auto_to_original_for ::
    "viewer \<Rightarrow> worker_ticket \<Rightarrow> int \<Rightarrow> recovery_cause \<Rightarrow> playback_session \<times> player_control \<Rightarrow>
     (playback_session \<times> player_control) \<times> bool" where
  "recover_auto_to_original_for v expected offset_secs cause s =
     (let (ps, c) = s in
      if ps_forced_direct ps then (s, False)
      else if original_recovery_pending c then (s, False)
      else if \<not> contract_allows cause c \<or> \<not> is_transcoding ps then (s, False)
      else
        let watched = (cause = Automatic \<or> (cause = EnhancementReleased \<and> rc_applied_quality c = QAuto))
        in case rp_auto_original ps of
             None \<Rightarrow> (s, False)
           | Some cand \<Rightarrow>
               let flavour = recovery_flavour cand (recovery_want v ps cand)
               in if \<not> ticket_is_current c expected then (s, False)
                  else
                    (case sync_active_hls_to_session ps c of
                       ((ps, c), live_hls) \<Rightarrow>
                         if (case live_hls of None \<Rightarrow> False | Some (ticket, _) \<Rightarrow> ticket \<noteq> expected)
                         then ((ps, c), False)
                         else
                           let encoder = rl_encoder (wt_route expected)
                           in if encoder = [] then ((ps, c), False)
                              else
                                let rollback = snapshot_route ps encoder offset_secs
                                in (case flavour of
                                      FlavourRemux _ \<Rightarrow> ((ps, c), False)
                                    | FlavourDirect \<Rightarrow>
                                        recover_original_direct cand expected rollback watched cause EnhancementOff (ps, c))))"

section \<open>Claimed rebuilds\<close>

datatype legacy_action_kind = LegacyNative int string | LegacyRetranscode

definition legacy_action :: "viewer \<Rightarrow> playback_session \<Rightarrow> legacy_action_kind" where
  "legacy_action v ps =
     (case (live_family ps, rp_audio ps) of
        (FamilyDirect, Some a) \<Rightarrow>
          if vw_audio_direct_plays v (ca_codec a) (ca_channels a)
          then LegacyNative (ca_ordinal a) (ca_codec a) else LegacyRetranscode
      | _ \<Rightarrow> LegacyRetranscode)"

datatype claim_primary = PrimaryRelease | PrimaryRemux encode_contract | PrimaryLegacy | PrimaryRetranscode

datatype claim_fallback_kind = FallbackLegacy | FallbackReject

record dispatch =
  di_primary :: claim_primary
  di_on_failure :: claim_fallback_kind

definition fallback_owed :: "bool \<Rightarrow> claim_fallback_kind" where
  "fallback_owed displaced_pick = (if displaced_pick then FallbackLegacy else FallbackReject)"

definition claim_dispatch :: "enhancement_step_kind \<Rightarrow> bool \<Rightarrow> dispatch" where
  "claim_dispatch step displaced_pick =
     (case step of
        StepReleaseToDirect \<Rightarrow> \<lparr>di_primary = PrimaryRelease, di_on_failure = fallback_owed displaced_pick\<rparr>
      | StepRemux contract \<Rightarrow> \<lparr>di_primary = PrimaryRemux contract, di_on_failure = fallback_owed displaced_pick\<rparr>
      | NotInvolved \<Rightarrow>
          if displaced_pick then \<lparr>di_primary = PrimaryLegacy, di_on_failure = FallbackReject\<rparr>
          else \<lparr>di_primary = PrimaryRetranscode, di_on_failure = FallbackReject\<rparr>)"

text \<open>A native switch also stages the picked track for the demuxer; the tail carries its ordinal.\<close>

datatype claim_tail = TailRetranscode | TailNativeAudio int | TailOriginal | TailRejected string

definition stage_native_audio :: "string \<Rightarrow> playback_session \<Rightarrow> playback_session" where
  "stage_native_audio acodec ps = ps\<lparr>rp_stream_acodec := acodec\<rparr>"

definition run_legacy ::
    "viewer \<Rightarrow> media_client option \<Rightarrow> worker_ticket \<Rightarrow> int \<Rightarrow> handoff_state \<Rightarrow> handoff_state \<times> claim_tail option" where
  "run_legacy v client expected offset_secs s =
     (let (n, ps, c) = s in
      case legacy_action v ps of
        LegacyNative ordinal acodec \<Rightarrow> ((n, stage_native_audio acodec ps, c), Some (TailNativeAudio ordinal))
      | LegacyRetranscode \<Rightarrow>
          (case retranscode_for client expected offset_secs s of
             (s, url) \<Rightarrow> (s, map_option (\<lambda>_. TailRetranscode) url)))"

definition RETRANSCODE_REJECTED :: string where
  "RETRANSCODE_REJECTED = ''route transition: user retranscode was rejected; current stream retained''"

definition ENHANCEMENT_REJECTED :: string where
  "ENHANCEMENT_REJECTED = ''enhancement change rejected; current stream retained''"

definition LEGACY_REJECTED :: string where
  "LEGACY_REJECTED = ''enhancement: displaced pick's own reload was rejected; current stream retained''"

definition claim_fallback ::
    "viewer \<Rightarrow> media_client option \<Rightarrow> worker_ticket \<Rightarrow> int \<Rightarrow> claim_fallback_kind \<Rightarrow> string \<Rightarrow>
     handoff_state \<Rightarrow> handoff_state \<times> claim_tail" where
  "claim_fallback v client expected offset_secs fallback reject s =
     (case fallback of
        FallbackLegacy \<Rightarrow>
          (case run_legacy v client expected offset_secs s of
             (s, Some tail) \<Rightarrow> (s, tail)
           | (s, None) \<Rightarrow> (s, TailRejected LEGACY_REJECTED))
      | FallbackReject \<Rightarrow> (s, TailRejected reject))"

definition primary_effect ::
    "viewer \<Rightarrow> media_client option \<Rightarrow> worker_ticket \<Rightarrow> int \<Rightarrow> claim_primary \<Rightarrow> handoff_state \<Rightarrow>
     handoff_state \<times> claim_tail option" where
  "primary_effect v client expected offset_secs primary s =
     (case primary of
        PrimaryRelease \<Rightarrow>
          (case recover_auto_to_original_for v expected offset_secs EnhancementReleased (snd s) of
             (t, ok) \<Rightarrow> ((fst s, t), if ok then Some TailOriginal else None))
      | PrimaryRemux _ \<Rightarrow> (s, None)
      | PrimaryLegacy \<Rightarrow> run_legacy v client expected offset_secs s
      | PrimaryRetranscode \<Rightarrow>
          (case retranscode_for client expected offset_secs s of
             (s, url) \<Rightarrow> (s, map_option (\<lambda>_. TailRetranscode) url)))"

definition rejection_of :: "claim_primary \<Rightarrow> string" where
  "rejection_of primary =
     (case primary of
        PrimaryRelease \<Rightarrow> ENHANCEMENT_REJECTED
      | PrimaryRemux _ \<Rightarrow> ENHANCEMENT_REJECTED
      | PrimaryLegacy \<Rightarrow> LEGACY_REJECTED
      | PrimaryRetranscode \<Rightarrow> RETRANSCODE_REJECTED)"

definition execute_retranscode_claim ::
    "viewer \<Rightarrow> media_client option \<Rightarrow> claimed_action \<Rightarrow> int \<Rightarrow> handoff_state \<Rightarrow> handoff_state \<times> claim_tail" where
  "execute_retranscode_claim v client action offset_secs s =
     (let dispatch = claim_dispatch (enhancement_step v (fst (snd s))) (cl_displaced_pick action);
          expected = cl_ticket action
      in case primary_effect v client expected offset_secs (di_primary dispatch) s of
           (s, Some tail) \<Rightarrow> (s, tail)
         | (s, None) \<Rightarrow>
             claim_fallback v client expected offset_secs (di_on_failure dispatch) (rejection_of (di_primary dispatch)) s)"

definition execute_recover_original_claim ::
    "viewer \<Rightarrow> media_client option \<Rightarrow> claimed_action \<Rightarrow> int \<Rightarrow> recovery_cause \<Rightarrow> handoff_state \<Rightarrow>
     handoff_state \<times> claim_tail" where
  "execute_recover_original_claim v client action offset_secs cause s =
     (case recover_auto_to_original_for v (cl_ticket action) offset_secs cause (snd s) of
        (t, True) \<Rightarrow> ((fst s, t), TailOriginal)
      | (t, False) \<Rightarrow>
          claim_fallback v client (cl_ticket action) offset_secs (fallback_owed (cl_displaced_pick action))
            ''route transition: manual Original was rejected; current stream retained'' (fst s, t))"

end
