(* ===== verification/Route_Steps.thy ===== *)
theory Route_Steps
  imports Route
begin

text \<open>
  The route owner as a machine: every operation that locks it, with its arguments, is one step on the
  session and the owner, and the facts that hold in all reachable states.
\<close>

section \<open>The operations as steps\<close>

text \<open>
  \<open>Edit_session\<close> is any write of the main thread to its session. What runs with the lock released
  (deferred effects, server calls, the native load) is the steps it makes. A landing is pumped only for
  a request the owner admitted, which it refuses during a trial, and the pump fails an engine only
  after the rollback of a trial (\<open>recover_or_fail\<close>); both are guards here. The stop of a playback
  retires the trial before any other main-thread operation. \<open>None\<close> is a step that is not taken, or the
  panic of an exhausted attempt counter.
\<close>

datatype route_op =
    Edit_session "playback_session"
  | Begin_edit "playback_quality option"
  | Drop_edit "u64 option"
  | Queue_intent playback_quality user_route_intent bool
  | Cancel_intent user_route_intent
  | Note_seek int
  | Commit_seek
  | Reject_seek
  | Begin_request playback_quality
  | Land playback_quality bool
  | Cancel_request
  | Publish_automatic automatic_route_intent
  | Claim_action
  | Finish_action claimed_action apply_result
  | Publish_applied
  | Commit_in_place bool
  | Begin_start
  | Prepare_start u64
  | Claim_start u64
  | Reject_start u64
  | Abort_start u64 start_result
  | Publish_result route_start_attempt start_result
  | Take_results
  | Settle_start route_start_attempt start_result
  | Complete u64
  | Fail_engine
  | Reload_teardown
  | Stop
  | Finish_stop
  | Install_encoder string
  | Install_hls string string rung
  | Take_encoder
  | Replace_encoder worker_ticket string
  | Replace_hls worker_ticket string active_hls
  | Commit_hls worker_ticket string active_hls bool
  | Observe_hls worker_ticket hls_variant nat
  | Sync_hls
  | Set_pending pending_original bool
  | Adopt_trial
  | Defer_quality playback_quality
  | Defer_audio carried_audio
  | Defer_reconcile
  | Confirm_trial
  | Rollback_trial
  | Begin_timeline nat

fun run_op :: "route_op \<Rightarrow> playback_session \<times> player_control \<Rightarrow>
    (playback_session \<times> player_control) option" where
  "run_op (Edit_session s) (ps, c) = Some (s, c)"
| "run_op (Begin_edit None) (ps, c) = Some (ps, fst (begin_user_contract_boundary c))"
| "run_op (Begin_edit (Some q)) (ps, c) = Some (ps, fst (begin_user_quality_boundary q c))"
| "run_op (Drop_edit g) (ps, c) = Some (ps, user_edit_drop g c)"
| "run_op (Queue_intent picker i d) (ps, c) = Some (ps, queue_user_route_intent picker ps i d c)"
| "run_op (Cancel_intent i) (ps, c) = Some (ps, cancel_user_route_intent i c)"
| "run_op (Note_seek n) (ps, c) = Some (ps, note_user_seek_intent n c)"
| "run_op Commit_seek (ps, c) = Some (ps, fst (commit_user_seek c))"
| "run_op Reject_seek (ps, c) = Some (ps, reject_user_seek c)"
| "run_op (Begin_request picker) (ps, c) = Some (ps, fst (begin_playback_request picker c))"
| "run_op (Land picker playable) (ps, c) =
     (if original_recovery_pending c then None else Some (ps, fst (prepare_playback_landing picker ps playable c)))"
| "run_op Cancel_request (ps, c) = Some (cancel_playback_request ps c)"
| "run_op (Publish_automatic i) (ps, c) = Some (ps, fst (publish_automatic_route_intent i c))"
| "run_op Claim_action (ps, c) = Some (ps, fst (claim_route_action c))"
| "run_op (Finish_action a r) (ps, c) = Some (finish_route_action ps a r c)"
| "run_op Publish_applied (ps, c) = Some (ps, publish_applied_route_projection ps c)"
| "run_op (Commit_in_place b) (ps, c) = Some (ps, commit_in_place_route_projection ps b c)"
| "run_op Begin_start (ps, c) = Some (ps, fst (begin_route_start c))"
| "run_op (Prepare_start t) (ps, c) = Some (ps, fst (prepare_route_start t c))"
| "run_op (Claim_start t) (ps, c) = map_option (\<lambda>r. (ps, fst r)) (claim_route_start_attempt t c)"
| "run_op (Reject_start t) (ps, c) = Some (ps, fst (reject_route_start_preparation t c))"
| "run_op (Abort_start t r) (ps, c) = Some (ps, fst (abort_route_start t r c))"
| "run_op (Publish_result a r) (ps, c) = Some (ps, publish_route_start_result a r c)"
| "run_op Take_results (ps, c) = Some (ps, c\<lparr>rc_start_results := []\<rparr>)"
| "run_op (Settle_start a r) (ps, c) = Some (ps, fst (settle_begin a r c))"
| "run_op (Complete serial) (ps, c) = Some (ps, complete_finish serial c)"
| "run_op Fail_engine (ps, c) = (if original_recovery_pending c then None else Some (ps, fail_current_engine c))"
| "run_op Reload_teardown (ps, c) = Some (ps, begin_engine_teardown True c)"
| "run_op Stop (ps, c) = Some (ps, stop_playback c)"
| "run_op Finish_stop (ps, c) = Some (ps, finish_engine_teardown c)"
| "run_op (Install_encoder e) (ps, c) = Some (ps, install_active_encoder e c)"
| "run_op (Install_hls e u r) (ps, c) = Some (ps, install_active_hls e u r c)"
| "run_op Take_encoder (ps, c) = Some (ps, fst (take_active_encoder c))"
| "run_op (Replace_encoder t e) (ps, c) = Some (ps, fst (replace_active_encoder_for t e c))"
| "run_op (Replace_hls t e h) (ps, c) = Some (ps, fst (replace_active_hls_for t e h c))"
| "run_op (Commit_hls t e h ok) (ps, c) =
     Some (ps, fst (replace_active_hls_with t e h (if ok then Some () else None) c))"
| "run_op (Observe_hls t v n) (ps, c) = Some (ps, observe_active_hls t v n c)"
| "run_op Sync_hls (ps, c) = Some (fst (sync_active_hls_to_session ps c))"
| "run_op (Set_pending p auto) (ps, c) = Some (ps, set_pending_original ps p auto c)"
| "run_op Adopt_trial (ps, c) = Some (adopt_trial ps c)"
| "run_op (Defer_quality q) (ps, c) = Some (ps, defer_quality q c)"
| "run_op (Defer_audio a) (ps, c) = Some (ps, defer_audio a c)"
| "run_op Defer_reconcile (ps, c) = Some (ps, fst (defer_reconcile c))"
| "run_op Confirm_trial (ps, c) = Some (fst (confirm_begin ps c))"
| "run_op Rollback_trial (ps, c) = Some (fst (rollback_original_recovery ps c))"
| "run_op (Begin_timeline n) (ps, c) = Some (ps, fst (begin_timeline_reporting n ps c))"

text \<open>A run is a sequence of steps, each of them taken.\<close>

primrec run_ops :: "route_op list \<Rightarrow> playback_session \<times> player_control \<Rightarrow>
    (playback_session \<times> player_control) option" where
  "run_ops [] s = Some s"
| "run_ops (op # ops) s = (case run_op op s of None \<Rightarrow> None | Some t \<Rightarrow> run_ops ops t)"

lemma run_ops_append: "run_ops (xs @ ys) s = (case run_ops xs s of None \<Rightarrow> None | Some t \<Rightarrow> run_ops ys t)"
  by (induction xs arbitrary: s) (auto split: option.splits)

lemma run_ops_induct [consumes 1, case_names refl step]:
  assumes "run_ops ops s = Some t" and "P s"
    and "\<And>op x y. P x \<Longrightarrow> run_op op x = Some y \<Longrightarrow> P y"
  shows "P t"
  using assms(1,2)
proof (induction ops arbitrary: s)
  case Nil
  then show ?case by simp
next
  case (Cons op ops)
  then show ?case using assms(3) by (auto split: option.splits)
qed

end
