(* ===== verification/Start.thy ===== *)
theory Start
  imports Handoff Route_Steps
begin

text \<open>
  How the player starts, reloads and stops the engine of a route (\<open>player/engine.rs\<close>, \<open>player/pump.rs\<close>), as
  far as the route owner sees it. What the native side does is an argument: where the construction of an
  engine fails, whether an engine is live, whether its source ever delivered a frame.
\<close>

section \<open>Starting\<close>

text \<open>
  What a start meets on the native side: whether an engine is live, and whether it is a preview whose
  native load cannot be joined yet; then the construction can fail before the transaction is prepared
  (no window, no address), between that and the claim of the attempt (payload, clock, native session),
  and after it (threads). A local sample has no timeline report.
\<close>

record native_faults =
  nf_live :: bool
  nf_deferred :: bool
  nf_before :: "start_result option"
  nf_between :: bool
  nf_after :: bool
  nf_stream :: bool
  nf_announced :: nat

definition start_bufferfeed_inner ::
    "native_faults \<Rightarrow> playback_session \<Rightarrow> u64 \<Rightarrow> player_control \<Rightarrow>
     (player_control \<times> (start_result + route_start_attempt)) option" where
  "start_bufferfeed_inner f ps ticket c =
     (case nf_before f of
        Some r \<Rightarrow> Some (c, Inl r)
      | None \<Rightarrow>
          (case prepare_route_start ticket c of
             (c, False) \<Rightarrow> Some (c, Inl StartFailed)
           | (c, True) \<Rightarrow>
               if nf_between f then Some (c, Inl StartFailed)
               else
                 (case claim_route_start_attempt ticket c of
                    None \<Rightarrow> None
                  | Some (c, None) \<Rightarrow> Some (c, Inl StartFailed)
                  | Some (c, Some attempt) \<Rightarrow>
                      if nf_after f then Some (c, Inl StartFailed)
                      else Some (if nf_stream f then fst (begin_timeline_reporting (nf_announced f) ps c) else c,
                                 Inr attempt))))"

datatype bufferfeed_outcome = AlreadyRunning | Launched route_start_attempt | FeedFailed

definition start_bufferfeed_for ::
    "native_faults \<Rightarrow> playback_session \<Rightarrow> u64 \<Rightarrow> player_control \<Rightarrow> (player_control \<times> bufferfeed_outcome) option" where
  "start_bufferfeed_for f ps ticket c =
     (case start_bufferfeed_inner f ps ticket c of
        None \<Rightarrow> None
      | Some (c, Inr attempt) \<Rightarrow> Some (c, Launched attempt)
      | Some (c, Inl result) \<Rightarrow> Some (fst (abort_route_start ticket result c), FeedFailed))"

text \<open>\<open>existing\<close> is the attempt of the live engine, if there is one.\<close>

definition start_bufferfeed_tracked ::
    "bool \<Rightarrow> route_start_attempt option \<Rightarrow> native_faults \<Rightarrow> playback_session \<Rightarrow> player_control \<Rightarrow>
     (player_control \<times> bufferfeed_outcome) option" where
  "start_bufferfeed_tracked jail_blocks existing f ps c =
     (if jail_blocks
      then
        (case begin_route_start c of
           (c, None) \<Rightarrow> Some (c, FeedFailed)
         | (c, Some ticket) \<Rightarrow> Some (fst (abort_route_start ticket StartFailed c), FeedFailed))
      else
        case existing of
          Some attempt \<Rightarrow>
            (case classify_live_engine_start attempt c of
               CurrentAttempt \<Rightarrow> Some (c, Launched attempt)
             | NoPendingRoute \<Rightarrow> Some (c, AlreadyRunning)
             | Conflict ticket \<Rightarrow> Some (fst (abort_route_start ticket StartFailed c), FeedFailed))
        | None \<Rightarrow>
            (case begin_route_start c of
               (c, None) \<Rightarrow> Some (c, FeedFailed)
             | (c, Some ticket) \<Rightarrow> start_bufferfeed_for f ps ticket c))"

section \<open>Stopping and reloading\<close>

definition scrobble_stop :: "playback_session \<times> player_control \<Rightarrow> playback_session \<times> player_control" where
  "scrobble_stop s =
     (let (ps, c) = s in
      if preview_request ps then s
      else (ps\<lparr>rp_tsession := [], rp_contract := (rp_contract ps)\<lparr>ec_remux := False\<rparr>\<rparr>, fst (take_active_encoder c)))"

definition clear_url :: "playback_session \<Rightarrow> playback_session" where
  "clear_url ps = ps\<lparr>rp_url := []\<rparr>"

text \<open>
  The stop or reload of the engine, if one is live. A stop retires the session and the trial after the
  joins and publishes itself at the end of the function.
\<close>

definition teardown ::
    "bool \<Rightarrow> bool \<Rightarrow> bool \<Rightarrow> playback_session \<times> player_control \<Rightarrow> playback_session \<times> player_control" where
  "teardown live deferred for_reload s =
     (if \<not> live
      then
        if \<not> for_reload
        then let (ps, c) = scrobble_stop s
             in (clear_url ps, finish_engine_teardown (drop_original_recovery (begin_engine_teardown False c)))
        else s
      else if ps_preview (fst s) \<and> deferred then s
      else
        let (ps, c) = (fst s, begin_engine_teardown for_reload (snd s))
        in if \<not> for_reload
           then let (ps, c) = scrobble_stop (ps, c)
                in (clear_url ps, finish_engine_teardown (drop_original_recovery c))
           else (ps, c))"

definition settle_missing_route_start :: "player_control \<Rightarrow> player_control" where
  "settle_missing_route_start c =
     (case pending_route_start c of None \<Rightarrow> c | Some ticket \<Rightarrow> fst (abort_route_start ticket NoRoute c))"

definition prepare_reload_transaction :: "player_control \<Rightarrow> player_control \<times> u64 option" where
  "prepare_reload_transaction c =
     (case begin_route_start c of
        (c, None) \<Rightarrow> (c, None)
      | (c, Some ticket) \<Rightarrow> (case prepare_route_start ticket c of (c, ok) \<Rightarrow> (c, if ok then Some ticket else None)))"

datatype reload_outcome = ReloadStarted | ReloadNoRoute | ReloadFailed

text \<open>A reload at a position and a reload of a transcode make the same transitions of the owner.\<close>

definition reload_at ::
    "native_faults \<Rightarrow> playback_session \<times> player_control \<Rightarrow>
     ((playback_session \<times> player_control) \<times> reload_outcome) option" where
  "reload_at f s =
     (let (ps, c) = s in
      if rp_url ps = [] then Some ((ps, settle_missing_route_start c), ReloadNoRoute)
      else
        (case prepare_reload_transaction c of
           (c, None) \<Rightarrow> Some ((ps, c), ReloadFailed)
         | (c, Some ticket) \<Rightarrow>
             (case teardown (nf_live f) (nf_deferred f) True (ps, c) of
                (ps, c) \<Rightarrow>
                  (case start_bufferfeed_for f ps ticket c of
                     None \<Rightarrow> None
                   | Some (c, FeedFailed) \<Rightarrow> Some ((ps, c), ReloadFailed)
                   | Some (c, _) \<Rightarrow> Some ((ps, c), ReloadStarted)))))"

datatype resume_outcome = ResumePrepared | ResumeNoRoute | RebuildRejected

definition resume_at ::
    "media_client option \<Rightarrow> int \<Rightarrow> playback_session \<times> player_control \<Rightarrow>
     (playback_session \<times> player_control) \<times> resume_outcome" where
  "resume_at client resume_ns s =
     (if resume_ns \<le> 0 then (s, ResumePrepared)
      else if rp_url (fst s) = [] then (s, ResumeNoRoute)
      else if \<not> is_transcoding (fst s) then (s, ResumePrepared)
      else case transcode_seek client (resume_ns div 1000000000) s of
             (s, Some _) \<Rightarrow> (s, ResumePrepared)
           | (s, None) \<Rightarrow> (s, RebuildRejected))"

section \<open>Failures of an open source\<close>

datatype open_failure_action_kind = RollbackPendingOriginal | StartAutoHls | OpenError

definition open_failure_action :: "bool \<Rightarrow> bool \<Rightarrow> bool \<Rightarrow> open_failure_action_kind" where
  "open_failure_action pending_original auto_original no_frames =
     (if pending_original then RollbackPendingOriginal
      else if auto_original \<and> no_frames then StartAutoHls
      else OpenError)"

text \<open>The rollback of a failed trial, rebased at the position the viewer is at.\<close>

datatype rollback_preparation = NotPending | RebaseFailed | RollbackPrepared int

definition prepare_failed_original_rollback ::
    "media_client option \<Rightarrow> playback_session \<times> player_control \<Rightarrow>
     (playback_session \<times> player_control) \<times> rollback_preparation" where
  "prepare_failed_original_rollback client s =
     (case rollback_original_recovery (fst s) (snd s) of
        (s, None) \<Rightarrow> (s, NotPending)
      | (s, Some offset_ns) \<Rightarrow>
          (case transcode_seek client (trunc_div offset_ns 1000000000) s of
             (s, None) \<Rightarrow> (s, RebaseFailed)
           | (s, Some _) \<Rightarrow> (s, RollbackPrepared offset_ns)))"

text \<open>The new state and the position to reload at; \<open>None\<close> is the error that ends the playback.\<close>

definition recover_failed_source_route ::
    "viewer \<Rightarrow> media_client option \<Rightarrow> bool \<Rightarrow> int \<Rightarrow> handoff_state \<Rightarrow> handoff_state \<times> int option" where
  "recover_failed_source_route v client no_frames playpos_ns s =
     (let (n, ps, c) = s in
      case open_failure_action (original_recovery_pending c) (auto_original_watched ps c) no_frames of
        RollbackPendingOriginal \<Rightarrow>
          (case prepare_failed_original_rollback client (ps, c) of
             (t, RollbackPrepared offset_ns) \<Rightarrow> ((n, t), Some offset_ns)
           | (t, _) \<Rightarrow> ((n, t), None))
      | StartAutoHls \<Rightarrow>
          (let secs = max 0 (trunc_div playpos_ns 1000000000) in
           case fallback_unopened_auto_to_hls v client secs s of
             (s, None) \<Rightarrow> (s, None)
           | (s, Some _) \<Rightarrow> (s, Some (wrap_i64 (secs * 1000000000))))
      | OpenError \<Rightarrow> (s, None))"

text \<open>
  The failure gate of the pump: recover and reload, or fail the engine. A preview never gets here, it is
  retired instead.
\<close>

definition source_failed ::
    "viewer \<Rightarrow> media_client option \<Rightarrow> bool \<Rightarrow> int \<Rightarrow> native_faults \<Rightarrow> handoff_state \<Rightarrow> handoff_state option" where
  "source_failed v client no_frames playpos_ns f s =
     (case recover_failed_source_route v client no_frames playpos_ns s of
        (t, Some offset_ns) \<Rightarrow> map_option (\<lambda>r. (fst t, fst r)) (reload_at f (snd t))
      | ((n, ps, c), None) \<Rightarrow> Some (n, ps, fail_current_engine c))"

section \<open>What the pump does with a claimed action\<close>

record pump_input =
  pu_viewer :: viewer
  pu_client :: "media_client option"
  pu_pending_seek :: int
  pu_playpos :: int
  pu_desired_audio :: int
  pu_reload :: native_faults
  pu_rollback_reload :: native_faults

definition user_target :: "pump_input \<Rightarrow> int" where
  "user_target u = (if 0 \<le> pu_pending_seek u then pu_pending_seek u else max 0 (pu_playpos u))"

definition commit_seek :: "handoff_state \<Rightarrow> handoff_state" where
  "commit_seek s = (let (n, ps, c) = s in (n, ps, fst (commit_user_seek c)))"

definition finish_claim :: "claimed_action \<Rightarrow> apply_result \<Rightarrow> handoff_state \<Rightarrow> handoff_state" where
  "finish_claim action result s = (let (n, ps, c) = s in (n, finish_route_action ps action result c))"

definition reload :: "native_faults \<Rightarrow> handoff_state \<Rightarrow> handoff_state option" where
  "reload f s = map_option (\<lambda>r. (fst s, fst r)) (reload_at f (snd s))"

text \<open>The tail of a prepared transcode and of a staged native track, at the level of the owner.\<close>

definition prepared_tail :: "pump_input \<Rightarrow> claimed_action \<Rightarrow> handoff_state \<Rightarrow> handoff_state option" where
  "prepared_tail u action s =
     (let s = finish_claim action ApplyPrepared s;
          s = (if 0 \<le> pu_pending_seek u then commit_seek s else s)
      in reload (pu_reload u) s)"

definition start_original_trial_reload :: "pump_input \<Rightarrow> handoff_state \<Rightarrow> handoff_state option" where
  "start_original_trial_reload u s =
     (case reload_at (pu_reload u) (snd s) of
        None \<Rightarrow> None
      | Some (t, ReloadStarted) \<Rightarrow> Some (fst s, t)
      | Some (t, _) \<Rightarrow>
          (case prepare_failed_original_rollback (pu_client u) t of
             (t, RollbackPrepared _) \<Rightarrow> reload (pu_rollback_reload u) (fst s, t)
           | (t, _) \<Rightarrow> Some (fst s, t)))"

definition original_tail :: "pump_input \<Rightarrow> handoff_state \<Rightarrow> handoff_state option" where
  "original_tail u s = start_original_trial_reload u (commit_seek s)"

definition rejected_tail :: "claimed_action \<Rightarrow> handoff_state \<Rightarrow> handoff_state" where
  "rejected_tail action s = finish_claim action Rejected s"

definition run_claim_tail :: "pump_input \<Rightarrow> claimed_action \<Rightarrow> claim_tail \<Rightarrow> handoff_state \<Rightarrow> handoff_state option" where
  "run_claim_tail u action tail s =
     (case tail of
        TailRetranscode \<Rightarrow> prepared_tail u action s
      | TailNativeAudio _ \<Rightarrow> prepared_tail u action s
      | TailOriginal \<Rightarrow> original_tail u s
      | TailRejected _ \<Rightarrow> Some (rejected_tail action s))"

definition honour_displaced_pick :: "int \<Rightarrow> bool \<Rightarrow> handoff_state \<Rightarrow> handoff_state" where
  "honour_displaced_pick desired_audio_idx displaced_pick s =
     (let (n, ps, c) = s in
      if \<not> displaced_pick then s
      else if is_transcoding ps then s
      else case rp_audio ps of
             None \<Rightarrow> s
           | Some a \<Rightarrow> if ca_ordinal a \<noteq> desired_audio_idx then (n, stage_native_audio (ca_codec a) ps, c) else s)"

definition adaptive_claim :: "pump_input \<Rightarrow> claimed_action \<Rightarrow> handoff_state \<Rightarrow> handoff_state option" where
  "adaptive_claim u action s =
     (let honour = honour_displaced_pick (pu_desired_audio u) (cl_displaced_pick action) in
      if is_transcoding (fst (snd s))
      then
        (case transcode_seek (pu_client u) (user_target u div 1000000000) (snd s) of
           (t, Some _) \<Rightarrow> prepared_tail u action (honour (fst s, t))
         | (t, None) \<Rightarrow> Some (rejected_tail action (honour (fst s, t))))
      else prepared_tail u action (honour s))"

definition user_claim :: "pump_input \<Rightarrow> claimed_action \<Rightarrow> user_route_intent \<Rightarrow> handoff_state \<Rightarrow> handoff_state option" where
  "user_claim u action intent s =
     (let secs = user_target u div 1000000000 in
      case intent of
        Retranscode \<Rightarrow>
          (case execute_retranscode_claim (pu_viewer u) (pu_client u) action secs s of
             (s, tail) \<Rightarrow> run_claim_tail u action tail s)
      | NativeAudioReload \<Rightarrow>
          prepared_tail u action (honour_displaced_pick (pu_desired_audio u) (cl_displaced_pick action) s)
      | AdaptiveReload \<Rightarrow> adaptive_claim u action s
      | RecoverOriginal cause \<Rightarrow>
          (case execute_recover_original_claim (pu_viewer u) (pu_client u) action secs cause s of
             (s, tail) \<Rightarrow> run_claim_tail u action tail s))"

definition automatic_claim :: "pump_input \<Rightarrow> claimed_action \<Rightarrow> automatic_route_intent \<Rightarrow> handoff_state \<Rightarrow> handoff_state option" where
  "automatic_claim u action intent s =
     (case intent of
        OriginalToHls ticket kbps position_ns \<Rightarrow>
          if ticket \<noteq> cl_ticket action then Some (finish_claim action Cancelled s)
          else
            (case fallback_auto_to_hls_for (pu_viewer u) (pu_client u) (cl_ticket action) kbps
                    (max 0 position_ns div 1000000000) s of
               (s, Some _) \<Rightarrow> reload (pu_reload u) (commit_seek (finish_claim action ApplyPrepared s))
             | (s, None) \<Rightarrow> Some (finish_claim action Rejected s))
      | HlsToOriginal ticket kbps position_ns \<Rightarrow>
          if ticket \<noteq> cl_ticket action then Some (finish_claim action Cancelled s)
          else
            (case recover_auto_to_original_for (pu_viewer u) (cl_ticket action)
                    (max 0 position_ns div 1000000000) Automatic (snd s) of
               (t, True) \<Rightarrow> start_original_trial_reload u (commit_seek (fst s, t))
             | (t, False) \<Rightarrow> reload (pu_reload u) (commit_seek (finish_claim action Rejected (fst s, t)))))"

definition pump_claim :: "pump_input \<Rightarrow> handoff_state \<Rightarrow> handoff_state option" where
  "pump_claim u s =
     (let (n, ps, c) = s in
      case claim_route_action c of
        (c, None) \<Rightarrow> Some (n, ps, c)
      | (c, Some action) \<Rightarrow>
          (case cl_intent action of
             UserIntent intent \<Rightarrow> user_claim u action intent (n, ps, c)
           | AutomaticIntent intent \<Rightarrow> automatic_claim u action intent (n, ps, c)))"

end
