(* ===== verification/Route_Correct.thy ===== *)
theory Route_Correct
  imports Route_Steps
begin

text \<open>
  What the route owner guarantees in all reachable states and along all runs of its operations.
\<close>

named_theorems route_ops \<open>the operations of the route owner\<close>

lemmas [route_ops] =
  begin_user_contract_boundary_def begin_user_quality_boundary_def advance_user_contract_def
  user_edit_drop_def queue_user_route_intent_def cancel_user_route_intent_def note_user_seek_intent_def
  commit_user_seek_def reject_user_seek_def begin_playback_request_def prepare_playback_landing_def
  cancel_playback_request_def publish_automatic_route_intent_def claim_route_action_def
  finish_route_action_def publish_applied_route_projection_def commit_in_place_route_projection_def

lemmas [route_ops] =
  begin_route_start_def prepare_route_start_def claim_route_start_attempt_def drop_start_deferred_def
  reject_route_start_preparation_def abort_route_start_def publish_route_start_result_def settle_begin_def
  complete_finish_def fail_current_engine_def begin_engine_teardown_def stop_playback_def
  drop_original_recovery_def finish_engine_teardown_def

lemmas [route_ops] =
  install_active_encoder_def install_active_hls_def take_active_encoder_def replace_active_encoder_for_def
  replace_active_hls_for_def replace_active_hls_with_def observe_active_hls_def sync_active_hls_to_session_def
  set_pending_original_def adopt_trial_def defer_quality_def defer_audio_def defer_reconcile_def
  confirm_begin_def rollback_original_recovery_def begin_timeline_reporting_def

section \<open>The invariant\<close>

fun phase_serial :: "control_phase \<Rightarrow> u64 option" where
  "phase_serial (StagingUser s) = Some s"
| "phase_serial (Applying s) = Some s"
| "phase_serial (Preparing s) = Some s"
| "phase_serial (Prepared s) = Some s"
| "phase_serial (Starting s _) = Some s"
| "phase_serial (Completing s) = Some s"
| "phase_serial (OriginalTrial (TPrepared s)) = Some s"
| "phase_serial (OriginalTrial (TStarting s _)) = Some s"
| "phase_serial (OriginalTrial (TAwaitingFrame s)) = Some s"
| "phase_serial (OriginalTrial (TFailed s)) = Some s"
| "phase_serial (Failed s) = Some s"
| "phase_serial _ = None"

text \<open>
  The serial of a phase is the last one handed out, also behind a resolve; the attempt in flight is the
  last one claimed and no result is newer; the trial is pending exactly in its phases; deferred effects
  are never empty.
\<close>

definition route_inv :: "player_control \<Rightarrow> bool" where
  "route_inv c \<longleftrightarrow>
     (phase_serial (rc_phase c) = None \<or> phase_serial (rc_phase c) = Some (rc_next_action c)) \<and>
     (rc_phase c = Resolving \<longrightarrow> (\<forall>s. rc_resolve_fallback c = Some (FallFailed s) \<longrightarrow> s = rc_next_action c)) \<and>
     (\<forall>a. in_flight (rc_phase c) = Some a \<longrightarrow> ra_attempt a = rc_next_start_attempt c) \<and>
     (\<forall>a r. rc_last_start_result c = Some (a, r) \<longrightarrow> ra_attempt a \<le> rc_next_start_attempt c) \<and>
     (rc_pending_original c = None \<longleftrightarrow> trial_serial (rc_phase c) = None) \<and>
     (\<forall>s e. rc_start_deferred c = Some (s, e) \<longrightarrow> \<not> effects_empty e)"

lemma next_attempt_mono: "x \<noteq> - 1 \<Longrightarrow> y \<le> x \<Longrightarrow> y \<le> x + 1" for x y :: u64
proof -
  assume "x \<noteq> - 1" "y \<le> x"
  from \<open>x \<noteq> - 1\<close> have "1 + x \<noteq> 0" by (metis add.commute add_eq_0_iff)
  then show ?thesis using \<open>y \<le> x\<close> by (simp add: word_le_nat_alt unatSuc add.commute)
qed

text \<open>The operations that move the phase, a serial or an attempt; the others leave all the invariant is about.\<close>

fun settled_op :: "route_op \<Rightarrow> bool" where
  "settled_op (Begin_edit _) = True"
| "settled_op (Drop_edit _) = True"
| "settled_op (Begin_request _) = True"
| "settled_op (Land _ _) = True"
| "settled_op Cancel_request = True"
| "settled_op Claim_action = True"
| "settled_op (Finish_action _ _) = True"
| "settled_op Begin_start = True"
| "settled_op (Prepare_start _) = True"
| "settled_op (Claim_start _) = True"
| "settled_op (Reject_start _) = True"
| "settled_op (Abort_start _ _) = True"
| "settled_op (Settle_start _ _) = True"
| "settled_op (Complete _) = True"
| "settled_op Fail_engine = True"
| "settled_op Reload_teardown = True"
| "settled_op Stop = True"
| "settled_op Finish_stop = True"
| "settled_op (Set_pending _ _) = True"
| "settled_op Confirm_trial = True"
| "settled_op Rollback_trial = True"
| "settled_op _ = False"

definition owner_view where
  "owner_view c = (rc_phase c, rc_next_action c, rc_resolve_fallback c, rc_next_start_attempt c,
     rc_last_start_result c, rc_pending_original c = None, rc_start_deferred c)"

lemma run_op_view:
  "\<not> settled_op op \<Longrightarrow> pred_option (\<lambda>t. owner_view (snd t) = owner_view c) (run_op op (ps, c))"
  by (cases "(op, (ps, c))" rule: run_op.cases)
    (simp_all add: route_ops owner_view_def Let_def option.pred_inject
      split: option.splits control_phase.splits)

lemma run_op_viewed:
  assumes "settled_op op \<Longrightarrow> pred_option (\<lambda>t. P (snd t)) (run_op op (ps, c))"
    and "\<And>d. owner_view d = owner_view c \<Longrightarrow> P d"
  shows "pred_option (\<lambda>t. P (snd t)) (run_op op (ps, c))"
proof (cases "settled_op op")
  case False
  then show ?thesis using run_op_view [OF False, of c ps] assms(2) by (auto elim!: option.pred_mono_strong)
qed (use assms(1) in simp)

lemma settled_op_inv:
  "settled_op op \<Longrightarrow> route_inv c \<Longrightarrow> pred_option (\<lambda>t. route_inv (snd t)) (run_op op (ps, c))"
  by (cases "(op, (ps, c))" rule: run_op.cases; simp del: run_op.simps; cases "rc_phase c" rule: phase_serial.cases)
    (simp_all add: route_ops route_inv_def Let_def option.pred_inject in_flight_def trial_serial_def
      original_recovery_pending_def next_attempt_mono
      split: if_splits option.splits resolve_fallback.splits route_intent.splits)

lemma run_op_inv: "route_inv c \<Longrightarrow> pred_option (\<lambda>t. route_inv (snd t)) (run_op op (ps, c))"
  by (rule run_op_viewed, erule (1) settled_op_inv) (simp add: route_inv_def owner_view_def)

definition route_step :: "playback_session \<times> player_control \<Rightarrow> playback_session \<times> player_control \<Rightarrow> bool" where
  "route_step s t \<longleftrightarrow> (\<exists>op. run_op op s = Some t)"

lemma route_step_cases: "route_step s t \<Longrightarrow> (\<And>op. pred_option P (run_op op s)) \<Longrightarrow> P t"
  unfolding route_step_def by (metis option.pred_inject(2))

interpretation route: state_machine "\<lambda>s. snd s = player_control_init" route_step "\<lambda>s. route_inv (snd s)"
proof unfold_locales
  fix s t :: "playback_session \<times> player_control"
  show "route_inv (snd s)" if "snd s = player_control_init"
    unfolding that by (simp add: route_inv_def player_control_init_def in_flight_def trial_serial_def)
  show "route_inv (snd t)" if "route_step s t" "route_inv (snd s)"
    using that(1) by (rule route_step_cases) (use that(2) run_op_inv in \<open>cases s; simp\<close>)
qed

lemma run_ops_steps: "run_ops ops s = Some t \<Longrightarrow> route_step\<^sup>*\<^sup>* s t"
proof (induction ops arbitrary: s)
  case Nil
  then show ?case by simp
next
  case (Cons op ops)
  then obtain u where "run_op op s = Some u" "run_ops ops u = Some t" by (auto split: option.splits)
  then show ?case using Cons.IH [of u] by (meson converse_rtranclp_into_rtranclp route_step_def)
qed

section \<open>Attempts of the native load\<close>

definition retired :: "route_start_attempt \<Rightarrow> player_control \<Rightarrow> bool" where
  "retired a c \<longleftrightarrow> ra_attempt a \<le> rc_next_start_attempt c \<and> in_flight (rc_phase c) \<noteq> Some a"

lemma next_attempt_fresh: "x \<noteq> - 1 \<Longrightarrow> y \<le> x \<Longrightarrow> y \<noteq> x + 1" for x y :: u64
proof -
  assume "x \<noteq> - 1" "y \<le> x"
  from \<open>x \<noteq> - 1\<close> have "1 + x \<noteq> 0" by (metis add.commute add_eq_0_iff)
  then have "unat (x + 1) = Suc (unat x)" by (simp add: unatSuc add.commute)
  then show ?thesis using \<open>y \<le> x\<close> by (auto simp: word_le_nat_alt)
qed

lemma fresh_attempt: "x \<noteq> - 1 \<Longrightarrow> ra_attempt a \<le> x \<Longrightarrow> \<lparr>ra_serial = s, ra_attempt = x + 1\<rparr> \<noteq> a"
  by (cases a) (auto dest: next_attempt_fresh)

lemma settled_op_retired:
  "settled_op op \<Longrightarrow> retired a c \<Longrightarrow> pred_option (\<lambda>t. retired a (snd t)) (run_op op (ps, c))"
  by (cases "(op, (ps, c))" rule: run_op.cases; simp del: run_op.simps; cases "rc_phase c" rule: phase_serial.cases)
    (simp_all add: route_ops retired_def Let_def option.pred_inject in_flight_def trial_serial_def
      original_recovery_pending_def next_attempt_mono fresh_attempt
      split: if_splits option.splits resolve_fallback.splits route_intent.splits)

lemma run_op_retired: "retired a c \<Longrightarrow> pred_option (\<lambda>t. retired a (snd t)) (run_op op (ps, c))"
  by (rule run_op_viewed, erule (1) settled_op_retired) (simp add: retired_def owner_view_def)

interpretation retirement: state_machine "\<lambda>s. retired a (snd s)" route_step "\<lambda>s. retired a (snd s)" for a
proof unfold_locales
  fix s t :: "playback_session \<times> player_control"
  show "retired a (snd s)" if "retired a (snd s)" using that .
  show "retired a (snd t)" if "route_step s t" "retired a (snd s)"
    using that(1) by (rule route_step_cases) (use that(2) run_op_retired in \<open>cases s; simp\<close>)
qed

text \<open>
  C6. Once an attempt was claimed and has left flight, whatever the route does afterwards: its late result
  settles nothing, it is never current for a live engine again, and every later claim is another attempt.
\<close>

theorem late_load_never_settles:
  assumes "ra_attempt a \<le> rc_next_start_attempt (snd s)" and "in_flight (rc_phase (snd s)) \<noteq> Some a"
    and "run_ops ops s = Some t"
  shows "settle_begin a r (snd t) = (snd t, False, None)
    \<and> classify_live_engine_start a (snd t) \<noteq> CurrentAttempt
    \<and> claim_route_start_attempt serial (snd t) \<noteq> Some (c', Some a)"
proof (intro conjI)
  have ret: "retired a (snd t)"
    using retirement.steps_inv [OF run_ops_steps [OF assms(3)]] assms(1,2) by (simp add: retired_def)
  show "settle_begin a r (snd t) = (snd t, False, None)"
    using ret by (cases "rc_phase (snd t)" rule: phase_serial.cases)
      (auto simp: settle_begin_def retired_def in_flight_def Let_def)
  show "classify_live_engine_start a (snd t) \<noteq> CurrentAttempt"
    using ret by (cases "rc_phase (snd t)" rule: phase_serial.cases; cases a)
      (auto simp: classify_live_engine_start_def retired_def in_flight_def)
  show "claim_route_start_attempt serial (snd t) \<noteq> Some (c', Some a)"
    using ret fresh_attempt [of "rc_next_start_attempt (snd t)" a]
    by (auto simp: claim_route_start_attempt_def retired_def Let_def split: option.splits if_splits)
qed

theorem late_load_never_settles_witness:
  "settle_begin \<lparr>ra_serial = 1, ra_attempt = 1\<rparr> Started
     (player_control_init\<lparr>rc_next_start_attempt := 1, rc_next_action := 1, rc_phase := Preparing 1\<rparr>)
   = (player_control_init\<lparr>rc_next_start_attempt := 1, rc_next_action := 1, rc_phase := Preparing 1\<rparr>, False, None)"
proof -
  let ?s = "(idle_session, player_control_init\<lparr>rc_next_start_attempt := 1\<rparr>)"
  let ?t = "(idle_session, player_control_init\<lparr>rc_next_start_attempt := 1, rc_next_action := 1, rc_phase := Preparing 1\<rparr>)"
  let ?a = "\<lparr>ra_serial = 1, ra_attempt = 1\<rparr>"
  have run: "run_ops [Begin_start] ?s = Some ?t"
    by (simp add: player_control_init_def begin_route_start_def next_generation_def Let_def)
  have "in_flight (rc_phase (snd ?s)) \<noteq> Some ?a" by (simp add: player_control_init_def in_flight_def)
  then show ?thesis using late_load_never_settles [OF _ _ run, of ?a Started] by simp
qed

section \<open>Generations\<close>

lemma next_route_epoch_generation [simp]: "next_route_epoch = next_generation"
  by (rule ext) (simp add: next_route_epoch_def next_generation_def)

lemma unat_next_generation:
  "unat (next_generation v) = (if unat v = 2 ^ 64 - 1 then 1 else Suc (unat v))"
proof (cases "1 + v = 0")
  case True
  then have "v = - 1" by (simp add: eq_neg_iff_add_eq_0 add.commute)
  then show ?thesis by (simp add: next_generation_def unsigned_minus_1_eq_mask mask_eq_exp_minus_1)
next
  case False
  then have "unat (v + 1) = Suc (unat v)" by (simp add: unatSuc add.commute)
  moreover have "unat (v + 1) < 2 ^ 64" using unsigned_less [of "v + 1"] by simp
  ultimately show ?thesis using False by (simp add: next_generation_def add.commute)
qed

lemma unat_generations:
  "unat ((next_generation ^^ Suc k) v) = (if v = 0 then k else unat v - 1 + Suc k) mod (2 ^ 64 - 1) + 1"
proof (induction k)
  case 0
  have "unat v < 2 ^ 64" using unsigned_less [of v] by simp
  then show ?case by (cases "unat v") (auto simp: unat_next_generation unat_eq_0)
next
  case (Suc k)
  let ?m = "(if v = 0 then k else unat v - 1 + Suc k) :: nat"
  have "unat ((next_generation ^^ Suc (Suc k)) v) = (if ?m mod (2 ^ 64 - 1) + 1 = 2 ^ 64 - 1 then 1 else ?m mod (2 ^ 64 - 1) + 2)"
    using Suc by (simp add: unat_next_generation)
  also have "\<dots> = Suc ?m mod (2 ^ 64 - 1) + 1" by (simp add: mod_Suc)
  finally show ?case by simp
qed

lemma generations_distinct:
  assumes "0 < k" "k < 2 ^ 64 - 1"
  shows "(next_generation ^^ k) v \<noteq> v"
proof
  assume same: "(next_generation ^^ k) v = v"
  obtain j where j: "k = Suc j" using \<open>0 < k\<close> gr0_implies_Suc by blast
  have eq: "unat v = (if v = 0 then j else unat v - 1 + k) mod (2 ^ 64 - 1) + 1"
    using unat_generations [of j v] unfolding j [symmetric] same .
  then have "v \<noteq> 0" by auto
  moreover have "unat v < 2 ^ 64" using unsigned_less [of v] by simp
  ultimately obtain u where u: "unat v = Suc u" "u < 2 ^ 64 - 1" by (cases "unat v") (auto simp: unat_eq_0)
  have "u = (u + k) mod (2 ^ 64 - 1)" using eq \<open>v \<noteq> 0\<close> u by simp
  moreover have "(u + k) mod (2 ^ 64 - 1) = (if u + k < 2 ^ 64 - 1 then u + k else u + k - (2 ^ 64 - 1))"
    using u(2) assms(2) by (simp add: le_mod_geq)
  ultimately show False using u(2) assms by (simp split: if_splits)
qed

text \<open>No step moves a generation by more than one.\<close>

definition near :: "u64 \<Rightarrow> u64 \<Rightarrow> bool" where
  "near x y \<longleftrightarrow> y = x \<or> y = next_generation x"

definition generations :: "player_control \<Rightarrow> u64 \<times> u64 \<times> u64" where
  "generations c = (ae_epoch (rc_active c), rc_engine_epoch c, rc_media_epoch c)"

lemma run_op_near:
  "pred_option (\<lambda>t. near (ae_epoch (rc_active c)) (ae_epoch (rc_active (snd t)))
     \<and> near (rc_engine_epoch c) (rc_engine_epoch (snd t)) \<and> near (rc_media_epoch c) (rc_media_epoch (snd t))
     \<and> near (rc_next_action c) (rc_next_action (snd t))) (run_op op (ps, c))"
  by (cases "(op, (ps, c))" rule: run_op.cases)
    (simp_all add: route_ops near_def Let_def option.pred_inject advance_route_def
      split: if_splits option.splits resolve_fallback.splits route_intent.splits
        control_phase.splits trial_phase.splits prod.splits)

definition counts :: "(player_control \<Rightarrow> u64) \<Rightarrow> bool" where
  "counts g \<longleftrightarrow> (\<forall>op s t. run_op op s = Some t \<longrightarrow> near (g (snd s)) (g (snd t)))"

lemma counters:
  "counts (\<lambda>c. ae_epoch (rc_active c))" "counts rc_engine_epoch" "counts rc_media_epoch" "counts rc_next_action"
  unfolding counts_def using run_op_near by (metis (no_types, lifting) option.pred_inject(2) prod.collapse)+

lemma generations_along:
  assumes "run_ops ops s = Some t" and "counts g"
  obtains k where "k \<le> length ops" "g (snd t) = (next_generation ^^ k) (g (snd s))"
  using assms(1)
proof (induction ops arbitrary: s thesis)
  case Nil
  then show ?case by (metis funpow_0 le_refl list.size(3) option.inject run_ops.simps(1))
next
  case (Cons op ops)
  then obtain u where u: "run_op op s = Some u" "run_ops ops u = Some t" by (auto split: option.splits)
  have near: "near (g (snd s)) (g (snd u))" using assms(2) u(1) unfolding counts_def by blast
  obtain k where k: "k \<le> length ops" "g (snd t) = (next_generation ^^ k) (g (snd u))"
    using Cons.IH [OF _ u(2)] by blast
  show ?case
  proof (cases "g (snd u) = g (snd s)")
    case True
    then show ?thesis using k by (intro Cons.prems(1) [of k]) simp_all
  next
    case False
    then have "g (snd u) = next_generation (g (snd s))" using near by (simp add: near_def)
    then show ?thesis using k by (intro Cons.prems(1) [of "Suc k"]) (simp_all add: funpow_swap1)
  qed
qed

lemma generation_never_returns:
  assumes "run_ops xs s = Some t" "run_ops ys t = Some u" "length xs + length ys < 2 ^ 64 - 1"
    and "counts g" and "g (snd t) \<noteq> g (snd s)"
  shows "g (snd u) \<noteq> g (snd s)"
proof -
  obtain i where i: "i \<le> length xs" "g (snd t) = (next_generation ^^ i) (g (snd s))"
    by (rule generations_along [OF assms(1,4)])
  obtain j where j: "j \<le> length ys" "g (snd u) = (next_generation ^^ j) (g (snd t))"
    by (rule generations_along [OF assms(2,4)])
  have "0 < i" using assms(5) i(2) by (cases i) auto
  moreover have "g (snd u) = (next_generation ^^ (j + i)) (g (snd s))"
    unfolding j(2) i(2) by (simp add: funpow_add)
  ultimately show ?thesis using generations_distinct [of "j + i" "g (snd s)"] i(1) j(1) assms(3) by simp
qed

lemma ticket_stays_stale:
  assumes "run_ops xs s = Some t" and "run_ops ys t = Some u" and "length xs + length ys < 2 ^ 64 - 1"
    and "generations (snd t) \<noteq> generations (snd s)"
  shows "worker_ticket_of (snd u) \<noteq> worker_ticket_of (snd s)"
proof -
  note never = generation_never_returns [OF assms(1-3)]
  have "generations (snd u) \<noteq> generations (snd s)"
    using assms(4) never [OF counters(1)] never [OF counters(2)] never [OF counters(3)]
    by (auto simp: generations_def)
  then show ?thesis by (auto simp: worker_ticket_of_def lease_of_def generations_def)
qed

text \<open>
  In a life of the process shorter than a counter nothing wraps: the counters only grow, the applied
  revision never passes the desired one, and under one epoch of the route it never goes back. Only the
  rollback of a trial sets it back, and that is a new epoch.
\<close>

lemma next_generation_moves [simp]: "next_generation v \<noteq> v" "v \<noteq> next_generation v"
  using generations_distinct [of 1 v] by simp_all

lemma near_grows:
  assumes "near x y" and "unat x < 2 ^ 64 - 1"
  shows "x \<le> y" and "unat y \<le> Suc (unat x)"
  using assms by (auto simp: near_def word_le_nat_alt unat_next_generation)

text \<open>The revision a rollback would give back.\<close>

definition held_revision :: "player_control \<Rightarrow> u64 option" where
  "held_revision c = map_option po_previous_applied_revision (rc_pending_original c)"

definition revision_step :: "player_control \<Rightarrow> player_control \<Rightarrow> bool" where
  "revision_step c c' \<longleftrightarrow>
     near (rc_desired_revision c) (rc_desired_revision c') \<and>
     (ae_epoch (rc_active c') = ae_epoch (rc_active c) \<longrightarrow> ae_id (rc_active c') = ae_id (rc_active c) \<and>
        rc_applied_revision c' \<in> {rc_applied_revision c, rc_desired_revision c}) \<and>
     (rc_applied_revision c' \<in> {rc_applied_revision c, rc_desired_revision c} \<or>
        held_revision c = Some (rc_applied_revision c')) \<and>
     held_revision c' \<in> {None, held_revision c, Some (rc_applied_revision c)}"

lemma run_op_revision: "pred_option (\<lambda>t. revision_step c (snd t)) (run_op op (ps, c))"
  by (cases "(op, (ps, c))" rule: run_op.cases)
    (simp_all add: revision_step_def held_revision_def route_ops near_def Let_def option.pred_inject advance_route_def
      option.map_comp o_def split: if_splits option.splits resolve_fallback.splits route_intent.splits
        control_phase.splits trial_phase.splits prod.splits)

definition young :: "nat \<Rightarrow> player_control \<Rightarrow> bool" where
  "young n c \<longleftrightarrow> unat (ae_epoch (rc_active c)) \<le> Suc n \<and> unat (rc_engine_epoch c) \<le> Suc n \<and>
     unat (rc_media_epoch c) \<le> Suc n \<and> unat (rc_desired_revision c) \<le> Suc n \<and>
     rc_applied_revision c \<le> rc_desired_revision c \<and>
     pred_option (\<lambda>r. r \<le> rc_desired_revision c) (held_revision c)"

definition advances :: "player_control \<Rightarrow> player_control \<Rightarrow> bool" where
  "advances c c' \<longleftrightarrow> ae_epoch (rc_active c) \<le> ae_epoch (rc_active c') \<and> rc_engine_epoch c \<le> rc_engine_epoch c' \<and>
     rc_media_epoch c \<le> rc_media_epoch c' \<and>
     (ae_epoch (rc_active c) = ae_epoch (rc_active c') \<longrightarrow>
        ae_id (rc_active c) = ae_id (rc_active c') \<and> rc_applied_revision c \<le> rc_applied_revision c')"

lemma advances_trans: "advances a b \<Longrightarrow> advances b c \<Longrightarrow> advances a c"
  unfolding advances_def by (metis order_antisym order_trans)

lemma near_young:
  assumes "near x y" and "unat x \<le> Suc n" and "Suc n < 2 ^ 64 - 1"
  shows "x \<le> y \<and> unat y \<le> Suc (Suc n)"
  using near_grows [OF assms(1)] assms(2,3) by (simp add: le_less_trans)

lemma young_advances:
  assumes "revision_step c c'" and "young n c" and "Suc n < 2 ^ 64 - 1"
    and "near (ae_epoch (rc_active c)) (ae_epoch (rc_active c'))"
    and "near (rc_engine_epoch c) (rc_engine_epoch c')" and "near (rc_media_epoch c) (rc_media_epoch c')"
  shows "young (Suc n) c' \<and> advances c c'"
proof -
  have desired: "rc_desired_revision c \<le> rc_desired_revision c' \<and> unat (rc_desired_revision c') \<le> Suc (Suc n)"
    using near_young [of "rc_desired_revision c"] assms(1-3) unfolding revision_step_def young_def by blast
  have epochs: "ae_epoch (rc_active c) \<le> ae_epoch (rc_active c') \<and> unat (ae_epoch (rc_active c')) \<le> Suc (Suc n)"
    "rc_engine_epoch c \<le> rc_engine_epoch c' \<and> unat (rc_engine_epoch c') \<le> Suc (Suc n)"
    "rc_media_epoch c \<le> rc_media_epoch c' \<and> unat (rc_media_epoch c') \<le> Suc (Suc n)"
    using near_young [OF assms(4) _ assms(3)] near_young [OF assms(5) _ assms(3)] near_young [OF assms(6) _ assms(3)]
      assms(2) unfolding young_def by blast+
  have applied: "rc_applied_revision c' \<le> rc_desired_revision c"
    using assms(1,2) by (auto simp: revision_step_def young_def)
  have held: "pred_option (\<lambda>r. r \<le> rc_desired_revision c) (held_revision c')"
    using assms(1,2) by (auto simp: revision_step_def young_def)
  have "advances c c'"
    using epochs assms(1,2) by (auto simp: advances_def revision_step_def young_def)
  moreover have "young (Suc n) c'"
    using epochs desired applied held by (auto simp: young_def elim: option.pred_mono_strong)
  ultimately show ?thesis by blast
qed

lemma young_step:
  assumes "run_op op s = Some t" and "young n (snd s)" and "Suc n < 2 ^ 64 - 1"
  shows "young (Suc n) (snd t) \<and> advances (snd s) (snd t)"
proof (rule young_advances [OF _ assms(2,3)])
  show "revision_step (snd s) (snd t)" using run_op_revision [of "snd s" op "fst s"] assms(1) by simp
qed (use counters(1-3) assms(1) in \<open>unfold counts_def, blast\<close>)+

lemma young_run:
  "run_ops ops s = Some t \<Longrightarrow> young n (snd s) \<Longrightarrow> n + length ops < 2 ^ 64 - 1 \<Longrightarrow>
   young (n + length ops) (snd t) \<and> advances (snd s) (snd t)"
proof (induction ops arbitrary: s n)
  case Nil
  then show ?case by (simp add: advances_def)
next
  case (Cons op ops)
  obtain u where u: "run_op op s = Some u" "run_ops ops u = Some t" using Cons.prems(1) by (auto split: option.splits)
  have "Suc n < 2 ^ 64 - 1" "Suc n + length ops < 2 ^ 64 - 1" using Cons.prems(3) by simp_all
  with young_step [OF u(1) Cons.prems(2)] Cons.IH [OF u(2), of "Suc n"]
  have "young (Suc n + length ops) (snd t)" "advances (snd s) (snd u)" "advances (snd u) (snd t)" by blast+
  then show ?case using advances_trans by simp
qed

lemma young_init: "young 0 player_control_init"
  by (simp add: young_def held_revision_def player_control_init_def)

text \<open>What a ticket stands for, as the owner holds it.\<close>

definition stamp :: "player_control \<Rightarrow> u64 \<times> u64 \<times> u64 \<times> u64" where
  "stamp c = (ae_epoch (rc_active c), rc_engine_epoch c, rc_media_epoch c, rc_applied_revision c)"

lemma ticket_is_stamp:
  assumes "advances c c'"
  shows "worker_ticket_of c' = worker_ticket_of c \<longleftrightarrow> stamp c' = stamp c"
  using assms by (auto simp: advances_def worker_ticket_of_def lease_of_def stamp_def)

lemma stamp_never_returns:
  assumes "advances a b" "advances b c" "stamp b \<noteq> stamp a"
  shows "stamp c \<noteq> stamp a"
  using assms by (auto simp: advances_def stamp_def)

text \<open>
  C10. A worker's ticket is current exactly as long as the route, the engine, the media position and the
  applied contract are the ones it was issued for; as soon as one of them has moved, it is dead for good.
  In a life of the process of fewer than 18446744073709551615 operations, whatever they are, it never
  becomes current again, and nothing that needs it is done: an automatic intent is stale, the encoder is
  not replaced, a step not committed and an observation not recorded.
\<close>

theorem stale_ticket_never_returns:
  assumes "run_ops ws (ps, player_control_init) = Some s" and "run_ops xs s = Some t" and "run_ops ys t = Some u"
    and "length ws + length xs + length ys < 2 ^ 64 - 1" and "ticket = worker_ticket_of (snd s)"
  defines "moved \<equiv> ae_epoch (rc_active (snd t)) \<noteq> ae_epoch (rc_active (snd s))
    \<or> rc_engine_epoch (snd t) \<noteq> rc_engine_epoch (snd s) \<or> rc_media_epoch (snd t) \<noteq> rc_media_epoch (snd s)
    \<or> rc_applied_revision (snd t) \<noteq> rc_applied_revision (snd s)"
  shows "(ticket_is_current (snd t) ticket \<longleftrightarrow> \<not> moved)
    \<and> (moved \<longrightarrow> \<not> ticket_is_current (snd u) ticket
      \<and> publish_automatic_route_intent (OriginalToHls ticket kbps pos) (snd u) = (snd u, Stale)
      \<and> publish_automatic_route_intent (HlsToOriginal ticket kbps pos) (snd u) = (snd u, Stale)
      \<and> replace_active_encoder_for ticket e (snd u) = (snd u, None)
      \<and> replace_active_hls_for ticket e h (snd u) = (snd u, None)
      \<and> replace_active_hls_with ticket e h w (snd u) = (snd u, Inl RouteMoved)
      \<and> observe_active_hls ticket variant n (snd u) = snd u)"
proof -
  have ws: "young (length ws) (snd s)" using young_run [OF assms(1), of 0] young_init assms(4) by simp
  from young_run [OF assms(2) ws] assms(4) have xs: "young (length ws + length xs) (snd t)" "advances (snd s) (snd t)"
    by simp_all
  from young_run [OF assms(3) xs(1)] assms(4) have ys: "advances (snd t) (snd u)" by simp
  have moved: "moved \<longleftrightarrow> stamp (snd t) \<noteq> stamp (snd s)" by (auto simp: moved_def stamp_def)
  have now: "ticket_is_current (snd t) ticket \<longleftrightarrow> \<not> moved"
    using ticket_is_stamp [OF xs(2)] moved assms(5) by (auto simp: ticket_is_current_def)
  have later: "worker_ticket_of (snd u) \<noteq> ticket" if moved
    using ticket_is_stamp [OF advances_trans [OF xs(2) ys]] stamp_never_returns [OF xs(2) ys] moved that assms(5) by simp
  show ?thesis using now later
    by (auto simp: ticket_is_current_def publish_automatic_route_intent_def automatic_ticket_def
      replace_active_encoder_for_def replace_active_hls_for_def replace_active_hls_with_def observe_active_hls_def)
qed

text \<open>
  Of all the workers that hold one ticket at most one commits a quality step, however the owner is used
  in between: after the commit the ticket is refused, and the refusal changes nothing.
\<close>

theorem one_commit_per_ticket:
  assumes "replace_active_hls_with ticket e h (Some v) c = (c', Inr (v', fresh))"
    and "run_ops ops (ps, c') = Some u" and "length ops < 2 ^ 64 - 2"
  shows "rc_phase c = Stable \<and> ticket_is_current c ticket \<and> ticket_is_current c' fresh
    \<and> active_hls_route c' = Some (fresh, h) \<and> rl_encoder (wt_route fresh) = e
    \<and> replace_active_hls_with ticket e' h' w (snd u) = (snd u, Inl RouteMoved)"
proof (intro conjI)
  have ok: "rc_phase c = Stable" "ticket_is_current c ticket"
    and c': "c' = c\<lparr>rc_active := (advance_route (rc_active c))\<lparr>ae_id := e, ae_hls := Some h\<rparr>\<rparr>"
    and fresh: "fresh = worker_ticket_of c'"
    using assms(1) by (auto simp: replace_active_hls_with_def Let_def split: if_splits)
  show "rc_phase c = Stable" "ticket_is_current c ticket" using ok .
  show "ticket_is_current c' fresh" using fresh by (simp add: ticket_is_current_def)
  show "active_hls_route c' = Some (fresh, h)" "rl_encoder (wt_route fresh) = e"
    unfolding fresh by (simp_all add: c' active_hls_route_def worker_ticket_of_def lease_of_def)
  have run: "run_ops [Commit_hls ticket e h True] (ps, c) = Some (ps, c')"
    using assms(1) by (auto simp: replace_active_hls_with_def Let_def split: if_splits)
  have "generations (snd (ps, c')) \<noteq> generations (snd (ps, c))"
    using generations_distinct [of 1 "ae_epoch (rc_active c)"] by (simp add: c' generations_def advance_route_def)
  then have "worker_ticket_of (snd u) \<noteq> worker_ticket_of c"
    using ticket_stays_stale [OF run assms(2)] assms(3) by simp
  then show "replace_active_hls_with ticket e' h' w (snd u) = (snd u, Inl RouteMoved)"
    using ok by (simp add: replace_active_hls_with_def ticket_is_current_def)
qed

theorem stale_ticket_never_returns_witness:
  "\<exists>t. run_ops [Begin_edit None, Commit_in_place True] (idle_session, player_control_init) = Some t
     \<and> rc_applied_revision (snd t) = 2 \<and> \<not> ticket_is_current (snd t) (worker_ticket_of player_control_init)"
proof -
  obtain t where run: "run_ops [Begin_edit None, Commit_in_place True] (idle_session, player_control_init) = Some t"
      and applied: "rc_applied_revision (snd t) = 2"
    by (simp add: begin_user_contract_boundary_def commit_in_place_route_projection_def player_control_init_def
        advance_user_contract_def next_generation_def Let_def)
  have start: "run_ops [] (idle_session, player_control_init) = Some (idle_session, player_control_init)"
    and stay: "run_ops [] t = Some t" by simp_all
  have "rc_applied_revision (snd t) \<noteq> rc_applied_revision (snd (idle_session, player_control_init))"
    using applied by (simp add: player_control_init_def)
  with stale_ticket_never_returns [OF start run stay _ refl, THEN conjunct1] run applied show ?thesis by simp
qed

theorem one_commit_per_ticket_witness:
  "replace_active_hls_with (worker_ticket_of player_control_init) ''x''
     \<lparr>ah_url = [], ah_rung = rung.P480, ah_observed = None\<rparr> (Some ())
     (fst (replace_active_hls_with (worker_ticket_of player_control_init) [] \<lparr>ah_url = [], ah_rung = rung.P480, ah_observed = None\<rparr>
        (Some ()) player_control_init))
   = (fst (replace_active_hls_with (worker_ticket_of player_control_init) [] \<lparr>ah_url = [], ah_rung = rung.P480, ah_observed = None\<rparr>
        (Some ()) player_control_init), Inl RouteMoved)"
proof -
  let ?t = "worker_ticket_of player_control_init"
  let ?h = "\<lparr>ah_url = [], ah_rung = rung.P480, ah_observed = None\<rparr>"
  obtain c' f where commit: "replace_active_hls_with ?t [] ?h (Some ()) player_control_init = (c', Inr ((), f))"
    by (auto simp: replace_active_hls_with_def ticket_is_current_def player_control_init_def Let_def)
  have "run_ops [] (idle_session, c') = Some (idle_session, c')" by simp
  from one_commit_per_ticket [OF commit this, where e' = "''x''" and h' = ?h and w = "Some ()"] show ?thesis by (simp add: commit)
qed

end
