(* ===== verification/Route_Runs.thy ===== *)
theory Route_Runs
  imports Route_Correct
begin

text \<open>
  Runs of the route owner: edits that are refused, transactions that were superseded, the trial of the
  original from its beginning to its end, and the way back to a settled phase.
\<close>

section \<open>Edits leave the worker alone\<close>

text \<open>
  The operations that replace no route: staging an edit, queueing and claiming an action, everything
  around the native start, the deferred edits of a trial and reports.
\<close>

fun keeps_route :: "route_op \<Rightarrow> bool" where
  "keeps_route (Land _ _) = False"
| "keeps_route Commit_seek = False"
| "keeps_route (Finish_action _ r) = (r \<noteq> ApplyPrepared)"
| "keeps_route Publish_applied = False"
| "keeps_route (Commit_in_place _) = False"
| "keeps_route Fail_engine = False"
| "keeps_route Reload_teardown = False"
| "keeps_route Stop = False"
| "keeps_route (Install_encoder _) = False"
| "keeps_route (Install_hls _ _ _) = False"
| "keeps_route Take_encoder = False"
| "keeps_route (Replace_encoder _ _) = False"
| "keeps_route (Replace_hls _ _ _) = False"
| "keeps_route (Commit_hls _ _ _ _) = False"
| "keeps_route (Observe_hls _ _ _) = False"
| "keeps_route Sync_hls = False"
| "keeps_route (Set_pending _ _) = False"
| "keeps_route Confirm_trial = False"
| "keeps_route Rollback_trial = False"
| "keeps_route _ = True"

definition applied_contract ::
    "player_control \<Rightarrow> active_encoder \<times> u64 \<times> u64 \<times> u64 \<times> playback_quality \<times> route_projection option" where
  "applied_contract c = (rc_active c, rc_engine_epoch c, rc_media_epoch c, rc_applied_revision c,
     rc_applied_quality c, rc_applied_projection c)"

lemma run_op_keeps:
  "keeps_route op \<Longrightarrow> pred_option (\<lambda>t. applied_contract (snd t) = applied_contract c) (run_op op (ps, c))"
  by (cases "(op, (ps, c))" rule: run_op.cases)
    (simp_all add: route_ops applied_contract_def Let_def option.pred_inject
      split: if_splits option.splits resolve_fallback.splits route_intent.splits
        control_phase.splits trial_phase.splits)

lemma run_ops_keeps:
  assumes "run_ops ops s = Some t" "list_all keeps_route ops"
  shows "applied_contract (snd t) = applied_contract (snd s)"
  using assms
proof (induction ops arbitrary: s)
  case Nil
  then show ?case by simp
next
  case (Cons op ops)
  then obtain u where u: "run_op op s = Some u" "run_ops ops u = Some t" by (auto split: option.splits)
  have "applied_contract (snd u) = applied_contract (snd s)"
    using run_op_keeps [of op "snd s" "fst s"] Cons.prems(2) u(1) by simp
  then show ?case using Cons.IH [OF u(2)] Cons.prems(2) by simp
qed

lemma applied_contract_ticket:
  "applied_contract c = applied_contract d \<Longrightarrow> worker_ticket_of c = worker_ticket_of d"
  by (simp add: applied_contract_def worker_ticket_of_def lease_of_def)

lemma install_projection [simp]:
  "route_projection (install_route_projection p ps) = p"
  "route_projection.more (install_route_projection p ps) = route_projection.more ps"
  by (cases p; cases ps; simp add: install_route_projection_def route_projection_def
      route_projection.defs)+

text \<open>
  C11. A refused edit leaves the unchanged worker authorized: however an edit is staged, queued, claimed and
  proposed in the session, when its action is rejected or cancelled the session carries the applied
  projection again, its other fields stay, and the ticket and the applied contract are those of before.
\<close>

theorem refused_edit_leaves_worker_authorized:
  assumes "run_ops ops (ps, c) = Some (ps1, c1)" and "list_all keeps_route ops"
    and "rc_applied_projection c = Some p" and "rc_phase c1 = Applying (cl_serial action)"
    and "result \<noteq> ApplyPrepared" and "finish_route_action ps1 action result c1 = (ps2, c2)"
  shows "rc_phase c2 = Stable \<and> worker_ticket_of c2 = worker_ticket_of c
    \<and> applied_contract c2 = applied_contract c
    \<and> route_projection ps2 = p \<and> route_projection.more ps2 = route_projection.more ps1"
proof (intro conjI)
  have kept: "applied_contract c1 = applied_contract c" using run_ops_keeps [OF assms(1,2)] by simp
  have c2: "c2 = c1\<lparr>rc_phase := Stable\<rparr>" and ps2: "ps2 = install_route_projection p ps1"
    using assms(3-6) kept by (auto simp: finish_route_action_def applied_contract_def)
  show "rc_phase c2 = Stable" by (simp add: c2)
  show "applied_contract c2 = applied_contract c" using kept by (simp add: c2 applied_contract_def)
  then show "worker_ticket_of c2 = worker_ticket_of c" by (rule applied_contract_ticket)
  show "route_projection ps2 = p" "route_projection.more ps2 = route_projection.more ps1"
    by (simp_all add: ps2)
qed

theorem refused_edit_leaves_worker_authorized_witness:
  "rc_phase (snd (finish_route_action idle_session
      \<lparr>cl_serial = 2, cl_ticket = worker_ticket_of player_control_init, cl_intent = UserIntent Retranscode,
       cl_displaced_pick = False\<rparr> Rejected
      (snd (the (run_ops [Begin_edit (Some P720), Queue_intent P720 Retranscode False, Drop_edit (Some 1), Claim_action]
        (idle_session, player_control_init\<lparr>rc_applied_projection := Some (route_projection idle_session)\<rparr>)))))) = Stable"
proof -
  let ?ops = "[Begin_edit (Some P720), Queue_intent P720 Retranscode False, Drop_edit (Some 1), Claim_action]"
  let ?c = "player_control_init\<lparr>rc_applied_projection := Some (route_projection idle_session)\<rparr>"
  let ?t = "the (run_ops ?ops (idle_session, ?c))"
  let ?a = "\<lparr>cl_serial = 2, cl_ticket = worker_ticket_of player_control_init, cl_intent = UserIntent Retranscode,
    cl_displaced_pick = False\<rparr>"
  have run: "run_ops ?ops (idle_session, ?c) = Some (idle_session, snd ?t)"
    and phase: "rc_phase (snd ?t) = Applying (cl_serial ?a)"
    by (simp_all add: route_ops player_control_init_def next_generation_def Let_def)
  show ?thesis
    by (rule refused_edit_leaves_worker_authorized [OF run _ _ phase, where result = Rejected, THEN conjunct1])
      (simp | rule surjective_pairing)+
qed

section \<open>Superseded transactions\<close>

text \<open>
  A transaction is inert once a newer serial was handed out: whatever happened before and for the next
  18446744073709551614 operations, nothing that names it prepares, claims, rejects or aborts a start,
  finishes an action, ends an edit or completes a start.
\<close>

theorem superseded_transactions_are_inert:
  assumes "run_ops xs (ps, player_control_init) = Some s" and "run_ops ys s = Some t" and "run_ops zs t = Some u"
    and "length ys + length zs < 2 ^ 64 - 1" and "rc_next_action (snd t) \<noteq> rc_next_action (snd s)"
    and "serial = rc_next_action (snd s)"
  shows "prepare_route_start serial (snd u) = (snd u, False)
    \<and> claim_route_start_attempt serial (snd u) = Some (snd u, None)
    \<and> reject_route_start_preparation serial (snd u) = (snd u, False)
    \<and> abort_route_start serial r (snd u) = (snd u, False)
    \<and> complete_finish serial (snd u) = snd u
    \<and> user_edit_drop (Some serial) (snd u) = snd u
    \<and> (cl_serial action = serial \<longrightarrow> finish_route_action ps' action result (snd u) = (ps', snd u))"
proof (intro conjI impI)
  have new: "rc_next_action (snd u) \<noteq> serial"
    using generation_never_returns [OF assms(2-4) counters(4) assms(5)] assms(6) by simp
  have "route_inv (snd (ps, player_control_init))"
    by (rule route.reachable_inv) (auto intro: route.reachable.init)
  then have "route_inv (snd u)"
    using route.steps_inv [OF run_ops_steps [OF assms(1)]] route.steps_inv [OF run_ops_steps [OF assms(2)]]
      route.steps_inv [OF run_ops_steps [OF assms(3)]] by blast
  then have no: "phase_serial (rc_phase (snd u)) \<noteq> Some serial" using new by (auto simp: route_inv_def)
  show "prepare_route_start serial (snd u) = (snd u, False)"
    "claim_route_start_attempt serial (snd u) = Some (snd u, None)"
    "reject_route_start_preparation serial (snd u) = (snd u, False)"
    "abort_route_start serial r (snd u) = (snd u, False)"
    "complete_finish serial (snd u) = snd u"
    "user_edit_drop (Some serial) (snd u) = snd u"
    "cl_serial action = serial \<Longrightarrow> finish_route_action ps' action result (snd u) = (ps', snd u)"
    using no by (cases "rc_phase (snd u)" rule: phase_serial.cases; simp add: route_ops)+
qed

theorem superseded_transactions_are_inert_witness:
  "prepare_route_start 1 (player_control_init\<lparr>rc_next_action := 2, rc_phase := Preparing 2\<rparr>)
     = (player_control_init\<lparr>rc_next_action := 2, rc_phase := Preparing 2\<rparr>, False)"
proof -
  let ?s = "(idle_session, player_control_init\<lparr>rc_next_action := 1, rc_phase := Preparing 1\<rparr>)"
  let ?t = "(idle_session, player_control_init\<lparr>rc_next_action := 2, rc_phase := Preparing 2\<rparr>)"
  have "run_ops [Begin_start] (idle_session, player_control_init) = Some ?s"
    and "run_ops [Reject_start 1, Begin_start] ?s = Some ?t" and "run_ops [] ?t = Some ?t"
    by (simp_all add: begin_route_start_def reject_route_start_preparation_def drop_start_deferred_def
        player_control_init_def next_generation_def Let_def)
  from superseded_transactions_are_inert [OF this, of 1] show ?thesis by simp
qed

section \<open>No phase is latched\<close>

text \<open>The steps that only complete what is under way, for a load that starts.\<close>

definition start_ops :: "player_control \<Rightarrow> u64 \<Rightarrow> route_op list" where
  "start_ops c s =
     [Claim_start s, Settle_start \<lparr>ra_serial = s, ra_attempt = rc_next_start_attempt c + 1\<rparr> Started, Complete s]"

definition restart_ops :: "player_control \<Rightarrow> route_op list" where
  "restart_ops c = Begin_start # start_ops c (next_generation (rc_next_action c))"

fun way_home :: "player_control \<Rightarrow> control_phase \<Rightarrow> route_op list" where
  "way_home c Stable = []"
| "way_home c (StagingUser s) = [Drop_edit (Some s)]"
| "way_home c (Applying s) =
     [Finish_action \<lparr>cl_serial = s, cl_ticket = worker_ticket_of c, cl_intent = UserIntent Retranscode,
        cl_displaced_pick = False\<rparr> Rejected]"
| "way_home c (Preparing s) = [Reject_start s]"
| "way_home c (Prepared s) = start_ops c s"
| "way_home c (Starting s a) = [Settle_start \<lparr>ra_serial = s, ra_attempt = a\<rparr> Started, Complete s]"
| "way_home c (Completing s) = [Complete s]"
| "way_home c (OriginalTrial (TPrepared s)) =
     [Claim_start s, Settle_start \<lparr>ra_serial = s, ra_attempt = rc_next_start_attempt c + 1\<rparr> Started,
      Confirm_trial, Complete s]"
| "way_home c (OriginalTrial (TStarting s a)) =
     [Settle_start \<lparr>ra_serial = s, ra_attempt = a\<rparr> Started, Confirm_trial, Complete s]"
| "way_home c (OriginalTrial (TAwaitingFrame s)) = [Confirm_trial, Complete s]"
| "way_home c (OriginalTrial (TFailed s)) = Rollback_trial # start_ops c (next_generation (rc_next_action c))"
| "way_home c (Failed s) = restart_ops c"
| "way_home c Idle = restart_ops c"
| "way_home c Stopping = Finish_stop # restart_ops c"
| "way_home c Resolving = Cancel_request # (if rc_resolve_fallback c = Some FallStable then [] else restart_ops c)"

lemma start_ops_settle:
  assumes "rc_phase c = Prepared s" "rc_next_start_attempt c \<noteq> - 1"
    and "rc_next_start_attempt d = rc_next_start_attempt c"
  shows "\<exists>t. run_ops (start_ops d s) (ps, c) = Some t \<and> rc_phase (snd t) = Stable"
  using assms
  by (simp add: start_ops_def claim_route_start_attempt_def settle_begin_def complete_finish_def Let_def
      split: option.split)

lemma restart_ops_settle:
  assumes "rc_phase c = Idle \<or> (\<exists>s. rc_phase c = Failed s)" "rc_next_start_attempt c \<noteq> - 1"
    and "rc_next_start_attempt d = rc_next_start_attempt c" "rc_next_action d = rc_next_action c"
  shows "\<exists>t. run_ops (restart_ops d) (ps, c) = Some t \<and> rc_phase (snd t) = Stable"
proof -
  let ?s = "next_generation (rc_next_action c)"
  have "run_op Begin_start (ps, c) = Some (ps, c\<lparr>rc_next_action := ?s, rc_phase := Prepared ?s\<rparr>)"
    using assms(1) by (auto simp: begin_route_start_def Let_def)
  then show ?thesis
    using start_ops_settle [of "c\<lparr>rc_next_action := ?s, rc_phase := Prepared ?s\<rparr>" ?s d ps] assms
    by (simp add: restart_ops_def)
qed

lemma reachable_route_inv:
  "run_ops xs (ps, player_control_init) = Some s \<Longrightarrow> route_inv (snd s)"
  using route.steps_inv [OF run_ops_steps, of xs "(ps, player_control_init)" s]
    route.reachable_inv [OF route.reachable.init, of "(ps, player_control_init)"] by simp

lemma cancel_counts:
  "rc_next_start_attempt (snd (cancel_playback_request ps c)) = rc_next_start_attempt c"
  "rc_next_action (snd (cancel_playback_request ps c)) = rc_next_action c"
  by (simp_all add: cancel_playback_request_def Let_def)

lemma cancel_phase:
  assumes "rc_phase c = Resolving" "rc_resolve_fallback c \<noteq> Some FallStable"
  shows "rc_phase (snd (cancel_playback_request ps c)) = Idle \<or> (\<exists>s. rc_phase (snd (cancel_playback_request ps c)) = Failed s)"
proof (cases "rc_resolve_fallback c")
  case None
  then show ?thesis using assms by (simp add: cancel_playback_request_def Let_def)
next
  case (Some f)
  then show ?thesis using assms by (cases f) (simp_all add: cancel_playback_request_def Let_def)
qed

lemma rollback_prepares:
  assumes "rc_phase c = OriginalTrial (TFailed s)" "rc_pending_original c \<noteq> None"
  obtains ps' d where "run_op Rollback_trial (ps, c) = Some (ps', d)"
    "rc_phase d = Prepared (next_generation (rc_next_action c))"
    "rc_next_start_attempt d = rc_next_start_attempt c"
  using assms by (auto simp: rollback_original_recovery_def trial_serial_def Let_def
      install_active_encoder_def install_active_hls_def split: option.splits prod.splits transcode_delivery.splits)

text \<open>
  C4. No phase is latched: from every reachable state that has an attempt left, at most five operations that
  only complete what is under way, ending in a native load that starts, bring the owner back to Stable.
  None of them is an edit or a request of the viewer.
\<close>

theorem no_phase_is_latched:
  assumes "run_ops xs (ps0, player_control_init) = Some (ps, c)" and "rc_next_start_attempt c \<noteq> - 1"
  shows "(\<exists>t. run_ops (way_home c (rc_phase c)) (ps, c) = Some t \<and> rc_phase (snd t) = Stable)
    \<and> length (way_home c (rc_phase c)) \<le> 5"
proof (rule conjI)
  have inv: "route_inv c" using reachable_route_inv [OF assms(1)] by simp
  show "length (way_home c (rc_phase c)) \<le> 5"
    by (cases "rc_phase c" rule: phase_serial.cases) (simp_all add: start_ops_def restart_ops_def)
  show "\<exists>t. run_ops (way_home c (rc_phase c)) (ps, c) = Some t \<and> rc_phase (snd t) = Stable"
  proof (cases "rc_phase c")
    case Idle
    then show ?thesis using restart_ops_settle [of c c ps] assms(2) by simp
  next
    case Resolving
    show ?thesis
    proof (cases "rc_resolve_fallback c = Some FallStable")
      case True
      then show ?thesis using Resolving by (simp add: cancel_playback_request_def Let_def)
    next
      case False
      obtain ps' d where d: "cancel_playback_request ps c = (ps', d)" by fastforce
      have phase: "rc_phase d = Idle \<or> (\<exists>s. rc_phase d = Failed s)"
        using cancel_phase [OF Resolving False, of ps] by (simp only: d snd_conv)
      have same: "rc_next_start_attempt d = rc_next_start_attempt c" "rc_next_action d = rc_next_action c"
        using cancel_counts [of ps c] by (simp_all only: d snd_conv)
      have "rc_next_start_attempt d \<noteq> - 1" unfolding same by (rule assms(2))
      from restart_ops_settle [OF phase this same [symmetric], of ps']
      obtain t where "run_ops (restart_ops c) (ps', d) = Some t" "rc_phase (snd t) = Stable" by blast
      then show ?thesis using Resolving False d by simp
    qed
  next
    case Stable
    then show ?thesis by simp
  next
    case (StagingUser s)
    then show ?thesis by (simp add: user_edit_drop_def)
  next
    case (Applying s)
    then show ?thesis by (simp add: finish_route_action_def)
  next
    case (Preparing s)
    then show ?thesis by (simp add: reject_route_start_preparation_def drop_start_deferred_def)
  next
    case (Prepared s)
    then show ?thesis using start_ops_settle [of c s c ps] assms(2) by simp
  next
    case (Starting s a)
    then show ?thesis by (simp add: settle_begin_def complete_finish_def Let_def)
  next
    case (Completing s)
    then show ?thesis by (simp add: complete_finish_def)
  next
    case (OriginalTrial phase)
    then obtain p where p: "rc_pending_original c = Some p"
      using inv by (cases phase) (auto simp: route_inv_def trial_serial_def)
    show ?thesis
    proof (cases phase)
      case (TPrepared s)
      then show ?thesis using OriginalTrial p assms(2)
        by (simp add: claim_route_start_attempt_def settle_begin_def confirm_begin_def complete_finish_def Let_def)
    next
      case (TStarting s a)
      then show ?thesis using OriginalTrial p
        by (simp add: settle_begin_def confirm_begin_def complete_finish_def Let_def)
    next
      case (TAwaitingFrame s)
      then show ?thesis using OriginalTrial p by (simp add: confirm_begin_def complete_finish_def Let_def)
    next
      case (TFailed s)
      then have failed: "rc_phase c = OriginalTrial (TFailed s)" "rc_pending_original c \<noteq> None"
        using OriginalTrial p by simp_all
      from rollback_prepares [OF failed, of ps] obtain ps' d where d:
        "run_op Rollback_trial (ps, c) = Some (ps', d)"
        "rc_phase d = Prepared (next_generation (rc_next_action c))"
        "rc_next_start_attempt d = rc_next_start_attempt c" .
      have "rc_next_start_attempt d \<noteq> - 1" unfolding d(3) by (rule assms(2))
      from start_ops_settle [OF d(2) this d(3) [symmetric], of ps']
      obtain t where "run_ops (start_ops c (next_generation (rc_next_action c))) (ps', d) = Some t"
        "rc_phase (snd t) = Stable" by blast
      then show ?thesis using d(1) by (simp add: failed)
    qed
  next
    case (Failed s)
    then show ?thesis using restart_ops_settle [of c c ps] assms(2) by simp
  next
    case Stopping
    have "\<exists>t. run_ops (restart_ops c) (ps, c\<lparr>rc_phase := Idle\<rparr>) = Some t \<and> rc_phase (snd t) = Stable"
      by (rule restart_ops_settle) (simp_all add: assms(2))
    then show ?thesis using Stopping by (simp add: finish_engine_teardown_def)
  qed
qed

theorem no_phase_is_latched_witness:
  "\<exists>t. run_ops (way_home (stop_playback player_control_init) (rc_phase (stop_playback player_control_init)))
     (idle_session, stop_playback player_control_init) = Some t \<and> rc_phase (snd t) = Stable"
  by (rule no_phase_is_latched [where xs = "[Stop]", THEN conjunct1])
    (simp_all add: stop_playback_def drop_original_recovery_def begin_engine_teardown_def player_control_init_def)

end
