(* ===== verification/Handoff_Correct.thy ===== *)
theory Handoff_Correct
  imports Handoff Route_Runs
begin

text \<open>
  What the handoffs guarantee: who may recover the original and what a failed recovery gives back, what a
  seek or a rebuild leaves when it is refused, and when an audio enhancement reaches a contract.
\<close>

section \<open>The trial of the original\<close>

fun sets_trial :: "route_op \<Rightarrow> bool" where
  "sets_trial (Set_pending _ _) = True"
| "sets_trial _ = False"

text \<open>The way back of a trial is what its rollback restores.\<close>

definition way_back ::
    "pending_original \<Rightarrow> u64 \<times> playback_quality \<times> route_projection option \<times> route_projection \<times> string \<times> int" where
  "way_back p = (po_previous_applied_revision p, po_previous_applied_quality p, po_previous_applied_projection p,
     po_previous p, po_encoder p, po_offset_secs p)"

definition same_way_back :: "pending_original option \<Rightarrow> pending_original option \<Rightarrow> bool" where
  "same_way_back a b \<longleftrightarrow> b = None \<or> map_option way_back b = map_option way_back a"

lemma run_op_way_back:
  "\<not> sets_trial op \<Longrightarrow>
   pred_option (\<lambda>t. same_way_back (rc_pending_original c) (rc_pending_original (snd t))) (run_op op (ps, c))"
  by (cases "rc_pending_original c";
      cases "(op, (ps, c))" rule: run_op.cases)
    (simp_all add: route_ops same_way_back_def way_back_def Let_def option.pred_inject
      split: if_splits option.splits resolve_fallback.splits route_intent.splits
        control_phase.splits trial_phase.splits)

lemma same_way_back_trans: "same_way_back a b \<Longrightarrow> same_way_back b c \<Longrightarrow> same_way_back a c"
  by (auto simp: same_way_back_def)

lemma run_ops_way_back:
  assumes "run_ops ops s = Some t" "list_all (\<lambda>op. \<not> sets_trial op) ops"
  shows "same_way_back (rc_pending_original (snd s)) (rc_pending_original (snd t))"
  using assms
proof (induction ops arbitrary: s)
  case Nil
  then show ?case by (simp add: same_way_back_def)
next
  case (Cons op ops)
  then obtain u where u: "run_op op s = Some u" "run_ops ops u = Some t" by (auto split: option.splits)
  have "same_way_back (rc_pending_original (snd s)) (rc_pending_original (snd u))"
    using run_op_way_back [of op "snd s" "fst s"] Cons.prems(2) u(1) by simp
  then show ?case using Cons.IH [OF u(2)] Cons.prems(2) same_way_back_trans by simp
qed

text \<open>What reading the live HLS route into the session and the applied projection leaves alone.\<close>

lemma sync_keeps:
  assumes "sync_active_hls_to_session ps c = ((ps', c'), live)"
  shows "rc_active c' = rc_active c" "worker_ticket_of c' = worker_ticket_of c" "rc_phase c' = rc_phase c"
    "rc_pending_original c' = rc_pending_original c" "rc_next_action c' = rc_next_action c"
    "rc_applied_revision c' = rc_applied_revision c" "rc_applied_quality c' = rc_applied_quality c"
    "rc_next_start_attempt c' = rc_next_start_attempt c"
    "rp_auto_original ps' = rp_auto_original ps" "live = active_hls_route c"
    "ps_rk ps' = ps_rk ps" "ps_sid ps' = ps_sid ps" "ps_request_part ps' = ps_request_part ps"
    "rc_resolve_fallback c' = rc_resolve_fallback c" "rc_start_deferred c' = rc_start_deferred c"
    "rc_last_start_result c' = rc_last_start_result c" "rc_engine_epoch c' = rc_engine_epoch c"
    "rc_media_epoch c' = rc_media_epoch c"
  using assms
  by (auto simp: sync_active_hls_to_session_def active_hls_route_def worker_ticket_of_def lease_of_def Let_def
      split: option.splits)

lemma sync_session:
  assumes "sync_active_hls_to_session ps c = ((ps', c'), Some (ticket, h))"
  shows "rp_url ps' = ah_url h" "rp_tsession ps' = ae_id (rc_active c)"
    "ec_ceiling (rp_contract ps') = Some (rung_ceiling (ah_rung h))"
    "ec_delivery (rp_contract ps') = ec_delivery (rp_contract ps)"
  using assms
  by (auto simp: sync_active_hls_to_session_def worker_ticket_of_def lease_of_def Let_def split: option.splits)

lemma set_pending_facts:
  "\<exists>serial. rc_phase (set_pending_original ps p automatic c) = OriginalTrial (TPrepared serial)"
  "rc_active (set_pending_original ps p automatic c) = rc_active c"
  "map_option way_back (rc_pending_original (set_pending_original ps p automatic c)) =
     Some (rc_applied_revision c, rc_applied_quality c, rc_applied_projection c, po_previous p, po_encoder p, po_offset_secs p)"
  by (simp_all add: set_pending_original_def way_back_def Let_def split: control_phase.split)

lemma recover_original_direct_success:
  assumes "recover_original_direct cand ticket p watched cause outcome (ps, c) = ((ps', c'), True)"
  shows "ticket_is_current c ticket" "\<exists>serial. rc_phase c' = OriginalTrial (TPrepared serial)"
    "ae_id (rc_active c') = rl_encoder (wt_route ticket)" "ae_hls (rc_active c') = None"
    "ae_epoch (rc_active c') = next_generation (ae_epoch (rc_active c))"
    "rp_url ps' = ac_url cand" "rp_tsession ps' = []"
    "map_option way_back (rc_pending_original c') =
       Some (rc_applied_revision c, rc_applied_quality c, rc_applied_projection c, po_previous p, po_encoder p, po_offset_secs p)"
proof -
  show current: "ticket_is_current c ticket"
    using assms by (auto simp: recover_original_direct_def replace_active_encoder_for_def split: if_splits)
  let ?c = "c\<lparr>rc_active := (advance_route (rc_active c))\<lparr>ae_id := rl_encoder (wt_route ticket), ae_hls := None\<rparr>\<rparr>"
  have c': "c' = set_pending_original ps' p (cause = Automatic) ?c"
    and ps': "rp_url ps' = ac_url cand" "rp_tsession ps' = []"
    using assms current by (auto simp: recover_original_direct_def replace_active_encoder_for_def Let_def)
  show "rp_url ps' = ac_url cand" "rp_tsession ps' = []" by (fact ps')+
  show "\<exists>serial. rc_phase c' = OriginalTrial (TPrepared serial)" unfolding c' by (rule set_pending_facts)
  show "ae_id (rc_active c') = rl_encoder (wt_route ticket)" "ae_hls (rc_active c') = None"
    "ae_epoch (rc_active c') = next_generation (ae_epoch (rc_active c))"
    "map_option way_back (rc_pending_original c') =
       Some (rc_applied_revision c, rc_applied_quality c, rc_applied_projection c, po_previous p, po_encoder p, po_offset_secs p)"
    unfolding c' by (simp_all add: set_pending_facts advance_route_def)
qed

lemma recover_success:
  assumes "recover_auto_to_original_for v ticket off cause (ps, c) = ((ps1, c1), True)"
  obtains cand ps0 c0 live where
    "\<not> ps_forced_direct ps" "rc_pending_original c = None" "contract_allows cause c" "is_transcoding ps"
    "rp_auto_original ps = Some cand" "recovery_flavour cand (recovery_want v ps cand) = FlavourDirect"
    "ticket_is_current c ticket" "sync_active_hls_to_session ps c = ((ps0, c0), live)"
    "rl_encoder (wt_route ticket) \<noteq> []"
    "\<exists>watched. recover_original_direct cand ticket (snapshot_route ps0 (rl_encoder (wt_route ticket)) off)
       watched cause EnhancementOff (ps0, c0) = ((ps1, c1), True)"
  using assms
  by (auto simp: recover_auto_to_original_for_def original_recovery_pending_def Let_def
      split: if_splits option.splits prod.splits recovery_flavour.splits)

definition restored_hls :: "route_projection \<Rightarrow> rung option" where
  "restored_hls p =
     (case (ec_delivery (rp_contract p), case ec_ceiling (rp_contract p) of None \<Rightarrow> None | Some ceil \<Rightarrow> from_ceiling ceil) of
        (FixedHls _, Some rung) \<Rightarrow> Some rung | _ \<Rightarrow> None)"

lemma projection_update:
  "route_projection ((install_route_projection q ps)\<lparr>rp_subtitle_sid := a, rp_auto_original := b\<rparr>)
     = q\<lparr>rp_subtitle_sid := a, rp_auto_original := b\<rparr>"
  by (cases q; cases ps) (simp add: install_route_projection_def route_projection_def route_projection.defs)

lemma rollback_success:
  assumes "rollback_original_recovery ps c = ((ps', c'), Some pos)"
  obtains p where "rc_pending_original c = Some p" "rc_pending_original c' = None"
    "rc_phase c' = Prepared (rc_next_action c')" "rc_next_action c' = next_generation (rc_next_action c)"
    "rc_applied_revision c' = po_previous_applied_revision p" "rc_applied_quality c' = po_previous_applied_quality p"
    "rc_applied_projection c' = po_previous_applied_projection p" "ae_id (rc_active c') = po_encoder p"
    "ae_hls (rc_active c') = map_option (\<lambda>r. \<lparr>ah_url = rp_url (po_previous p), ah_rung = r, ah_observed = None\<rparr>)
       (restored_hls (po_previous p))"
    "route_projection ps' = (po_previous p)\<lparr>rp_subtitle_sid := rp_subtitle_sid ps, rp_auto_original := rp_auto_original ps\<rparr>"
    "pos = wrap_i64_product (max 0 (po_offset_secs p)) 1000000000"
    "rc_start_deferred c' = (if effects_empty (effects_from_pending p) then None
       else Some (rc_next_action c', effects_from_pending p))"
    "rc_next_start_attempt c' = rc_next_start_attempt c"
proof -
  obtain p serial where p: "rc_pending_original c = Some p" "trial_serial (rc_phase c) = Some serial"
    using assms by (cases "trial_serial (rc_phase c)"; cases "rc_pending_original c")
      (simp_all add: rollback_original_recovery_def)
  show thesis
    by (rule that [OF p(1)]; cases "restored_hls (po_previous p)")
      (use assms p in \<open>auto simp: rollback_original_recovery_def restored_hls_def Let_def projection_update
          install_active_hls_def install_active_encoder_def\<close>)
qed

lemma recover_leaves_trial:
  assumes "recover_auto_to_original_for v ticket off cause (ps, c) = ((ps1, c1), True)"
  obtains p serial where "rc_pending_original c1 = Some p" "rc_phase c1 = OriginalTrial (TPrepared serial)"
proof (rule recover_success [OF assms])
  fix cand ps0 c0 live
  assume "\<exists>watched. recover_original_direct cand ticket (snapshot_route ps0 (rl_encoder (wt_route ticket)) off)
       watched cause EnhancementOff (ps0, c0) = ((ps1, c1), True)"
  then obtain watched where direct: "recover_original_direct cand ticket
      (snapshot_route ps0 (rl_encoder (wt_route ticket)) off) watched cause EnhancementOff (ps0, c0) = ((ps1, c1), True)" ..
  show thesis
    using recover_original_direct_success(2,8) [OF direct] that by auto
qed

lemma trial_rolls_back:
  assumes "rc_pending_original c = Some p" "rc_phase c = OriginalTrial (TPrepared serial)"
  shows "\<exists>ps' c' pos. rollback_original_recovery ps c = ((ps', c'), Some pos)"
  by (simp add: rollback_original_recovery_def trial_serial_def assms Let_def)

text \<open>A session on an HLS rung of the ladder, its candidate, and the viewer who asks for the original.\<close>

definition example_candidate :: auto_original_candidate where
  "example_candidate =
     \<lparr>ac_url = ''u'', ac_probe_part = [], ac_direct = True, ac_vcodec = ''hevc'',
      ac_video = \<lparr>sv_fps = 0, sv_dovi = dovi_none, sv_decision = dv_decision_none\<rparr>, ac_audio = None,
      ac_subtitle_ordinal = None\<rparr>"

definition example_session :: playback_session where
  "example_session = idle_session\<lparr>rp_tsession := ''e'', rp_auto_original := Some example_candidate,
     rp_contract := (contract_original False no_enhancements)\<lparr>ec_delivery := FixedHls 2\<rparr>\<rparr>"

definition example_control :: player_control where
  "example_control = player_control_init\<lparr>rc_active := \<lparr>ae_epoch = 1, ae_id = ''e'',
     ae_hls = Some \<lparr>ah_url = ''v'', ah_rung = rung.P480, ah_observed = None\<rparr>\<rparr>\<rparr>"

definition example_viewer :: viewer where
  "example_viewer = \<lparr>vw_quality = QAuto, vw_preference = \<lparr>ae_boost_dialog = True, ae_normalize_loudness = False\<rparr>,
     vw_subscribed = True, vw_audio_direct_plays = (\<lambda>_ _. True),
     vw_catalog = \<lparr>cat_candidates = [], raster_limit = (0, 0), cat_source = (0, 0)\<rparr>\<rparr>"

lemmas example_defs = example_candidate_def example_session_def example_control_def example_viewer_def
  idle_session_def player_control_init_def contract_original_def no_enhancements_def

lemma example_recovery:
  "\<exists>ps1 c1. recover_auto_to_original_for example_viewer (worker_ticket_of example_control) 7 ManualOriginal
     (example_session, example_control) = ((ps1, c1), True)"
  by (simp add: example_defs recover_auto_to_original_for_def original_recovery_pending_def contract_allows_def
      is_transcoding_def recovery_flavour_def recovery_want_def enhancements_offered_def facts_of_def
      desired_audio_def enhancements_any_def ticket_is_current_def sync_active_hls_to_session_def
      worker_ticket_of_def lease_of_def recover_original_direct_def replace_active_encoder_for_def Let_def)

text \<open>
  C7. A failed trial gives the whole route back. Whatever happens between the recovery of the original and
  its rollback, as long as no second trial is begun: the applied contract is the one before the trial,
  the encoder is the held one under a new epoch, an HLS route declares its address and rung again, the
  session carries the projection from before but for the subtitle and the candidate the viewer may have
  changed meanwhile, nothing of the trial stays pending, and the route waits for its start.
\<close>

theorem failed_trial_restores_the_route:
  assumes "recover_auto_to_original_for v ticket off cause (ps, c) = ((ps1, c1), True)"
    and "sync_active_hls_to_session ps c = ((ps0, c0), live)"
    and "run_ops ops (ps1, c1) = Some (ps2, c2)" and "list_all (\<lambda>op. \<not> sets_trial op) ops"
    and "rollback_original_recovery ps2 c2 = ((ps3, c3), Some pos)"
  shows "rc_applied_revision c3 = rc_applied_revision c \<and> rc_applied_quality c3 = rc_applied_quality c
    \<and> rc_applied_projection c3 = rc_applied_projection c0
    \<and> ae_id (rc_active c3) = ae_id (rc_active c)
    \<and> (ae_hls (rc_active c) = Some h \<longrightarrow> ec_delivery (rp_contract ps) = FixedHls n \<longrightarrow>
           ae_hls (rc_active c3) = Some (h\<lparr>ah_observed := None\<rparr>) \<and> rp_url ps3 = ah_url h)
    \<and> route_projection ps3 = (route_projection ps0)
           \<lparr>rp_subtitle_sid := rp_subtitle_sid ps2, rp_auto_original := rp_auto_original ps2\<rparr>
    \<and> rc_pending_original c3 = None \<and> rc_phase c3 = Prepared (rc_next_action c3)
    \<and> pos = wrap_i64_product (max 0 off) 1000000000"
proof -
  let ?p = "snapshot_route ps0 (rl_encoder (wt_route ticket)) off"
  obtain cand watched where current: "ticket_is_current c ticket"
    and direct: "recover_original_direct cand ticket ?p watched cause EnhancementOff (ps0, c0) = ((ps1, c1), True)"
    using recover_success [OF assms(1)] assms(2) by (metis (no_types, lifting) Pair_inject)
  note sync = sync_keeps [OF assms(2)]
  have back1: "map_option way_back (rc_pending_original c1) =
      Some (rc_applied_revision c, rc_applied_quality c, rc_applied_projection c0, route_projection ps0,
        rl_encoder (wt_route ticket), off)"
    using recover_original_direct_success(8) [OF direct] by (simp add: sync snapshot_route_def)
  from rollback_success [OF assms(5)] obtain p where p: "rc_pending_original c2 = Some p"
    "rc_pending_original c3 = None" "rc_phase c3 = Prepared (rc_next_action c3)"
    "rc_applied_revision c3 = po_previous_applied_revision p" "rc_applied_quality c3 = po_previous_applied_quality p"
    "rc_applied_projection c3 = po_previous_applied_projection p" "ae_id (rc_active c3) = po_encoder p"
    "ae_hls (rc_active c3) = map_option (\<lambda>r. \<lparr>ah_url = rp_url (po_previous p), ah_rung = r, ah_observed = None\<rparr>)
       (restored_hls (po_previous p))"
    "route_projection ps3 = (po_previous p)\<lparr>rp_subtitle_sid := rp_subtitle_sid ps2, rp_auto_original := rp_auto_original ps2\<rparr>"
    "pos = wrap_i64_product (max 0 (po_offset_secs p)) 1000000000" .
  have "way_back p = (rc_applied_revision c, rc_applied_quality c, rc_applied_projection c0, route_projection ps0,
      rl_encoder (wt_route ticket), off)"
    using run_ops_way_back [OF assms(3,4)] back1 p(1) by (simp add: same_way_back_def)
  then have way: "po_previous_applied_revision p = rc_applied_revision c"
    "po_previous_applied_quality p = rc_applied_quality c" "po_previous_applied_projection p = rc_applied_projection c0"
    "po_previous p = route_projection ps0" "po_encoder p = rl_encoder (wt_route ticket)" "po_offset_secs p = off"
    by (simp_all add: way_back_def)
  have same: "rc_applied_revision c3 = rc_applied_revision c" "rc_applied_quality c3 = rc_applied_quality c"
    "rc_applied_projection c3 = rc_applied_projection c0"
    "rc_pending_original c3 = None \<and> rc_phase c3 = Prepared (rc_next_action c3)"
    "pos = wrap_i64_product (max 0 off) 1000000000"
    "route_projection ps3 = (route_projection ps0)
       \<lparr>rp_subtitle_sid := rp_subtitle_sid ps2, rp_auto_original := rp_auto_original ps2\<rparr>"
    using p way by simp_all
  have id: "ae_id (rc_active c3) = ae_id (rc_active c)"
    using p(7) way(5) current by (simp add: ticket_is_current_def worker_ticket_of_def lease_of_def)
  have hls: "ae_hls (rc_active c3) = Some (h\<lparr>ah_observed := None\<rparr>) \<and> rp_url ps3 = ah_url h"
    if "ae_hls (rc_active c) = Some h" "ec_delivery (rp_contract ps) = FixedHls n"
  proof -
    have "live = Some (worker_ticket_of c, h)" using sync(10) that(1) by (simp add: active_hls_route_def)
    note session = sync_session [OF assms(2) [unfolded this]]
    have "rp_url ps3 = rp_url (route_projection ps3)" by (simp add: route_projection_def route_projection.defs)
    then show ?thesis
      using p(8,9) way(4) session that(2)
      by (simp add: restored_hls_def route_projection_def route_projection.defs)
  qed
  from same id hls show ?thesis by blast
qed

theorem failed_trial_restores_the_route_witness:
  "\<exists>ps1 c1 ps3 c3 pos.
     recover_auto_to_original_for example_viewer (worker_ticket_of example_control) 7 ManualOriginal
       (example_session, example_control) = ((ps1, c1), True)
     \<and> rollback_original_recovery ps1 c1 = ((ps3, c3), Some pos)
     \<and> ae_hls (rc_active c3) = Some \<lparr>ah_url = ''v'', ah_rung = rung.P480, ah_observed = None\<rparr> \<and> rp_url ps3 = ''v''"
proof -
  obtain ps1 c1 where rec: "recover_auto_to_original_for example_viewer (worker_ticket_of example_control) 7
      ManualOriginal (example_session, example_control) = ((ps1, c1), True)"
    using example_recovery by blast
  obtain ps0 c0 live where sync: "sync_active_hls_to_session example_session example_control = ((ps0, c0), live)"
    by (metis surj_pair)
  obtain ps3 c3 pos where rolled: "rollback_original_recovery ps1 c1 = ((ps3, c3), Some pos)"
    using recover_leaves_trial [OF rec] trial_rolls_back by metis
  have "run_ops [] (ps1, c1) = Some (ps1, c1)" by simp
  from failed_trial_restores_the_route [OF rec sync this _ rolled]
  have "ae_hls (rc_active c3) = Some \<lparr>ah_url = ''v'', ah_rung = rung.P480, ah_observed = None\<rparr> \<and> rp_url ps3 = ''v''"
    by (simp add: example_defs)
  with rec rolled show ?thesis by blast
qed

text \<open>
  C12. The original is recovered only with authority: the ticket is current, no other trial is pending, direct
  play is not forced, the cause allows the contract, the playback is a transcode and the candidate plays
  directly without an enhancement wanted. Then the worker's ticket is dead, the held encoder is kept
  without its HLS route, and the session plays the candidate's address outside any transcode.
\<close>

theorem recovery_is_authorised:
  assumes "recover_auto_to_original_for v ticket off cause (ps, c) = ((ps1, c1), True)"
  shows "ticket_is_current c ticket \<and> rc_pending_original c = None \<and> \<not> ps_forced_direct ps
    \<and> contract_allows cause c \<and> is_transcoding ps
    \<and> (\<exists>cand. rp_auto_original ps = Some cand \<and> ac_direct cand \<and> rp_url ps1 = ac_url cand \<and>
           \<not> enhancements_any (recovery_want v ps cand))
    \<and> \<not> is_transcoding ps1 \<and> original_recovery_pending c1
    \<and> \<not> ticket_is_current c1 ticket \<and> ae_id (rc_active c1) = ae_id (rc_active c)
    \<and> ae_hls (rc_active c1) = None"
proof (intro conjI)
  obtain cand ps0 c0 live watched where
    ok: "\<not> ps_forced_direct ps" "rc_pending_original c = None" "contract_allows cause c" "is_transcoding ps"
    "rp_auto_original ps = Some cand" "recovery_flavour cand (recovery_want v ps cand) = FlavourDirect"
    "ticket_is_current c ticket" and sync: "sync_active_hls_to_session ps c = ((ps0, c0), live)"
    and direct: "recover_original_direct cand ticket (snapshot_route ps0 (rl_encoder (wt_route ticket)) off)
       watched cause EnhancementOff (ps0, c0) = ((ps1, c1), True)"
    using recover_success [OF assms] by metis
  note kept = sync_keeps [OF sync] and rec = recover_original_direct_success [OF direct]
  show "ticket_is_current c ticket" "rc_pending_original c = None" "\<not> ps_forced_direct ps"
    "contract_allows cause c" "is_transcoding ps" by (fact ok)+
  have "ac_direct cand" "\<not> enhancements_any (recovery_want v ps cand)"
    using ok(6) by (auto simp: recovery_flavour_def split: if_splits)
  then show "\<exists>cand. rp_auto_original ps = Some cand \<and> ac_direct cand \<and> rp_url ps1 = ac_url cand \<and>
      \<not> enhancements_any (recovery_want v ps cand)"
    using ok(5) rec(6) by blast
  show "\<not> is_transcoding ps1" using rec(7) by (simp add: is_transcoding_def)
  show "original_recovery_pending c1" using rec(8) by (auto simp: original_recovery_pending_def)
  have epoch: "rl_epoch (wt_route ticket) = ae_epoch (rc_active c)" and id: "rl_encoder (wt_route ticket) = ae_id (rc_active c)"
    using ok(7) by (simp_all add: ticket_is_current_def worker_ticket_of_def lease_of_def)
  show "ae_id (rc_active c1) = ae_id (rc_active c)" "ae_hls (rc_active c1) = None" using rec(3,4) id by simp_all
  show "\<not> ticket_is_current c1 ticket"
    using rec(5) kept(1) epoch generations_distinct [of 1 "ae_epoch (rc_active c)"]
    by (auto simp: ticket_is_current_def worker_ticket_of_def lease_of_def)
qed

theorem recovery_is_authorised_witness:
  "\<exists>ps1 c1. recover_auto_to_original_for example_viewer (worker_ticket_of example_control) 7 ManualOriginal
     (example_session, example_control) = ((ps1, c1), True) \<and> \<not> is_transcoding ps1"
  using example_recovery recovery_is_authorised by blast

section \<open>Enhancements reach a contract only where they are offered\<close>

lemma want_live_any:
  assumes "enhancements_any (want_live v ps)"
  shows "enhancement_quality v" "audio_enhancements_offered_live v ps" "want_live v ps = vw_preference v"
  using assms by (auto simp: want_live_def desired_audio_def no_enhancements_def enhancements_any_def split: if_splits)

text \<open>
  C14. An audio enhancement only reaches the contract of a rebuild under Auto or Original, on a server with a
  definite subscription, for a carried track that can be normalized, with no subtitle on screen and no
  Dolby Vision declared or needed, on a direct or remuxed route; it is then exactly the viewer's
  preference, uncapped, and differs from what is applied. Applying it settles the question.
\<close>

theorem enhancement_never_leaks:
  assumes "enhancement_step v ps = StepRemux k" and "enhancements_any (ec_audio k)"
  shows "(vw_quality v = QAuto \<or> vw_quality v = QOriginal) \<and> vw_subscribed v
    \<and> (\<exists>a. rp_audio ps = Some a \<and> ca_can_normalize_loudness a) \<and> rp_subtitle_sid ps = 0
    \<and> rp_enhancement ps \<noteq> EnhancementRefused
    \<and> (\<exists>b. rp_auto_original ps = Some b \<and> dv_declared (dd_presentation (sv_decision (ac_video b))) = None
           \<and> \<not> base_layer_unusable (sv_dovi (ac_video b)))
    \<and> live_family ps \<noteq> FamilyOther
    \<and> k = enhanced_remux_contract (vw_preference v) \<and> ec_audio k \<noteq> ec_audio (rp_contract ps)
    \<and> enhancement_step v (ps\<lparr>rp_contract := k, rp_tsession := session\<rparr>) = NotInvolved"
proof (intro conjI)
  have none: "\<not> enhancements_any no_enhancements" by (simp add: enhancements_any_def no_enhancements_def)
  have want: "enhancements_any (want_live v ps)" "want_live v ps \<noteq> ec_audio (rp_contract ps)"
    and k: "k = enhanced_remux_contract (want_live v ps)"
    using assms none
    by (auto simp: enhancement_step_def enhanced_remux_contract_def Let_def split: if_splits option.splits)
  note any = want_live_any [OF want(1)]
  show "vw_quality v = QAuto \<or> vw_quality v = QOriginal" using any(1) by (simp add: enhancement_quality_def)
  show "vw_subscribed v" "\<exists>a. rp_audio ps = Some a \<and> ca_can_normalize_loudness a" "rp_subtitle_sid ps = 0"
    "rp_enhancement ps \<noteq> EnhancementRefused" "live_family ps \<noteq> FamilyOther"
    "\<exists>b. rp_auto_original ps = Some b \<and> dv_declared (dd_presentation (sv_decision (ac_video b))) = None
       \<and> \<not> base_layer_unusable (sv_dovi (ac_video b))"
    using any(2)
    by (auto simp: audio_enhancements_offered_live_def enhancements_offered_def facts_of_def split: option.splits)
  show "k = enhanced_remux_contract (vw_preference v)" using k any(3) by simp
  show "ec_audio k \<noteq> ec_audio (rp_contract ps)" using k want(2) by (simp add: enhanced_remux_contract_def)
  let ?ps = "ps\<lparr>rp_contract := k, rp_tsession := session\<rparr>"
  have "facts_of v ?ps = facts_of v ps" by (simp add: facts_of_def)
  moreover have "live_family ?ps \<noteq> FamilyOther"
    by (simp add: live_family_def is_transcoding_def k enhanced_remux_contract_def)
  ultimately have "audio_enhancements_offered_live v ?ps"
    using any(2) by (simp add: audio_enhancements_offered_live_def enhancements_offered_def)
  then have "want_live v ?ps = want_live v ps" using any by (simp add: want_live_def desired_audio_def)
  then show "enhancement_step v ?ps = NotInvolved"
    using want(1) any(1) by (simp add: enhancement_step_def k enhanced_remux_contract_def Let_def)
qed

theorem enhancement_never_leaks_witness:
  "enhancement_step example_viewer
     (idle_session\<lparr>rp_auto_original := Some example_candidate,
        rp_audio := Some ((named_audio 1 0)\<lparr>ca_can_normalize_loudness := True\<rparr>)\<rparr>)
     = StepRemux (enhanced_remux_contract (vw_preference example_viewer)) \<and> vw_subscribed example_viewer"
proof -
  let ?k = "enhanced_remux_contract (vw_preference example_viewer)"
  have step: "enhancement_step example_viewer
     (idle_session\<lparr>rp_auto_original := Some example_candidate,
        rp_audio := Some ((named_audio 1 0)\<lparr>ca_can_normalize_loudness := True\<rparr>)\<rparr>) = StepRemux ?k"
    by (simp add: example_defs enhancement_step_def enhancement_quality_def want_live_def named_audio_def
        audio_enhancements_offered_live_def enhancements_offered_def facts_of_def live_family_def is_transcoding_def
        desired_audio_def enhancements_any_def dovi_none_def dv_decision_none_def base_layer_unusable_def dv_declared_def
        Let_def)
  moreover have "enhancements_any (ec_audio ?k)"
    by (simp add: enhanced_remux_contract_def enhancements_any_def example_viewer_def)
  ultimately show ?thesis using enhancement_never_leaks by blast
qed

end
