(* ===== verification/Start_Correct.thy ===== *)
theory Start_Correct
  imports Start Handoff_Correct
begin

text \<open>
  What the player guarantees of seeks, starts, reloads and claims: a seek of a transcode happens as a
  whole or not at all, a reload leaves no start reserved, and the pump never leaves a claim half done.
\<close>

section \<open>The phases of a start\<close>

lemma begin_route_start_pending: "begin_route_start c = (c', Some s) \<Longrightarrow> pending_route_start c' = Some s"
  by (cases "rc_phase c" rule: phase_serial.cases) (auto simp: begin_route_start_def pending_route_start_def Let_def)

lemma begin_route_start_none: "begin_route_start c = (c', None) \<Longrightarrow> c' = c \<and> pending_route_start c = None"
  by (cases "rc_phase c" rule: phase_serial.cases) (auto simp: begin_route_start_def pending_route_start_def Let_def)

lemma prepare_route_start_pending:
  "pending_route_start c = Some s \<Longrightarrow> prepare_route_start s c =
     (if rc_phase c = Preparing s then c\<lparr>rc_phase := Prepared s\<rparr> else c, True)"
  by (cases "rc_phase c" rule: phase_serial.cases) (auto simp: prepare_route_start_def pending_route_start_def)

lemma begin_route_start_keeps:
  assumes "begin_route_start c = (c', r)"
  shows "rc_active c' = rc_active c" "worker_ticket_of c' = worker_ticket_of c"
    "rc_pending_original c' = rc_pending_original c" "rc_next_start_attempt c' = rc_next_start_attempt c"
    "rc_applied_projection c' = rc_applied_projection c"
  using assms by (cases "rc_phase c" rule: phase_serial.cases;
      auto simp: begin_route_start_def worker_ticket_of_def lease_of_def Let_def)+

lemma reject_preparation_keeps:
  "rc_active (reject_preparation r c) = rc_active c"
  "worker_ticket_of (reject_preparation r c) = worker_ticket_of c"
  "rc_pending_original (reject_preparation r c) = rc_pending_original c"
  "rc_next_start_attempt (reject_preparation r c) = rc_next_start_attempt c"
  by (auto simp: reject_preparation_def reject_route_start_preparation_def drop_start_deferred_def
      worker_ticket_of_def lease_of_def split: option.splits)

lemma replace_for_keeps:
  assumes "replace_active_hls_for t e h c = (c', Some w) \<or> replace_active_encoder_for t e c = (c', Some w)"
  shows "rc_phase c' = rc_phase c" "rc_pending_original c' = rc_pending_original c"
    "rc_next_start_attempt c' = rc_next_start_attempt c" "ae_epoch (rc_active c') = next_generation (ae_epoch (rc_active c))"
    "ae_id (rc_active c') = e" "ticket_is_current c t" "w = worker_ticket_of c'"
  using assms by (auto simp: replace_active_hls_for_def replace_active_encoder_for_def advance_route_def Let_def
      split: if_splits)

section \<open>A seek of a transcode\<close>

text \<open>What a seek that goes through has done, and what a refused one leaves.\<close>

definition seek_published ::
    "playback_session \<Rightarrow> player_control \<Rightarrow> string \<Rightarrow> playback_session \<Rightarrow> player_control \<Rightarrow> bool" where
  "seek_published ps0 c0 url ps' c' \<longleftrightarrow>
     (\<exists>e hls. ps' = ps0\<lparr>rp_tsession := e, rp_url := url\<rparr> \<and> (hls = None \<longleftrightarrow> ae_hls (rc_active c0) = None)
       \<and> (\<forall>h. hls = Some h \<longrightarrow> ah_url h = url)
       \<and> c' = c0\<lparr>rc_active := (advance_route (rc_active c0))\<lparr>ae_id := e, ae_hls := hls\<rparr>,
                 rc_applied_projection := Some (route_projection ps')\<rparr>)"

lemma replace_current:
  "replace_active_encoder_for (worker_ticket_of c) e c =
     (let c' = c\<lparr>rc_active := (advance_route (rc_active c))\<lparr>ae_id := e, ae_hls := None\<rparr>\<rparr> in (c', Some (worker_ticket_of c')))"
  "replace_active_hls_for (worker_ticket_of c) e h c =
     (let c' = c\<lparr>rc_active := (advance_route (rc_active c))\<lparr>ae_id := e, ae_hls := Some h\<rparr>\<rparr> in (c', Some (worker_ticket_of c')))"
  by (simp_all add: replace_active_encoder_for_def replace_active_hls_for_def ticket_is_current_def Let_def)

lemma seek_publishedI:
  assumes "ps' = ps0\<lparr>rp_tsession := e, rp_url := url\<rparr>"
  shows "ae_hls (rc_active c0) = None \<Longrightarrow> seek_published ps0 c0 url ps' (publish_applied_route_projection ps'
           (c0\<lparr>rc_active := (advance_route (rc_active c0))\<lparr>ae_id := e, ae_hls := None\<rparr>\<rparr>))"
    and "ae_hls (rc_active c0) \<noteq> None \<Longrightarrow> ah_url h = url \<Longrightarrow> seek_published ps0 c0 url ps' (publish_applied_route_projection ps'
           (c0\<lparr>rc_active := (advance_route (rc_active c0))\<lparr>ae_id := e, ae_hls := Some h\<rparr>\<rparr>))"
  unfolding seek_published_def publish_applied_route_projection_def assms
  by (intro exI [of _ e] exI [of _ None] conjI; simp) (intro exI [of _ e] exI [of _ "Some h"] conjI; simp)

lemma jellyfin_seek_cases:
  assumes "begin_route_start c = (c1, r)" and "sync_active_hls_to_session ps c1 = ((ps0, c0), live)"
    and "jellyfin_transcode_seek cl off rk (ps, c) = ((ps', c'), result)"
  shows "(result = None \<and> ps' = ps0 \<and> c' = reject_preparation r c0)
    \<or> (\<exists>url c2. seek_published ps0 c0 url ps' c2 \<and>
        (case r of None \<Rightarrow> c' = c2 \<and> result = Some url
         | Some s \<Rightarrow> c' = fst (prepare_route_start s c2)
             \<and> result = (if snd (prepare_route_start s c2) then Some url else None)))"
proof -
  have active: "rc_active c0 = rc_active c1" by (rule sync_keeps(1) [OF assms(2)])
  have ticket: "worker_ticket_of c1 = worker_ticket_of c0" by (rule sync_keeps(2) [OF assms(2), symmetric])
  have live: "live = map_option (\<lambda>h. (worker_ticket_of c0, h)) (ae_hls (rc_active c0))"
    using sync_keeps(10) [OF assms(2)] by (simp add: active_hls_route_def ticket active)
  define out :: "string \<Rightarrow> playback_session \<Rightarrow> player_control \<Rightarrow> (playback_session \<times> player_control) \<times> string option"
    where "out = (\<lambda>url ps2 c2. case r of None \<Rightarrow> ((ps2, c2), Some url)
      | Some s \<Rightarrow> let (c3, prepared) = prepare_route_start s c2 in ((ps2, c3), if prepared then Some url else None))"
  have out: "?thesis" if "out url ps2 c2 = ((ps', c'), result)" "seek_published ps0 c0 url ps2 c2" for url ps2 c2
  proof (rule disjI2, intro exI conjI)
    show "seek_published ps0 c0 url ps' c2"
      using that by (auto simp: out_def split: option.splits prod.splits)
    show "case r of None \<Rightarrow> c' = c2 \<and> result = Some url
         | Some s \<Rightarrow> c' = fst (prepare_route_start s c2)
             \<and> result = (if snd (prepare_route_start s c2) then Some url else None)"
      using that by (auto simp: out_def split: option.splits prod.splits)
  qed
  show ?thesis
  proof (cases "rl_encoder (wt_route (worker_ticket_of c0)) = [] \<or> transcode_answer cl rk (media_source_of ps0)
      (playback_info_body (ec_ceiling (rp_contract ps0)) (sat_i64 (off * 10000000))) = None")
    case True
    then have "jellyfin_transcode_seek cl off rk (ps, c) = ((ps0, reject_preparation r c0), None)"
      by (cases "ae_hls (rc_active c0)") (auto simp: jellyfin_transcode_seek_def assms(1,2) live Let_def)
    then show ?thesis using assms(3) by simp
  next
    case False
    then obtain url session where answer: "transcode_answer cl rk (media_source_of ps0)
      (playback_info_body (ec_ceiling (rp_contract ps0)) (sat_i64 (off * 10000000))) = Some (url, session)" by auto
    let ?e = "case session of Some i \<Rightarrow> i | None \<Rightarrow> rl_encoder (wt_route (worker_ticket_of c0))"
    let ?ps = "ps0\<lparr>rp_tsession := ?e, rp_url := url\<rparr>"
    show ?thesis
    proof (cases "ae_hls (rc_active c0)")
      case None
      have "jellyfin_transcode_seek cl off rk (ps, c) = out url ?ps (publish_applied_route_projection ?ps
           (c0\<lparr>rc_active := (advance_route (rc_active c0))\<lparr>ae_id := ?e, ae_hls := None\<rparr>\<rparr>))"
        unfolding jellyfin_transcode_seek_def out_def
        using False None by (cases session; cases r) (simp_all add: assms(1,2) live answer replace_current Let_def)
      from out [OF this [symmetric, unfolded assms(3)] seek_publishedI(1) [OF refl None]] show ?thesis .
    next
      case (Some h)
      let ?h = "\<lparr>ah_url = url, ah_rung = ah_rung h, ah_observed = None\<rparr>"
      have "jellyfin_transcode_seek cl off rk (ps, c) = out url ?ps (publish_applied_route_projection ?ps
           (c0\<lparr>rc_active := (advance_route (rc_active c0))\<lparr>ae_id := ?e, ae_hls := Some ?h\<rparr>\<rparr>))"
        unfolding jellyfin_transcode_seek_def out_def
        using False Some by (cases session; cases r) (simp_all add: assms(1,2) live answer replace_current Let_def)
      from out [OF this [symmetric, unfolded assms(3)] seek_publishedI(2) [OF refl]] Some show ?thesis by simp
    qed
  qed
qed

definition seek_possible :: "media_client option \<Rightarrow> playback_session \<Rightarrow> bool" where
  "seek_possible client ps \<longleftrightarrow> \<not> ps_forced_direct ps \<and> rp_tsession ps \<noteq> [] \<and> ps_rk ps \<noteq> []
     \<and> ps_sid ps = jellyfin_server_id \<and> client \<noteq> None"

lemma transcode_seek_possible:
  "transcode_seek client off s =
     (if seek_possible client (fst s) then jellyfin_transcode_seek (the client) off (ps_rk (fst s)) s else (s, None))"
  by (cases client) (simp_all add: transcode_seek_def seek_possible_def Let_def)

lemma seek_published_facts:
  assumes "seek_published ps0 c0 url ps' c2"
  shows "rp_url ps' = url" "ae_id (rc_active c2) = rp_tsession ps'"
    "ae_epoch (rc_active c2) = next_generation (ae_epoch (rc_active c0))"
    "rc_applied_projection c2 = Some (route_projection ps')" "ae_hls (rc_active c2) = Some h \<Longrightarrow> ah_url h = url"
    "rc_phase c2 = rc_phase c0" "rc_pending_original c2 = rc_pending_original c0"
    "rc_next_start_attempt c2 = rc_next_start_attempt c0"
  using assms by (auto simp: seek_published_def advance_route_def)

text \<open>A refused seek and one that goes through, on the route at large.\<close>

lemma seek_refused:
  assumes "transcode_seek client off (ps, c) = ((ps', c'), None)"
  shows "rc_active c' = rc_active c" "worker_ticket_of c' = worker_ticket_of c"
    "rc_pending_original c' = rc_pending_original c" "rc_next_start_attempt c' = rc_next_start_attempt c"
    "seek_possible client ps \<Longrightarrow> rc_phase c' = (case rc_phase c of
       Preparing s \<Rightarrow> Stable | Prepared s \<Rightarrow> Failed s | OriginalTrial (TPrepared s) \<Rightarrow> OriginalTrial (TFailed s)
     | Failed s \<Rightarrow> Failed (next_generation (rc_next_action c)) | Idle \<Rightarrow> Failed (next_generation (rc_next_action c)) | p \<Rightarrow> p)"
    "\<not> seek_possible client ps \<Longrightarrow> ps' = ps \<and> c' = c"
proof -
  show "ps' = ps \<and> c' = c" if "\<not> seek_possible client ps"
    using assms that by (simp add: transcode_seek_possible)
  obtain c1 r where b: "begin_route_start c = (c1, r)" by (metis surj_pair)
  obtain ps0 c0 live where sync: "sync_active_hls_to_session ps c1 = ((ps0, c0), live)" by (metis surj_pair)
  note kept = sync_keeps [OF sync] begin_route_start_keeps [OF b]
  have refused: "c' = reject_preparation r c0" if "seek_possible client ps"
  proof -
    have "jellyfin_transcode_seek (the client) off (ps_rk ps) (ps, c) = ((ps', c'), None)"
      using assms that by (simp add: transcode_seek_possible)
    from jellyfin_seek_cases [OF b sync this] show ?thesis
    proof (elim disjE exE conjE)
      fix url c2
      assume pub: "seek_published ps0 c0 url ps' c2"
        and out: "case r of None \<Rightarrow> c' = c2 \<and> None = Some url | Some s \<Rightarrow> c' = fst (prepare_route_start s c2)
             \<and> None = (if snd (prepare_route_start s c2) then Some url else None)"
      obtain s where r: "r = Some s" using out by (cases r) auto
      have "pending_route_start c2 = Some s"
        using begin_route_start_pending [OF b [unfolded r]] seek_published_facts(6) [OF pub] kept(3)
        by (simp add: pending_route_start_def)
      then show ?thesis using out prepare_route_start_pending by (simp add: r)
    qed simp
  qed
  show "rc_active c' = rc_active c" "worker_ticket_of c' = worker_ticket_of c"
    "rc_pending_original c' = rc_pending_original c" "rc_next_start_attempt c' = rc_next_start_attempt c"
    using refused assms kept
    by (cases "seek_possible client ps"; simp add: reject_preparation_keeps transcode_seek_possible)+
  show "rc_phase c' = (case rc_phase c of
       Preparing s \<Rightarrow> Stable | Prepared s \<Rightarrow> Failed s | OriginalTrial (TPrepared s) \<Rightarrow> OriginalTrial (TFailed s)
     | Failed s \<Rightarrow> Failed (next_generation (rc_next_action c)) | Idle \<Rightarrow> Failed (next_generation (rc_next_action c)) | p \<Rightarrow> p)"
    if "seek_possible client ps"
    using b unfolding refused [OF that] by (cases "rc_phase c" rule: phase_serial.cases)
      (auto simp: begin_route_start_def reject_preparation_def reject_route_start_preparation_def kept(3)
        drop_start_deferred_def Let_def)
qed

lemma seek_done:
  assumes "transcode_seek client off (ps, c) = ((ps', c'), Some url)"
  shows "rp_url ps' = url" "ae_id (rc_active c') = rp_tsession ps'"
    "ae_epoch (rc_active c') = next_generation (ae_epoch (rc_active c))"
    "rc_applied_projection c' = Some (route_projection ps')" "ae_hls (rc_active c') = Some h \<Longrightarrow> ah_url h = url"
    "rc_pending_original c' = rc_pending_original c" "rc_next_start_attempt c' = rc_next_start_attempt c"
    "rc_phase c' = (case rc_phase c of
       Preparing s \<Rightarrow> Prepared s | Stable \<Rightarrow> Prepared (next_generation (rc_next_action c))
     | Failed s \<Rightarrow> Prepared (next_generation (rc_next_action c)) | Idle \<Rightarrow> Prepared (next_generation (rc_next_action c)) | p \<Rightarrow> p)"
proof -
  obtain c1 r where b: "begin_route_start c = (c1, r)" by (metis surj_pair)
  obtain ps0 c0 live where sync: "sync_active_hls_to_session ps c1 = ((ps0, c0), live)" by (metis surj_pair)
  note kept = sync_keeps [OF sync] begin_route_start_keeps [OF b]
  have "jellyfin_transcode_seek (the client) off (ps_rk ps) (ps, c) = ((ps', c'), Some url)"
    using assms by (simp add: transcode_seek_possible split: if_splits)
  from jellyfin_seek_cases [OF b sync this] obtain c2 where pub: "seek_published ps0 c0 url ps' c2"
    and out: "case r of None \<Rightarrow> c' = c2 | Some s \<Rightarrow> c' = fst (prepare_route_start s c2)"
    by (cases r) (auto split: if_splits)
  note facts = seek_published_facts [OF pub]
  have c': "c' = (case r of Some s \<Rightarrow> if rc_phase c2 = Preparing s then c2\<lparr>rc_phase := Prepared s\<rparr> else c2 | None \<Rightarrow> c2)"
  proof (cases r)
    case (Some s)
    have "pending_route_start c2 = Some s"
      using begin_route_start_pending [OF b [unfolded Some]] facts(6) kept(3) by (simp add: pending_route_start_def)
    then show ?thesis using out prepare_route_start_pending by (simp add: Some)
  qed (use out in simp)
  have active: "rc_active c' = rc_active c2" and rest: "rc_applied_projection c' = rc_applied_projection c2"
    "rc_pending_original c' = rc_pending_original c2" "rc_next_start_attempt c' = rc_next_start_attempt c2"
    by (simp_all add: c' split: option.split)
  show "rp_url ps' = url" by (fact facts(1))
  show "ae_id (rc_active c') = rp_tsession ps'" "ae_hls (rc_active c') = Some h \<Longrightarrow> ah_url h = url"
    using facts(2,5) by (simp_all add: active)
  show "ae_epoch (rc_active c') = next_generation (ae_epoch (rc_active c))"
    using facts(3) kept by (simp add: active)
  show "rc_applied_projection c' = Some (route_projection ps')" "rc_pending_original c' = rc_pending_original c"
    "rc_next_start_attempt c' = rc_next_start_attempt c"
    using facts kept by (simp_all add: rest)
  have "rc_phase c2 = rc_phase c1" using facts(6) kept(3) by simp
  then show "rc_phase c' = (case rc_phase c of
       Preparing s \<Rightarrow> Prepared s | Stable \<Rightarrow> Prepared (next_generation (rc_next_action c))
     | Failed s \<Rightarrow> Prepared (next_generation (rc_next_action c)) | Idle \<Rightarrow> Prepared (next_generation (rc_next_action c)) | p \<Rightarrow> p)"
    using b unfolding c' by (cases "rc_phase c" rule: phase_serial.cases) (auto simp: begin_route_start_def Let_def)
qed

text \<open>
  C8. A seek of a transcode is all or nothing. Refused, by a guard, the server, or a route that moved, it
  leaves the encoder, the ticket of the worker and the trial as they were and the route without a start
  pending of its own: a stable route is stable again. Done, the session plays the new address, the encoder
  is the session of that address under a new epoch, an HLS route declares the same address, the applied
  projection is the session, the old ticket is dead, and the route waits for exactly one start.
\<close>

theorem seek_is_all_or_nothing:
  assumes "transcode_seek client off (ps, c) = ((ps', c'), result)"
  shows "case result of
      None \<Rightarrow>
        rc_active c' = rc_active c \<and> worker_ticket_of c' = worker_ticket_of c
        \<and> rc_pending_original c' = rc_pending_original c
        \<and> (rc_phase c = Stable \<longrightarrow> rc_phase c' = Stable)
        \<and> (seek_possible client ps \<longrightarrow> in_flight (rc_phase c) = None \<longrightarrow> pending_route_start c' = None)
    | Some url \<Rightarrow>
        rp_url ps' = url \<and> ae_id (rc_active c') = rp_tsession ps'
        \<and> (\<forall>h. ae_hls (rc_active c') = Some h \<longrightarrow> ah_url h = url)
        \<and> rc_applied_projection c' = Some (route_projection ps')
        \<and> \<not> ticket_is_current c' (worker_ticket_of c)
        \<and> (rc_phase c = Stable \<longrightarrow> rc_phase c' = Prepared (next_generation (rc_next_action c)))"
proof (cases result)
  case None
  note refused = seek_refused [OF assms [unfolded None]]
  have "rc_phase c' = Stable" if "rc_phase c = Stable"
    using refused(5,6) that by (cases "seek_possible client ps") auto
  moreover have "pending_route_start c' = None" if "seek_possible client ps" "in_flight (rc_phase c) = None"
    using refused(5) [OF that(1)] that(2)
    by (cases "rc_phase c" rule: phase_serial.cases) (auto simp: pending_route_start_def in_flight_def)
  ultimately show ?thesis using refused(1-3) None by simp
next
  case (Some url)
  note seek = seek_done [OF assms [unfolded Some]]
  have "\<not> ticket_is_current c' (worker_ticket_of c)"
    using seek(3) generations_distinct [of 1 "ae_epoch (rc_active c)"]
    by (auto simp: ticket_is_current_def worker_ticket_of_def lease_of_def)
  then show ?thesis using seek(1,2,4,5,8) Some by simp
qed

text \<open>A server that answers every playback query, and a native side on which every load starts.\<close>

definition example_client :: media_client where
  "example_client = \<lparr>mc_playback_info = (\<lambda>_ _ _. Some \<lparr>pa_error_code = None, pa_transcoding_urls = [Some ''t''],
       pa_play_session_id = Some ''s2''\<rparr>), mc_transcode_url = (\<lambda>r. Some (''http://s/'' @ r))\<rparr>"

definition example_faults :: native_faults where
  "example_faults = \<lparr>nf_live = True, nf_deferred = False, nf_before = None, nf_between = False, nf_after = False,
     nf_stream = False, nf_announced = 0\<rparr>"

theorem seek_is_all_or_nothing_witness:
  "\<exists>ps' c'. transcode_seek (Some example_client) 30
       (example_session\<lparr>ps_rk := ''k'', ps_sid := 0\<rparr>, example_control) = ((ps', c'), Some ''http://s/t'')
     \<and> rp_url ps' = ''http://s/t'' \<and> rc_phase c' = Prepared 1"
proof -
  have "\<exists>ps' c'. transcode_seek (Some example_client) 30
      (example_session\<lparr>ps_rk := ''k'', ps_sid := 0\<rparr>, example_control) = ((ps', c'), Some ''http://s/t'')"
    by (simp add: example_client_def example_defs transcode_seek_def jellyfin_transcode_seek_def begin_route_start_def
        jellyfin_server_id_def sync_active_hls_to_session_def worker_ticket_of_def lease_of_def next_generation_def
        transcode_answer_def replace_active_hls_for_def ticket_is_current_def prepare_route_start_def
        publish_applied_route_projection_def Let_def)
  then obtain ps' c' where seek: "transcode_seek (Some example_client) 30
      (example_session\<lparr>ps_rk := ''k'', ps_sid := 0\<rparr>, example_control) = ((ps', c'), Some ''http://s/t'')" by blast
  have "rc_phase example_control = Stable" "next_generation (rc_next_action example_control) = 1"
    by (simp_all add: example_control_def player_control_init_def next_generation_def)
  with seek_is_all_or_nothing [OF seek] seek show ?thesis by auto
qed

section \<open>Starts and reloads\<close>

text \<open>The phase a failed start leaves, and the one a reload can leave.\<close>

definition start_failed_phase :: "control_phase \<Rightarrow> u64 \<Rightarrow> control_phase" where
  "start_failed_phase p t = (if trial_serial p = None then Failed t else OriginalTrial (TFailed t))"

definition same_trial :: "player_control \<Rightarrow> player_control \<Rightarrow> bool" where
  "same_trial c c' \<longleftrightarrow> rc_pending_original c' = rc_pending_original c
     \<and> trial_serial (rc_phase c') = trial_serial (rc_phase c)"

lemma abort_pending:
  assumes "pending_route_start c = Some t"
  shows "rc_phase (fst (abort_route_start t r c)) =
      (case rc_phase c of Preparing _ \<Rightarrow> if r = NoRoute then Stable else Failed t | p \<Rightarrow> start_failed_phase p t)"
    and "same_trial c (fst (abort_route_start t r c))"
    and "rc_next_start_attempt (fst (abort_route_start t r c)) = rc_next_start_attempt c"
  using assms
  by (cases "rc_phase c" rule: phase_serial.cases;
      auto simp: abort_route_start_def pending_route_start_def start_failed_phase_def trial_serial_def same_trial_def
        drop_start_deferred_def)+

lemma begin_timeline_keeps:
  "rc_phase (fst (begin_timeline_reporting n ps c)) = rc_phase c"
  "rc_pending_original (fst (begin_timeline_reporting n ps c)) = rc_pending_original c"
  "rc_next_start_attempt (fst (begin_timeline_reporting n ps c)) = rc_next_start_attempt c"
  by (simp_all add: begin_timeline_reporting_def Let_def)

lemma inner_start:
  assumes "pending_route_start c = Some t" and "start_bufferfeed_inner f ps t c = Some (c', result)"
  shows "same_trial c c'" "\<And>a. result = Inr a \<Longrightarrow> in_flight (rc_phase c') = Some a"
    "\<And>a. result = Inr a \<Longrightarrow> ra_serial a = t \<and> ra_attempt a = rc_next_start_attempt c'"
    "\<And>r. result = Inl r \<Longrightarrow> pending_route_start c' = Some t"
    "\<And>r. result = Inl r \<Longrightarrow> \<forall>s. rc_phase c' = Preparing s \<longrightarrow> nf_before f = Some r \<and> c' = c"
    "rc_next_start_attempt c' = rc_next_start_attempt c \<or> rc_next_start_attempt c' = rc_next_start_attempt c + 1"
  using assms
  by (cases "rc_phase c" rule: phase_serial.cases;
      auto simp: start_bufferfeed_inner_def pending_route_start_def prepare_route_start_def same_trial_def trial_serial_def
        claim_route_start_attempt_def in_flight_def Let_def begin_timeline_keeps split: option.splits if_splits)+

lemma inner_start_returns:
  "rc_next_start_attempt c \<noteq> - 1 \<Longrightarrow> start_bufferfeed_inner f ps t c \<noteq> None"
  by (cases "rc_phase c" rule: phase_serial.cases)
    (auto simp: start_bufferfeed_inner_def prepare_route_start_def claim_route_start_attempt_def Let_def
      split: option.splits bool.splits)

lemma start_for_returns:
  "rc_next_start_attempt c \<noteq> - 1 \<Longrightarrow> start_bufferfeed_for f ps t c \<noteq> None"
  using inner_start_returns [of c f ps t] by (auto simp: start_bufferfeed_for_def split: option.splits sum.splits)

lemma start_for_spec:
  assumes "pending_route_start c = Some t" and "start_bufferfeed_for f ps t c = Some (c', out)"
  shows "same_trial c c'"
    and "rc_next_start_attempt c' = rc_next_start_attempt c \<or> rc_next_start_attempt c' = rc_next_start_attempt c + 1"
    and "(\<exists>a. out = Launched a \<and> in_flight (rc_phase c') = Some a \<and> ra_serial a = t
           \<and> ra_attempt a = rc_next_start_attempt c')
       \<or> (out = FeedFailed \<and> (rc_phase c' = start_failed_phase (rc_phase c) t
             \<or> (nf_before f = Some NoRoute \<and> rc_phase c = Preparing t \<and> rc_phase c' = Stable)))"
proof -
  obtain c1 result where inner: "start_bufferfeed_inner f ps t c = Some (c1, result)"
    using assms(2) by (auto simp: start_bufferfeed_for_def split: option.splits)
  note spec = inner_start [OF assms(1) inner]
  have "same_trial c c' \<and> (rc_next_start_attempt c' = rc_next_start_attempt c
      \<or> rc_next_start_attempt c' = rc_next_start_attempt c + 1) \<and>
    ((\<exists>a. out = Launched a \<and> in_flight (rc_phase c') = Some a \<and> ra_serial a = t
           \<and> ra_attempt a = rc_next_start_attempt c')
       \<or> (out = FeedFailed \<and> (rc_phase c' = start_failed_phase (rc_phase c) t
             \<or> (nf_before f = Some NoRoute \<and> rc_phase c = Preparing t \<and> rc_phase c' = Stable))))"
  proof (cases result)
    case (Inr a)
    then have "c' = c1" "out = Launched a" using assms(2) inner by (simp_all add: start_bufferfeed_for_def)
    then show ?thesis using spec(1,2,3,6) Inr by auto
  next
    case (Inl r)
    then have c': "c' = fst (abort_route_start t r c1)" "out = FeedFailed"
      using assms(2) inner by (simp_all add: start_bufferfeed_for_def)
    note ab = abort_pending [OF spec(4) [OF Inl], of r]
    have kept: "same_trial c c'" using ab(2) spec(1) c'(1) by (simp add: same_trial_def)
    have trial: "start_failed_phase (rc_phase c1) t = start_failed_phase (rc_phase c) t"
      using spec(1) by (simp add: start_failed_phase_def same_trial_def)
    have "rc_phase c' = start_failed_phase (rc_phase c) t
             \<or> (nf_before f = Some NoRoute \<and> rc_phase c = Preparing t \<and> rc_phase c' = Stable)"
    proof (cases "\<exists>s. rc_phase c1 = Preparing s")
      case True
      then obtain s where s: "rc_phase c1 = Preparing s" ..
      with spec(4,5) [OF Inl] have "s = t" "nf_before f = Some r" "c1 = c"
        by (simp_all add: pending_route_start_def)
      then show ?thesis using ab(1) c'(1) s by (auto simp: start_failed_phase_def trial_serial_def)
    next
      case False
      then have "rc_phase c' = start_failed_phase (rc_phase c1) t"
        using ab(1) c'(1) by (cases "rc_phase c1") auto
      then show ?thesis using trial by simp
    qed
    then show ?thesis using kept ab(3) spec(6) c' by simp
  qed
  then show "same_trial c c'"
    "rc_next_start_attempt c' = rc_next_start_attempt c \<or> rc_next_start_attempt c' = rc_next_start_attempt c + 1"
    "(\<exists>a. out = Launched a \<and> in_flight (rc_phase c') = Some a \<and> ra_serial a = t \<and> ra_attempt a = rc_next_start_attempt c')
       \<or> (out = FeedFailed \<and> (rc_phase c' = start_failed_phase (rc_phase c) t
             \<or> (nf_before f = Some NoRoute \<and> rc_phase c = Preparing t \<and> rc_phase c' = Stable)))"
    by blast+
qed

text \<open>The teardown of a reload keeps the session, the trial and what is pending.\<close>

lemma reload_teardown:
  assumes "teardown live deferred True (ps, c) = (ps', c')" "pending_route_start c = Some t" "\<forall>s. rc_phase c \<noteq> Preparing s"
  shows "ps' = ps" "same_trial c c'" "pending_route_start c' = Some t" "rc_next_start_attempt c' = rc_next_start_attempt c"
    "\<forall>s. rc_phase c' \<noteq> Preparing s"
  using assms
  by (cases "rc_phase c" rule: phase_serial.cases;
      auto simp: teardown_def begin_engine_teardown_def same_trial_def pending_route_start_def trial_serial_def Let_def
      split: if_splits)+

lemma reload_transaction:
  assumes "prepare_reload_transaction c = (c', r)"
  shows "same_trial c c'" "rc_next_start_attempt c' = rc_next_start_attempt c" "\<forall>s. r \<noteq> None \<longrightarrow> rc_phase c' \<noteq> Preparing s"
    "pending_route_start c' = r" "r = None \<Longrightarrow> c' = c \<and> pending_route_start c = None \<and> rc_phase c \<noteq> Stable"
    "\<forall>t. pending_route_start c = Some t \<longrightarrow> r = Some t"
  using assms
  by (cases "rc_phase c" rule: phase_serial.cases;
      auto simp: prepare_reload_transaction_def begin_route_start_def prepare_route_start_def same_trial_def
        pending_route_start_def trial_serial_def Let_def)+

definition reload_left :: "control_phase \<Rightarrow> control_phase \<Rightarrow> bool" where
  "reload_left p p' \<longleftrightarrow> (\<exists>t. p' = start_failed_phase p t) \<or> (p' = Stable \<and> (\<exists>s. p = Preparing s))"

lemma reload_spec:
  assumes "reload_at f (ps, c) = Some ((ps', c'), out)"
  shows "ps' = ps" "same_trial c c'"
    "rc_next_start_attempt c' = rc_next_start_attempt c \<or> rc_next_start_attempt c' = rc_next_start_attempt c + 1"
    "out = ReloadStarted \<Longrightarrow> in_flight (rc_phase c') \<noteq> None"
    "out \<noteq> ReloadStarted \<Longrightarrow>
       reload_left (rc_phase c) (rc_phase c') \<or> (c' = c \<and> pending_route_start c = None \<and> (rp_url ps = [] \<or> rc_phase c \<noteq> Stable))"
proof -
  have "ps' = ps \<and> same_trial c c' \<and>
    (rc_next_start_attempt c' = rc_next_start_attempt c \<or> rc_next_start_attempt c' = rc_next_start_attempt c + 1) \<and>
    (if out = ReloadStarted then in_flight (rc_phase c') \<noteq> None
     else reload_left (rc_phase c) (rc_phase c') \<or> (c' = c \<and> pending_route_start c = None \<and> (rp_url ps = [] \<or> rc_phase c \<noteq> Stable)))"
  proof (cases "rp_url ps = []")
    case True
    then have out: "ps' = ps" "c' = settle_missing_route_start c" "out = ReloadNoRoute"
      using assms by (simp_all add: reload_at_def)
    show ?thesis
    proof (cases "pending_route_start c")
      case None
      then show ?thesis using out True by (simp add: settle_missing_route_start_def same_trial_def)
    next
      case (Some t)
      note ab = abort_pending [OF Some, of NoRoute]
      have "reload_left (rc_phase c) (rc_phase c')"
        unfolding out(2) settle_missing_route_start_def Some option.case ab(1)
        by (auto simp: reload_left_def split: control_phase.split)
      then show ?thesis using out ab(2,3) by (simp add: settle_missing_route_start_def Some)
    qed
  next
    case False
    obtain c1 r where tx: "prepare_reload_transaction c = (c1, r)" by (metis surj_pair)
    note t1 = reload_transaction [OF tx]
    show ?thesis
    proof (cases r)
      case None
      then show ?thesis using assms False tx t1(5) by (simp add: reload_at_def same_trial_def)
    next
      case (Some t)
      obtain ps2 c2 where td: "teardown (nf_live f) (nf_deferred f) True (ps, c1) = (ps2, c2)" by (metis surj_pair)
      have pend: "pending_route_start c1 = Some t" and noprep: "\<forall>s. rc_phase c1 \<noteq> Preparing s"
        using t1(3,4) Some by auto
      note t2 = reload_teardown [OF td pend noprep]
      obtain feed where start: "start_bufferfeed_for f ps t c2 = Some (c', feed)" and ps': "ps' = ps"
        and out: "out = (if feed = FeedFailed then ReloadFailed else ReloadStarted)"
        using assms False by (auto simp: reload_at_def tx Some td t2(1) split: option.splits bufferfeed_outcome.splits)
      note t3 = start_for_spec [OF t2(3) start]
      have trial: "start_failed_phase (rc_phase c2) t = start_failed_phase (rc_phase c) t"
        using t1(1) t2(2) by (simp add: start_failed_phase_def same_trial_def)
      have "if out = ReloadStarted then in_flight (rc_phase c') \<noteq> None else reload_left (rc_phase c) (rc_phase c')"
        using t3(3) t2(5) out trial by (auto simp: reload_left_def)
      then show ?thesis using ps' t1(1,2) t2(2,4) t3(1,2) by (auto simp: same_trial_def)
    qed
  qed
  then show "ps' = ps" "same_trial c c'"
    "rc_next_start_attempt c' = rc_next_start_attempt c \<or> rc_next_start_attempt c' = rc_next_start_attempt c + 1"
    "out = ReloadStarted \<Longrightarrow> in_flight (rc_phase c') \<noteq> None"
    "out \<noteq> ReloadStarted \<Longrightarrow> reload_left (rc_phase c) (rc_phase c') \<or> (c' = c \<and> pending_route_start c = None \<and> (rp_url ps = [] \<or> rc_phase c \<noteq> Stable))"
    by (auto split: if_splits)
qed

lemma reload_returns: "rc_next_start_attempt c \<noteq> - 1 \<Longrightarrow> reload_at f (ps, c) \<noteq> None"
proof
  assume n: "rc_next_start_attempt c \<noteq> - 1" and none: "reload_at f (ps, c) = None"
  obtain c1 r where tx: "prepare_reload_transaction c = (c1, r)" by (metis surj_pair)
  note t1 = reload_transaction [OF tx]
  obtain t where r: "r = Some t" using none tx by (cases r) (auto simp: reload_at_def split: if_splits)
  obtain ps2 c2 where td: "teardown (nf_live f) (nf_deferred f) True (ps, c1) = (ps2, c2)" by (metis surj_pair)
  note t2 = reload_teardown [OF td t1(4) [unfolded r]]
  have "rc_next_start_attempt c2 = rc_next_start_attempt c" using t2(4) t1(2,3) r by simp
  then show False
    using none start_for_returns [of c2 f ps2 t] n
    by (auto simp: reload_at_def tx r td split: if_splits option.splits bufferfeed_outcome.splits)
qed

section \<open>Claims\<close>

text \<open>What an effect of a claim leaves of the owner when it begins no trial, and when it begins one.\<close>

definition owner_kept :: "player_control \<Rightarrow> player_control \<Rightarrow> bool" where
  "owner_kept c c' \<longleftrightarrow> rc_phase c' = rc_phase c \<and> rc_pending_original c' = rc_pending_original c
     \<and> rc_next_start_attempt c' = rc_next_start_attempt c"

definition route_kept :: "player_control \<Rightarrow> player_control \<Rightarrow> bool" where
  "route_kept c c' \<longleftrightarrow> owner_kept c c' \<and> rc_active c' = rc_active c \<and> worker_ticket_of c' = worker_ticket_of c"

definition trial_begun :: "player_control \<Rightarrow> playback_session \<times> player_control \<Rightarrow> bool" where
  "trial_begun c t \<longleftrightarrow> (\<exists>serial p. rc_phase (snd t) = OriginalTrial (TPrepared serial)
     \<and> rc_pending_original (snd t) = Some p \<and> rp_tsession (po_previous p) \<noteq> []
     \<and> \<not> ps_forced_direct (fst t) \<and> rc_next_start_attempt (snd t) = rc_next_start_attempt c)"

lemma kept_refl [simp]: "owner_kept c c" "route_kept c c"
  by (simp_all add: owner_kept_def route_kept_def)

lemma replace_encoder_kept:
  assumes "replace_active_encoder_for t e c = (c', r)"
  shows "owner_kept c c'" "r = None \<Longrightarrow> c' = c"
  using assms by (auto simp: replace_active_encoder_for_def owner_kept_def Let_def split: if_splits)

lemma retranscode_kept:
  assumes "retranscode_for cl t off (n, ps, c) = ((n', ps', c'), r)"
  shows "owner_kept c c'" "r = None \<Longrightarrow> c' = c"
  using assms
  by (auto simp: retranscode_for_def jellyfin_retranscode_as_def Let_def
      split: if_splits option.splits prod.splits dest: replace_encoder_kept)

lemma legacy_kept:
  assumes "run_legacy v cl t off (n, ps, c) = ((n', ps', c'), r)"
  shows "owner_kept c c'" "r = None \<Longrightarrow> c' = c" "r \<noteq> Some TailOriginal"
  using assms
  by (auto simp: run_legacy_def split: legacy_action_kind.splits prod.splits dest: retranscode_kept)

lemma recover_direct_session:
  "recover_original_direct cand ticket p watched cause outcome (ps, c) = ((ps', c'), ok) \<Longrightarrow>
   ps_forced_direct ps' = ps_forced_direct ps"
  by (auto simp: recover_original_direct_def Let_def split: option.splits prod.splits)

lemma recover_begins_trial:
  assumes "recover_auto_to_original_for v ticket off cause (ps, c) = ((ps1, c1), True)"
  shows "trial_begun c (ps1, c1)"
proof (rule recover_success [OF assms])
  fix cand ps0 c0 live
  assume ok: "\<not> ps_forced_direct ps" "is_transcoding ps" "ticket_is_current c ticket" "rl_encoder (wt_route ticket) \<noteq> []"
    and sync: "sync_active_hls_to_session ps c = ((ps0, c0), live)"
    and "\<exists>watched. recover_original_direct cand ticket (snapshot_route ps0 (rl_encoder (wt_route ticket)) off)
       watched cause EnhancementOff (ps0, c0) = ((ps1, c1), True)"
  then obtain watched where direct: "recover_original_direct cand ticket
      (snapshot_route ps0 (rl_encoder (wt_route ticket)) off) watched cause EnhancementOff (ps0, c0) = ((ps1, c1), True)"
    by blast
  note rec = recover_original_direct_success [OF direct]
  have same: "ps_forced_direct ps0 = ps_forced_direct ps" "rp_tsession ps0 \<noteq> []"
    using sync ok by (auto simp: sync_active_hls_to_session_def is_transcoding_def ticket_is_current_def Let_def
        split: option.splits)
  have counter: "rc_next_start_attempt c1 = rc_next_start_attempt c0"
    using direct by (auto simp: recover_original_direct_def set_pending_original_def replace_active_encoder_for_def
        Let_def split: option.splits prod.splits if_splits control_phase.splits)
  obtain p where p: "rc_pending_original c1 = Some p" "po_previous p = route_projection ps0"
    using rec(8) by (auto simp: snapshot_route_def way_back_def)
  have "rp_tsession (po_previous p) \<noteq> []"
    using same(2) by (simp add: p(2) route_projection_def route_projection.defs)
  then show ?thesis
    using rec(2) p(1) same(1) ok(1) recover_direct_session [OF direct] counter sync_keeps(8) [OF sync]
    by (auto simp: trial_begun_def)
qed

lemma recover_refused:
  assumes "recover_auto_to_original_for v ticket off cause (ps, c) = ((ps1, c1), False)"
  shows "route_kept c c1"
proof -
  obtain ps0 c0 live where sync: "sync_active_hls_to_session ps c = ((ps0, c0), live)" by (metis surj_pair)
  have "c1 = c \<or> c1 = c0"
    using assms
    by (auto simp: recover_auto_to_original_for_def recover_original_direct_def Let_def sync
        split: if_splits option.splits prod.splits recovery_flavour.splits dest: replace_encoder_kept)
  then show ?thesis using sync_keeps [OF sync] by (auto simp: route_kept_def owner_kept_def)
qed

lemma kept_trans:
  "owner_kept a b \<Longrightarrow> owner_kept b c \<Longrightarrow> owner_kept a c" "route_kept a b \<Longrightarrow> route_kept b c \<Longrightarrow> route_kept a c"
  by (simp_all add: owner_kept_def route_kept_def)

lemma route_kept_owner: "route_kept c c' \<Longrightarrow> owner_kept c c'"
  by (simp add: route_kept_def)

text \<open>
  A tail that begins the original has begun the trial, a rejected one kept the route, and any other kept
  the owner's phase, trial and counter.
\<close>

definition tail_left :: "player_control \<Rightarrow> playback_session \<times> player_control \<Rightarrow> claim_tail \<Rightarrow> bool" where
  "tail_left c t tail \<longleftrightarrow>
     (case tail of TailOriginal \<Rightarrow> trial_begun c t | TailRejected _ \<Rightarrow> route_kept c (snd t) | _ \<Rightarrow> owner_kept c (snd t))"

lemma tail_left_trans: "route_kept c c1 \<Longrightarrow> tail_left c1 t tail \<Longrightarrow> tail_left c t tail"
  by (auto simp: tail_left_def trial_begun_def owner_kept_def route_kept_def split: claim_tail.splits)

lemma legacy_tail:
  assumes "run_legacy v cl t off (n, ps, c) = ((n', ps', c'), Some tail)"
  shows "tail_left c (ps', c') tail"
  using assms
  by (auto simp: run_legacy_def tail_left_def split: legacy_action_kind.splits prod.splits dest: retranscode_kept)

lemma fallback_tail:
  assumes "claim_fallback v cl t off fb rej (n, ps, c) = ((n', ps', c'), tail)"
  shows "tail_left c (ps', c') tail"
proof (cases fb)
  case FallbackLegacy
  obtain n1 ps1 c1 r where legacy: "run_legacy v cl t off (n, ps, c) = ((n1, ps1, c1), r)" by (metis surj_pair)
  show ?thesis
  proof (cases r)
    case None
    then show ?thesis using assms FallbackLegacy legacy legacy_kept(2) [OF legacy]
      by (auto simp: claim_fallback_def tail_left_def)
  next
    case (Some tl0)
    then show ?thesis using assms FallbackLegacy legacy legacy_tail [OF legacy [unfolded Some]]
      by (simp add: claim_fallback_def)
  qed
qed (use assms in \<open>auto simp: claim_fallback_def tail_left_def\<close>)

lemma primary_tail:
  assumes "primary_effect v cl t off pr (n, ps, c) = ((n', ps', c'), r)"
  shows "case r of None \<Rightarrow> route_kept c c' | Some tail \<Rightarrow> tail_left c (ps', c') tail"
proof (cases pr)
  case PrimaryRelease
  obtain ps1 c1 ok where rec: "recover_auto_to_original_for v t off EnhancementReleased (ps, c) = ((ps1, c1), ok)"
    by (metis surj_pair)
  have out: "ps' = ps1" "c' = c1" "r = (if ok then Some TailOriginal else None)"
    using assms PrimaryRelease rec by (simp_all add: primary_effect_def)
  show ?thesis
  proof (cases ok)
    case True
    then show ?thesis using recover_begins_trial rec out by (simp add: tail_left_def)
  next
    case False
    then show ?thesis using recover_refused rec out by simp
  qed
next
  case (PrimaryRemux k)
  then show ?thesis using assms by (simp add: primary_effect_def)
next
  case PrimaryLegacy
  then have "run_legacy v cl t off (n, ps, c) = ((n', ps', c'), r)" using assms by (simp add: primary_effect_def)
  then show ?thesis using legacy_tail by (cases r) (auto dest: legacy_kept(2))
next
  case PrimaryRetranscode
  obtain n1 ps1 c1 url where re: "retranscode_for cl t off (n, ps, c) = ((n1, ps1, c1), url)" by (metis surj_pair)
  then show ?thesis using assms PrimaryRetranscode retranscode_kept [OF re]
    by (auto simp: primary_effect_def tail_left_def split: option.splits)
qed

lemma execute_tail:
  assumes "execute_retranscode_claim v cl action off (n, ps, c) = ((n', ps', c'), tail)"
  shows "tail_left c (ps', c') tail"
proof -
  let ?d = "claim_dispatch (enhancement_step v ps) (cl_displaced_pick action)"
  obtain n1 ps1 c1 r where pr: "primary_effect v cl (cl_ticket action) off (di_primary ?d) (n, ps, c) = ((n1, ps1, c1), r)"
    by (metis surj_pair)
  note left = primary_tail [OF pr]
  show ?thesis
  proof (cases r)
    case None
    then have "claim_fallback v cl (cl_ticket action) off (di_on_failure ?d) (rejection_of (di_primary ?d)) (n1, ps1, c1)
      = ((n', ps', c'), tail)" using assms pr by (simp add: execute_retranscode_claim_def Let_def)
    then show ?thesis using fallback_tail tail_left_trans left None by (metis option.case(1))
  next
    case (Some tail1)
    then show ?thesis using assms pr left by (simp add: execute_retranscode_claim_def Let_def)
  qed
qed

lemma execute_recover_tail:
  assumes "execute_recover_original_claim v cl action off cause (n, ps, c) = ((n', ps', c'), tail)"
  shows "tail_left c (ps', c') tail"
proof -
  obtain ps1 c1 ok where rec: "recover_auto_to_original_for v (cl_ticket action) off cause (ps, c) = ((ps1, c1), ok)"
    by (metis surj_pair)
  show ?thesis
  proof (cases ok)
    case True
    then show ?thesis using assms rec recover_begins_trial
      by (simp add: execute_recover_original_claim_def tail_left_def)
  next
    case False
    then have "claim_fallback v cl (cl_ticket action) off (fallback_owed (cl_displaced_pick action))
        ''route transition: manual Original was rejected; current stream retained'' (n, ps1, c1) = ((n', ps', c'), tail)"
      using assms rec by (simp add: execute_recover_original_claim_def)
    then show ?thesis using tail_left_trans [OF recover_refused fallback_tail] rec False by auto
  qed
qed

text \<open>
  C13. A refused claim changes nothing that plays: the active encoder, the ticket of the worker, the phase and
  the trial stay. Once it is finished the route is stable under the same ticket, and the session carries
  the applied projection again.
\<close>

theorem rejected_claim_keeps_route:
  assumes "execute_retranscode_claim v client action off (n, ps, c) = ((n', ps', c'), TailRejected reason)
      \<or> execute_recover_original_claim v client action off cause (n, ps, c) = ((n', ps', c'), TailRejected reason)"
    and "rejected_tail action (n', ps', c') = (n'', ps'', c'')"
  shows "rc_active c' = rc_active c \<and> worker_ticket_of c' = worker_ticket_of c \<and> rc_phase c' = rc_phase c
    \<and> rc_pending_original c' = rc_pending_original c
    \<and> rc_active c'' = rc_active c \<and> worker_ticket_of c'' = worker_ticket_of c
    \<and> (rc_phase c = Applying (cl_serial action) \<longrightarrow> rc_phase c'' = Stable
         \<and> (\<forall>p. rc_applied_projection c' = Some p \<longrightarrow> route_projection ps'' = p))"
proof -
  have kept: "route_kept c c'"
    using assms(1) execute_tail [of v client action off n ps c n' ps' c']
      execute_recover_tail [of v client action off cause n ps c n' ps' c'] by (auto simp: tail_left_def)
  then have during: "rc_active c' = rc_active c \<and> worker_ticket_of c' = worker_ticket_of c \<and> rc_phase c' = rc_phase c
      \<and> rc_pending_original c' = rc_pending_original c" by (simp add: route_kept_def owner_kept_def)
  have fin: "finish_route_action ps' action Rejected c' = (ps'', c'')"
    using assms(2) by (simp add: rejected_tail_def finish_claim_def)
  have stable: "rc_phase c'' = Stable" if "rc_phase c = Applying (cl_serial action)"
    using fin kept that by (auto simp: finish_route_action_def route_kept_def owner_kept_def)
  have after: "rc_active c'' = rc_active c \<and> worker_ticket_of c'' = worker_ticket_of c"
    using fin kept by (auto simp: finish_route_action_def route_kept_def worker_ticket_of_def lease_of_def split: if_splits)
  have "route_projection ps'' = p" if "rc_phase c = Applying (cl_serial action)" "rc_applied_projection c' = Some p" for p
    using fin kept that by (auto simp: finish_route_action_def route_kept_def owner_kept_def route_projection_def
        install_route_projection_def route_projection.defs)
  with during stable after show ?thesis by blast
qed

theorem rejected_claim_keeps_route_witness:
  "\<exists>s. execute_retranscode_claim example_viewer None
       \<lparr>cl_serial = 1, cl_ticket = worker_ticket_of player_control_init, cl_intent = UserIntent Retranscode,
        cl_displaced_pick = False\<rparr> 7 (0, idle_session, player_control_init\<lparr>rc_phase := Applying 1\<rparr>)
       = (s, TailRejected RETRANSCODE_REJECTED)
     \<and> rc_active (snd (snd s)) = rc_active player_control_init"
proof -
  let ?a = "\<lparr>cl_serial = 1, cl_ticket = worker_ticket_of player_control_init, cl_intent = UserIntent Retranscode,
        cl_displaced_pick = False\<rparr>" and ?c = "player_control_init\<lparr>rc_phase := Applying 1\<rparr>"
  have step: "enhancement_step example_viewer idle_session = NotInvolved"
    by (simp add: example_defs enhancement_step_def enhancement_quality_def want_live_def
        audio_enhancements_offered_live_def enhancements_offered_def facts_of_def live_family_def is_transcoding_def
        desired_audio_def enhancements_any_def Let_def)
  have run: "execute_retranscode_claim example_viewer None ?a 7 (0, idle_session, ?c)
      = ((0, idle_session, ?c), TailRejected RETRANSCODE_REJECTED)"
    by (simp add: execute_retranscode_claim_def step claim_dispatch_def primary_effect_def retranscode_for_def
        claim_fallback_def rejection_of_def Let_def)
  obtain n'' ps'' c'' where "rejected_tail ?a (0, idle_session, ?c) = (n'', ps'', c'')" by (metis surj_pair)
  from rejected_claim_keeps_route [OF disjI1 [OF run] this] run show ?thesis by auto
qed

section \<open>The pump\<close>

text \<open>
  Where a claim may end: stable, with a load in flight, failed, or, after a failed trial whose rollback
  could not be rebased because there is nothing to ask, prepared without a trial.
\<close>

definition pump_settled :: "pump_input \<Rightarrow> playback_session \<times> player_control \<Rightarrow> bool" where
  "pump_settled u t \<longleftrightarrow>
     rc_phase (snd t) = Stable \<or> in_flight (rc_phase (snd t)) \<noteq> None \<or> (\<exists>s. rc_phase (snd t) = Failed s)
     \<or> ((\<exists>s. rc_phase (snd t) = Prepared s) \<and> rc_pending_original (snd t) = None
        \<and> (pu_client u = None \<or> ps_rk (fst t) = [] \<or> ps_sid (fst t) \<noteq> jellyfin_server_id))"

lemma reload_settles:
  assumes "reload f (n, ps, c) = Some (n', ps', c')"
  shows "\<exists>s. rc_phase c = Prepared s \<Longrightarrow> in_flight (rc_phase c') \<noteq> None \<or> (\<exists>s. rc_phase c' = Failed s)"
    and "rc_phase c = Stable \<Longrightarrow> in_flight (rc_phase c') \<noteq> None \<or> rc_phase c' = Stable \<or> (\<exists>s. rc_phase c' = Failed s)"
proof -
  obtain out where r: "reload_at f (ps, c) = Some ((ps', c'), out)"
    using assms by (auto simp: reload_def)
  note spec = reload_spec [OF r]
  show "in_flight (rc_phase c') \<noteq> None \<or> (\<exists>s. rc_phase c' = Failed s)" if "\<exists>s. rc_phase c = Prepared s"
    using spec(4,5) that by (cases "out = ReloadStarted")
      (auto simp: reload_left_def start_failed_phase_def trial_serial_def pending_route_start_def)
  show "in_flight (rc_phase c') \<noteq> None \<or> rc_phase c' = Stable \<or> (\<exists>s. rc_phase c' = Failed s)" if "rc_phase c = Stable"
    using spec(4,5) that by (cases "out = ReloadStarted")
      (auto simp: reload_left_def start_failed_phase_def trial_serial_def)
qed

lemma commit_seek_keeps:
  "commit_seek (n, ps, c) = (n', ps', c') \<Longrightarrow> n' = n \<and> ps' = ps \<and> owner_kept c c'"
  by (auto simp: commit_seek_def commit_user_seek_def owner_kept_def Let_def split: if_splits)

lemma finish_claim_phase:
  assumes "finish_claim action result (n, ps, c) = (n', ps', c')" "rc_phase c = Applying (cl_serial action)"
  shows "rc_phase c' = (if result = ApplyPrepared then Prepared (cl_serial action) else Stable)"
    "rc_next_start_attempt c' = rc_next_start_attempt c"
  using assms by (auto simp: finish_claim_def finish_route_action_def split: route_intent.splits if_splits)

lemma prepared_tail_settles:
  assumes "rc_phase c = Applying (cl_serial action)"
  shows "prepared_tail u action (n, ps, c) = Some (n', ps', c') \<Longrightarrow> pump_settled u (ps', c')"
    and "rc_next_start_attempt c \<noteq> - 1 \<Longrightarrow> prepared_tail u action (n, ps, c) \<noteq> None"
proof -
  obtain n1 ps1 c1 where fin: "finish_claim action ApplyPrepared (n, ps, c) = (n1, ps1, c1)" by (metis surj_pair)
  note f = finish_claim_phase [OF fin assms]
  obtain n2 ps2 c2 where com: "(if 0 \<le> pu_pending_seek u then commit_seek (n1, ps1, c1) else (n1, ps1, c1)) = (n2, ps2, c2)"
    by (metis surj_pair)
  have kept: "owner_kept c1 c2" using com commit_seek_keeps by (auto split: if_splits)
  have tail: "prepared_tail u action (n, ps, c) = reload (pu_reload u) (n2, ps2, c2)"
    unfolding prepared_tail_def fin Let_def com ..
  show "pump_settled u (ps', c')" if "prepared_tail u action (n, ps, c) = Some (n', ps', c')"
    using reload_settles(1) [OF that [unfolded tail]] f(1) kept by (auto simp: pump_settled_def owner_kept_def)
  show "prepared_tail u action (n, ps, c) \<noteq> None" if "rc_next_start_attempt c \<noteq> - 1"
    using reload_returns [of c2 "pu_reload u" ps2] that f(2) kept by (simp add: tail reload_def owner_kept_def)
qed

text \<open>The rollback of a trial that did not start.\<close>

lemma install_projection_keeps:
  "rp_tsession (install_route_projection p ps) = rp_tsession p"
  "ps_forced_direct (install_route_projection p ps) = ps_forced_direct ps"
  "ps_rk (install_route_projection p ps) = ps_rk ps" "ps_sid (install_route_projection p ps) = ps_sid ps"
  by (cases ps; cases p; simp add: install_route_projection_def route_projection.defs)+

lemma rollback_works:
  assumes "rc_pending_original c = Some p" "trial_serial (rc_phase c) \<noteq> None"
  obtains ps' c' pos where "rollback_original_recovery ps c = ((ps', c'), Some pos)"
    "rc_pending_original c' = None" "\<exists>s. rc_phase c' = Prepared s" "rc_next_start_attempt c' = rc_next_start_attempt c"
    "rp_tsession ps' = rp_tsession (po_previous p)" "ps_forced_direct ps' = ps_forced_direct ps"
    "ps_rk ps' = ps_rk ps" "ps_sid ps' = ps_sid ps"
proof -
  obtain ps' c' pos where r: "rollback_original_recovery ps c = ((ps', c'), Some pos)"
    using assms by (auto simp: rollback_original_recovery_def Let_def)
  have "rp_tsession ps' = rp_tsession (po_previous p)" "ps_forced_direct ps' = ps_forced_direct ps"
    "ps_rk ps' = ps_rk ps" "ps_sid ps' = ps_sid ps"
    using r assms by (auto simp: rollback_original_recovery_def install_projection_keeps Let_def)
  moreover have "rc_pending_original c' = None" "\<exists>s. rc_phase c' = Prepared s"
    "rc_next_start_attempt c' = rc_next_start_attempt c"
    using rollback_success [OF r] by metis+
  ultimately show thesis using that r by blast
qed

lemma failed_rollback:
  assumes "rc_pending_original c = Some p" "trial_serial (rc_phase c) \<noteq> None"
    and "prepare_failed_original_rollback client (ps, c) = ((ps', c'), out)"
  shows "rc_pending_original c' = None" "rc_next_start_attempt c' = rc_next_start_attempt c" "out \<noteq> NotPending"
    "out = RollbackPrepared pos \<Longrightarrow> \<exists>s. rc_phase c' = Prepared s"
    "out = RebaseFailed \<Longrightarrow> (\<exists>s. rc_phase c' = Failed s) \<or> ((\<exists>s. rc_phase c' = Prepared s) \<and>
       (ps_forced_direct ps \<or> rp_tsession (po_previous p) = [] \<or> client = None \<or> ps_rk ps' = []
        \<or> ps_sid ps' \<noteq> jellyfin_server_id))"
proof -
  obtain ps1 c1 pos1 where back1: "rollback_original_recovery ps c = ((ps1, c1), Some pos1)"
    "rc_pending_original c1 = None" "\<exists>s. rc_phase c1 = Prepared s" "rc_next_start_attempt c1 = rc_next_start_attempt c"
    "rp_tsession ps1 = rp_tsession (po_previous p)" "ps_forced_direct ps1 = ps_forced_direct ps"
    by (rule rollback_works [OF assms(1,2), of ps])
  obtain s where s: "rc_phase c1 = Prepared s" using back1(3) ..
  obtain ps2 c2 r where seek: "transcode_seek client (trunc_div pos1 1000000000) (ps1, c1) = ((ps2, c2), r)"
    by (metis surj_pair)
  have out: "ps' = ps2" "c' = c2" "out = (if r = None then RebaseFailed else RollbackPrepared pos1)"
    using assms(3) by (auto simp: prepare_failed_original_rollback_def back1(1) seek split: option.splits)
  show "out \<noteq> NotPending" by (simp add: out(3))
  show "rc_pending_original c' = None" "rc_next_start_attempt c' = rc_next_start_attempt c"
    using seek_refused(3,4) [of client _ ps1 c1] seek_done(6,7) [of client _ ps1 c1] seek back1(2,4)
    by (cases r; simp add: out(2))+
  show "\<exists>s. rc_phase c' = Prepared s" if "out = RollbackPrepared pos"
    using seek_done(8) [of client _ ps1 c1] seek that s by (cases r) (auto simp: out)
  show "(\<exists>s. rc_phase c' = Failed s) \<or> ((\<exists>s. rc_phase c' = Prepared s) \<and>
       (ps_forced_direct ps \<or> rp_tsession (po_previous p) = [] \<or> client = None \<or> ps_rk ps' = []
        \<or> ps_sid ps' \<noteq> jellyfin_server_id))" if "out = RebaseFailed"
  proof -
    have r: "r = None" using that out(3) by (cases r) auto
    note refused = seek_refused(5,6) [OF seek [unfolded r]]
    show ?thesis
    proof (cases "seek_possible client ps1")
      case True
      then show ?thesis using refused(1) s by (simp add: out(2))
    next
      case False
      then show ?thesis using refused(2) s back1(5,6) by (auto simp: out seek_possible_def)
    qed
  qed
qed

lemma trial_reload_settles:
  assumes "trial_begun c0 (ps, c)"
  shows "start_original_trial_reload u (n, ps, c) = Some (n', ps', c') \<Longrightarrow> pump_settled u (ps', c')"
    and "rc_next_start_attempt c0 \<noteq> - 1 \<Longrightarrow> rc_next_start_attempt c0 \<noteq> - 2 \<Longrightarrow>
           start_original_trial_reload u (n, ps, c) \<noteq> None"
proof -
  obtain serial p where p: "rc_phase c = OriginalTrial (TPrepared serial)" "rc_pending_original c = Some p"
    "rp_tsession (po_previous p) \<noteq> []" "\<not> ps_forced_direct ps" "rc_next_start_attempt c = rc_next_start_attempt c0"
    using assms by (auto simp: trial_begun_def)
  have failed: "trial_serial (rc_phase c1) \<noteq> None \<and> rc_pending_original c1 = Some p" if "same_trial c c1" for c1
    using that p by (simp add: same_trial_def trial_serial_def)
  show "pump_settled u (ps', c')" if run: "start_original_trial_reload u (n, ps, c) = Some (n', ps', c')"
  proof -
    obtain ps1 c1 out where r: "reload_at (pu_reload u) (ps, c) = Some ((ps1, c1), out)"
      using run by (auto simp: start_original_trial_reload_def split: option.splits)
    note spec = reload_spec [OF r]
    show ?thesis
    proof (cases "out = ReloadStarted")
      case True
      then show ?thesis using run r spec(4) by (simp add: start_original_trial_reload_def pump_settled_def)
    next
      case False
      obtain ps2 c2 prep where back1: "prepare_failed_original_rollback (pu_client u) (ps1, c1) = ((ps2, c2), prep)"
        by (metis surj_pair)
      have t: "trial_serial (rc_phase c1) \<noteq> None" "rc_pending_original c1 = Some p" using failed [OF spec(2)] by auto
      note rolled = failed_rollback [OF t(2,1) back1]
      have run': "(case prep of RollbackPrepared _ \<Rightarrow> reload (pu_rollback_reload u) (n, ps2, c2) | _ \<Rightarrow> Some (n, ps2, c2))
          = Some (n', ps', c')"
        using run r False back1 by (cases out; cases prep) (simp_all add: start_original_trial_reload_def)
      show ?thesis
      proof (cases prep)
        case NotPending
        then show ?thesis using rolled(3) by simp
      next
        case RebaseFailed
        then have "ps' = ps2" "c' = c2" using run' by simp_all
        then show ?thesis using rolled(1,5) RebaseFailed p(3,4) spec(1) by (auto simp: pump_settled_def)
      next
        case (RollbackPrepared pos)
        then show ?thesis using reload_settles(1) rolled(4) run' by (simp add: pump_settled_def) blast
      qed
    qed
  qed
  show "start_original_trial_reload u (n, ps, c) \<noteq> None"
    if count: "rc_next_start_attempt c0 \<noteq> - 1" "rc_next_start_attempt c0 \<noteq> - 2"
  proof
    assume none: "start_original_trial_reload u (n, ps, c) = None"
    obtain ps1 c1 out where r: "reload_at (pu_reload u) (ps, c) = Some ((ps1, c1), out)"
      using reload_returns [of c "pu_reload u" ps] count(1) p(5) by auto
    note spec = reload_spec [OF r]
    obtain ps2 c2 prep where back1: "prepare_failed_original_rollback (pu_client u) (ps1, c1) = ((ps2, c2), prep)"
      by (metis surj_pair)
    have t: "trial_serial (rc_phase c1) \<noteq> None" "rc_pending_original c1 = Some p" using failed [OF spec(2)] by auto
    have "rc_next_start_attempt c2 \<noteq> - 1"
      using failed_rollback(2) [OF t(2,1) back1] spec(3) p(5) count
        eq_neg_iff_add_eq_0 [of "rc_next_start_attempt c0" 2] by (auto simp: add.commute)
    then have "reload (pu_rollback_reload u) (n, ps2, c2) \<noteq> None"
      using reload_returns [of c2 "pu_rollback_reload u" ps2] by (simp add: reload_def)
    then show False using none r back1
      by (cases out; cases prep) (simp_all add: start_original_trial_reload_def)
  qed
qed

text \<open>What each branch of the pump owes: it returns, and it settles.\<close>

definition branch_settles :: "pump_input \<Rightarrow> player_control \<Rightarrow> handoff_state option \<Rightarrow> bool" where
  "branch_settles u c r \<longleftrightarrow>
     (rc_next_start_attempt c \<noteq> - 1 \<longrightarrow> rc_next_start_attempt c \<noteq> - 2 \<longrightarrow> r \<noteq> None)
     \<and> (\<forall>n' ps' c'. r = Some (n', ps', c') \<longrightarrow> pump_settled u (ps', c'))"

lemma prepared_branch:
  "rc_phase c1 = Applying (cl_serial action) \<Longrightarrow> rc_next_start_attempt c1 = rc_next_start_attempt c \<Longrightarrow>
   branch_settles u c (prepared_tail u action (n, ps, c1))"
  using prepared_tail_settles [of c1 action u n ps] by (simp add: branch_settles_def)

lemma trial_branch:
  assumes "trial_begun c (ps, c1)"
  shows "branch_settles u c (original_tail u (n, ps, c1))"
proof -
  obtain n2 ps2 c2 where com: "commit_seek (n, ps, c1) = (n2, ps2, c2)" by (metis surj_pair)
  have "trial_begun c (ps2, c2)"
    using commit_seek_keeps [OF com] assms by (auto simp: trial_begun_def owner_kept_def)
  from trial_reload_settles [OF this, of u n2] show ?thesis
    by (simp add: branch_settles_def original_tail_def com)
qed

lemma rejected_branch:
  assumes "rc_phase c1 = Applying (cl_serial action)"
  shows "branch_settles u c (Some (rejected_tail action (n, ps, c1)))"
proof -
  obtain n2 ps2 c2 where fin: "finish_claim action Rejected (n, ps, c1) = (n2, ps2, c2)" by (metis surj_pair)
  then show ?thesis using finish_claim_phase(1) [OF fin assms]
    by (simp add: branch_settles_def rejected_tail_def pump_settled_def)
qed

lemma cancelled_branch:
  assumes "rc_phase c1 = Applying (cl_serial action)"
  shows "branch_settles u c (Some (finish_claim action Cancelled (n, ps, c1)))"
proof -
  obtain n2 ps2 c2 where fin: "finish_claim action Cancelled (n, ps, c1) = (n2, ps2, c2)" by (metis surj_pair)
  then show ?thesis using finish_claim_phase(1) [OF fin assms]
    by (simp add: branch_settles_def pump_settled_def)
qed

lemma tail_branch:
  assumes "rc_phase c = Applying (cl_serial action)" and "tail_left c (ps1, c1) tail"
  shows "branch_settles u c (run_claim_tail u action tail (n, ps1, c1))"
  using assms by (cases tail)
    (auto simp: run_claim_tail_def tail_left_def owner_kept_def route_kept_def
      intro: prepared_branch trial_branch rejected_branch)

text \<open>A finished claim whose reload follows the committed seek.\<close>

lemma finished_reload_branch:
  assumes "rc_phase c1 = Applying (cl_serial action)" "rc_next_start_attempt c1 = rc_next_start_attempt c"
  shows "branch_settles u c (reload (pu_reload u) (commit_seek (finish_claim action result (n, ps, c1))))"
proof -
  obtain n2 ps2 c2 where fin: "finish_claim action result (n, ps, c1) = (n2, ps2, c2)" by (metis surj_pair)
  note f = finish_claim_phase [OF fin assms(1)]
  obtain n3 ps3 c3 where com: "commit_seek (n2, ps2, c2) = (n3, ps3, c3)" by (metis surj_pair)
  have kept: "owner_kept c2 c3" using commit_seek_keeps [OF com] by simp
  have phase: "(\<exists>s. rc_phase c3 = Prepared s) \<or> rc_phase c3 = Stable" using f(1) kept by (auto simp: owner_kept_def)
  have "reload (pu_reload u) (n3, ps3, c3) \<noteq> None" if "rc_next_start_attempt c \<noteq> - 1"
    using reload_returns [of c3 "pu_reload u" ps3] that f(2) kept assms(2) by (simp add: reload_def owner_kept_def)
  moreover have "pump_settled u (ps', c')" if "reload (pu_reload u) (n3, ps3, c3) = Some (n', ps', c')" for n' ps' c'
    using reload_settles [OF that] phase by (auto simp: pump_settled_def)
  ultimately show ?thesis by (simp add: branch_settles_def fin com)
qed

lemma honour_pick_keeps:
  "\<exists>ps1. honour_displaced_pick i b (n, ps, c) = (n, ps1, c)"
  by (simp add: honour_displaced_pick_def split: option.split)

lemma adaptive_branch:
  assumes "rc_phase c = Applying (cl_serial action)"
  shows "branch_settles u c (adaptive_claim u action (n, ps, c))"
proof (cases "is_transcoding ps")
  case False
  obtain ps1 where "honour_displaced_pick (pu_desired_audio u) (cl_displaced_pick action) (n, ps, c) = (n, ps1, c)"
    using honour_pick_keeps by blast
  then show ?thesis using False assms prepared_branch by (simp add: adaptive_claim_def)
next
  case True
  obtain ps1 c1 r where seek: "transcode_seek (pu_client u) (user_target u div 1000000000) (ps, c) = ((ps1, c1), r)"
    by (metis surj_pair)
  obtain ps2 where h: "honour_displaced_pick (pu_desired_audio u) (cl_displaced_pick action) (n, ps1, c1) = (n, ps2, c1)"
    using honour_pick_keeps by blast
  have kept: "rc_phase c1 = Applying (cl_serial action) \<and> rc_next_start_attempt c1 = rc_next_start_attempt c"
  proof (cases r)
    case None
    note refused = seek_refused(4,5,6) [OF seek [unfolded None]]
    show ?thesis using refused assms by (cases "seek_possible (pu_client u) ps") auto
  next
    case (Some url)
    show ?thesis using seek_done(7,8) [OF seek [unfolded Some]] assms by simp
  qed
  show ?thesis
  proof (cases r)
    case None
    then have "adaptive_claim u action (n, ps, c) = Some (rejected_tail action (n, ps2, c1))"
      using True seek h by (simp add: adaptive_claim_def)
    then show ?thesis using rejected_branch kept by simp
  next
    case (Some url)
    then have "adaptive_claim u action (n, ps, c) = prepared_tail u action (n, ps2, c1)"
      using True seek h by (simp add: adaptive_claim_def)
    then show ?thesis using prepared_branch kept by simp
  qed
qed

lemma user_branch:
  assumes "rc_phase c = Applying (cl_serial action)"
  shows "branch_settles u c (user_claim u action intent (n, ps, c))"
proof (cases intent)
  case Retranscode
  obtain n1 ps1 c1 tail where ex: "execute_retranscode_claim (pu_viewer u) (pu_client u) action
      (user_target u div 1000000000) (n, ps, c) = ((n1, ps1, c1), tail)" by (metis surj_pair)
  show ?thesis using tail_branch [OF assms execute_tail [OF ex]] by (simp add: user_claim_def Retranscode ex)
next
  case NativeAudioReload
  obtain ps1 where "honour_displaced_pick (pu_desired_audio u) (cl_displaced_pick action) (n, ps, c) = (n, ps1, c)"
    using honour_pick_keeps by blast
  then show ?thesis using assms prepared_branch by (simp add: user_claim_def NativeAudioReload)
next
  case AdaptiveReload
  then show ?thesis using adaptive_branch [OF assms] by (simp add: user_claim_def)
next
  case (RecoverOriginal cause)
  obtain n1 ps1 c1 tail where ex: "execute_recover_original_claim (pu_viewer u) (pu_client u) action
      (user_target u div 1000000000) cause (n, ps, c) = ((n1, ps1, c1), tail)" by (metis surj_pair)
  show ?thesis using tail_branch [OF assms execute_recover_tail [OF ex]] by (simp add: user_claim_def RecoverOriginal ex)
qed

lemma install_hls_kept:
  assumes "install_auto_hls cl t rung off vis (n, ps, c) = ((n', ps', c'), r)"
  shows "owner_kept c c'"
  using assms
  by (auto simp: install_auto_hls_def Let_def replace_active_hls_for_def owner_kept_def
      split: if_splits prod.splits option.splits dest!: retranscode_kept(1))

lemma fallback_hls_kept:
  assumes "fallback_auto_to_hls_for v cl t kbps off (n, ps, c) = ((n', ps', c'), r)"
  shows "owner_kept c c'"
  using assms by (auto simp: fallback_auto_to_hls_for_def Let_def split: if_splits dest: install_hls_kept)

lemma automatic_branch:
  assumes "rc_phase c = Applying (cl_serial action)"
  shows "branch_settles u c (automatic_claim u action intent (n, ps, c))"
proof (cases intent)
  case (OriginalToHls ticket kbps pos)
  obtain n1 ps1 c1 r where fb: "fallback_auto_to_hls_for (pu_viewer u) (pu_client u) (cl_ticket action) kbps
      (max 0 pos div 1000000000) (n, ps, c) = ((n1, ps1, c1), r)" by (metis surj_pair)
  have kept: "rc_phase c1 = Applying (cl_serial action)" "rc_next_start_attempt c1 = rc_next_start_attempt c"
    using fallback_hls_kept [OF fb] assms by (simp_all add: owner_kept_def)
  show ?thesis
    using cancelled_branch [OF assms] finished_reload_branch [OF kept] rejected_branch [OF kept(1)]
    by (cases r) (simp_all add: automatic_claim_def OriginalToHls fb rejected_tail_def)
next
  case (HlsToOriginal ticket kbps pos)
  obtain ps1 c1 ok where rec: "recover_auto_to_original_for (pu_viewer u) (cl_ticket action)
      (max 0 pos div 1000000000) Automatic (ps, c) = ((ps1, c1), ok)" by (metis surj_pair)
  show ?thesis
  proof (cases ok)
    case True
    then show ?thesis using cancelled_branch [OF assms] trial_branch [OF recover_begins_trial] rec
      by (simp add: automatic_claim_def HlsToOriginal original_tail_def)
  next
    case False
    then have "route_kept c c1" using recover_refused rec by simp
    then have kept: "rc_phase c1 = Applying (cl_serial action)" "rc_next_start_attempt c1 = rc_next_start_attempt c"
      using assms by (simp_all add: route_kept_def owner_kept_def)
    show ?thesis using cancelled_branch [OF assms] finished_reload_branch [OF kept] False rec
      by (simp add: automatic_claim_def HlsToOriginal)
  qed
qed

lemma claim_outcome:
  assumes "claim_route_action c = (c', r)"
  shows "rc_next_start_attempt c' = rc_next_start_attempt c"
    "r = None \<Longrightarrow> rc_phase c' = rc_phase c" "\<And>a. r = Some a \<Longrightarrow> rc_phase c' = Applying (cl_serial a)"
  using assms
  by (auto simp: claim_route_action_def Let_def split: if_splits option.splits)

text \<open>
  C5. The pump never leaves a claim half done. From a stable route it returns unless the attempt counter is
  about to be exhausted, whatever the claim, the server, the native side and the viewer do; and it ends
  stable, with a load in flight or failed. The one other end is a failed trial that cannot be rebased
  for want of an item, its server or a client: it is prepared, with no trial pending.
\<close>

theorem pump_claim_settles:
  assumes "rc_phase c = Stable"
  shows "(rc_next_start_attempt c \<noteq> - 1 \<longrightarrow> rc_next_start_attempt c \<noteq> - 2 \<longrightarrow>
        (\<exists>n' ps' c'. pump_claim u (n, ps, c) = Some (n', ps', c')))
    \<and> (\<forall>n' ps' c'. pump_claim u (n, ps, c) = Some (n', ps', c') \<longrightarrow>
        rc_phase c' = Stable \<or> in_flight (rc_phase c') \<noteq> None \<or> (\<exists>s. rc_phase c' = Failed s)
        \<or> ((\<exists>s. rc_phase c' = Prepared s) \<and> rc_pending_original c' = None
           \<and> (pu_client u = None \<or> ps_rk ps' = [] \<or> ps_sid ps' \<noteq> jellyfin_server_id)))"
proof -
  obtain c1 r where cl: "claim_route_action c = (c1, r)" by (metis surj_pair)
  note out = claim_outcome [OF cl]
  have "branch_settles u c (pump_claim u (n, ps, c))"
  proof (cases r)
    case None
    then show ?thesis using out(2) assms by (simp add: pump_claim_def cl branch_settles_def pump_settled_def)
  next
    case (Some action)
    note phase = out(3) [OF Some]
    have "branch_settles u c1 (pump_claim u (n, ps, c))"
      using user_branch [OF phase, of u _ n ps] automatic_branch [OF phase, of u _ n ps]
      by (simp add: pump_claim_def cl Some split: route_intent.split)
    then show ?thesis using out(1) by (simp add: branch_settles_def)
  qed
  then show ?thesis by (simp add: branch_settles_def pump_settled_def)
qed

theorem pump_claim_settles_witness:
  "\<exists>n' ps' c'. pump_claim \<lparr>pu_viewer = example_viewer, pu_client = Some example_client, pu_pending_seek = -1,
      pu_playpos = 0, pu_desired_audio = 0, pu_reload = example_faults, pu_rollback_reload = example_faults\<rparr>
      (0, example_session, example_control\<lparr>rc_pending_user := Some AdaptiveReload\<rparr>) = Some (n', ps', c')"
  by (rule pump_claim_settles [THEN conjunct1, rule_format])
    (simp_all add: example_control_def player_control_init_def)

lemma fail_engine_fails:
  assumes "rc_phase c = Stable \<or> in_flight (rc_phase c) \<noteq> None \<or> trial_serial (rc_phase c) \<noteq> None
      \<or> (\<exists>s. rc_phase c = Prepared s) \<or> (\<exists>s. rc_phase c = Failed s)"
  shows "\<exists>s. rc_phase (fail_current_engine c) = Failed s"
    and "rc_pending_original (fail_current_engine c) = rc_pending_original c"
  using assms
  by (cases "rc_phase c" rule: phase_serial.cases;
      auto simp: fail_current_engine_def in_flight_def trial_serial_def Let_def)+

lemma reload_over:
  assumes "reload_at f (ps, c) = Some ((ps', c'), out)" "rc_pending_original c = None" "trial_serial (rc_phase c) = None"
    and "rc_phase c = Stable \<or> in_flight (rc_phase c) \<noteq> None \<or> (\<exists>s. rc_phase c = Prepared s)"
  shows "rc_pending_original c' = None" "trial_serial (rc_phase c') = None"
    "in_flight (rc_phase c') \<noteq> None \<or> (\<exists>s. rc_phase c' = Failed s) \<or> (rc_phase c' = Stable \<and> rp_url ps' = [])"
proof -
  note spec = reload_spec [OF assms(1)]
  show "rc_pending_original c' = None" "trial_serial (rc_phase c') = None"
    using spec(2) assms(2,3) by (simp_all add: same_trial_def)
  have flight: "pending_route_start c \<noteq> None" if "in_flight (rc_phase c) \<noteq> None"
    using that by (cases "rc_phase c" rule: phase_serial.cases) (auto simp: in_flight_def pending_route_start_def)
  show "in_flight (rc_phase c') \<noteq> None \<or> (\<exists>s. rc_phase c' = Failed s) \<or> (rc_phase c' = Stable \<and> rp_url ps' = [])"
  proof (cases "out = ReloadStarted")
    case False
    from spec(5) [OF this] show ?thesis
    proof
      assume "reload_left (rc_phase c) (rc_phase c')"
      then show ?thesis using assms(3,4) by (auto simp: reload_left_def start_failed_phase_def in_flight_def)
    next
      assume "c' = c \<and> pending_route_start c = None \<and> (rp_url ps = [] \<or> rc_phase c \<noteq> Stable)"
      then show ?thesis using assms(4) flight spec(1) by (auto simp: pending_route_start_def)
    qed
  qed (use spec(4) in simp)
qed

text \<open>
  C9. A source that fails under a playing, starting or trial engine ends every trial: nothing of it stays
  pending, and the playback is either loading again, from the restored route or from the fallback, or
  failed; it is only left alone when the fallback was given no address to load.
\<close>

theorem failed_source_ends_the_trial:
  assumes "source_failed v client no_frames playpos f (n, ps, c) = Some (n', ps', c')"
    and "route_inv c"
    and "rc_phase c = Stable \<or> in_flight (rc_phase c) \<noteq> None \<or> trial_serial (rc_phase c) \<noteq> None"
  shows "rc_pending_original c' = None \<and> trial_serial (rc_phase c') = None
    \<and> (in_flight (rc_phase c') \<noteq> None \<or> (\<exists>s. rc_phase c' = Failed s) \<or> (rc_phase c' = Stable \<and> rp_url ps' = []))"
proof -
  have inv: "rc_pending_original c = None \<longleftrightarrow> trial_serial (rc_phase c) = None"
    using assms(2) by (simp add: route_inv_def)
  obtain n1 ps1 c1 r where rec: "recover_failed_source_route v client no_frames playpos (n, ps, c) = ((n1, ps1, c1), r)"
    by (metis surj_pair)
  have state: "rc_pending_original c1 = None \<and> trial_serial (rc_phase c1) = None
      \<and> (rc_phase c1 = Stable \<or> in_flight (rc_phase c1) \<noteq> None \<or> (\<exists>s. rc_phase c1 = Prepared s)
         \<or> (r = None \<and> (\<exists>s. rc_phase c1 = Failed s)))"
  proof (cases "rc_pending_original c")
    case (Some p)
    obtain t prep where back1: "prepare_failed_original_rollback client (ps, c) = (t, prep)" by (metis surj_pair)
    have out: "t = (ps1, c1)" "r = (case prep of RollbackPrepared pos \<Rightarrow> Some pos | _ \<Rightarrow> None)"
      using rec back1 Some by (auto simp: recover_failed_source_route_def open_failure_action_def
          original_recovery_pending_def split: rollback_preparation.splits)
    have trial: "trial_serial (rc_phase c) \<noteq> None" using inv Some by simp
    note rolled = failed_rollback [OF Some trial back1 [unfolded out(1)]]
    show ?thesis
    proof (cases prep)
      case NotPending
      then show ?thesis using rolled(3) by simp
    next
      case RebaseFailed
      then show ?thesis using rolled(1,5) out(2) by (auto simp: trial_serial_def)
    next
      case (RollbackPrepared pos)
      then show ?thesis using rolled(1,4) by (auto simp: trial_serial_def)
    qed
  next
    case None
    have "owner_kept c c1"
    proof (cases "auto_original_watched ps c \<and> no_frames")
      case True
      obtain n2 ps2 c2 url where fb: "fallback_unopened_auto_to_hls v client (max 0 (trunc_div playpos 1000000000)) (n, ps, c)
          = ((n2, ps2, c2), url)" by (metis surj_pair)
      have "owner_kept c c2"
        using fb by (auto simp: fallback_unopened_auto_to_hls_def Let_def split: if_splits dest: install_hls_kept)
      then show ?thesis using rec fb None True
        by (simp add: recover_failed_source_route_def open_failure_action_def original_recovery_pending_def Let_def
            split: option.splits)
    next
      case False
      then show ?thesis using rec None
        by (auto simp: recover_failed_source_route_def open_failure_action_def original_recovery_pending_def)
    qed
    then show ?thesis using None inv assms(3) by (auto simp: owner_kept_def)
  qed
  show "rc_pending_original c' = None \<and> trial_serial (rc_phase c') = None \<and>
    (in_flight (rc_phase c') \<noteq> None \<or> (\<exists>s. rc_phase c' = Failed s) \<or> (rc_phase c' = Stable \<and> rp_url ps' = []))"
  proof (cases r)
    case None
    then have "c' = fail_current_engine c1" using assms(1) rec by (simp add: source_failed_def)
    then show ?thesis using fail_engine_fails [of c1] state by (auto simp: trial_serial_def)
  next
    case (Some pos)
    then obtain out where "reload_at f (ps1, c1) = Some ((ps', c'), out)"
      using assms(1) rec by (auto simp: source_failed_def)
    from reload_over [OF this] state Some show ?thesis by auto
  qed
qed

theorem failed_source_ends_the_trial_witness:
  "\<exists>n' ps' c'. source_failed example_viewer None True 0 example_faults (0, example_session,
      player_control_init\<lparr>rc_next_action := 1, rc_phase := OriginalTrial (TAwaitingFrame 1),
        rc_pending_original := Some (snapshot_route example_session ''e'' 7)\<rparr>) = Some (n', ps', c')
    \<and> rc_pending_original c' = None"
proof -
  let ?c = "player_control_init\<lparr>rc_next_action := 1, rc_phase := OriginalTrial (TAwaitingFrame 1),
        rc_pending_original := Some (snapshot_route example_session ''e'' 7)\<rparr>"
  have inv: "route_inv ?c" and trial: "trial_serial (rc_phase ?c) \<noteq> None"
    by (simp_all add: route_inv_def player_control_init_def in_flight_def trial_serial_def)
  obtain t where "prepare_failed_original_rollback None (example_session, ?c) = (t, RebaseFailed)"
    by (simp add: prepare_failed_original_rollback_def rollback_original_recovery_def trial_serial_def Let_def
        transcode_seek_possible seek_possible_def)
  then have "\<exists>n' ps' c'. source_failed example_viewer None True 0 example_faults (0, example_session, ?c) = Some (n', ps', c')"
    by (cases t) (simp add: source_failed_def recover_failed_source_route_def original_recovery_pending_def
        open_failure_action_def Let_def)
  then show ?thesis using failed_source_ends_the_trial [OF _ inv] trial by blast
qed

end
