(* ===== verification/Foreground.thy ===== *)
theory Foreground
  imports Start
begin

text \<open>
  Leaving the app and coming back (\<open>app/lifecycle.rs\<close>): the machine that keeps a suspended playback, hands
  out its effects one at a time, follows the exact load it launched, and remembers whether the viewer
  wants the clock to run. The effects are those of an actuator; the one of the player works on the
  session, the route owner and the engine slot.
\<close>

section \<open>The machine\<close>

datatype foreground_input = DidForeground | PlayKey

datatype foreground_clock = ClockPaused | ClockPlaying

definition from_paused :: "bool \<Rightarrow> foreground_clock" where
  "from_paused paused = (if paused then ClockPaused else ClockPlaying)"

definition transport_target :: "bool option \<Rightarrow> bool \<Rightarrow> bool" where
  "transport_target play paused =
     (case play of Some True \<Rightarrow> False | Some False \<Rightarrow> True | None \<Rightarrow> \<not> paused)"

text \<open>A preparation holds the saved position and clock, and the position and clock to resume with.\<close>

datatype foreground_claim =
    ClaimPrepare int foreground_clock int foreground_clock
  | ClaimLoad int foreground_clock
  | ClaimPlayClock

datatype 'a foreground_state =
    FgIdle
  | FgSuspended u64 int foreground_clock
  | FgClaimed u64 foreground_claim
  | FgPrepared u64 int foreground_clock
  | FgLoadPending u64 'a int foreground_clock
  | FgClockPending u64

record 'a foreground_lifecycle =
  fl_state :: "'a foreground_state"
  fl_next_id :: u64

definition foreground_idle :: "'a foreground_lifecycle" where
  "foreground_idle = \<lparr>fl_state = FgIdle, fl_next_id = 0\<rparr>"

datatype foreground_effect =
    EffectPrepare u64 int
  | EffectLoad u64 int foreground_clock
  | EffectPlayClock u64

datatype foreground_claim_result = ClaimOrdinary | ClaimSuppressed | ClaimEffect foreground_effect

definition RESUME_REWIND_NS :: int where "RESUME_REWIND_NS = 5000000000"

definition suspend :: "int \<Rightarrow> foreground_clock \<Rightarrow> 'a foreground_lifecycle \<Rightarrow> 'a foreground_lifecycle" where
  "suspend saved_ns clock l =
     (let i = (if fl_next_id l + 1 = 0 then 1 else fl_next_id l + 1)
      in \<lparr>fl_state = FgSuspended i saved_ns clock, fl_next_id = i\<rparr>)"

definition clock_for_suspend :: "bool \<Rightarrow> 'a foreground_lifecycle \<Rightarrow> foreground_clock" where
  "clock_for_suspend transport_paused l =
     (case fl_state l of
        FgClockPending _ \<Rightarrow> ClockPlaying
      | FgClaimed _ ClaimPlayClock \<Rightarrow> ClockPlaying
      | FgLoadPending _ _ _ clock \<Rightarrow> clock
      | _ \<Rightarrow> from_paused transport_paused)"

definition awaiting_load :: "'a foreground_lifecycle \<Rightarrow> bool" where
  "awaiting_load l =
     (case fl_state l of
        FgSuspended _ _ _ \<Rightarrow> True
      | FgPrepared _ _ _ \<Rightarrow> True
      | FgClaimed _ (ClaimPrepare _ _ _ _) \<Rightarrow> True
      | FgClaimed _ (ClaimLoad _ _) \<Rightarrow> True
      | _ \<Rightarrow> False)"

definition discard_started_state :: "'a foreground_lifecycle \<Rightarrow> 'a foreground_lifecycle" where
  "discard_started_state l =
     (case fl_state l of
        FgClockPending _ \<Rightarrow> l\<lparr>fl_state := FgIdle\<rparr>
      | FgClaimed _ ClaimPlayClock \<Rightarrow> l\<lparr>fl_state := FgIdle\<rparr>
      | _ \<Rightarrow> l)"

definition replace_with_new_playback :: "'a foreground_lifecycle \<Rightarrow> 'a foreground_lifecycle \<times> bool" where
  "replace_with_new_playback l = (if \<not> awaiting_load l then (l, False) else (l\<lparr>fl_state := FgIdle\<rparr>, True))"

definition resume_position :: "int \<Rightarrow> foreground_clock \<Rightarrow> int" where
  "resume_position saved_ns saved_clock =
     (if saved_clock = ClockPaused then saved_ns else max 0 (sat_i64 (saved_ns - RESUME_REWIND_NS)))"

definition claim_foreground ::
    "foreground_input \<Rightarrow> 'a foreground_lifecycle \<Rightarrow> 'a foreground_lifecycle \<times> foreground_claim_result" where
  "claim_foreground input l =
     (case fl_state l of
        FgIdle \<Rightarrow> (l, ClaimOrdinary)
      | FgSuspended i saved_ns saved_clock \<Rightarrow>
          let clock = (if input = PlayKey then ClockPlaying else saved_clock);
              resume_ns = resume_position saved_ns saved_clock
          in (l\<lparr>fl_state := FgClaimed i (ClaimPrepare saved_ns saved_clock resume_ns clock)\<rparr>,
              ClaimEffect (EffectPrepare i resume_ns))
      | FgPrepared i resume_ns clock \<Rightarrow>
          let clock = (if input = PlayKey then ClockPlaying else clock)
          in (l\<lparr>fl_state := FgClaimed i (ClaimLoad resume_ns clock)\<rparr>, ClaimEffect (EffectLoad i resume_ns clock))
      | FgClockPending i \<Rightarrow>
          if input = PlayKey
          then (l\<lparr>fl_state := FgClaimed i ClaimPlayClock\<rparr>, ClaimEffect (EffectPlayClock i))
          else (l, ClaimSuppressed)
      | FgClaimed _ _ \<Rightarrow> (l, ClaimSuppressed)
      | FgLoadPending _ _ _ _ \<Rightarrow> (l, ClaimSuppressed))"

definition finish_prepare :: "u64 \<Rightarrow> bool \<Rightarrow> 'a foreground_lifecycle \<Rightarrow> 'a foreground_lifecycle \<times> foreground_effect option" where
  "finish_prepare i prepared l =
     (case fl_state l of
        FgClaimed owner (ClaimPrepare saved_ns saved_clock resume_ns clock) \<Rightarrow>
          if owner \<noteq> i then (l, None)
          else if \<not> prepared then (l\<lparr>fl_state := FgSuspended i saved_ns saved_clock\<rparr>, None)
          else (l\<lparr>fl_state := FgClaimed i (ClaimLoad resume_ns clock)\<rparr>, Some (EffectLoad i resume_ns clock))
      | _ \<Rightarrow> (l, None))"

definition finish_load_launch :: "u64 \<Rightarrow> 'a \<Rightarrow> 'a foreground_lifecycle \<Rightarrow> 'a foreground_lifecycle \<times> bool" where
  "finish_load_launch i attempt l =
     (case fl_state l of
        FgClaimed owner (ClaimLoad resume_ns clock) \<Rightarrow>
          if owner \<noteq> i then (l, False) else (l\<lparr>fl_state := FgLoadPending i attempt resume_ns clock\<rparr>, True)
      | _ \<Rightarrow> (l, False))"

definition finish_load_refusal :: "u64 \<Rightarrow> 'a foreground_lifecycle \<Rightarrow> 'a foreground_lifecycle \<times> bool" where
  "finish_load_refusal i l =
     (case fl_state l of
        FgClaimed owner (ClaimLoad resume_ns clock) \<Rightarrow>
          if owner \<noteq> i then (l, False) else (l\<lparr>fl_state := FgPrepared i resume_ns clock\<rparr>, True)
      | _ \<Rightarrow> (l, False))"

definition finish_load_terminal :: "u64 \<Rightarrow> 'a foreground_lifecycle \<Rightarrow> 'a foreground_lifecycle \<times> bool" where
  "finish_load_terminal i l =
     (case fl_state l of
        FgClaimed owner (ClaimLoad resume_ns clock) \<Rightarrow>
          if owner \<noteq> i then (l, False) else (l\<lparr>fl_state := FgIdle\<rparr>, True)
      | _ \<Rightarrow> (l, False))"

definition pending_load_attempt :: "'a foreground_lifecycle \<Rightarrow> 'a option" where
  "pending_load_attempt l = (case fl_state l of FgLoadPending _ attempt _ _ \<Rightarrow> Some attempt | _ \<Rightarrow> None)"

datatype 'a foreground_load_status =
    LoadPending | LoadStarted | LoadFailed | LoadSuperseded 'a | LoadStale

datatype foreground_load_settlement =
    SettleInactive | SettlePending | SettleFinished foreground_clock bool "foreground_effect option"

definition settle_load ::
    "'a \<Rightarrow> 'a foreground_load_status \<Rightarrow> 'a foreground_lifecycle \<Rightarrow>
     'a foreground_lifecycle \<times> foreground_load_settlement" where
  "settle_load attempt status l =
     (case fl_state l of
        FgLoadPending i owner resume_ns clock \<Rightarrow>
          if owner \<noteq> attempt then (l, SettleInactive)
          else
            (case status of
               LoadPending \<Rightarrow> (l, SettlePending)
             | LoadSuperseded replacement \<Rightarrow>
                 (l\<lparr>fl_state := FgLoadPending i replacement resume_ns clock\<rparr>, SettlePending)
             | LoadFailed \<Rightarrow> (l\<lparr>fl_state := FgPrepared i resume_ns clock\<rparr>, SettleFinished clock False None)
             | LoadStale \<Rightarrow> (l\<lparr>fl_state := FgIdle\<rparr>, SettleFinished clock False None)
             | LoadStarted \<Rightarrow>
                 if clock = ClockPaused then (l\<lparr>fl_state := FgIdle\<rparr>, SettleFinished clock True None)
                 else (l\<lparr>fl_state := FgClaimed i ClaimPlayClock\<rparr>,
                       SettleFinished clock True (Some (EffectPlayClock i))))
      | _ \<Rightarrow> (l, SettleInactive))"

definition finish_clock :: "u64 \<Rightarrow> bool \<Rightarrow> 'a foreground_lifecycle \<Rightarrow> 'a foreground_lifecycle" where
  "finish_clock i accepted l =
     (if fl_state l = FgClaimed i ClaimPlayClock
      then l\<lparr>fl_state := (if accepted then FgIdle else FgClockPending i)\<rparr> else l)"

section \<open>Driving it\<close>

datatype 'a foreground_load_start = LoadAlreadyRunning | LoadLaunched 'a | LoadRefused | LoadTerminal

datatype foreground_activation = ActivationOrdinary | ActivationHandled | ActivationLaunched

datatype foreground_poll_outcome = PollInactive | PollPending | PollStarted | PollFailed

text \<open>An actuator is a state of its own and the calls on it; only the launch of a load can panic.\<close>

record ('w, 'a) foreground_actuator =
  fa_prepare_resume :: "int \<Rightarrow> 'w \<Rightarrow> 'w \<times> resume_outcome"
  fa_before_load :: "int \<Rightarrow> foreground_clock \<Rightarrow> 'w \<Rightarrow> 'w"
  fa_start_load :: "'w \<Rightarrow> ('w \<times> 'a foreground_load_start) option"
  fa_load_status :: "'a \<Rightarrow> 'w \<Rightarrow> 'w \<times> 'a foreground_load_status"
  fa_after_load :: "'a option \<Rightarrow> foreground_clock \<Rightarrow> bool \<Rightarrow> 'w \<Rightarrow> 'w"
  fa_play_clock :: "'w \<Rightarrow> 'w \<times> bool"

text \<open>The loop over the effects; a preparation is followed by at most a load.\<close>

function (sequential) drive_effects ::
    "('w, 'a) foreground_actuator \<Rightarrow> foreground_effect option \<Rightarrow> bool \<Rightarrow> 'a foreground_lifecycle \<times> 'w \<Rightarrow>
     (('a foreground_lifecycle \<times> 'w) \<times> bool) option" where
  "drive_effects act None launched s = Some (s, launched)"
| "drive_effects act (Some (EffectPrepare i resume_ns)) launched (l, w) =
     (let (w, outcome) = fa_prepare_resume act resume_ns w;
          (l, effect) = finish_prepare i (outcome = ResumePrepared) l
      in drive_effects act effect launched (l, w))"
| "drive_effects act (Some (EffectLoad i resume_ns clock)) launched (l, w) =
     (case fa_start_load act (fa_before_load act resume_ns clock w) of
        None \<Rightarrow> None
      | Some (w, LoadLaunched attempt) \<Rightarrow>
          let (l, ok) = finish_load_launch i attempt l in drive_effects act None (launched \<or> ok) (l, w)
      | Some (w, LoadRefused) \<Rightarrow>
          drive_effects act None launched (fst (finish_load_refusal i l), fa_after_load act None clock False w)
      | Some (w, _) \<Rightarrow>
          drive_effects act None launched (fst (finish_load_terminal i l), fa_after_load act None clock False w))"
| "drive_effects act (Some (EffectPlayClock i)) launched (l, w) =
     (let (w, accepted) = fa_play_clock act w in drive_effects act None launched (finish_clock i accepted l, w))"
  by pat_completeness auto

fun effects_left :: "foreground_effect option \<Rightarrow> nat" where
  "effects_left None = 0"
| "effects_left (Some (EffectPrepare _ _)) = 2"
| "effects_left (Some _) = 1"

lemma finish_prepare_effect: "finish_prepare i b l = (l', e) \<Longrightarrow> effects_left e \<le> 1"
  by (auto simp: finish_prepare_def split: foreground_state.splits foreground_claim.splits if_splits)

termination drive_effects
  by (relation "measure (\<lambda>(act, e, launched, s). effects_left e)")
    (auto dest!: finish_prepare_effect [OF sym] simp: le_imp_less_Suc eval_nat_numeral)

definition drive_foreground ::
    "('w, 'a) foreground_actuator \<Rightarrow> foreground_input \<Rightarrow> 'a foreground_lifecycle \<times> 'w \<Rightarrow>
     (('a foreground_lifecycle \<times> 'w) \<times> foreground_activation) option" where
  "drive_foreground act input s =
     (case claim_foreground input (fst s) of
        (l, ClaimOrdinary) \<Rightarrow> Some ((l, snd s), ActivationOrdinary)
      | (l, ClaimSuppressed) \<Rightarrow> Some ((l, snd s), ActivationHandled)
      | (l, ClaimEffect effect) \<Rightarrow>
          map_option (\<lambda>(s, launched). (s, if launched then ActivationLaunched else ActivationHandled))
            (drive_effects act (Some effect) False (l, snd s)))"

definition poll_foreground_load ::
    "('w, 'a) foreground_actuator \<Rightarrow> 'a foreground_lifecycle \<times> 'w \<Rightarrow>
     ('a foreground_lifecycle \<times> 'w) \<times> foreground_poll_outcome" where
  "poll_foreground_load act s =
     (let (l, w) = s in
      case pending_load_attempt l of
        None \<Rightarrow> (s, PollInactive)
      | Some attempt \<Rightarrow>
          let (w, status) = fa_load_status act attempt w;
              cleanup = (if status = LoadFailed then Some attempt else None)
          in (case settle_load attempt status l of
                (l, SettleInactive) \<Rightarrow> ((l, w), PollInactive)
              | (l, SettlePending) \<Rightarrow> ((l, w), PollPending)
              | (l, SettleFinished clock started effect) \<Rightarrow>
                  let w = fa_after_load act (if started then Some attempt else cleanup) clock started w;
                      (l, w) = (case effect of
                          Some (EffectPlayClock i) \<Rightarrow>
                            let (w, accepted) = fa_play_clock act w in (finish_clock i accepted l, w)
                        | _ \<Rightarrow> (l, w))
                  in ((l, w), if started then PollStarted else PollFailed)))"

section \<open>What the application does with it\<close>

text \<open>
  Leaving the app saves the playback, unless there is none or it is parked already; the Boolean says
  whether it was saved now, and so whether its engine is to be suspended. The Play key first forgets a clock
  that is still to be started when the player is no longer shown. A new playback retires a parked one.
\<close>

definition enter_background ::
    "bool \<Rightarrow> int \<Rightarrow> bool \<Rightarrow> 'a foreground_lifecycle \<Rightarrow> 'a foreground_lifecycle \<times> bool" where
  "enter_background has_playback saved_ns transport_paused l =
     (if has_playback \<and> \<not> awaiting_load l
      then (suspend saved_ns (clock_for_suspend transport_paused l) l, True)
      else (l, False))"

definition key_play ::
    "('w, 'a) foreground_actuator \<Rightarrow> bool \<Rightarrow> 'a foreground_lifecycle \<times> 'w \<Rightarrow>
     (('a foreground_lifecycle \<times> 'w) \<times> foreground_activation) option" where
  "key_play act was_off_player s =
     drive_foreground act PlayKey (if was_off_player then (discard_started_state (fst s), snd s) else s)"

section \<open>The actuator of the player\<close>

text \<open>
  The player's state: the session and the owner, the attempt of the live engine, the position to pause at
  and whether a resume is pending. What the native side does and whether it takes a Play are arguments.
\<close>

record player_world =
  pw_session :: playback_session
  pw_control :: player_control
  pw_engine :: "route_start_attempt option"
  pw_repause_at :: int
  pw_resume_pend :: bool

record player_surroundings =
  su_client :: "media_client option"
  su_jailed :: bool
  su_start :: native_faults
  su_rollback :: native_faults
  su_clock_accepts :: bool

definition put_route :: "playback_session \<times> player_control \<Rightarrow> player_world \<Rightarrow> player_world" where
  "put_route s w = w\<lparr>pw_session := fst s, pw_control := snd s\<rparr>"

definition engine_of :: "bufferfeed_outcome \<Rightarrow> route_start_attempt option \<Rightarrow> route_start_attempt option" where
  "engine_of outcome before = (case outcome of Launched attempt \<Rightarrow> Some attempt | _ \<Rightarrow> before)"

text \<open>A teardown for a reload takes the live engine, but for a preview whose load has not returned.\<close>

definition engine_after_teardown ::
    "native_faults \<Rightarrow> playback_session \<Rightarrow> route_start_attempt option \<Rightarrow> route_start_attempt option" where
  "engine_after_teardown f ps engine = (if ps_preview ps \<and> nf_deferred f then engine else None)"

definition reload_transcode_tracked :: "native_faults \<Rightarrow> player_world \<Rightarrow> (player_world \<times> bufferfeed_outcome) option" where
  "reload_transcode_tracked f w =
     (let (ps, c) = (pw_session w, pw_control w) in
      if rp_url ps = [] then Some (put_route (ps, settle_missing_route_start c) w, FeedFailed)
      else
        (case prepare_reload_transaction c of
           (c, None) \<Rightarrow> Some (put_route (ps, c) w, FeedFailed)
         | (c, Some ticket) \<Rightarrow>
             let s = teardown (pw_engine w \<noteq> None) (nf_deferred f) True (ps, c);
                 engine = engine_after_teardown f ps (pw_engine w)
             in map_option (\<lambda>(c, outcome). ((put_route (fst s, c) w)\<lparr>pw_engine := engine_of outcome engine\<rparr>, outcome))
                  (start_bufferfeed_for f (fst s) ticket (snd s))))"

datatype foreground_original_recovery = NotOriginal | Tracking route_start_attempt | RetryPrepared | Terminal

definition recover_failed_foreground_original ::
    "player_surroundings \<Rightarrow> player_world \<Rightarrow> (player_world \<times> foreground_original_recovery) option" where
  "recover_failed_foreground_original su w =
     (case prepare_failed_original_rollback (su_client su) (pw_session w, pw_control w) of
        (s, NotPending) \<Rightarrow> Some (put_route s w, NotOriginal)
      | (s, RebaseFailed) \<Rightarrow> Some (put_route s w, Terminal)
      | (s, RollbackPrepared _) \<Rightarrow>
          (case reload_transcode_tracked (su_rollback su) (put_route s w) of
             None \<Rightarrow> None
           | Some (w, Launched attempt) \<Rightarrow> Some (w, Tracking attempt)
           | Some (w, FeedFailed) \<Rightarrow> Some (w, RetryPrepared)
           | Some (w, AlreadyRunning) \<Rightarrow> Some (w, Terminal)))"

definition suspend_bufferfeed_if_attempt :: "player_surroundings \<Rightarrow> route_start_attempt \<Rightarrow> player_world \<Rightarrow> player_world" where
  "suspend_bufferfeed_if_attempt su attempt w =
     (if pw_engine w = Some attempt
      then (put_route (teardown True (nf_deferred (su_start su)) True (pw_session w, pw_control w)) w)
             \<lparr>pw_engine := engine_after_teardown (su_start su) (pw_session w) (pw_engine w)\<rparr>
      else w)"

definition player_prepare_resume :: "player_surroundings \<Rightarrow> int \<Rightarrow> player_world \<Rightarrow> player_world \<times> resume_outcome" where
  "player_prepare_resume su resume_ns w =
     (case resume_at (su_client su) resume_ns (pw_session w, pw_control w) of (s, outcome) \<Rightarrow> (put_route s w, outcome))"

definition player_before_load :: "int \<Rightarrow> foreground_clock \<Rightarrow> player_world \<Rightarrow> player_world" where
  "player_before_load resume_ns clock w =
     (if clock = ClockPaused then w\<lparr>pw_repause_at := resume_ns, pw_resume_pend := True\<rparr> else w)"

definition player_start_load ::
    "player_surroundings \<Rightarrow> player_world \<Rightarrow> (player_world \<times> route_start_attempt foreground_load_start) option" where
  "player_start_load su w =
     (case start_bufferfeed_tracked (su_jailed su) (pw_engine w) (su_start su) (pw_session w) (pw_control w) of
        None \<Rightarrow> None
      | Some (c, outcome) \<Rightarrow>
          let w = (put_route (pw_session w, c) w)\<lparr>pw_engine := engine_of outcome (pw_engine w)\<rparr>
          in (case outcome of
                FeedFailed \<Rightarrow>
                  map_option (\<lambda>(w, recovery). (w, case recovery of
                      NotOriginal \<Rightarrow> LoadRefused | RetryPrepared \<Rightarrow> LoadRefused
                    | Tracking attempt \<Rightarrow> LoadLaunched attempt | Terminal \<Rightarrow> LoadTerminal))
                    (recover_failed_foreground_original su w)
              | AlreadyRunning \<Rightarrow> Some (w, LoadAlreadyRunning)
              | Launched attempt \<Rightarrow> Some (w, LoadLaunched attempt)))"

definition player_load_status ::
    "route_start_attempt \<Rightarrow> player_world \<Rightarrow> player_world \<times> route_start_attempt foreground_load_status" where
  "player_load_status attempt w =
     (w, case route_start_status attempt (pw_control w) of
           StatusPending \<Rightarrow> LoadPending
         | StatusStarted \<Rightarrow> LoadStarted
         | StatusFailed \<Rightarrow> LoadFailed
         | Superseded replacement \<Rightarrow> LoadSuperseded replacement
         | StatusStale \<Rightarrow> LoadStale)"

definition player_after_load ::
    "player_surroundings \<Rightarrow> route_start_attempt option \<Rightarrow> foreground_clock \<Rightarrow> bool \<Rightarrow> player_world \<Rightarrow> player_world" where
  "player_after_load su attempt clock started w =
     (let w = (if clock = ClockPaused \<and> started then w\<lparr>pw_resume_pend := True\<rparr> else w)
      in case attempt of
           Some a \<Rightarrow> if \<not> started then suspend_bufferfeed_if_attempt su a w else w
         | None \<Rightarrow> w)"

definition player_actuator :: "player_surroundings \<Rightarrow> (player_world, route_start_attempt) foreground_actuator" where
  "player_actuator su =
     \<lparr>fa_prepare_resume = player_prepare_resume su, fa_before_load = player_before_load,
      fa_start_load = player_start_load su, fa_load_status = player_load_status,
      fa_after_load = player_after_load su, fa_play_clock = (\<lambda>w. (w, su_clock_accepts su))\<rparr>"

end
