(* ===== verification/Foreground_Protocol.thy ===== *)
theory Foreground_Protocol
  imports Foreground
begin

text \<open>
  What leaving the app and coming back guarantee for every actuator, whatever happens to its world in
  between: the order of the calls made on it, what they carry, and that no claim outlives its call.
\<close>

section \<open>Runs and the calls they make\<close>

text \<open>
  The actuator with a log of its calls, the newest first. What the viewer and the system do is logged
  too: the suspension with the position and clock it saved, and the Play key.
\<close>

datatype 'a call =
    Left int foreground_clock
  | Key
  | Prepare int bool
  | Before int foreground_clock
  | Load "'a foreground_load_start"
  | Observed 'a "'a foreground_load_status"
  | After "'a option" foreground_clock bool
  | Played bool

definition logged :: "('w, 'a) foreground_actuator \<Rightarrow> ('w \<times> 'a call list, 'a) foreground_actuator" where
  "logged act =
     \<lparr>fa_prepare_resume = (\<lambda>r (w, log). case fa_prepare_resume act r w of
          (w, out) \<Rightarrow> ((w, Prepare r (out = ResumePrepared) # log), out)),
      fa_before_load = (\<lambda>r c (w, log). (fa_before_load act r c w, Before r c # log)),
      fa_start_load = (\<lambda>(w, log). map_option (\<lambda>(w, out). ((w, Load out # log), out)) (fa_start_load act w)),
      fa_load_status = (\<lambda>a (w, log). case fa_load_status act a w of (w, st) \<Rightarrow> ((w, Observed a st # log), st)),
      fa_after_load = (\<lambda>a c started (w, log). (fa_after_load act a c started w, After a c started # log)),
      fa_play_clock = (\<lambda>(w, log). case fa_play_clock act w of (w, ok) \<Rightarrow> ((w, Played ok # log), ok))\<rparr>"

datatype 'w lifecycle_event =
    Background bool int bool
  | DidForegroundEdge
  | PlayPressed bool
  | PollLoad
  | NewPlayback
  | Meanwhile "'w \<Rightarrow> 'w"

fun lifecycle_step ::
    "('w, 'a) foreground_actuator \<Rightarrow> 'w lifecycle_event \<Rightarrow> 'a foreground_lifecycle \<times> 'w \<times> 'a call list \<Rightarrow>
     ('a foreground_lifecycle \<times> 'w \<times> 'a call list) option" where
  "lifecycle_step act (Background has_playback saved_ns paused) (l, w, log) =
     (case enter_background has_playback saved_ns paused l of
        (l', True) \<Rightarrow> Some (l', w, Left saved_ns (clock_for_suspend paused l) # log)
      | (l', False) \<Rightarrow> Some (l', w, log))"
| "lifecycle_step act DidForegroundEdge s = map_option fst (drive_foreground (logged act) DidForeground s)"
| "lifecycle_step act (PlayPressed off_player) (l, w, log) =
     map_option fst (key_play (logged act) off_player (l, w, Key # log))"
| "lifecycle_step act PollLoad s = Some (fst (poll_foreground_load (logged act) s))"
| "lifecycle_step act NewPlayback (l, w, log) = Some (fst (replace_with_new_playback l), w, log)"
| "lifecycle_step act (Meanwhile f) (l, w, log) = Some (l, f w, log)"

fun lifecycle_run ::
    "('w, 'a) foreground_actuator \<Rightarrow> 'w lifecycle_event list \<Rightarrow> 'a foreground_lifecycle \<times> 'w \<times> 'a call list \<Rightarrow>
     ('a foreground_lifecycle \<times> 'w \<times> 'a call list) option" where
  "lifecycle_run act [] s = Some s"
| "lifecycle_run act (e # es) s = Option.bind (lifecycle_step act e s) (lifecycle_run act es)"

section \<open>The protocol of the calls\<close>

text \<open>
  What a log says: the position and clock of the last suspension, whether the route has been prepared
  and whether Play has been pressed since, which load is followed, and whether it has been seen to start.
\<close>

fun parked :: "'a call list \<Rightarrow> (int \<times> foreground_clock) option" where
  "parked [] = None"
| "parked (Left s c # _) = Some (s, c)"
| "parked (_ # log) = parked log"

definition since_left :: "'a call list \<Rightarrow> 'a call list" where
  "since_left = takeWhile (\<lambda>x. case x of Left _ _ \<Rightarrow> False | _ \<Rightarrow> True)"

definition route_prepared :: "'a call list \<Rightarrow> bool" where
  "route_prepared log = (\<exists>x \<in> set (since_left log). case x of Prepare _ ok \<Rightarrow> ok | _ \<Rightarrow> False)"

definition play_wanted :: "'a call list \<Rightarrow> bool" where
  "play_wanted log = (Key \<in> set (since_left log))"

fun followed :: "'a call list \<Rightarrow> 'a option" where
  "followed (Load (LoadLaunched a) # _) = Some a"
| "followed (Observed a LoadPending # _) = Some a"
| "followed (Observed _ (LoadSuperseded b) # _) = Some b"
| "followed (Key # log) = followed log"
| "followed _ = None"

fun seen_started :: "'a call list \<Rightarrow> bool" where
  "seen_started (Observed _ LoadStarted # _) = True"
| "seen_started (Key # log) = seen_started log"
| "seen_started (After _ _ _ # log) = seen_started log"
| "seen_started (Played _ # log) = seen_started log"
| "seen_started _ = False"

definition clock_allowed :: "foreground_clock \<Rightarrow> foreground_clock \<Rightarrow> 'a call list \<Rightarrow> bool" where
  "clock_allowed saved clock log = (clock = saved \<or> (clock = ClockPlaying \<and> play_wanted log))"

definition resume_allowed :: "int \<Rightarrow> foreground_clock \<Rightarrow> 'a call list \<Rightarrow> bool" where
  "resume_allowed r clock log =
     (case parked log of None \<Rightarrow> False | Some (s, c) \<Rightarrow> r = resume_position s c \<and> clock_allowed c clock log)"

fun call_allowed :: "'a call \<Rightarrow> 'a call list \<Rightarrow> bool" where
  "call_allowed (Prepare r _) log = (\<not> route_prepared log \<and> (\<exists>clock. resume_allowed r clock log))"
| "call_allowed (Before r clock) log = (route_prepared log \<and> resume_allowed r clock log)"
| "call_allowed (Load _) log = (case log of Before _ _ # _ \<Rightarrow> True | _ \<Rightarrow> False)"
| "call_allowed (Observed a _) log = (followed log = Some a)"
| "call_allowed (Played _) log =
     (seen_started log \<and> (case parked log of None \<Rightarrow> False | Some (_, c) \<Rightarrow> clock_allowed c ClockPlaying log))"
| "call_allowed _ log = True"

fun obeys :: "'a call list \<Rightarrow> bool" where
  "obeys [] = True"
| "obeys (x # log) = (call_allowed x log \<and> obeys log)"

lemma obeys_append: "obeys (xs @ log) \<Longrightarrow> obeys log"
  by (induction xs) auto

lemma obeysD: "obeys (xs @ x # log) \<Longrightarrow> call_allowed x log"
  using obeys_append by force

lemma since_left_simps [simp]:
  "since_left (Left s c # log) = []"
  "since_left (Key # log) = Key # since_left log"
  "since_left (Prepare r ok # log) = Prepare r ok # since_left log"
  "since_left (Before r c # log) = Before r c # since_left log"
  "since_left (Load out # log) = Load out # since_left log"
  "since_left (Observed a st # log) = Observed a st # since_left log"
  "since_left (After a' c b # log) = After a' c b # since_left log"
  "since_left (Played ok # log) = Played ok # since_left log"
  by (simp_all add: since_left_def)

section \<open>What the state remembers of the log\<close>

text \<open>Between two events nothing is claimed, and every other state is what the log says.\<close>

definition remembers :: "'a foreground_state \<Rightarrow> 'a call list \<Rightarrow> bool" where
  "remembers st log =
     (case st of
        FgIdle \<Rightarrow> True
      | FgSuspended _ s c \<Rightarrow> parked log = Some (s, c) \<and> \<not> route_prepared log
      | FgPrepared _ r c \<Rightarrow> resume_allowed r c log \<and> route_prepared log
      | FgLoadPending _ a r c \<Rightarrow> resume_allowed r c log \<and> route_prepared log \<and> followed log = Some a
      | FgClockPending _ \<Rightarrow> seen_started log
          \<and> (case parked log of None \<Rightarrow> False | Some (_, c) \<Rightarrow> clock_allowed c ClockPlaying log)
      | FgClaimed _ _ \<Rightarrow> False)"

definition in_order :: "'a foreground_lifecycle \<times> 'w \<times> 'a call list \<Rightarrow> bool" where
  "in_order s = (case s of (l, _, log) \<Rightarrow> remembers (fl_state l) log \<and> obeys log)"

text \<open>While an effect is carried out, it is claimed in the state with what it needs.\<close>

fun carrying :: "foreground_effect option \<Rightarrow> 'a foreground_state \<Rightarrow> 'a call list \<Rightarrow> bool" where
  "carrying None st log = remembers st log"
| "carrying (Some (EffectPrepare i r)) st log =
     (\<exists>s c clock. st = FgClaimed i (ClaimPrepare s c r clock) \<and> parked log = Some (s, c) \<and> r = resume_position s c
        \<and> clock_allowed c clock log \<and> \<not> route_prepared log)"
| "carrying (Some (EffectLoad i r clock)) st log =
     (st = FgClaimed i (ClaimLoad r clock) \<and> resume_allowed r clock log \<and> route_prepared log)"
| "carrying (Some (EffectPlayClock i)) st log =
     (st = FgClaimed i ClaimPlayClock \<and> seen_started log
        \<and> (case parked log of None \<Rightarrow> False | Some (_, c) \<Rightarrow> clock_allowed c ClockPlaying log))"

lemma log_simps [simp]:
  "route_prepared (Key # log) = route_prepared log"
  "route_prepared (Prepare r ok # log) = (ok \<or> route_prepared log)"
  "route_prepared (Before r c # log) = route_prepared log"
  "route_prepared (Load out # log) = route_prepared log"
  "route_prepared (Observed a st # log) = route_prepared log"
  "route_prepared (After a' c b # log) = route_prepared log"
  "route_prepared (Played ok # log) = route_prepared log"
  "\<not> route_prepared (Left s c # log)"
  "play_wanted (Key # log)"
  "play_wanted (Prepare r ok # log) = play_wanted log"
  "play_wanted (Before r c # log) = play_wanted log"
  "play_wanted (Load out # log) = play_wanted log"
  "play_wanted (Observed a st # log) = play_wanted log"
  "play_wanted (After a' c b # log) = play_wanted log"
  "play_wanted (Played ok # log) = play_wanted log"
  by (auto simp: route_prepared_def play_wanted_def)

lemma logged_prepare [simp]:
  "fa_prepare_resume (logged act) r (w, log) =
     (case fa_prepare_resume act r w of (w, out) \<Rightarrow> ((w, Prepare r (out = ResumePrepared) # log), out))"
  by (simp add: logged_def)

lemma not_paused [simp]: "clock \<noteq> ClockPaused \<longleftrightarrow> clock = ClockPlaying"
  by (cases clock) simp_all

lemma play_effect_in_order:
  assumes "carrying (Some (EffectPlayClock i)) (fl_state l) log" "obeys log"
    and "drive_effects (logged act) (Some (EffectPlayClock i)) b (l, w, log) = Some ((l', w', log'), b')"
  shows "remembers (fl_state l') log' \<and> obeys log'"
  using assms by (auto simp: logged_def finish_clock_def remembers_def clock_allowed_def
      split: prod.splits option.splits if_splits)

lemma load_effect_in_order:
  assumes "carrying (Some (EffectLoad i r clock)) (fl_state l) log" "obeys log"
    and "drive_effects (logged act) (Some (EffectLoad i r clock)) b (l, w, log) = Some ((l', w', log'), b')"
  shows "remembers (fl_state l') log' \<and> obeys log'"
  using assms by (auto simp: logged_def finish_load_launch_def finish_load_refusal_def finish_load_terminal_def
      remembers_def clock_allowed_def resume_allowed_def
      split: prod.splits option.splits foreground_load_start.splits)

lemma effects_in_order:
  assumes "carrying e (fl_state l) log" "obeys log"
    and "drive_effects (logged act) e b (l, w, log) = Some ((l', w', log'), b')"
  shows "remembers (fl_state l') log' \<and> obeys log'"
proof (cases e)
  case None
  then show ?thesis using assms by simp
next
  case (Some effect)
  show ?thesis
  proof (cases effect)
    case (EffectPrepare i r)
    obtain w1 out where p: "fa_prepare_resume act r w = (w1, out)" by (cases "fa_prepare_resume act r w")
    from assms(1) obtain s c clock where st: "fl_state l = FgClaimed i (ClaimPrepare s c r clock)"
      "parked log = Some (s, c)" "r = resume_position s c" "clock_allowed c clock log" "\<not> route_prepared log"
      by (auto simp: Some EffectPrepare)
    let ?log = "Prepare r (out = ResumePrepared) # log"
    have "obeys ?log" using assms(2) st by (auto simp: resume_allowed_def clock_allowed_def)
    moreover have "carrying (Some (EffectLoad i r clock)) (FgClaimed i (ClaimLoad r clock) :: 'a foreground_state) ?log"
      if "out = ResumePrepared"
      using st that by (auto simp: resume_allowed_def clock_allowed_def)
    moreover have "obeys ?log \<Longrightarrow> out \<noteq> ResumePrepared \<Longrightarrow> ?thesis"
      using assms(3) st(1,2,5) by (auto simp: Some EffectPrepare p finish_prepare_def remembers_def)
    moreover have "drive_effects (logged act) (Some (EffectLoad i r clock)) b
        (l\<lparr>fl_state := FgClaimed i (ClaimLoad r clock)\<rparr>, w1, ?log) = Some ((l', w', log'), b')" if "out = ResumePrepared"
      using assms(3) st(1) that by (simp add: Some EffectPrepare p finish_prepare_def)
    ultimately show ?thesis
      using load_effect_in_order [of i r clock "l\<lparr>fl_state := FgClaimed i (ClaimLoad r clock)\<rparr>" ?log] by fastforce
  next
    case (EffectLoad i r clock)
    then show ?thesis using assms load_effect_in_order Some by metis
  next
    case (EffectPlayClock i)
    then show ?thesis using assms play_effect_in_order Some by metis
  qed
qed

lemma claim_carries:
  assumes "remembers (fl_state l) log" "claim_foreground input l = (l', result)"
    and "input = PlayKey \<Longrightarrow> play_wanted log"
  shows "case result of ClaimEffect e \<Rightarrow> carrying (Some e) (fl_state l') log | _ \<Rightarrow> l' = l"
  using assms
  by (auto simp: claim_foreground_def remembers_def resume_allowed_def clock_allowed_def Let_def
      split: foreground_state.splits option.splits if_splits)

lemma drive_in_order:
  assumes "remembers (fl_state l) log" "obeys log" "input = PlayKey \<Longrightarrow> play_wanted log"
    and "drive_foreground (logged act) input (l, w, log) = Some (s', activation)"
  shows "in_order s'"
proof -
  obtain l1 result where c: "claim_foreground input l = (l1, result)" by (cases "claim_foreground input l")
  obtain l' w' log' where s': "s' = (l', w', log')" by (cases s')
  note carries = claim_carries [OF assms(1) c assms(3)]
  show ?thesis
  proof (cases result)
    case (ClaimEffect e)
    then obtain b' where "drive_effects (logged act) (Some e) False (l1, w, log) = Some ((l', w', log'), b')"
      using assms(4) c s' by (auto simp: drive_foreground_def split: prod.splits)
    then show ?thesis using effects_in_order carries ClaimEffect assms(2) s' by (fastforce simp: in_order_def)
  qed (use assms c s' carries in \<open>auto simp: drive_foreground_def in_order_def\<close>)
qed

lemma key_remembered: "remembers st log \<Longrightarrow> remembers st (Key # log)"
  by (auto simp: remembers_def resume_allowed_def clock_allowed_def split: foreground_state.splits option.splits)

lemma discard_remembers: "remembers (fl_state l) log \<Longrightarrow> remembers (fl_state (discard_started_state l)) log"
  by (auto simp: discard_started_state_def remembers_def split: foreground_state.splits foreground_claim.splits)

lemma poll_in_order:
  assumes "remembers (fl_state l) log" "obeys log"
  shows "in_order (fst (poll_foreground_load (logged act) (l, w, log)))"
  using assms
  by (auto simp: poll_foreground_load_def pending_load_attempt_def logged_def settle_load_def in_order_def remembers_def
      resume_allowed_def clock_allowed_def finish_clock_def Let_def
      split: foreground_state.splits foreground_load_status.splits option.splits prod.splits if_splits)

lemma step_in_order:
  assumes "in_order s" "lifecycle_step act e s = Some s'"
  shows "in_order s'"
proof -
  obtain l w log where s: "s = (l, w, log)" by (cases s)
  have ok: "remembers (fl_state l) log" "obeys log" using assms(1) by (auto simp: s in_order_def)
  show ?thesis
  proof (cases e)
    case (PlayPressed off)
    let ?l = "if off then discard_started_state l else l"
    obtain r where d: "drive_foreground (logged act) PlayKey (?l, w, Key # log) = Some (s', r)"
      using assms(2) by (auto simp: s PlayPressed key_play_def split: if_splits)
    have "remembers (fl_state ?l) (Key # log)"
      using key_remembered ok(1) discard_remembers by (metis (full_types))
    then show ?thesis by (rule drive_in_order [OF _ _ _ d]) (use ok in simp_all)
  next
    case DidForegroundEdge
    then obtain r where "drive_foreground (logged act) DidForeground (l, w, log) = Some (s', r)"
      using assms(2) by (auto simp: s)
    then show ?thesis by (rule drive_in_order [OF ok, rotated]) simp
  next
    case PollLoad
    then show ?thesis using assms(2) poll_in_order [OF ok, of act w] by (simp add: s)
  qed (use ok assms(2) in \<open>auto simp: s in_order_def enter_background_def suspend_def remembers_def Let_def
      replace_with_new_playback_def split: if_splits\<close>)
qed

lemma run_in_order: "lifecycle_run act es s = Some s' \<Longrightarrow> in_order s \<Longrightarrow> in_order s'"
  by (induction es arbitrary: s) (auto split: bind_splits dest: step_in_order)

lemma idle_in_order: "in_order (foreground_idle, w, [])"
  by (simp add: in_order_def foreground_idle_def remembers_def)

section \<open>Properties\<close>

lemma seen_startedE:
  "seen_started log \<Longrightarrow> obeys log \<Longrightarrow>
   \<exists>us a vs. log = us @ Observed a LoadStarted # vs \<and> followed vs = Some a
     \<and> (\<forall>x \<in> set us. case x of Key \<Rightarrow> True | After _ _ _ \<Rightarrow> True | Played _ \<Rightarrow> True | _ \<Rightarrow> False)"
proof (induction log rule: seen_started.induct)
  case (1 a log)
  then show ?case by (intro exI [of _ "[]"]) auto
next
  case (2 log)
  then obtain us a vs where *: "log = us @ Observed a LoadStarted # vs" "followed vs = Some a"
      "\<forall>x \<in> set us. case x of Key \<Rightarrow> True | After _ _ _ \<Rightarrow> True | Played _ \<Rightarrow> True | _ \<Rightarrow> False" by auto
  show ?case by (intro exI [of _ "Key # us"]) (use * in auto)
next
  case (3 a' c b log)
  then obtain us a vs where *: "log = us @ Observed a LoadStarted # vs" "followed vs = Some a"
      "\<forall>x \<in> set us. case x of Key \<Rightarrow> True | After _ _ _ \<Rightarrow> True | Played _ \<Rightarrow> True | _ \<Rightarrow> False" by auto
  show ?case by (intro exI [of _ "After a' c b # us"]) (use * in auto)
next
  case (4 ok log)
  then obtain us a vs where *: "log = us @ Observed a LoadStarted # vs" "followed vs = Some a"
      "\<forall>x \<in> set us. case x of Key \<Rightarrow> True | After _ _ _ \<Rightarrow> True | Played _ \<Rightarrow> True | _ \<Rightarrow> False" by auto
  show ?case by (intro exI [of _ "Played ok # us"]) (use * in auto)
qed simp_all

lemma run_obeys:
  assumes "lifecycle_run act es (foreground_idle, w, []) = Some (l, w', log)"
  shows "remembers (fl_state l) log" "obeys log"
  using run_in_order [OF assms idle_in_order] by (simp_all add: in_order_def)

text \<open>
  A paused playback is left, the first load is refused when the app comes back, Play loads it again, and it
  starts.
\<close>

definition example_actuator :: "(nat, nat) foreground_actuator" where
  "example_actuator =
     \<lparr>fa_prepare_resume = (\<lambda>_ n. (n, ResumePrepared)), fa_before_load = (\<lambda>_ _ n. n),
      fa_start_load = (\<lambda>n. Some (n + 1, if n = 0 then LoadRefused else LoadLaunched n)),
      fa_load_status = (\<lambda>_ n. (n, LoadStarted)), fa_after_load = (\<lambda>_ _ _ n. n), fa_play_clock = (\<lambda>n. (n, True))\<rparr>"

definition example_log :: "nat call list" where
  "example_log = [After None ClockPaused False, Load LoadRefused, Before 9 ClockPaused, Prepare 9 True, Left 9 ClockPaused]"

lemmas example_run_simps = example_actuator_def logged_def enter_background_def suspend_def awaiting_load_def
  clock_for_suspend_def from_paused_def foreground_idle_def drive_foreground_def claim_foreground_def resume_position_def
  finish_prepare_def finish_load_launch_def finish_load_refusal_def key_play_def poll_foreground_load_def
  pending_load_attempt_def settle_load_def finish_clock_def Let_def

lemma example_refused:
  "lifecycle_run example_actuator [Background True 9 True, DidForegroundEdge] (foreground_idle, 0, [])
     = Some (\<lparr>fl_state = FgPrepared 1 9 ClockPaused, fl_next_id = 1\<rparr>, 1, example_log)"
  by (simp add: example_run_simps example_log_def)

lemma example_started:
  "lifecycle_run example_actuator [Background True 9 True, DidForegroundEdge, PlayPressed False, PollLoad]
       (foreground_idle, 0, [])
     = Some (\<lparr>fl_state = FgIdle, fl_next_id = 1\<rparr>, 2,
         [] @ Played True # [After (Some 1) ClockPlaying True, Observed 1 LoadStarted, Load (LoadLaunched 1),
           Before 9 ClockPlaying, Key] @ example_log)"
  by (simp add: example_run_simps example_log_def)

text \<open>
  C15. The clock of the player is only started for a load that is followed and has been seen to start, after
  which nothing was loaded, prepared or suspended; and only when it ran at the last suspension or the
  viewer has pressed Play since. A playback that was paused stays paused through any number of
  suspensions, failures and retries.
\<close>

theorem play_follows_a_start:
  assumes "lifecycle_run act events (foreground_idle, w, []) = Some (l, w', log)" and "log = later @ Played ok # earlier"
  shows "(\<exists>us a vs. earlier = us @ Observed a LoadStarted # vs \<and> followed vs = Some a
            \<and> (\<forall>x \<in> set us. case x of Key \<Rightarrow> True | After _ _ _ \<Rightarrow> True | Played _ \<Rightarrow> True | _ \<Rightarrow> False))
       \<and> (\<exists>saved_ns clock. parked earlier = Some (saved_ns, clock) \<and> (clock = ClockPlaying \<or> play_wanted earlier))"
proof -
  have ok: "call_allowed (Played ok) earlier" "obeys earlier"
    using run_obeys(2) [OF assms(1)] assms(2) by (auto dest: obeysD obeys_append)
  then show ?thesis using seen_startedE [of earlier]
    by (auto simp: clock_allowed_def split: option.splits)
qed

theorem play_follows_a_start_witness:
  "\<exists>saved_ns clock. parked ([After (Some 1) ClockPlaying True, Observed 1 LoadStarted, Load (LoadLaunched 1),
           Before 9 ClockPlaying, Key] @ example_log) = Some (saved_ns, clock)"
  using play_follows_a_start [OF example_started refl, THEN conjunct2] by blast

text \<open>
  C16. Coming back resumes what was left: every preparation and every load after a suspension is for the
  position that was saved, rewound only if the playback ran; the route is prepared once and a retry of
  the load never prepares it again; and the clock the load is announced with is the saved one, or
  running because Play was pressed.
\<close>

theorem resume_is_faithful:
  assumes "lifecycle_run act events (foreground_idle, w, []) = Some (l, w', log)" and "log = later @ call # earlier"
  shows "case call of
           Prepare r ok \<Rightarrow>
             \<exists>saved_ns clock. parked earlier = Some (saved_ns, clock) \<and> r = resume_position saved_ns clock
               \<and> \<not> route_prepared earlier
         | Before r c \<Rightarrow>
             \<exists>saved_ns clock. parked earlier = Some (saved_ns, clock) \<and> r = resume_position saved_ns clock
               \<and> route_prepared earlier \<and> (c = clock \<or> (c = ClockPlaying \<and> play_wanted earlier))
         | Load _ \<Rightarrow> \<exists>r c before. earlier = Before r c # before
         | _ \<Rightarrow> True"
proof -
  have "call_allowed call earlier"
    using run_obeys(2) [OF assms(1)] assms(2) by (auto dest: obeysD)
  then show ?thesis
    by (cases call) (auto simp: resume_allowed_def clock_allowed_def split: option.splits list.splits call.splits)
qed

theorem resume_is_faithful_witness:
  "\<exists>saved_ns clock. parked [Left 9 ClockPaused] = Some (saved_ns, clock) \<and> (9::int) = resume_position saved_ns clock
     \<and> \<not> route_prepared ([Left 9 ClockPaused] :: nat call list)"
proof -
  have log: "example_log = [After None ClockPaused False, Load LoadRefused, Before 9 ClockPaused]
      @ Prepare 9 True # [Left 9 ClockPaused]"
    by (simp add: example_log_def)
  show ?thesis using resume_is_faithful [OF example_refused log] by simp
qed

lemma claim_of_parked:
  assumes "remembers (fl_state l) log" "awaiting_load l" "claim_foreground input l = (l', result)"
  shows "\<exists>e. result = ClaimEffect e \<and>
     ((\<exists>i s c r clock. fl_state l = FgSuspended i s c \<and> e = EffectPrepare i r
         \<and> l' = l\<lparr>fl_state := FgClaimed i (ClaimPrepare s c r clock)\<rparr>)
    \<or> (\<exists>i r clock. e = EffectLoad i r clock \<and> l' = l\<lparr>fl_state := FgClaimed i (ClaimLoad r clock)\<rparr>))"
  using assms by (auto simp: awaiting_load_def claim_foreground_def remembers_def Let_def
      split: foreground_state.splits)

definition left_parked_or_followed :: "'a foreground_lifecycle \<Rightarrow> 'a call list \<Rightarrow> bool \<Rightarrow> bool" where
  "left_parked_or_followed l calls launched =
     ((launched \<longleftrightarrow> pending_load_attempt l \<noteq> None)
      \<and> (fl_state l = FgIdle \<longleftrightarrow> Load LoadAlreadyRunning \<in> set calls \<or> Load LoadTerminal \<in> set calls)
      \<and> (fl_state l \<noteq> FgIdle \<longrightarrow> awaiting_load l \<or> launched))"

lemma load_answers:
  assumes "\<And>w. fa_start_load act w \<noteq> None" "fl_state l = FgClaimed i (ClaimLoad r clock)"
  shows "\<exists>l' w' calls launched. drive_effects (logged act) (Some (EffectLoad i r clock)) False (l, w, log)
      = Some ((l', w', calls @ log), launched)
    \<and> calls \<noteq> [] \<and> left_parked_or_followed l' calls launched \<and> (\<forall>r. Prepare r False \<notin> set calls)"
proof -
  obtain w1 out where o: "fa_start_load act (fa_before_load act r clock w) = Some (w1, out)"
    using assms(1) by fastforce
  show ?thesis
  proof (cases out)
    case (LoadLaunched a)
    then show ?thesis using o assms(2)
      by (auto simp: logged_def finish_load_launch_def left_parked_or_followed_def pending_load_attempt_def
          intro!: exI [of _ "[Load (LoadLaunched a), Before r clock]"])
  next
    case LoadAlreadyRunning
    then show ?thesis using o assms(2)
      by (auto simp: logged_def finish_load_terminal_def left_parked_or_followed_def pending_load_attempt_def
          intro!: exI [of _ "[After None clock False, Load LoadAlreadyRunning, Before r clock]"])
  next
    case LoadTerminal
    then show ?thesis using o assms(2)
      by (auto simp: logged_def finish_load_terminal_def left_parked_or_followed_def pending_load_attempt_def
          intro!: exI [of _ "[After None clock False, Load LoadTerminal, Before r clock]"])
  next
    case LoadRefused
    then show ?thesis using o assms(2)
      by (auto simp: logged_def finish_load_refusal_def left_parked_or_followed_def pending_load_attempt_def
          awaiting_load_def intro!: exI [of _ "[After None clock False, Load LoadRefused, Before r clock]"])
  qed
qed

lemma effect_answers:
  assumes "\<And>w. fa_start_load act w \<noteq> None"
    and "(\<exists>i s c r clock. fl_state l = FgSuspended i s c \<and> e = EffectPrepare i r
            \<and> l1 = l\<lparr>fl_state := FgClaimed i (ClaimPrepare s c r clock)\<rparr>)
       \<or> (\<exists>i r clock. e = EffectLoad i r clock \<and> l1 = l\<lparr>fl_state := FgClaimed i (ClaimLoad r clock)\<rparr>)"
  shows "\<exists>l' w' calls launched. drive_effects (logged act) (Some e) False (l1, w, log)
      = Some ((l', w', calls @ log), launched)
    \<and> calls \<noteq> [] \<and> left_parked_or_followed l' calls launched \<and> ((\<exists>r. Prepare r False \<in> set calls) \<longrightarrow> l' = l)"
  using assms(2)
proof (elim disjE exE conjE)
  fix i r clock
  assume "e = EffectLoad i r clock" "l1 = l\<lparr>fl_state := FgClaimed i (ClaimLoad r clock)\<rparr>"
  then show ?thesis using load_answers [OF assms(1), of l1 i r clock w log] by (simp del: drive_effects.simps) blast
next
  fix i s c r clock
  assume st: "fl_state l = FgSuspended i s c" and e: "e = EffectPrepare i r"
    and l1: "l1 = l\<lparr>fl_state := FgClaimed i (ClaimPrepare s c r clock)\<rparr>"
  obtain w1 out where p: "fa_prepare_resume act r w = (w1, out)" by (cases "fa_prepare_resume act r w")
  show ?thesis
  proof (cases "out = ResumePrepared")
    case False
    then have "drive_effects (logged act) (Some e) False (l1, w, log) = Some ((l, w1, [Prepare r False] @ log), False)"
      using st by (simp add: e l1 p finish_prepare_def)
    moreover have "left_parked_or_followed l [Prepare r False] False"
      using st by (simp add: left_parked_or_followed_def awaiting_load_def pending_load_attempt_def)
    ultimately show ?thesis by blast
  next
    case True
    let ?l = "l\<lparr>fl_state := FgClaimed i (ClaimLoad r clock)\<rparr>"
    obtain l' w' calls launched where d: "drive_effects (logged act) (Some (EffectLoad i r clock)) False
          (?l, w1, Prepare r True # log) = Some ((l', w', calls @ Prepare r True # log), launched)"
        and c: "calls \<noteq> []" "left_parked_or_followed l' calls launched" "\<forall>r. Prepare r False \<notin> set calls"
      using load_answers [OF assms(1), of ?l i r clock w1 "Prepare r True # log"] by auto
    have "drive_effects (logged act) (Some e) False (l1, w, log)
        = Some ((l', w', (calls @ [Prepare r True]) @ log), launched)"
      using True d by (simp add: e l1 p finish_prepare_def)
    moreover have "left_parked_or_followed l' (calls @ [Prepare r True]) launched"
      using c(2) unfolding left_parked_or_followed_def by (cases launched) auto
    ultimately show ?thesis using c by (intro exI conjI) auto
  qed
qed

text \<open>
  C17. A parked playback answers every input: the route is prepared or loaded at once and the call returns.
  Afterwards the load is followed, which the answer says, or the playback is still parked, exactly as it
  was if the preparation failed; it is given up only for a running engine or a route that cannot be
  rebuilt.
\<close>

theorem parked_playback_answers:
  assumes "lifecycle_run act events (foreground_idle, w, []) = Some (l, w', log)"
    and "\<And>w. fa_start_load act w \<noteq> None" and "awaiting_load l"
  shows "\<exists>l' w'' calls activation.
     drive_foreground (logged act) input (l, w', log) = Some ((l', w'', calls @ log), activation)
     \<and> calls \<noteq> [] \<and> activation \<noteq> ActivationOrdinary
     \<and> (activation = ActivationLaunched \<longleftrightarrow> pending_load_attempt l' \<noteq> None)
     \<and> (fl_state l' = FgIdle \<longleftrightarrow> Load LoadAlreadyRunning \<in> set calls \<or> Load LoadTerminal \<in> set calls)
     \<and> (fl_state l' \<noteq> FgIdle \<longrightarrow> awaiting_load l' \<or> pending_load_attempt l' \<noteq> None)
     \<and> ((\<exists>r. Prepare r False \<in> set calls) \<longrightarrow> l' = l)"
proof -
  obtain l1 result where c: "claim_foreground input l = (l1, result)" by (cases "claim_foreground input l")
  from claim_of_parked [OF run_obeys(1) [OF assms(1)] assms(3) c] obtain e where e: "result = ClaimEffect e"
      and shape: "(\<exists>i s c r clock. fl_state l = FgSuspended i s c \<and> e = EffectPrepare i r
            \<and> l1 = l\<lparr>fl_state := FgClaimed i (ClaimPrepare s c r clock)\<rparr>)
       \<or> (\<exists>i r clock. e = EffectLoad i r clock \<and> l1 = l\<lparr>fl_state := FgClaimed i (ClaimLoad r clock)\<rparr>)"
    by blast
  from effect_answers [OF assms(2) shape, of w' log] obtain l' w'' calls launched where
    d: "drive_effects (logged act) (Some e) False (l1, w', log) = Some ((l', w'', calls @ log), launched)"
    and r: "calls \<noteq> []" "left_parked_or_followed l' calls launched" "(\<exists>r. Prepare r False \<in> set calls) \<longrightarrow> l' = l"
    by blast
  have "drive_foreground (logged act) input (l, w', log)
      = Some ((l', w'', calls @ log), if launched then ActivationLaunched else ActivationHandled)"
    using c e d by (simp add: drive_foreground_def)
  then show ?thesis using r unfolding left_parked_or_followed_def by (intro exI [of _ l'] exI [of _ w''] exI [of _ calls] exI conjI) auto
qed

theorem parked_playback_answers_witness:
  "\<exists>l' w'' calls activation.
     drive_foreground (logged example_actuator) PlayKey (\<lparr>fl_state = FgPrepared 1 9 ClockPaused, fl_next_id = 1\<rparr>, 1, example_log)
       = Some ((l', w'', calls @ example_log), activation) \<and> calls \<noteq> [] \<and> activation \<noteq> ActivationOrdinary"
proof -
  have starts: "fa_start_load example_actuator n \<noteq> None" for n by (simp add: example_actuator_def)
  have parked: "awaiting_load \<lparr>fl_state = FgPrepared 1 9 ClockPaused, fl_next_id = 1\<rparr>" by (simp add: awaiting_load_def)
  show ?thesis using parked_playback_answers [OF example_refused starts parked, of PlayKey] by blast
qed

end
