(* ===== verification/Foreground_Correct.thy ===== *)
theory Foreground_Correct
  imports Foreground Start_Correct
begin

text \<open>
  What the actuator of the player adds: the load that is followed after coming back is the one the route
  owner has in flight, and a poll only ever acts on the engine of the load it follows.
\<close>

section \<open>A launched load is in flight\<close>

lemma started_route_pending: "begin_route_start c = (c', Some t) \<Longrightarrow> pending_route_start c' = Some t"
  by (auto simp: begin_route_start_def pending_route_start_def Let_def split: control_phase.splits trial_phase.splits)

lemma current_attempt_in_flight: "classify_live_engine_start a c = CurrentAttempt \<Longrightarrow> in_flight (rc_phase c) = Some a"
  by (auto simp: classify_live_engine_start_def in_flight_def split: control_phase.splits trial_phase.splits if_splits)

lemma tracked_start_in_flight:
  assumes "start_bufferfeed_tracked jail existing f ps c = Some (c', Launched a)"
  shows "in_flight (rc_phase c') = Some a"
proof (cases existing)
  case (Some e)
  then show ?thesis using assms current_attempt_in_flight
    by (auto simp: start_bufferfeed_tracked_def split: if_splits prod.splits option.splits live_relation.splits)
next
  case None
  then obtain c1 t where "begin_route_start c = (c1, Some t)" "start_bufferfeed_for f ps t c1 = Some (c', Launched a)"
    using assms by (auto simp: start_bufferfeed_tracked_def split: if_splits prod.splits option.splits)
  then show ?thesis using start_for_spec(3) [OF started_route_pending] by fastforce
qed

lemma tracked_reload_in_flight:
  assumes "reload_transcode_tracked f w = Some (w', Launched a)"
  shows "in_flight (rc_phase (pw_control w')) = Some a" "pw_engine w' = Some a"
proof -
  let ?s = "\<lambda>c. teardown (pw_engine w \<noteq> None) (nf_deferred f) True (pw_session w, c)"
  from assms obtain c1 t where tx: "prepare_reload_transaction (pw_control w) = (c1, Some t)"
    and start: "start_bufferfeed_for f (fst (?s c1)) t (snd (?s c1)) = Some (pw_control w', Launched a)"
    and engine: "pw_engine w' = Some a"
    by (auto simp: reload_transcode_tracked_def engine_of_def put_route_def Let_def split: if_splits prod.splits option.splits)
  obtain ps2 c2 where s: "?s c1 = (ps2, c2)" by (metis surj_pair)
  have "pending_route_start c1 = Some t" "\<forall>x. rc_phase c1 \<noteq> Preparing x"
    using reload_transaction(3,4) [OF tx] by auto
  then have "pending_route_start c2 = Some t" using reload_teardown(3) [OF s] by blast
  then show "in_flight (rc_phase (pw_control w')) = Some a" using start_for_spec(3) [OF _ start] s by auto
  show "pw_engine w' = Some a" by (rule engine)
qed

lemma recovery_tracks_a_reload:
  assumes "recover_failed_foreground_original su w = Some (w', Tracking a)"
  shows "in_flight (rc_phase (pw_control w')) = Some a" "pw_engine w' = Some a"
  using assms tracked_reload_in_flight
  by (auto simp: recover_failed_foreground_original_def
      split: prod.splits rollback_preparation.splits option.splits bufferfeed_outcome.splits)

lemma player_load_in_flight:
  assumes "player_start_load su w = Some (w', LoadLaunched a)"
  shows "in_flight (rc_phase (pw_control w')) = Some a \<and> pw_engine w' = Some a"
proof -
  from assms obtain c out where start: "start_bufferfeed_tracked (su_jailed su) (pw_engine w) (su_start su) (pw_session w)
      (pw_control w) = Some (c, out)"
    by (auto simp: player_start_load_def split: option.splits)
  show ?thesis
  proof (cases out)
    case (Launched b)
    then show ?thesis using assms start tracked_start_in_flight
      by (auto simp: player_start_load_def put_route_def engine_of_def Let_def)
  next
    case AlreadyRunning
    then show ?thesis using assms start by (simp add: player_start_load_def Let_def)
  next
    case FeedFailed
    then obtain w1 recovery where "recover_failed_foreground_original su w1 = Some (w', recovery)"
        and launched: "(case recovery of NotOriginal \<Rightarrow> LoadRefused | RetryPrepared \<Rightarrow> LoadRefused
          | Tracking attempt \<Rightarrow> LoadLaunched attempt | foreground_original_recovery.Terminal \<Rightarrow> LoadTerminal) = LoadLaunched a"
      using assms start by (auto simp: player_start_load_def Let_def)
    moreover have "recovery = Tracking a" using launched by (cases recovery) auto
    ultimately show ?thesis using recovery_tracks_a_reload by blast
  qed
qed

lemma launched_effects:
  "drive_effects act e launched s = Some ((l', w'), True) \<Longrightarrow> \<not> launched \<Longrightarrow>
   \<exists>w a. fa_start_load act w = Some (w', LoadLaunched a) \<and> pending_load_attempt l' = Some a"
  by (induction act e launched s rule: drive_effects.induct)
    (auto simp: finish_load_launch_def pending_load_attempt_def
      split: prod.splits option.splits foreground_load_start.splits foreground_state.splits foreground_claim.splits if_splits)

lemma poll_of_pending:
  assumes "pending_load_attempt l = Some a"
  obtains i r clock where "fl_state l = FgLoadPending i a r clock"
  using assms by (auto simp: pending_load_attempt_def split: foreground_state.splits)

lemma settled_status:
  assumes "in_flight (rc_phase c) = Some a"
  shows "route_start_status a (fst (settle_begin a result c)) = (if result = Started then StatusStarted else StatusFailed)"
  using assms
  by (cases "rc_phase c" rule: phase_serial.cases)
    (auto simp: in_flight_def settle_begin_def route_start_status_def drop_start_deferred_def Let_def
      split: option.splits)

section \<open>Properties\<close>

lemma launched_drive:
  assumes "drive_foreground act input (l, w) = Some ((l', w'), ActivationLaunched)"
  shows "\<exists>w a. fa_start_load act w = Some (w', LoadLaunched a) \<and> pending_load_attempt l' = Some a"
proof -
  obtain l1 result where c: "claim_foreground input l = (l1, result)" by (cases "claim_foreground input l")
  with assms obtain effect where "result = ClaimEffect effect" by (cases result) (auto simp: drive_foreground_def)
  then have "drive_effects act (Some effect) False (l1, w) = Some ((l', w'), True)"
    using assms c by (auto simp: drive_foreground_def simp del: drive_effects.simps split: if_splits)
  from launched_effects [OF this] show ?thesis by simp
qed

text \<open>What a poll does, by what the route owner says of the load.\<close>

lemma player_poll:
  assumes "fl_state l = FgLoadPending i a r clock"
  shows "poll_foreground_load (player_actuator su) (l, w) =
    (case route_start_status a (pw_control w) of
       StatusPending \<Rightarrow> ((l, w), PollPending)
     | Superseded b \<Rightarrow> ((l\<lparr>fl_state := FgLoadPending i b r clock\<rparr>, w), PollPending)
     | StatusFailed \<Rightarrow>
         ((l\<lparr>fl_state := FgPrepared i r clock\<rparr>, player_after_load su (Some a) clock False w), PollFailed)
     | StatusStale \<Rightarrow> ((l\<lparr>fl_state := FgIdle\<rparr>, player_after_load su None clock False w), PollFailed)
     | StatusStarted \<Rightarrow>
         ((if clock = ClockPaused then l\<lparr>fl_state := FgIdle\<rparr>
           else finish_clock i (su_clock_accepts su) (l\<lparr>fl_state := FgClaimed i ClaimPlayClock\<rparr>),
           player_after_load su (Some a) clock True w), PollStarted))"
  using assms
  by (cases "route_start_status a (pw_control w)"; cases clock)
    (simp_all add: poll_foreground_load_def pending_load_attempt_def player_actuator_def player_load_status_def
      settle_load_def Let_def)

lemma after_load_spares:
  "player_after_load su None clock False w = w"
  "pw_engine (player_after_load su attempt clock True w) = pw_engine w"
  "pw_control (player_after_load su attempt clock True w) = pw_control w"
  "pw_session (player_after_load su attempt clock True w) = pw_session w"
  "pw_engine w \<noteq> Some a \<Longrightarrow> player_after_load su (Some a) clock False w = w"
  by (auto simp: player_after_load_def suspend_bufferfeed_if_attempt_def split: option.split)

text \<open>
  C18. A load that coming back has launched is the one the route owner has in flight, and its engine is the
  live one. A poll waits for it; as soon as the owner settles it, the poll reports it started or failed,
  and after a failure the playback is parked again with its route prepared.
\<close>

theorem launched_load_is_followed:
  assumes "drive_foreground (player_actuator su) input (l, w) = Some ((l', w'), ActivationLaunched)"
  shows "\<exists>a. pending_load_attempt l' = Some a \<and> in_flight (rc_phase (pw_control w')) = Some a \<and> pw_engine w' = Some a
     \<and> poll_foreground_load (player_actuator su') (l', w') = ((l', w'), PollPending)
     \<and> (\<forall>result l2 w2 outcome.
          poll_foreground_load (player_actuator su')
              (l', w'\<lparr>pw_control := fst (settle_begin a result (pw_control w'))\<rparr>) = ((l2, w2), outcome)
          \<longrightarrow> outcome = (if result = Started then PollStarted else PollFailed) \<and> (result \<noteq> Started \<longrightarrow> awaiting_load l2))"
proof -
  from launched_drive [OF assms] obtain w0 a where load: "player_start_load su w0 = Some (w', LoadLaunched a)"
      and pending: "pending_load_attempt l' = Some a" by (auto simp: player_actuator_def)
  note flight = player_load_in_flight [OF load]
  then have now: "route_start_status a (pw_control w') = StatusPending" by (simp add: route_start_status_def)
  note settled = settled_status [OF flight [THEN conjunct1]]
  obtain i r clock where st: "fl_state l' = FgLoadPending i a r clock" using poll_of_pending [OF pending] .
  have "poll_foreground_load (player_actuator su') (l', w') = ((l', w'), PollPending)"
    by (simp add: player_poll [OF st] now)
  moreover have "outcome = (if result = Started then PollStarted else PollFailed) \<and> (result \<noteq> Started \<longrightarrow> awaiting_load l2)"
    if "poll_foreground_load (player_actuator su')
              (l', w'\<lparr>pw_control := fst (settle_begin a result (pw_control w'))\<rparr>) = ((l2, w2), outcome)" for result l2 w2 outcome
    using that by (cases "result = Started") (auto simp: player_poll [OF st] settled awaiting_load_def)
  ultimately show ?thesis using flight pending by blast
qed

definition example_surroundings :: player_surroundings where
  "example_surroundings = \<lparr>su_client = None, su_jailed = False, su_start = example_faults, su_rollback = example_faults,
     su_clock_accepts = True\<rparr>"

definition example_world :: player_world where
  "example_world = \<lparr>pw_session = example_session, pw_control = example_control, pw_engine = None, pw_repause_at = 0,
     pw_resume_pend = False\<rparr>"

theorem launched_load_is_followed_witness:
  "\<exists>l' w' a. drive_foreground (player_actuator example_surroundings) DidForeground
        (\<lparr>fl_state = FgSuspended 1 0 ClockPaused, fl_next_id = 1\<rparr>, example_world) = Some ((l', w'), ActivationLaunched)
     \<and> pending_load_attempt l' = Some a \<and> in_flight (rc_phase (pw_control w')) = Some a"
proof -
  have "\<exists>l' w'. drive_foreground (player_actuator example_surroundings) DidForeground
      (\<lparr>fl_state = FgSuspended 1 0 ClockPaused, fl_next_id = 1\<rparr>, example_world) = Some ((l', w'), ActivationLaunched)"
    by (simp add: drive_foreground_def claim_foreground_def player_actuator_def player_prepare_resume_def resume_at_def
        resume_position_def put_route_def finish_prepare_def player_before_load_def player_start_load_def
        start_bufferfeed_tracked_def begin_route_start_def start_bufferfeed_for_def start_bufferfeed_inner_def
        prepare_route_start_def claim_route_start_attempt_def finish_load_launch_def example_surroundings_def
        example_world_def example_faults_def example_control_def player_control_init_def Let_def)
  then obtain l' w' where d: "drive_foreground (player_actuator example_surroundings) DidForeground
      (\<lparr>fl_state = FgSuspended 1 0 ClockPaused, fl_next_id = 1\<rparr>, example_world) = Some ((l', w'), ActivationLaunched)"
    by blast
  from launched_load_is_followed [OF d] show ?thesis using d by blast
qed

text \<open>
  C19. A poll only ever acts on the engine of the load it follows, and only once that load has failed. When
  another load is in flight, its engine and its route are left alone: a later load is followed instead,
  an earlier one ends the resume.
\<close>

theorem poll_spares_other_engines:
  assumes "pending_load_attempt l = Some a" and "poll_foreground_load (player_actuator su) (l, w) = ((l', w'), outcome)"
  shows "((pw_engine w' \<noteq> pw_engine w \<or> pw_control w' \<noteq> pw_control w \<or> pw_session w' \<noteq> pw_session w) \<longrightarrow>
            pw_engine w = Some a \<and> route_start_status a (pw_control w) = StatusFailed \<and> outcome = PollFailed)
       \<and> (\<forall>b. in_flight (rc_phase (pw_control w)) = Some b \<and> b \<noteq> a \<longrightarrow>
            w' = w \<and> (if ra_attempt b > ra_attempt a then pending_load_attempt l' = Some b \<and> outcome = PollPending
                       else fl_state l' = FgIdle \<and> outcome = PollFailed))"
proof -
  obtain i r clock where st: "fl_state l = FgLoadPending i a r clock" using poll_of_pending [OF assms(1)] .
  let ?st = "route_start_status a (pw_control w)"
  note poll = assms(2) [unfolded player_poll [OF st]]
  have "pw_engine w = Some a \<and> ?st = StatusFailed \<and> outcome = PollFailed"
    if changed: "pw_engine w' \<noteq> pw_engine w \<or> pw_control w' \<noteq> pw_control w \<or> pw_session w' \<noteq> pw_session w"
  proof (cases ?st)
    case StatusFailed
    then show ?thesis using poll changed by (cases "pw_engine w = Some a") (auto simp: after_load_spares)
  qed (use poll changed in \<open>auto simp: after_load_spares\<close>)
  moreover have "w' = w \<and> (if ra_attempt b > ra_attempt a then pending_load_attempt l' = Some b \<and> outcome = PollPending
                       else fl_state l' = FgIdle \<and> outcome = PollFailed)"
    if "in_flight (rc_phase (pw_control w)) = Some b" "b \<noteq> a" for b
    using that poll
    by (cases "ra_attempt b > ra_attempt a")
      (auto simp: route_start_status_def pending_load_attempt_def after_load_spares)
  ultimately show ?thesis by blast
qed

theorem poll_spares_other_engines_witness:
  "\<exists>l' w' outcome.
     poll_foreground_load (player_actuator example_surroundings)
       (\<lparr>fl_state = FgLoadPending 1 \<lparr>ra_serial = 1, ra_attempt = 1\<rparr> 0 ClockPaused, fl_next_id = 1\<rparr>,
        example_world\<lparr>pw_control := example_control\<lparr>rc_phase := Starting 2 2\<rparr>\<rparr>) = ((l', w'), outcome)
     \<and> pending_load_attempt l' = Some \<lparr>ra_serial = 2, ra_attempt = 2\<rparr>"
proof -
  let ?l = "\<lparr>fl_state = FgLoadPending 1 \<lparr>ra_serial = 1, ra_attempt = 1\<rparr> 0 ClockPaused, fl_next_id = 1\<rparr>"
  let ?w = "example_world\<lparr>pw_control := example_control\<lparr>rc_phase := Starting 2 2\<rparr>\<rparr>"
  have pending: "pending_load_attempt ?l = Some \<lparr>ra_serial = 1, ra_attempt = 1\<rparr>" by (simp add: pending_load_attempt_def)
  obtain l' w' outcome where p: "poll_foreground_load (player_actuator example_surroundings) (?l, ?w) = ((l', w'), outcome)"
    by (metis surj_pair)
  have "in_flight (rc_phase (pw_control ?w)) = Some \<lparr>ra_serial = 2, ra_attempt = 2\<rparr>" by (simp add: in_flight_def)
  with poll_spares_other_engines [OF pending p] p show ?thesis by fastforce
qed

end
