(* ===== verification/Spec2Isabelle.thy ===== *)
theory Spec2Isabelle
  imports Controller_Correct Tracker Original_Correct State_Properties Redirect_Correct Start_Correct
    Foreground_Protocol Foreground_Correct
begin

text \<open>
  Butaca is a native Jellyfin client for webOS televisions, written in Rust
  (\<open>src/rust-modules/src\<close>). This library models the parts of it that decide: which quality of a
  stream is played and when it changes (\<open>abr/\<close>), which text of a server is accepted as a playlist and
  what a playlist may refer to (\<open>hls.rs\<close>), where a request may go and what it may carry
  (\<open>origin.rs\<close>, \<open>grant.rs\<close>, \<open>http.rs\<close>, \<open>stream_redirect.rs\<close>), who owns the route of a playback and how it is
  handed over, started, reloaded and recovered (\<open>route/\<close>, \<open>player/\<close>), how a Dolby Vision stream is presented
  (\<open>metadata.rs\<close>), and the canonical state of the credential store (\<open>storage/state.rs\<close>) with its hash
  (\<open>sha256.rs\<close>).

  \<^bold>\<open>How the parts interact.\<close> The HLS engine fetches a media playlist, parses it, and gives it to the
  tracker, which delivers every segment exactly once. Each acquired segment is a sample: the estimators
  learn the link and the reserve from it, the acquisition window remembers its cost, and the rung
  controller decides between staying, leaving the rung and trying a better one. A proposal of the
  controller is fetched as a candidate and then committed or rejected. In Auto, a second machine asks
  whether playing the original file would be better than HLS, funds a bounded experiment against the
  source, and decides on its result; while the original plays, a third one observes its delivery and
  leaves it for HLS. Every request is resolved against the origin the playlist came from and carries
  the one credential that was captured from the playlist's own request; redirects are followed hop by
  hop, and a credential crosses in plaintext only under an authority that is asked at each crossing.

  The workers run on threads of their own and act on the route through tickets. The route owner hands out
  the tickets, takes the intents of the viewer and of the workers, and lets the main thread claim one
  action at a time; a claim rebuilds the route with the server, and the pump then settles the claim and
  reloads the engine. A handover to the original is a trial: the encoder of the HLS route is held until
  the first frame of the original, and the trial is rolled back to it when the original fails. When the app is
  left, the engine is torn down and the playback kept; coming back prepares the route again, launches a
  load, and follows that exact load until it has started or failed.

  \<^bold>\<open>Theories and sources.\<close>

    \<^item> \<open>Prelude\<close>: fixed-width arithmetic (\<open>sat_add\<close>, \<open>sat_mul\<close>, \<open>checked_nat\<close>, \<open>sat_i64\<close>,
      \<open>checked_i64\<close>, \<open>wrap_i64\<close>), the result type \<open>outcome\<close> with its panic, option helpers, and the locale
      \<open>state_machine\<close>.
    \<^item> \<open>Ladder\<close>, \<open>Catalog\<close>: \<open>abr/ladder.rs\<close>, the ceiling of \<open>playback.rs\<close>.
    \<^item> \<open>Units\<close>: \<open>abr/units.rs\<close> and the types and constants of \<open>abr/mod.rs\<close>.
    \<^item> \<open>Estimate\<close>: \<open>abr/estimate.rs\<close>. \<open>Plant\<close>: \<open>abr/plant.rs\<close> and the queue limits of \<open>player/engine.rs\<close>.
    \<^item> \<open>Window\<close>: \<open>abr/window.rs\<close>. \<open>Viability\<close>: \<open>abr/viability.rs\<close>. \<open>Mode\<close>: \<open>abr/mode.rs\<close>.
    \<^item> \<open>Controller\<close>, \<open>Controller_Correct\<close>: \<open>abr/controller.rs\<close> and its properties.
    \<^item> \<open>Original\<close>, \<open>Original_Correct\<close>: \<open>abr/original.rs\<close>, \<open>abr/bootstrap.rs\<close> and their properties.
    \<^item> \<open>Strings\<close>, \<open>Origin\<close>: the operations of Rust's \<open>str\<close> the code uses, and \<open>origin.rs\<close>.
    \<^item> \<open>Hls\<close>, \<open>Hls_Correct\<close>, \<open>Playlist\<close>, \<open>Playlist_Correct\<close>, \<open>Tracker\<close>: \<open>hls.rs\<close>: resources, credentials and
      segment clocks, then the playlist parsers, then the refresh tracker.
    \<^item> \<open>Grant\<close>, \<open>Transport\<close>, \<open>Transport_Correct\<close>: the grant table of \<open>grant.rs\<close>, the credential gates of
      \<open>http.rs\<close> with the anchors of \<open>jellyfin/mod.rs\<close>, and when a credential crosses in plaintext.
    \<^item> \<open>Redirect\<close>, \<open>Redirect_Correct\<close>: \<open>stream_redirect.rs\<close>, the following of redirects on the media path.
    \<^item> \<open>Sha256\<close>, \<open>Sha256_Correct\<close>: \<open>sha256.rs\<close> with HMAC and PBKDF2, and the second hash of \<open>storage/state.rs\<close>.
    \<^item> \<open>State\<close>, \<open>State_Correct\<close>, \<open>State_Properties\<close>: the transitions, the ledger, the validation and the
      digests of \<open>storage/state.rs\<close>.
    \<^item> \<open>Dovi\<close>: the Dolby Vision decision of \<open>metadata.rs\<close> and the declaration \<open>player/engine.rs\<close> writes.
    \<^item> \<open>Route\<close>, \<open>Route_Steps\<close>, \<open>Route_Correct\<close>, \<open>Route_Runs\<close>: the owner behind \<open>PLAYER_CONTROL\<close> in
      \<open>route/decision.rs\<close>, one definition per function that locks it; the same functions as the steps of
      one machine; its invariant, attempts and generations; and what holds along whole runs.
    \<^item> \<open>Handoff\<close>, \<open>Handoff_Correct\<close>: the handoffs of \<open>route/decision.rs\<close> that talk to the server, the audio
      enhancements with \<open>route/plan.rs\<close>, and the trial of the original.
    \<^item> \<open>Start\<close>, \<open>Start_Correct\<close>: starting, reloading and stopping in \<open>player/engine.rs\<close>, the recovery and the
      claims of \<open>player/pump.rs\<close>, on the owner and the session.
    \<^item> \<open>Foreground\<close>: \<open>app/lifecycle.rs\<close>, leaving the app and coming back: the machine that keeps a suspended
      playback, the loop that drives it, and the actuator of the player on the route and the engine slot.
      \<open>Foreground_Protocol\<close>: the calls any run of it makes on any actuator. \<open>Foreground_Correct\<close>: what the
      actuator of the player adds.

  \<^bold>\<open>Conventions.\<close> Structs are records and enums datatypes under the source's names; a method that
  takes \<open>&mut self\<close> returns the updated record. The unsigned types are \<open>nat\<close>, the signed ones \<open>int\<close>;
  every addition that the code writes with \<open>saturating_\<close>, \<open>checked_\<close> or plain operators is the operation
  of the prelude that does the same at the width of the type, and \<open>usize\<close> is 32 bits wide, as on the
  television. The hash, the store and the counters of the route use machine words. Strings are lists of
  bytes. A \<open>Result\<close> is an \<open>outcome\<close> or a sum with the error as a value, and an \<open>expect\<close> or a slice that would
  be out of bounds is a constructor or \<open>None\<close> of its own, so that the absence of panics is a theorem. Loops
  over lines, components and samples are structural recursions; the padding loop of the hash is a
  \<open>while_option\<close>, proved to end for every input, and the following of redirects counts its hops.
  No fuel is added to any function, and every function of the model is total.

  \<^bold>\<open>Parameters.\<close> What is not under \<open>src/\<close> or cannot be decided there is an argument: the serialiser and the
  generated identities of the store (\<open>state_env\<close>), the answer of the network to a request, the answer of the
  server to a playback query (\<open>media_client\<close>), the preferences of the viewer and the panel (\<open>viewer\<close>), where
  the construction of an engine fails (\<open>native_faults\<close>), whether the native clock takes a Play, and the effects a settled start runs with the lock
  released. The theorems hold for all of them.

  \<^bold>\<open>What the lemmas show.\<close> Each component theory proves the facts its clients need; the numbered claims
  are the properties of the program. Invariants of the machines (a rung controller's session, the
  recovery of the original with its experiments, the tracker, the store, the route owner) are stated over all their reachable
  states, through the induction of the locale \<open>state_machine\<close> of the prelude, which the theories
  interpret. Equivalences compare the code's constant-size or one-pass computation with the definition it
  stands for. The theorems on the route are of three kinds: safety along runs (a late load, a stale ticket
  and a superseded transaction do nothing), liveness (from every reachable state a short sequence of
  completing steps leads home, and the pump never leaves a claim half done), and the exactness of a
  handover (a seek is all or nothing, a failed trial gives everything back, a refused claim changes
  nothing). Leaving and coming back is stated over the log of the calls a run makes, with an arbitrary
  actuator and arbitrary changes of its world between the events: what is resumed is what was left, and
  nothing plays before its load has started.

  Where the code's own test could hide a mistake the theorem says what it should mean: which text shows a
  credential and which networks are local, as listed prefixes; where a redirect points and what the origin
  of a request is; and, along every run, what the last experiment measured and whether an accepted playlist
  ended. Two gates of the rate control compare a stored recent estimate with a later conservative one, which
  may exceed it at once; their theorems state that comparison and promise no new evidence.

  \<^bold>\<open>Bounds.\<close> The generations of the route skip zero and wrap, so a stale ticket is dead in a life of the
  process of fewer than \<open>2^64 - 1\<close> operations, a superseded transaction is inert for the next \<open>2^64 - 2\<close>, and
  neither is promised beyond. The attempt counter is checked: the theorems that promise a
  start ask for an attempt to be left, two for the pump, which may start a trial and its rollback. The way
  home of a route takes at most five steps.

  \<^bold>\<open>Not modelled.\<close> Drawing, focus and animation, the FFmpeg and GL bindings, threads, sockets and TLS,
  the JSON objects of the Jellyfin protocol and how an item is resolved into its first route, the key
  manager, the database and the service around the store, the frames, clocks, buffers and previews of the
  pump, log formatting and \<open>Debug\<close> output. They are drivers of foreign interfaces or glue around the
  decisions above; the clock, the network and the server only appear as the arguments the modelled
  functions receive.
\<close>

end
